(* ===== verification/Prelude.thy ===== *)
theory Prelude
  imports Main "HOL-Library.State_Monad" "HOL-Library.Product_Lexorder"
begin

text \<open>
  The shared vocabulary of the development.

  \<^item> Names for the program's basic types: identifiers and texts are strings, an instant
    (\<open>Timestamp\<close>, \<open>Date\<close>) is its epoch milliseconds.
  \<^item> The stateful parts of the program are written in the state monad of the library.
    \<open>gets\<close>, \<open>modify\<close>, \<open>skip\<close>, \<open>unless\<close> and \<open>for_each\<close> are its few verbs.
  \<^item> \<open>triple P m Q\<close> is a Hoare triple for such a computation; the collection
    \<open>triple_intros\<close> holds the structural rules and each component adds the triples of its
    own primitives, so that a triple of a handler follows from its text.
  \<^item> \<open>update_first\<close> is the in-place update of the first matching element of a JavaScript
    array, \<open>decimal\<close> the number formatting of a template string, and \<open>trim\<close>, \<open>split_on\<close> and
    \<open>digits_value\<close> the few operations on text the sources use.
\<close>

type_synonym ident = string
type_synonym instant = int

named_theorems triple_intros "structural rules and triples of the primitives"

subsection \<open>Formatting numbers\<close>

fun decimal_nat :: "nat \<Rightarrow> string" where
  "decimal_nat n = (if n < 10 then [char_of (48 + n)]
     else decimal_nat (n div 10) @ [char_of (48 + n mod 10)])"

declare decimal_nat.simps [simp del]

definition decimal :: "int \<Rightarrow> string" where
  "decimal i = (if i < 0 then ''-'' @ decimal_nat (nat (- i)) else decimal_nat (nat i))"

definition digit_char :: "char \<Rightarrow> bool" where
  "digit_char c \<longleftrightarrow> 48 \<le> (of_char c :: nat) \<and> (of_char c :: nat) \<le> 57"

lemma decimal_nat_nonempty [simp]: "decimal_nat n \<noteq> []"
  by (subst decimal_nat.simps) simp

lemma digit_char_of: "d < 10 \<Longrightarrow> digit_char (char_of (48 + d :: nat))"
  by (simp add: digit_char_def)

lemma decimal_nat_digits: "list_all digit_char (decimal_nat n)"
proof (induction n rule: decimal_nat.induct)
  case (1 n)
  then show ?case
    by (cases "n < 10") (simp_all add: decimal_nat.simps [of n] digit_char_of)
qed

subsection \<open>Text\<close>

text \<open>\<open>String.prototype.trim\<close> and \<open>String.prototype.split\<close> by one character, and \<open>Number\<close> of a text of
  digits. Texts are read as lists of bytes.\<close>

definition white_space :: "char \<Rightarrow> bool" where
  "white_space c \<longleftrightarrow> (of_char c :: nat) \<in> {9, 10, 11, 12, 13, 32, 160}"

definition trim :: "string \<Rightarrow> string" where
  "trim s = rev (dropWhile white_space (rev (dropWhile white_space s)))"

fun split_on :: "char \<Rightarrow> string \<Rightarrow> string list" where
  "split_on c [] = [[]]"
| "split_on c (x # xs) = (if x = c then [] # split_on c xs
     else (x # hd (split_on c xs)) # tl (split_on c xs))"

definition digits_value :: "string \<Rightarrow> nat" where
  "digits_value s = foldl (\<lambda>n c. 10 * n + (of_char c - 48)) 0 s"

lemma digits_value_snoc: "digits_value (s @ [c]) = 10 * digits_value s + (of_char c - 48)"
  by (simp add: digits_value_def)

lemma digits_value_decimal [simp]: "digits_value (decimal_nat n) = n"
proof (induction n rule: decimal_nat.induct)
  case (1 n)
  show ?case
  proof (cases "n < 10")
    case True
    then show ?thesis by (simp add: decimal_nat.simps [of n] digits_value_def)
  next
    case False
    then have "digits_value (decimal_nat (n div 10)) = n div 10" by (rule 1)
    with False show ?thesis by (simp add: decimal_nat.simps [of n] digits_value_snoc)
  qed
qed

lemma split_on_absent: "c \<notin> set s \<Longrightarrow> split_on c s = [s]"
  by (induction s) auto

lemma split_on_append: "c \<notin> set s \<Longrightarrow> split_on c (s @ c # rest) = s # split_on c rest"
  by (induction s) auto

lemma trim_solid: "s = [] \<or> \<not> white_space (hd s) \<and> \<not> white_space (last s) \<Longrightarrow> trim s = s"
proof (cases s)
  case (Cons x xs)
  assume *: "s = [] \<or> \<not> white_space (hd s) \<and> \<not> white_space (last s)"
  with Cons have "dropWhile white_space s = s" by simp
  moreover have "dropWhile white_space (rev s) = rev s"
    using * Cons by (cases "rev s") (auto simp: hd_rev [symmetric])
  ultimately show ?thesis by (simp add: trim_def)
qed (simp add: trim_def)

subsection \<open>Arrays\<close>

text \<open>A \<open>Map\<close>, or an object used as one: the keys in the order they were first set.\<close>

fun map_set :: "'k \<Rightarrow> 'v \<Rightarrow> ('k \<times> 'v) list \<Rightarrow> ('k \<times> 'v) list" where
  "map_set k v [] = [(k, v)]"
| "map_set k v (p # ps) = (if fst p = k then (k, v) # ps else p # map_set k v ps)"

definition map_delete :: "'k \<Rightarrow> ('k \<times> 'v) list \<Rightarrow> ('k \<times> 'v) list" where
  "map_delete k ps = filter (\<lambda>p. fst p \<noteq> k) ps"

lemma map_of_map_set [simp]: "map_of (map_set k v xs) = (map_of xs)(k \<mapsto> v)"
  by (induction xs) (auto simp: fun_eq_iff)

lemma set_map_set: "set (map_set k v xs) \<subseteq> insert (k, v) (set xs)"
  by (induction xs) auto

lemma map_of_map_delete [simp]: "map_of (map_delete k xs) = (map_of xs)(k := None)"
  by (induction xs) (auto simp: map_delete_def fun_eq_iff)

fun update_first :: "('a \<Rightarrow> bool) \<Rightarrow> ('a \<Rightarrow> 'a) \<Rightarrow> 'a list \<Rightarrow> 'a list" where
  "update_first P f [] = []"
| "update_first P f (x # xs) = (if P x then f x # xs else x # update_first P f xs)"

lemma length_update_first [simp]: "length (update_first P f xs) = length xs"
  by (induction xs) auto

lemma map_update_first:
  "(\<And>x. g (f x) = g x) \<Longrightarrow> map g (update_first P f xs) = map g xs"
  by (induction xs) auto

lemma find_update_first:
  "(\<And>x. P (f x) = P x) \<Longrightarrow> find P (update_first P f xs) = map_option f (find P xs)"
  by (induction xs) auto

lemma find_update_first_other:
  "(\<And>x. P x \<Longrightarrow> \<not> Q x \<and> \<not> Q (f x)) \<Longrightarrow> find Q (update_first P f xs) = find Q xs"
  by (induction xs) auto

lemma filter_update_first_other:
  "(\<And>x. P x \<Longrightarrow> \<not> Q x \<and> \<not> Q (f x)) \<Longrightarrow> filter Q (update_first P f xs) = filter Q xs"
  by (induction xs) auto

lemma update_first_absent: "find P xs = None \<Longrightarrow> update_first P f xs = xs"
  by (induction xs) (auto split: if_splits)

lemma set_update_first: "set (update_first P f xs) \<subseteq> set xs \<union> f ` {x \<in> set xs. P x}"
  by (induction xs) auto

lemma find_append: "find P (xs @ ys) = (case find P xs of None \<Rightarrow> find P ys | Some x \<Rightarrow> Some x)"
  by (induction xs) auto

lemma find_SomeD: "find P xs = Some x \<Longrightarrow> P x \<and> x \<in> set xs"
  by (induction xs) (auto split: if_splits)

lemma find_NoneD: "find P xs = None \<Longrightarrow> x \<in> set xs \<Longrightarrow> \<not> P x"
  by (auto simp: find_None_iff)

lemma find_unique:
  "distinct (map k xs) \<Longrightarrow> x \<in> set xs \<Longrightarrow> find (\<lambda>y. k y = k x) xs = Some x"
  by (induction xs) (auto simp: rev_image_eqI)

subsection \<open>The state monad\<close>

definition gets :: "('s \<Rightarrow> 'a) \<Rightarrow> ('s, 'a) state" where
  "gets f = State (\<lambda>s. (f s, s))"

definition modify :: "('s \<Rightarrow> 's) \<Rightarrow> ('s, unit) state" where
  "modify f = State (\<lambda>s. ((), f s))"

definition skip :: "('s, unit) state" where
  "skip = State_Monad.return ()"

declare skip_def [code_unfold]

definition unless :: "bool \<Rightarrow> ('s, unit) state \<Rightarrow> ('s, unit) state" where
  "unless b m = (if b then skip else m)"

definition only_if :: "bool \<Rightarrow> ('s, unit) state \<Rightarrow> ('s, unit) state" where
  "only_if b m = (if b then m else skip)"

fun for_each :: "('a \<Rightarrow> ('s, unit) state) \<Rightarrow> 'a list \<Rightarrow> ('s, unit) state" where
  "for_each f [] = skip"
| "for_each f (x # xs) = do { f x; for_each f xs }"

lemma run_gets [simp]: "run_state (gets f) s = (f s, s)"
  by (simp add: gets_def)

lemma run_modify [simp]: "run_state (modify f) s = ((), f s)"
  by (simp add: modify_def)

lemma run_skip [simp]: "run_state skip s = ((), s)"
  by (simp add: skip_def)

lemma run_unless [simp]: "run_state (unless b m) s = (if b then ((), s) else run_state m s)"
  by (simp add: unless_def)

lemma run_only_if [simp]: "run_state (only_if b m) s = (if b then run_state m s else ((), s))"
  by (simp add: only_if_def)

abbreviation result :: "('s, 'a) state \<Rightarrow> 's \<Rightarrow> 'a" where
  "result m s \<equiv> fst (run_state m s)"

abbreviation after :: "('s, 'a) state \<Rightarrow> 's \<Rightarrow> 's" where
  "after m s \<equiv> snd (run_state m s)"

lemma after_bind: "after (m \<bind> f) s = after (f (result m s)) (after m s)"
  by (simp add: case_prod_beta)

lemma result_bind: "result (m \<bind> f) s = result (f (result m s)) (after m s)"
  by (simp add: case_prod_beta)

lemma after_if: "after (if b then m else n) s = (if b then after m s else after n s)"
  by simp

lemmas run_simps = after_bind result_bind

subsection \<open>Hoare triples\<close>

definition triple :: "('s \<Rightarrow> bool) \<Rightarrow> ('s, 'a) state \<Rightarrow> ('a \<Rightarrow> 's \<Rightarrow> bool) \<Rightarrow> bool" where
  "triple P m Q \<longleftrightarrow> (\<forall>s. P s \<longrightarrow> Q (result m s) (after m s))"

abbreviation keeps :: "('s \<Rightarrow> bool) \<Rightarrow> ('s, 'a) state \<Rightarrow> bool" where
  "keeps P m \<equiv> triple P m (\<lambda>_. P)"

lemma tripleI: "(\<And>s. P s \<Longrightarrow> Q (result m s) (after m s)) \<Longrightarrow> triple P m Q"
  by (simp add: triple_def)

lemma tripleD: "triple P m Q \<Longrightarrow> P s \<Longrightarrow> Q (result m s) (after m s)"
  by (simp add: triple_def)

lemma triple_bind:
  "triple P m R \<Longrightarrow> (\<And>x. triple (R x) (f x) Q) \<Longrightarrow> triple P (m \<bind> f) Q"
  by (simp add: triple_def case_prod_beta)

lemma triple_return: "(\<And>s. P s \<Longrightarrow> Q x s) \<Longrightarrow> triple P (State_Monad.return x) Q"
  by (simp add: triple_def)

lemma triple_skip: "(\<And>s. P s \<Longrightarrow> Q () s) \<Longrightarrow> triple P skip Q"
  by (simp add: triple_def)

lemma triple_gets: "(\<And>s. P s \<Longrightarrow> Q (f s) s) \<Longrightarrow> triple P (gets f) Q"
  by (simp add: triple_def)

lemma triple_modify: "(\<And>s. P s \<Longrightarrow> Q () (f s)) \<Longrightarrow> triple P (modify f) Q"
  by (simp add: triple_def)

lemma triple_conseq:
  "triple P' m Q' \<Longrightarrow> (\<And>s. P s \<Longrightarrow> P' s) \<Longrightarrow> (\<And>x s. Q' x s \<Longrightarrow> Q x s) \<Longrightarrow> triple P m Q"
  by (auto simp: triple_def)

lemma triple_pre: "triple P' m Q \<Longrightarrow> (\<And>s. P s \<Longrightarrow> P' s) \<Longrightarrow> triple P m Q"
  by (auto simp: triple_def)

lemma triple_post: "triple P m Q' \<Longrightarrow> (\<And>x s. Q' x s \<Longrightarrow> Q x s) \<Longrightarrow> triple P m Q"
  by (auto simp: triple_def)

text \<open>Reading the state and going on: the value read is known in what follows.\<close>

lemma triple_read:
  "(\<And>x. triple (\<lambda>s. P s \<and> f s = x) (g x) Q) \<Longrightarrow> triple P (gets f \<bind> g) Q"
  by (simp add: triple_def case_prod_beta)

lemma triple_if: "(b \<Longrightarrow> triple P m Q) \<Longrightarrow> (\<not> b \<Longrightarrow> triple P n Q) \<Longrightarrow>
  triple P (if b then m else n) Q"
  by simp

lemma triple_let: "triple P (f x) Q \<Longrightarrow> triple P (let y = x in f y) Q"
  by simp

lemma triple_option:
  "(x = None \<Longrightarrow> triple P m Q) \<Longrightarrow> (\<And>y. x = Some y \<Longrightarrow> triple P (f y) Q) \<Longrightarrow>
   triple P (case x of None \<Rightarrow> m | Some y \<Rightarrow> f y) Q"
  by (cases x) auto

lemma triple_sum:
  "(\<And>y. x = Inl y \<Longrightarrow> triple P (f y) Q) \<Longrightarrow> (\<And>y. x = Inr y \<Longrightarrow> triple P (g y) Q) \<Longrightarrow>
   triple P (case x of Inl y \<Rightarrow> f y | Inr y \<Rightarrow> g y) Q"
  by (cases x) auto

lemma triple_prod:
  "(\<And>a b. x = (a, b) \<Longrightarrow> triple P (f a b) Q) \<Longrightarrow> triple P (case x of (a, b) \<Rightarrow> f a b) Q"
  by (cases x) auto

text \<open>A predicate that one step keeps is kept along a sequence of them.\<close>

lemma keeps_bind: "keeps P m \<Longrightarrow> (\<And>x. triple P (f x) Q) \<Longrightarrow> triple P (m \<bind> f) Q"
  by (rule triple_bind)

lemma keeps_return: "keeps P (State_Monad.return x)"
  by (simp add: triple_def)

lemma keeps_skip: "keeps P skip"
  by (simp add: triple_def)

lemma keeps_gets: "keeps P (gets f)"
  by (simp add: triple_def)

lemma keeps_unless: "(\<not> b \<Longrightarrow> keeps P m) \<Longrightarrow> keeps P (unless b m)"
  by (simp add: triple_def)

lemma keeps_only_if: "(b \<Longrightarrow> keeps P m) \<Longrightarrow> keeps P (only_if b m)"
  by (simp add: triple_def)

lemma keeps_for_each: "(\<And>x. keeps P (f x)) \<Longrightarrow> keeps P (for_each f xs)"
  by (induction xs) (auto intro: keeps_skip keeps_bind)

lemmas [triple_intros] =
  keeps_bind keeps_return keeps_skip keeps_gets keeps_unless keeps_only_if keeps_for_each
  triple_if triple_let triple_option triple_sum triple_prod

end
