(* ===== verification/Scenario.thy ===== *)
theory Scenario
  imports Prelude
begin

text \<open>
  The scenario catalog of the simulator (\<open>packages/sim/src/scenario.ts\<close>): the named stories
  with their knobs, the classification of every knob by who can execute it on a real server,
  the script a server is handed, and the refusal of a story a real server cannot play. An
  optional field of the source is an \<open>option\<close>; the fixed \<open>winner\<close> is read by the story
  builder only and is left out.
\<close>

datatype tower_ending = Castle | Clinch | Convoy

record scenario =
  sc_name :: string
  sc_neverReady :: "bool option"
  sc_absentPlayers :: "nat option"
  sc_crashAfterRound :: "nat option"
  sc_pauses :: "nat option"
  sc_idle :: "bool option"
  sc_overtimes :: "nat option"
  sc_comeback :: "bool option"
  sc_towerEnding :: "tower_ending option"

definition plain_scenario :: "string \<Rightarrow> scenario" where
  "plain_scenario n = \<lparr>sc_name = n, sc_neverReady = None, sc_absentPlayers = None,
     sc_crashAfterRound = None, sc_pauses = None, sc_idle = None, sc_overtimes = None,
     sc_comeback = None, sc_towerEnding = None\<rparr>"

definition SIMULATOR_SCENARIOS :: "(string \<times> scenario) list" where
  "SIMULATOR_SCENARIOS =
    [(''happy-path'', plain_scenario ''happy-path''),
     (''overtime'', (plain_scenario ''overtime'')\<lparr>sc_overtimes := Some 1\<rparr>),
     (''pauses'', (plain_scenario ''pauses'')\<lparr>sc_pauses := Some 2\<rparr>),
     (''comeback'', (plain_scenario ''comeback'')\<lparr>sc_comeback := Some True\<rparr>),
     (''no-show'', (plain_scenario ''no-show'')\<lparr>sc_absentPlayers := Some 2\<rparr>),
     (''idle'', (plain_scenario ''idle'')\<lparr>sc_idle := Some True\<rparr>),
     (''server-crash'', (plain_scenario ''server-crash'')\<lparr>sc_crashAfterRound := Some 9\<rparr>),
     (''never-ready'', (plain_scenario ''never-ready'')\<lparr>sc_neverReady := Some True\<rparr>),
     (''rush-castle'', (plain_scenario ''rush-castle'')\<lparr>sc_towerEnding := Some Castle\<rparr>),
     (''rush-clinch'', (plain_scenario ''rush-clinch'')\<lparr>sc_towerEnding := Some Clinch\<rparr>),
     (''rush-convoy'', (plain_scenario ''rush-convoy'')\<lparr>sc_towerEnding := Some Convoy\<rparr>)]"

definition findScenario :: "string \<Rightarrow> scenario option" where
  "findScenario name = map_of SIMULATOR_SCENARIOS name"

datatype knob = AbsentPlayers | Idle | NeverReady | CrashAfterRound | Pauses | Overtimes
  | Comeback | TowerEnding

fun knob_name :: "knob \<Rightarrow> string" where
  "knob_name AbsentPlayers = ''absentPlayers''"
| "knob_name Idle = ''idle''"
| "knob_name NeverReady = ''neverReady''"
| "knob_name CrashAfterRound = ''crashAfterRound''"
| "knob_name Pauses = ''pauses''"
| "knob_name Overtimes = ''overtimes''"
| "knob_name Comeback = ''comeback''"
| "knob_name TowerEnding = ''towerEnding''"

text \<open>Each knob with who executes it on a real server: \<open>True\<close> is the SDK's puppeteer
  (\<open>'sdk'\<close>), \<open>False\<close> is nobody (\<open>null\<close>). The sentences of the \<open>reason\<close> column are
  documentation and stay in the source.\<close>

definition SCENARIO_KNOB_REACH :: "(knob \<times> bool) list" where
  "SCENARIO_KNOB_REACH =
    [(AbsentPlayers, True), (Idle, True), (NeverReady, False), (CrashAfterRound, False),
     (Pauses, False), (Overtimes, False), (Comeback, False), (TowerEnding, False)]"

definition SDK_SEATED_FLOWS :: "string list" where
  "SDK_SEATED_FLOWS = [''plugin'', ''none'']"

text \<open>A knob is asked for when its string is given, its number is positive or its flag set.\<close>

fun knob_asked :: "scenario \<Rightarrow> knob \<Rightarrow> bool" where
  "knob_asked s AbsentPlayers = (case sc_absentPlayers s of Some n \<Rightarrow> n > 0 | None \<Rightarrow> False)"
| "knob_asked s Idle = (sc_idle s = Some True)"
| "knob_asked s NeverReady = (sc_neverReady s = Some True)"
| "knob_asked s CrashAfterRound = (case sc_crashAfterRound s of Some n \<Rightarrow> n > 0 | None \<Rightarrow> False)"
| "knob_asked s Pauses = (case sc_pauses s of Some n \<Rightarrow> n > 0 | None \<Rightarrow> False)"
| "knob_asked s Overtimes = (case sc_overtimes s of Some n \<Rightarrow> n > 0 | None \<Rightarrow> False)"
| "knob_asked s Comeback = (sc_comeback s = Some True)"
| "knob_asked s TowerEnding = (sc_towerEnding s \<noteq> None)"

record puppet_script =
  ps_scenario :: string
  ps_absentPlayers :: nat
  ps_idle :: bool

definition puppetScriptFor :: "scenario \<Rightarrow> puppet_script option" where
  "puppetScriptFor s =
    (let absentPlayers = (case sc_absentPlayers s of Some n \<Rightarrow> n | None \<Rightarrow> 0);
         idle = (case sc_idle s of Some b \<Rightarrow> b | None \<Rightarrow> False)
     in if absentPlayers = 0 \<and> \<not> idle then None
        else Some \<lparr>ps_scenario = sc_name s, ps_absentPlayers = absentPlayers, ps_idle = idle\<rparr>)"

text \<open>Why a real server cannot play a scenario: the knob nobody can turn, or the knob only the
  SDK turns under a flow the SDK does not seat.\<close>

datatype puppet_problem = Impossible_knob string knob | Sdk_only_knob string knob string

definition scenarioPuppetProblem :: "scenario \<Rightarrow> string \<Rightarrow> puppet_problem option" where
  "scenarioPuppetProblem s flow =
    (let asked = filter (\<lambda>(k, _). knob_asked s k) SCENARIO_KNOB_REACH
     in case find (\<lambda>(_, sdk). \<not> sdk) asked of
          Some (k, _) \<Rightarrow> Some (Impossible_knob (sc_name s) k)
        | None \<Rightarrow>
            (case find (\<lambda>(_, sdk). sdk) asked of
               Some (k, _) \<Rightarrow>
                 if flow \<in> set SDK_SEATED_FLOWS then None
                 else Some (Sdk_only_knob (sc_name s) k flow)
             | None \<Rightarrow> None))"

text \<open>No knob is left out of the classification, and an accepted scenario asks only for what
  the SDK seats.\<close>

lemma every_knob_classified: "k \<in> fst ` set SCENARIO_KNOB_REACH"
  by (cases k) (simp_all add: SCENARIO_KNOB_REACH_def)

lemma scenario_accepted_iff:
  "scenarioPuppetProblem s flow = None \<longleftrightarrow>
   (\<forall>(k, sdk) \<in> set SCENARIO_KNOB_REACH. knob_asked s k \<longrightarrow> sdk \<and> flow \<in> set SDK_SEATED_FLOWS)"
proof -
  let ?asked = "filter (\<lambda>(k, _). knob_asked s k) SCENARIO_KNOB_REACH"
  show ?thesis
  proof (cases "find (\<lambda>(_, sdk). \<not> sdk) ?asked")
    case (Some p)
    then have "p \<in> set ?asked" "\<not> snd p"
      using find_SomeD [OF Some] by auto
    moreover have "scenarioPuppetProblem s flow \<noteq> None"
      using Some by (simp add: scenarioPuppetProblem_def Let_def split: prod.split)
    ultimately show ?thesis by auto
  next
    case none: None
    have none': "\<And>k sdk. (k, sdk) \<in> set ?asked \<Longrightarrow> sdk"
      using find_NoneD [OF none] by fastforce
    show ?thesis
    proof (cases "find (\<lambda>(_, sdk). sdk) ?asked")
      case (Some p)
      then have "p \<in> set ?asked" "snd p"
        using find_SomeD [OF Some] by auto
      with none none' Some show ?thesis
        by (auto simp: scenarioPuppetProblem_def Let_def split: prod.splits if_splits)
    next
      case None
      then have "?asked = []"
        using none' find_NoneD [OF None] by (cases ?asked) fastforce+
      then have "\<And>p. p \<in> set SCENARIO_KNOB_REACH \<Longrightarrow> \<not> knob_asked s (fst p)"
        by (auto simp: filter_empty_conv)
      with none None show ?thesis
        by (auto simp: scenarioPuppetProblem_def Let_def)
    qed
  qed
qed

lemma catalog_named: "findScenario n = Some s \<Longrightarrow> sc_name s = n"
  by (auto simp: findScenario_def SIMULATOR_SCENARIOS_def plain_scenario_def split: if_splits)

end
