(* ===== verification/Match_Api.thy ===== *)
theory Match_Api
  imports Scenario
begin

text \<open>
  The published contract, \<open>packages/match-api/src\<close>: match states and end reasons
  (\<open>resources/match.ts\<close>), the match request with the rules a gamemode judges it by
  (\<open>resources/match-request.ts\<close>, \<open>resources/gamemode.ts\<close>), the engine's formats
  (\<open>vocabulary/format.ts\<close>), commands (\<open>resources/commands.ts\<close>), scopes (\<open>scopes.ts\<close>), error
  codes (\<open>errors.ts\<close>) and the facts of the durable log (\<open>webhooks/envelope.ts\<close>,
  \<open>vocabulary/gameserver.ts\<close>). A record holds the fields the modelled code reads or writes;
  fields that only travel through it are left out.
\<close>

subsection \<open>Errors and scopes\<close>

datatype api_error_code = Unauthorized | Forbidden | Not_found | Validation_failed | Conflict
  | Invalid_state | Command_unsupported | No_backup | Player_not_in_match | Unknown_gamemode
  | Game_unsupported | Map_not_allowed | No_capable_server | Budget_exceeded | Rate_limited
  | Provider_unavailable | Internal

fun MATCH_API_ERROR_STATUS :: "api_error_code \<Rightarrow> nat" where
  "MATCH_API_ERROR_STATUS Unauthorized = 401"
| "MATCH_API_ERROR_STATUS Forbidden = 403"
| "MATCH_API_ERROR_STATUS Not_found = 404"
| "MATCH_API_ERROR_STATUS Validation_failed = 400"
| "MATCH_API_ERROR_STATUS Conflict = 409"
| "MATCH_API_ERROR_STATUS Invalid_state = 409"
| "MATCH_API_ERROR_STATUS Command_unsupported = 400"
| "MATCH_API_ERROR_STATUS No_backup = 409"
| "MATCH_API_ERROR_STATUS Player_not_in_match = 422"
| "MATCH_API_ERROR_STATUS Unknown_gamemode = 422"
| "MATCH_API_ERROR_STATUS Game_unsupported = 422"
| "MATCH_API_ERROR_STATUS Map_not_allowed = 422"
| "MATCH_API_ERROR_STATUS No_capable_server = 503"
| "MATCH_API_ERROR_STATUS Budget_exceeded = 402"
| "MATCH_API_ERROR_STATUS Rate_limited = 429"
| "MATCH_API_ERROR_STATUS Provider_unavailable = 503"
| "MATCH_API_ERROR_STATUS Internal = 500"

text \<open>An \<open>ApiError\<close>: its code and, where the source names one in \<open>details.field\<close>, the
  offending field of the body. The human-readable message is left out.\<close>

record api_error =
  ae_code :: api_error_code
  ae_field :: "string option"

definition refuse :: "api_error_code \<Rightarrow> api_error" where
  "refuse c = \<lparr>ae_code = c, ae_field = None\<rparr>"

definition refuse_field :: "api_error_code \<Rightarrow> string \<Rightarrow> api_error" where
  "refuse_field c f = \<lparr>ae_code = c, ae_field = Some f\<rparr>"

datatype api_scope = Scope_matches | Scope_fleet | Scope_admin | Scope_simulation

definition scopeAllows :: "api_scope list \<Rightarrow> api_scope \<Rightarrow> bool" where
  "scopeAllows held required \<longleftrightarrow> Scope_admin \<in> set held \<or> required \<in> set held"

subsection \<open>Match states\<close>

datatype match_state = Pending | Allocating | Configuring | Ready | Live | Recovering
  | Ended | Failed | Cancelled

fun isTerminalMatchState :: "match_state \<Rightarrow> bool" where
  "isTerminalMatchState Ended = True"
| "isTerminalMatchState Failed = True"
| "isTerminalMatchState Cancelled = True"
| "isTerminalMatchState _ = False"

datatype ended_kind = Completed | Force_ended | Kind_cancelled | Ttl_expired | Server_lost
  | Allocation_failed | Provider_error

record ended_reason =
  er_kind :: ended_kind
  er_detail :: "string option"

text \<open>The demo outcome of a finished match.\<close>

datatype demo_skip = No_upload_url | Not_recorded | No_demo | Upload_failed

record demo_outcome =
  do_uploaded :: nat
  do_skipped :: "demo_skip option"

definition matchDemoOutcome :: "bool \<Rightarrow> bool \<Rightarrow> nat \<Rightarrow> nat \<Rightarrow> demo_outcome" where
  "matchDemoOutcome recordsDemo hasUploadUrl announced uploaded =
    (if \<not> recordsDemo then \<lparr>do_uploaded = 0, do_skipped = Some Not_recorded\<rparr>
     else if \<not> hasUploadUrl then \<lparr>do_uploaded = 0, do_skipped = Some No_upload_url\<rparr>
     else if announced = 0 then \<lparr>do_uploaded = 0, do_skipped = Some No_demo\<rparr>
     else if uploaded < announced
       then \<lparr>do_uploaded = uploaded, do_skipped = Some Upload_failed\<rparr>
     else \<lparr>do_uploaded = uploaded, do_skipped = None\<rparr>)"

subsection \<open>The engine's formats\<close>

datatype match_format = Competitive | Wingman

record engine_game =
  eg_gameType :: nat
  eg_gameMode :: nat

definition formatOfEngineGame :: "engine_game \<Rightarrow> match_format option" where
  "formatOfEngineGame e =
    (if eg_gameType e \<noteq> 0 then None
     else if eg_gameMode e = 1 then Some Competitive
     else if eg_gameMode e = 2 then Some Wingman
     else None)"

definition WINGMAN_TEAM_SIZE :: nat where "WINGMAN_TEAM_SIZE = 2"

subsection \<open>The match request\<close>

record roster_entry =
  re_steamId64 :: string
  re_name :: string
  re_loadout :: "string option"

record callbacks =
  cb_webhookUrl :: string
  cb_webhookSecretId :: string
  cb_demoUploadUrl :: "string option"
  cb_demoUploadUrls :: "(nat \<times> string) list option"
  cb_streamAllowedOrigins :: "string list option"

record requirements =
  rq_region :: "string option"
  rq_lan :: bool
  rq_preferLan :: bool
  rq_provider :: "string option"
  rq_simulated :: bool

record simulation =
  sn_scenario :: "string option"
  sn_puppets :: "string list option"
  sn_timeScale :: "string option"      \<comment> \<open>a number, as written\<close>

datatype team_side = Ct | Terrorist

datatype plan_sides = Starts team_side | Knife

record map_plan =
  mp_map :: string
  mp_sides :: plan_sides

record match_rules =
  ru_format :: match_format
  ru_regulationRounds :: nat
  ru_overtimeEnabled :: bool
  ru_overtimeMaxRounds :: nat
  ru_startMoney :: nat
  ru_minPlayersToReady :: nat
  ru_minSpectatorsToReady :: nat
  ru_autoReady :: bool
  ru_cvars :: "(string \<times> string) list"

text \<open>\<open>mr_halftime\<close> is \<open>voice?.halftime\<close>, \<open>mr_simScenario\<close> is \<open>sim?.scenario\<close>, \<open>mr_hostname\<close> is
  \<open>branding?.hostname\<close>; \<open>mr_nameA\<close> and \<open>mr_nameB\<close> are the teams' names.\<close>

record match_request =
  mr_clientMatchId :: string
  mr_game :: string
  mr_gamemode :: string
  mr_teamA :: "roster_entry list"
  mr_teamB :: "roster_entry list"
  mr_nameA :: string
  mr_nameB :: string
  mr_maps :: "map_plan list"
  mr_rules :: "match_rules option"
  mr_requirements :: requirements
  mr_callbacks :: callbacks
  mr_halftime :: "bool option"
  mr_simScenario :: "string option"
  mr_simulation :: "simulation option"
  mr_ttlMinutes :: nat
  mr_hostname :: "string option"
definition roster_of :: "match_request \<Rightarrow> roster_entry list" where
  "roster_of r = mr_teamA r @ mr_teamB r"

definition matchRequestScopes :: "match_request \<Rightarrow> api_scope list" where
  "matchRequestScopes r = (case mr_simulation r of None \<Rightarrow> [] | Some _ \<Rightarrow> [Scope_simulation])"

definition demoUploadUrlFor :: "callbacks \<Rightarrow> nat \<Rightarrow> string option" where
  "demoUploadUrlFor cb mapNumber =
    (case cb_demoUploadUrls cb of
       None \<Rightarrow> cb_demoUploadUrl cb
     | Some urls \<Rightarrow>
         (case find (\<lambda>(m, _). m = mapNumber) urls of
            Some (_, url) \<Rightarrow> Some url
          | None \<Rightarrow> cb_demoUploadUrl cb))"

definition hasDemoUploadUrl :: "callbacks \<Rightarrow> bool" where
  "hasDemoUploadUrl cb \<longleftrightarrow>
     cb_demoUploadUrl cb \<noteq> None \<or>
     (case cb_demoUploadUrls cb of None \<Rightarrow> False | Some urls \<Rightarrow> length urls > 0)"

subsection \<open>The gamemode manifest\<close>

datatype gamemode_maps = Any_map | Allow_list "string list" "string list"

record manifest =
  gm_id :: string
  gm_game :: string
  gm_formats :: "match_format list"
  gm_rules_mode :: bool            \<comment> \<open>\<open>rules: 'mode'\<close>\<close>
  gm_simulation :: bool
  gm_mixedRoster :: bool
  gm_halftimeVoice :: bool
  gm_flow :: string
  gm_records_demo :: bool          \<comment> \<open>\<open>records: 'demo'\<close>\<close>
  gm_maps :: gamemode_maps
  gm_openJoin :: bool
  gm_commands :: "string list"
  gm_plugins :: "string list"
  gm_teamSize :: nat
  gm_teams :: nat
  gm_cvars :: "(string \<times> string) list"
text \<open>The map identifiers: \<open>[a-z0-9_]+\<close>, or \<open>workshop/<id>/<name>\<close> with an id of one to
  twenty digits that does not start with a zero.\<close>

definition map_name_char :: "char \<Rightarrow> bool" where
  "map_name_char c \<longleftrightarrow> digit_char c \<or> (97 \<le> (of_char c :: nat) \<and> (of_char c :: nat) \<le> 122) \<or> c = CHR ''_''"

definition is_map_name :: "string \<Rightarrow> bool" where
  "is_map_name s \<longleftrightarrow> s \<noteq> [] \<and> list_all map_name_char s"

definition is_workshop_id :: "string \<Rightarrow> bool" where
  "is_workshop_id s \<longleftrightarrow> s \<noteq> [] \<and> hd s \<noteq> CHR ''0'' \<and> list_all digit_char s \<and> length s \<le> 20"

definition workshop_parts :: "string \<Rightarrow> (string \<times> string) option" where
  "workshop_parts s =
    (if take 9 s = ''workshop/'' then
       (let rest = drop 9 s; wid = takeWhile (\<lambda>c. c \<noteq> CHR ''/'') rest;
            name = drop (Suc (length wid)) rest
        in if length wid < length rest \<and> is_workshop_id wid \<and> is_map_name name
           then Some (wid, name) else None)
     else None)"

definition is_map_identifier :: "string \<Rightarrow> bool" where
  "is_map_identifier s \<longleftrightarrow> is_map_name s \<or> workshop_parts s \<noteq> None"

definition gamemodeAllowsMap :: "gamemode_maps \<Rightarrow> string \<Rightarrow> bool" where
  "gamemodeAllowsMap maps identifier =
    (case maps of
       Any_map \<Rightarrow> is_map_identifier identifier
     | Allow_list catalog workshop \<Rightarrow>
         (case workshop_parts identifier of
            Some (wid, _) \<Rightarrow> wid \<in> set workshop
          | None \<Rightarrow> is_map_name identifier \<and> identifier \<in> set catalog))"

text \<open>A workshop map is judged by its id alone; an engine name never matches a workshop entry.\<close>

lemma workshop_not_map_name: "workshop_parts s \<noteq> None \<Longrightarrow> \<not> is_map_name s"
proof -
  assume "workshop_parts s \<noteq> None"
  then have t: "take 9 s = ''workshop/''"
    by (auto simp: workshop_parts_def split: if_splits)
  then have "CHR ''/'' \<in> set s"
    by (metis in_set_takeD list.set_intros(1) list.set_intros(2))
  moreover have "\<not> map_name_char CHR ''/''"
    by (simp add: map_name_char_def digit_char_def)
  ultimately show ?thesis
    by (auto simp: is_map_name_def list_all_iff)
qed

lemma allow_list_restricts:
  "gamemodeAllowsMap (Allow_list c w) m \<Longrightarrow> gamemodeAllowsMap Any_map m"
  by (auto simp: gamemodeAllowsMap_def is_map_identifier_def split: option.splits)

subsection \<open>What a gamemode refuses of a request\<close>

text \<open>Each rule answers the field that has to change, or \<open>None\<close> for "play it".\<close>

definition matchPuppets :: "match_request \<Rightarrow> string list" where
  "matchPuppets r =
    (case mr_simulation r of
       None \<Rightarrow> []
     | Some sim \<Rightarrow>
         (let roster = map re_steamId64 (roster_of r)
          in case sn_puppets sim of
               None \<Rightarrow> roster
             | Some named \<Rightarrow> filter (\<lambda>i. i \<in> set named) roster))"

definition matchHumans :: "match_request \<Rightarrow> string list" where
  "matchHumans r =
    (case mr_simulation r of
       None \<Rightarrow> []
     | Some _ \<Rightarrow>
         filter (\<lambda>i. i \<notin> set (matchPuppets r)) (map re_steamId64 (roster_of r)))"

definition matchSimulationProblem :: "match_request \<Rightarrow> manifest \<Rightarrow> string option" where
  "matchSimulationProblem r mode =
    (case mr_simulation r of
       None \<Rightarrow> None
     | Some sim \<Rightarrow>
        if \<not> gm_simulation mode then Some ''simulation''
        else
          (let roster = map re_steamId64 (roster_of r)
           in if roster = [] then Some ''teams''
              else
                (let puppets_problem =
                   (case sn_puppets sim of
                      None \<Rightarrow> False
                    | Some named \<Rightarrow>
                        find (\<lambda>i. i \<notin> set roster) named \<noteq> None \<or>
                        (length (matchHumans r) > 0 \<and> \<not> gm_mixedRoster mode))
                 in if puppets_problem then Some ''simulation.puppets''
                    else
                      (case (sn_scenario sim, mr_simScenario r) of
                         (Some mine, Some other) \<Rightarrow>
                           if other \<noteq> mine then Some ''simulation.scenario'' else None
                       | _ \<Rightarrow> None))))"

definition matchFormatProblem :: "match_request \<Rightarrow> manifest \<Rightarrow> string option" where
  "matchFormatProblem r mode =
    (case map_option ru_format (mr_rules r) of
       Some format \<Rightarrow>
         if format \<notin> set (gm_formats mode) then Some ''rules.format''
         else if format \<noteq> Wingman then None
         else if length (mr_teamA r) > WINGMAN_TEAM_SIZE then Some ''teams.teamA.players''
         else if length (mr_teamB r) > WINGMAN_TEAM_SIZE then Some ''teams.teamB.players''
         else None
     | _ \<Rightarrow> None)"

definition matchRulesProblem :: "match_request \<Rightarrow> manifest \<Rightarrow> string option" where
  "matchRulesProblem r mode =
    (if \<not> gm_rules_mode mode \<or> mr_rules r = None then None else Some ''rules'')"

definition halftimeVoiceOf :: "match_request \<Rightarrow> manifest \<Rightarrow> bool" where
  "halftimeVoiceOf r mode \<longleftrightarrow> gm_halftimeVoice mode \<and> mr_halftime r \<noteq> Some False"

definition matchVoiceProblem :: "match_request \<Rightarrow> manifest \<Rightarrow> string option" where
  "matchVoiceProblem r mode =
    (if mr_halftime r \<noteq> Some True \<or> gm_halftimeVoice mode then None
     else Some ''voice.halftime'')"

text \<open>Puppets and people divide the roster of a simulated match.\<close>

lemma puppets_humans_partition:
  "mr_simulation r = Some sim \<Longrightarrow>
   set (matchPuppets r) \<union> set (matchHumans r) = re_steamId64 ` set (roster_of r) \<and>
   set (matchPuppets r) \<inter> set (matchHumans r) = {}"
  by (auto simp: matchPuppets_def matchHumans_def Let_def split: option.splits)

text \<open>A list that names every roster entry is the same request as no list.\<close>

lemma full_puppet_list_no_humans:
  "mr_simulation r = Some sim \<Longrightarrow> sn_puppets sim = Some named \<Longrightarrow>
   re_steamId64 ` set (roster_of r) \<subseteq> set named \<Longrightarrow> matchHumans r = []"
  by (auto simp: matchPuppets_def matchHumans_def Let_def filter_empty_conv)

subsection \<open>Commands\<close>

datatype command_body =
    Cmd_pause | Cmd_unpause | Cmd_restart_round | Cmd_force_end "string option"
  | Cmd_kick string | Cmd_announce string | Cmd_moment string | Cmd_rcon string
  | Cmd_restore "nat option" | Cmd_reroll | Cmd_reprovision | Cmd_profile roster_entry
  | Cmd_sim_step | Cmd_sim_mode string | Cmd_sim_speed string | Cmd_sim_chaos string
  | Cmd_sim_kill

record match_command =
  cm_correlationId :: string
  cm_body :: command_body

fun isSimCommand :: "command_body \<Rightarrow> bool" where
  "isSimCommand Cmd_sim_step = True"
| "isSimCommand (Cmd_sim_mode _) = True"
| "isSimCommand (Cmd_sim_speed _) = True"
| "isSimCommand (Cmd_sim_chaos _) = True"
| "isSimCommand Cmd_sim_kill = True"
| "isSimCommand _ = False"

datatype command_status = St_applied | St_accepted | St_rejected

record command_result =
  cr_correlationId :: string
  cr_status :: command_status
  cr_code :: "api_error_code option"

subsection \<open>Server events and orchestration facts\<close>

record player =
  pl_steamId64 :: string
  pl_name :: string

datatype end_reason = Time_limit | Frag_limit | Idle_out

fun end_reason_name :: "end_reason \<Rightarrow> string" where
  "end_reason_name Time_limit = ''time_limit''"
| "end_reason_name Frag_limit = ''frag_limit''"
| "end_reason_name Idle_out = ''idle''"

text \<open>What a server says. The events the orchestrator reads have a constructor each; every
  other event is \<open>Other_event\<close> with its type.\<close>

datatype event_body =
    Server_ready "engine_game option"
  | Player_connected player
  | Player_disconnected player
  | Going_live nat "engine_game option" "match_format option"
  | Plugin_event string
  | Round_end nat
  | Demo_available nat "nat option" "string option" "string option"
      \<comment> \<open>map number, \<open>sizeBytes\<close>, \<open>sha256\<close>, \<open>contentType\<close>\<close>
  | Series_end "end_reason option"
  | Position_tick
  | Other_event string

record gameserver_event =
  ge_matchId :: ident
  ge_seq :: "nat option"
  ge_simulated :: bool
  ge_body :: event_body

record server_address =
  sa_host :: string
  sa_port :: nat

record server_connect =
  cn_address :: server_address
  cn_password :: "string option"

record server_tv =
  tv_host :: string
  tv_port :: nat
  tv_delaySeconds :: nat

datatype budget_limit = Limit_concurrent | Limit_monthly

text \<open>A payload of the durable log: a server's event or one of the orchestrator's own facts.\<close>

datatype payload =
    Server_event gameserver_event
  | Match_allocated string string ident "string option"
      \<comment> \<open>provider, server id, fleet server id, region\<close>
  | Match_server_ready server_connect "server_tv option" "nat option"
      \<comment> \<open>the round of \<open>restored: true\<close>, when it is a replacement\<close>
  | Match_recovering string "nat option"
  | Match_recovered string ident "nat option"
  | Match_failed ended_reason
  | Match_ended match_state ended_reason demo_outcome
  | Demo_uploaded nat "string option" nat string string
  | Player_joined player bool
  | Player_left player
  | Fleet_fact string
  | Fleet_orphan_found string string ident bool
  | Fleet_budget_threshold budget_limit bool

text \<open>\<open>payload.type.startsWith('fleet.')\<close>. The second argument of
  \<open>Fleet_budget_threshold\<close> is the fraction: \<open>False\<close> is 0.8, \<open>True\<close> is 0.95.\<close>

fun is_fleet_fact :: "payload \<Rightarrow> bool" where
  "is_fleet_fact (Fleet_fact _) = True"
| "is_fleet_fact (Fleet_orphan_found _ _ _ _) = True"
| "is_fleet_fact (Fleet_budget_threshold _ _) = True"
| "is_fleet_fact _ = False"

fun is_terminal_fact :: "payload \<Rightarrow> bool" where
  "is_terminal_fact (Match_failed _) = True"
| "is_terminal_fact (Match_ended _ _ _) = True"
| "is_terminal_fact _ = False"

end
