(* ===== verification/Memory_Store.thy ===== *)
theory Memory_Store
  imports Match_Api "HOL-Library.List_Lexorder" "HOL-Library.Char_ord"
begin

text \<open>
  The storage of the orchestrator: the rows of \<open>apps/orchestrator/src/match/store.ts\<close> and
  the in-memory implementation \<open>memory-store.ts\<close> of its \<open>MatchStore\<close> interface, one
  function per operation over the arrays of the source, in their order. An operation that
  throws on a missing row answers \<open>None\<close> there.

  A patch is a list of field assignments; the fields \<open>MatchPatch\<close> and \<open>ServerPatch\<close> exclude
  (identity, owner, sequence number, creation) have no assignment. The locales state what the
  callers rely on (a keyed table, an append-only numbered log, the backups of a match); they are
  interpreted on the operations here.
\<close>

subsection \<open>Rows\<close>

record match_row =
  m_id :: ident
  m_deployment :: string
  m_keyId :: ident
  m_clientMatchId :: string
  m_state :: match_state
  m_stateChangedAt :: instant
  m_game :: string
  m_gamemode :: string
  m_provider :: "string option"
  m_serverId :: "string option"
  m_fleetServerId :: "ident option"
  m_connect :: "server_connect option"
  m_tv :: "server_tv option"
  m_seq :: nat
  m_request :: match_request
  m_requestHash :: string
  m_endedReason :: "ended_reason option"
  m_sim :: "string option"
  m_expiresAt :: instant
  m_readyAt :: "instant option"
  m_liveAt :: "instant option"
  m_endedAt :: "instant option"
  m_webhooksStoppedAt :: "instant option"
  m_createdAt :: instant
  m_updatedAt :: instant

datatype match_field =
    Set_state match_state
  | Set_stateChangedAt instant
  | Set_provider "string option"
  | Set_serverId "string option"
  | Set_fleetServerId "ident option"
  | Set_connect "server_connect option"
  | Set_tv "server_tv option"
  | Set_endedReason "ended_reason option"
  | Set_sim "string option"
  | Set_readyAt "instant option"
  | Set_liveAt "instant option"
  | Set_endedAt "instant option"
  | Set_webhooksStoppedAt "instant option"
  | Set_updatedAt instant

type_synonym match_patch = "match_field list"

fun assign_match :: "match_field \<Rightarrow> match_row \<Rightarrow> match_row" where
  "assign_match (Set_state x) r = r\<lparr>m_state := x\<rparr>"
| "assign_match (Set_stateChangedAt x) r = r\<lparr>m_stateChangedAt := x\<rparr>"
| "assign_match (Set_provider x) r = r\<lparr>m_provider := x\<rparr>"
| "assign_match (Set_serverId x) r = r\<lparr>m_serverId := x\<rparr>"
| "assign_match (Set_fleetServerId x) r = r\<lparr>m_fleetServerId := x\<rparr>"
| "assign_match (Set_connect x) r = r\<lparr>m_connect := x\<rparr>"
| "assign_match (Set_tv x) r = r\<lparr>m_tv := x\<rparr>"
| "assign_match (Set_endedReason x) r = r\<lparr>m_endedReason := x\<rparr>"
| "assign_match (Set_sim x) r = r\<lparr>m_sim := x\<rparr>"
| "assign_match (Set_readyAt x) r = r\<lparr>m_readyAt := x\<rparr>"
| "assign_match (Set_liveAt x) r = r\<lparr>m_liveAt := x\<rparr>"
| "assign_match (Set_endedAt x) r = r\<lparr>m_endedAt := x\<rparr>"
| "assign_match (Set_webhooksStoppedAt x) r = r\<lparr>m_webhooksStoppedAt := x\<rparr>"
| "assign_match (Set_updatedAt x) r = r\<lparr>m_updatedAt := x\<rparr>"

definition apply_match_patch :: "match_patch \<Rightarrow> match_row \<Rightarrow> match_row" where
  "apply_match_patch p r = fold assign_match p r"

datatype fleet_server_state = Fs_allocated | Fs_configured | Fs_running | Fs_released | Fs_failed

record server_row =
  s_id :: ident
  s_deployment :: string
  s_provider :: string
  s_serverId :: "string option"
  s_nodeId :: "string option"
  s_matchId :: "ident option"
  s_keyId :: ident
  s_state :: fleet_server_state
  s_region :: "string option"
  s_lan :: bool
  s_address :: "server_address option"
  s_tv :: "server_tv option"
  s_costHourlyCents :: nat
  s_gsltTokenId :: "ident option"
  s_currentMap :: "string option"
  s_linkState :: "string option"
  s_linkAckedSeq :: nat
  s_lastSeenAt :: "instant option"
  s_lastError :: "string option"
  s_releasedReason :: "string option"
  s_allocatedAt :: instant
  s_releasedAt :: "instant option"
  s_expiresAt :: instant

datatype server_field =
    Srv_serverId "string option"
  | Srv_nodeId "string option"
  | Srv_state fleet_server_state
  | Srv_address "server_address option"
  | Srv_tv "server_tv option"
  | Srv_gsltTokenId "ident option"
  | Srv_currentMap "string option"
  | Srv_linkState "string option"
  | Srv_linkAckedSeq nat
  | Srv_lastSeenAt "instant option"
  | Srv_lastError "string option"
  | Srv_releasedReason "string option"
  | Srv_releasedAt "instant option"

type_synonym server_patch = "server_field list"

fun assign_server :: "server_field \<Rightarrow> server_row \<Rightarrow> server_row" where
  "assign_server (Srv_serverId x) r = r\<lparr>s_serverId := x\<rparr>"
| "assign_server (Srv_nodeId x) r = r\<lparr>s_nodeId := x\<rparr>"
| "assign_server (Srv_state x) r = r\<lparr>s_state := x\<rparr>"
| "assign_server (Srv_address x) r = r\<lparr>s_address := x\<rparr>"
| "assign_server (Srv_tv x) r = r\<lparr>s_tv := x\<rparr>"
| "assign_server (Srv_gsltTokenId x) r = r\<lparr>s_gsltTokenId := x\<rparr>"
| "assign_server (Srv_currentMap x) r = r\<lparr>s_currentMap := x\<rparr>"
| "assign_server (Srv_linkState x) r = r\<lparr>s_linkState := x\<rparr>"
| "assign_server (Srv_linkAckedSeq x) r = r\<lparr>s_linkAckedSeq := x\<rparr>"
| "assign_server (Srv_lastSeenAt x) r = r\<lparr>s_lastSeenAt := x\<rparr>"
| "assign_server (Srv_lastError x) r = r\<lparr>s_lastError := x\<rparr>"
| "assign_server (Srv_releasedReason x) r = r\<lparr>s_releasedReason := x\<rparr>"
| "assign_server (Srv_releasedAt x) r = r\<lparr>s_releasedAt := x\<rparr>"

definition apply_server_patch :: "server_patch \<Rightarrow> server_row \<Rightarrow> server_row" where
  "apply_server_patch p r = fold assign_server p r"

record event_row =
  e_matchId :: ident
  e_seq :: nat
  e_deliveryId :: ident
  e_occurredAt :: instant
  e_payload :: payload

datatype delivery_status = Dl_pending | Dl_delivered | Dl_stopped | Dl_given_up

record delivery_row =
  d_deliveryId :: ident
  d_matchId :: ident
  d_seq :: nat
  d_url :: string
  d_secretId :: string
  d_status :: delivery_status
  d_attempt :: nat
  d_nextAttemptAt :: "instant option"
  d_lastStatus :: "nat option"
  d_lastError :: "string option"
  d_deliveredAt :: "instant option"
  d_createdAt :: instant
  d_updatedAt :: instant

datatype delivery_field =
    Dlv_status delivery_status
  | Dlv_attempt nat
  | Dlv_nextAttemptAt "instant option"
  | Dlv_lastStatus "nat option"
  | Dlv_lastError "string option"
  | Dlv_deliveredAt "instant option"
  | Dlv_updatedAt instant

type_synonym delivery_patch = "delivery_field list"

fun assign_delivery :: "delivery_field \<Rightarrow> delivery_row \<Rightarrow> delivery_row" where
  "assign_delivery (Dlv_status x) r = r\<lparr>d_status := x\<rparr>"
| "assign_delivery (Dlv_attempt x) r = r\<lparr>d_attempt := x\<rparr>"
| "assign_delivery (Dlv_nextAttemptAt x) r = r\<lparr>d_nextAttemptAt := x\<rparr>"
| "assign_delivery (Dlv_lastStatus x) r = r\<lparr>d_lastStatus := x\<rparr>"
| "assign_delivery (Dlv_lastError x) r = r\<lparr>d_lastError := x\<rparr>"
| "assign_delivery (Dlv_deliveredAt x) r = r\<lparr>d_deliveredAt := x\<rparr>"
| "assign_delivery (Dlv_updatedAt x) r = r\<lparr>d_updatedAt := x\<rparr>"

definition apply_delivery_patch :: "delivery_patch \<Rightarrow> delivery_row \<Rightarrow> delivery_row" where
  "apply_delivery_patch p r = fold assign_delivery p r"

record command_row =
  c_matchId :: ident
  c_correlationId :: string
  c_command :: match_command
  c_result :: "command_result option"
  c_createdAt :: instant
  c_updatedAt :: instant

record backup_row =
  b_id :: ident
  b_matchId :: ident
  b_fleetServerId :: "ident option"
  b_mapNumber :: nat
  b_roundNumber :: nat
  b_filename :: string
  b_content :: string
  b_createdAt :: instant

record server_token_row =
  st_id :: ident
  st_fleetServerId :: ident
  st_tokenHash :: string
  st_createdAt :: instant
  st_lastUsedAt :: "instant option"
  st_revokedAt :: "instant option"

record player_token_row =
  pt_id :: ident
  pt_matchId :: ident
  pt_keyId :: ident
  pt_steamId64 :: string
  pt_tokenHash :: string
  pt_expiresAt :: instant
  pt_createdAt :: instant
  pt_revokedAt :: "instant option"

record gslt_row =
  g_id :: ident
  g_steamId :: string
  g_appId :: nat
  g_loginToken :: string
  g_memo :: string
  g_leasedBy :: "ident option"
  g_leasedAt :: "instant option"
  g_lastResetAt :: "instant option"
  g_createdAt :: instant
  g_deletedAt :: "instant option"

record store =
  deployment :: string
  matches :: "match_row list"
  events :: "event_row list"
  deliveries :: "delivery_row list"
  commands :: "command_row list"
  servers :: "server_row list"
  serverTokens :: "server_token_row list"
  backups :: "backup_row list"
  playerTokens :: "player_token_row list"
  gsltTokens :: "gslt_row list"

definition createMemoryMatchStore :: "string \<Rightarrow> store" where
  "createMemoryMatchStore d = \<lparr>deployment = d, matches = [], events = [], deliveries = [],
     commands = [], servers = [], serverTokens = [], backups = [], playerTokens = [],
     gsltTokens = []\<rparr>"

subsection \<open>Lists of rows\<close>

record 'a page_of =
  pg_items :: "'a list"
  pg_nextOffset :: "nat option"

definition page :: "'a list \<Rightarrow> nat \<Rightarrow> nat \<Rightarrow> 'a page_of" where
  "page xs offset limit =
    (let items = take limit (drop offset xs); next = offset + length items
     in \<lparr>pg_items = items, pg_nextOffset = (if next < length xs then Some next else None)\<rparr>)"

text \<open>Newest first by the given instant; of two equal ones the later in the array is first.\<close>

definition newestFirst :: "('a \<Rightarrow> instant) \<Rightarrow> 'a list \<Rightarrow> 'a list" where
  "newestFirst at rows =
     map snd (sort_key (\<lambda>(i, r). (- at r, - int i)) (zip [0..<length rows] rows))"

subsection \<open>Matches\<close>

definition findMatch :: "ident \<Rightarrow> store \<Rightarrow> match_row option" where
  "findMatch i s = find (\<lambda>r. m_id r = i) (matches s)"

definition insertMatch :: "match_row \<Rightarrow> store \<Rightarrow> store option" where
  "insertMatch row s =
    (case findMatch (m_id row) s of
       Some _ \<Rightarrow> None
     | None \<Rightarrow> Some (s\<lparr>matches := matches s @ [row\<lparr>m_deployment := deployment s\<rparr>]\<rparr>))"

definition findMatchByClientId :: "ident \<Rightarrow> string \<Rightarrow> store \<Rightarrow> match_row option" where
  "findMatchByClientId keyId c s =
     find (\<lambda>r. m_keyId r = keyId \<and> m_clientMatchId r = c) (matches s)"

definition listMatches ::
  "ident \<Rightarrow> match_state option \<Rightarrow> string option \<Rightarrow> nat \<Rightarrow> nat \<Rightarrow> store \<Rightarrow> match_row page_of" where
  "listMatches keyId f_state f_client offset limit s =
     page (filter (\<lambda>r. f_client = None \<or> f_client = Some (m_clientMatchId r))
            (filter (\<lambda>r. f_state = None \<or> f_state = Some (m_state r))
              (newestFirst m_createdAt (filter (\<lambda>r. m_keyId r = keyId) (matches s)))))
       offset limit"

definition updateMatch :: "ident \<Rightarrow> match_patch \<Rightarrow> store \<Rightarrow> store option" where
  "updateMatch i p s =
    (case findMatch i s of
       None \<Rightarrow> None
     | Some _ \<Rightarrow>
         Some (s\<lparr>matches := update_first (\<lambda>r. m_id r = i) (apply_match_patch p) (matches s)\<rparr>))"

definition listOpenMatches :: "ident option \<Rightarrow> store \<Rightarrow> match_row list" where
  "listOpenMatches keyId s =
     filter (\<lambda>r. keyId = None \<or> keyId = Some (m_keyId r))
       (filter (\<lambda>r. \<not> isTerminalMatchState (m_state r))
         (filter (\<lambda>r. m_deployment r = deployment s) (matches s)))"

subsection \<open>The durable log\<close>

text \<open>The new event's delivery id, instant and payload come from the caller; the number is the
  row's next, written with the patch in one step.\<close>

definition appendEvent ::
  "ident \<Rightarrow> ident \<times> instant \<times> payload \<Rightarrow> instant \<Rightarrow> match_patch \<Rightarrow> store
     \<Rightarrow> (event_row \<times> store) option" where
  "appendEvent i event updatedAt p s =
    (case findMatch i s of
       None \<Rightarrow> None
     | Some row \<Rightarrow>
        (let n = Suc (m_seq (apply_match_patch p row));
             (deliveryId, at, pl) = event;
             stored = \<lparr>e_matchId = i, e_seq = n, e_deliveryId = deliveryId,
                       e_occurredAt = at, e_payload = pl\<rparr>
         in Some (stored,
              s\<lparr>matches := update_first (\<lambda>r. m_id r = i)
                   (\<lambda>r. (apply_match_patch p r)\<lparr>m_seq := Suc (m_seq (apply_match_patch p r)),
                          m_updatedAt := updatedAt\<rparr>) (matches s),
                events := events s @ [stored]\<rparr>)))"

definition listEvents :: "ident \<Rightarrow> nat \<Rightarrow> nat \<Rightarrow> store \<Rightarrow> event_row list" where
  "listEvents i afterSeq limit s =
     take limit (sort_key e_seq (filter (\<lambda>r. e_matchId r = i \<and> e_seq r > afterSeq) (events s)))"

subsection \<open>Deliveries\<close>

definition insertDelivery :: "delivery_row \<Rightarrow> store \<Rightarrow> store" where
  "insertDelivery row s = s\<lparr>deliveries := deliveries s @ [row]\<rparr>"

definition findDelivery :: "ident \<Rightarrow> store \<Rightarrow> delivery_row option" where
  "findDelivery i s = find (\<lambda>r. d_deliveryId r = i) (deliveries s)"

text \<open>Match ids are lower-case UUIDs, on which \<open>localeCompare\<close> is the order of the characters.\<close>

definition listDueDeliveries :: "instant \<Rightarrow> nat \<Rightarrow> store \<Rightarrow> delivery_row list" where
  "listDueDeliveries now limit s =
     take limit
       (sort_key (\<lambda>r. (d_matchId r, d_seq r))
         (filter (\<lambda>r. d_status r = Dl_pending \<and>
             (case d_nextAttemptAt r of None \<Rightarrow> False | Some at \<Rightarrow> at \<le> now))
           (filter (\<lambda>r. (case findMatch (d_matchId r) s of
                 None \<Rightarrow> False | Some m \<Rightarrow> m_deployment m = deployment s))
             (deliveries s))))"

definition updateDelivery :: "ident \<Rightarrow> delivery_patch \<Rightarrow> store \<Rightarrow> store option" where
  "updateDelivery i p s =
    (case findDelivery i s of
       None \<Rightarrow> None
     | Some _ \<Rightarrow>
         Some (s\<lparr>deliveries :=
           update_first (\<lambda>r. d_deliveryId r = i) (apply_delivery_patch p) (deliveries s)\<rparr>))"

definition listDeliveries :: "ident \<Rightarrow> store \<Rightarrow> delivery_row list" where
  "listDeliveries i s = sort_key d_seq (filter (\<lambda>r. d_matchId r = i) (deliveries s))"

subsection \<open>Commands\<close>

definition findCommand :: "ident \<Rightarrow> string \<Rightarrow> store \<Rightarrow> command_row option" where
  "findCommand i c s = find (\<lambda>r. c_matchId r = i \<and> c_correlationId r = c) (commands s)"

definition insertCommand :: "command_row \<Rightarrow> store \<Rightarrow> store" where
  "insertCommand row s = s\<lparr>commands := commands s @ [row]\<rparr>"

definition setCommandResult ::
  "ident \<Rightarrow> string \<Rightarrow> command_result \<Rightarrow> instant \<Rightarrow> store \<Rightarrow> store option" where
  "setCommandResult i c res at s =
    (case findCommand i c s of
       None \<Rightarrow> None
     | Some _ \<Rightarrow>
         Some (s\<lparr>commands := update_first (\<lambda>r. c_matchId r = i \<and> c_correlationId r = c)
                 (\<lambda>r. r\<lparr>c_result := Some res, c_updatedAt := at\<rparr>) (commands s)\<rparr>))"

subsection \<open>The ledger\<close>

definition insertServer :: "server_row \<Rightarrow> store \<Rightarrow> store" where
  "insertServer row s = s\<lparr>servers := servers s @ [row\<lparr>s_deployment := deployment s\<rparr>]\<rparr>"

definition findServer :: "ident \<Rightarrow> store \<Rightarrow> server_row option" where
  "findServer i s = find (\<lambda>r. s_id r = i) (servers s)"

definition findServerByHandle :: "string \<Rightarrow> string \<Rightarrow> store \<Rightarrow> server_row option" where
  "findServerByHandle provider serverId s =
     find (\<lambda>r. s_provider r = provider \<and> s_serverId r = Some serverId)
       (newestFirst s_allocatedAt (servers s))"

definition updateServer :: "ident \<Rightarrow> server_patch \<Rightarrow> store \<Rightarrow> store option" where
  "updateServer i p s =
    (case findServer i s of
       None \<Rightarrow> None
     | Some _ \<Rightarrow>
         Some (s\<lparr>servers :=
           update_first (\<lambda>r. s_id r = i) (apply_server_patch p) (servers s)\<rparr>))"

definition listOpenServers :: "string option \<Rightarrow> store \<Rightarrow> server_row list" where
  "listOpenServers provider s =
     filter (\<lambda>r. provider = None \<or> provider = Some (s_provider r))
       (filter (\<lambda>r. s_releasedAt r = None)
         (filter (\<lambda>r. s_deployment r = deployment s) (newestFirst s_allocatedAt (servers s))))"

definition listLedger ::
  "fleet_server_state option \<Rightarrow> string option \<Rightarrow> ident option \<Rightarrow> instant option
     \<Rightarrow> nat \<Rightarrow> nat \<Rightarrow> store \<Rightarrow> server_row page_of" where
  "listLedger f_state f_provider f_match since offset limit s =
     page
       (filter (\<lambda>r. since = None \<or> s_releasedAt r = None \<or> the (s_releasedAt r) \<ge> the since)
         (filter (\<lambda>r. f_match = None \<or> s_matchId r = f_match)
           (filter (\<lambda>r. f_provider = None \<or> f_provider = Some (s_provider r))
             (filter (\<lambda>r. f_state = None \<or> f_state = Some (s_state r))
               (newestFirst s_allocatedAt (servers s))))))
       offset limit"

definition listKeyLedgerSince :: "ident \<Rightarrow> instant \<Rightarrow> store \<Rightarrow> server_row list" where
  "listKeyLedgerSince keyId since s =
     filter (\<lambda>r. case s_releasedAt r of None \<Rightarrow> True | Some at \<Rightarrow> at \<ge> since)
       (filter (\<lambda>r. s_keyId r = keyId) (newestFirst s_allocatedAt (servers s)))"

subsection \<open>Tokens\<close>

definition insertServerToken :: "server_token_row \<Rightarrow> store \<Rightarrow> store" where
  "insertServerToken row s = s\<lparr>serverTokens := serverTokens s @ [row]\<rparr>"

definition findServerTokenByHash :: "string \<Rightarrow> store \<Rightarrow> server_token_row option" where
  "findServerTokenByHash h s = find (\<lambda>r. st_tokenHash r = h) (serverTokens s)"

text \<open>\<open>None\<close> is the thrown error: no such token.\<close>

definition touchServerToken :: "ident \<Rightarrow> instant \<Rightarrow> store \<Rightarrow> store option" where
  "touchServerToken i at s =
    (case find (\<lambda>r. st_id r = i) (serverTokens s) of
       None \<Rightarrow> None
     | Some _ \<Rightarrow> Some (s\<lparr>serverTokens :=
         update_first (\<lambda>r. st_id r = i) (\<lambda>r. r\<lparr>st_lastUsedAt := Some at\<rparr>) (serverTokens s)\<rparr>))"

definition findLiveServerToken :: "ident \<Rightarrow> store \<Rightarrow> server_token_row option" where
  "findLiveServerToken f s =
     (case sort_key (\<lambda>r. - st_createdAt r)
        (filter (\<lambda>r. st_fleetServerId r = f \<and> st_revokedAt r = None) (serverTokens s)) of
        [] \<Rightarrow> None | r # _ \<Rightarrow> Some r)"

definition insertPlayerToken :: "player_token_row \<Rightarrow> store \<Rightarrow> store" where
  "insertPlayerToken row s = s\<lparr>playerTokens := playerTokens s @ [row]\<rparr>"

definition findPlayerTokenByHash :: "string \<Rightarrow> store \<Rightarrow> player_token_row option" where
  "findPlayerTokenByHash h s = find (\<lambda>r. pt_tokenHash r = h) (playerTokens s)"

subsection \<open>Backups\<close>

text \<open>Newest round first: by map, then by round, both descending.\<close>

definition newest_round :: "backup_row \<Rightarrow> int \<times> int" where
  "newest_round b = (- int (b_mapNumber b), - int (b_roundNumber b))"

definition listBackups :: "ident \<Rightarrow> store \<Rightarrow> backup_row list" where
  "listBackups i s = sort_key newest_round (filter (\<lambda>b. b_matchId b = i) (backups s))"

definition latestBackup :: "ident \<Rightarrow> store \<Rightarrow> backup_row option" where
  "latestBackup i s = (case listBackups i s of [] \<Rightarrow> None | b # _ \<Rightarrow> Some b)"

fun remove_first :: "('a \<Rightarrow> bool) \<Rightarrow> 'a list \<Rightarrow> 'a list" where
  "remove_first P [] = []"
| "remove_first P (x # xs) = (if P x then xs else x # remove_first P xs)"

definition same_point :: "backup_row \<Rightarrow> backup_row \<Rightarrow> bool" where
  "same_point row b \<longleftrightarrow> b_matchId b = b_matchId row \<and> b_mapNumber b = b_mapNumber row \<and>
     b_roundNumber b = b_roundNumber row"

definition upsertBackup :: "backup_row \<Rightarrow> nat \<Rightarrow> store \<Rightarrow> store" where
  "upsertBackup row keep s =
    (let all = remove_first (same_point row) (backups s) @ [row];
         survivors = map b_id (take keep
           (sort_key newest_round (filter (\<lambda>b. b_matchId b = b_matchId row) all)))
     in s\<lparr>backups := filter (\<lambda>b. \<not> (b_matchId b = b_matchId row \<and> b_id b \<notin> set survivors)) all\<rparr>)"

definition dropBackupsAfter :: "ident \<Rightarrow> nat \<Rightarrow> nat \<Rightarrow> store \<Rightarrow> store" where
  "dropBackupsAfter i mapNumber roundNumber s =
     s\<lparr>backups := filter (\<lambda>b. \<not> (b_matchId b = i \<and>
         (b_mapNumber b > mapNumber \<or>
          (b_mapNumber b = mapNumber \<and> b_roundNumber b > roundNumber)))) (backups s)\<rparr>"

subsection \<open>Game server login tokens\<close>

definition insertGsltToken :: "gslt_row \<Rightarrow> store \<Rightarrow> store" where
  "insertGsltToken row s = s\<lparr>gsltTokens := gsltTokens s @ [row]\<rparr>"

definition listGsltTokens :: "store \<Rightarrow> gslt_row list" where
  "listGsltTokens s = filter (\<lambda>r. g_deletedAt r = None) (gsltTokens s)"

definition findGsltTokenBySteamId :: "string \<Rightarrow> store \<Rightarrow> gslt_row option" where
  "findGsltTokenBySteamId i s = find (\<lambda>r. g_steamId r = i) (gsltTokens s)"

definition findGsltTokenByLease :: "ident \<Rightarrow> store \<Rightarrow> gslt_row option" where
  "findGsltTokenByLease f s =
     find (\<lambda>r. g_deletedAt r = None \<and> g_leasedBy r = Some f) (gsltTokens s)"

definition updateGsltToken :: "ident \<Rightarrow> (gslt_row \<Rightarrow> gslt_row) \<Rightarrow> store \<Rightarrow> store option" where
  "updateGsltToken i p s =
    (case find (\<lambda>r. g_id r = i) (gsltTokens s) of
       None \<Rightarrow> None
     | Some _ \<Rightarrow> Some (s\<lparr>gsltTokens := update_first (\<lambda>r. g_id r = i) p (gsltTokens s)\<rparr>))"

text \<open>The longest-idle free account: the first of the smallest lease instants, \<open>0\<close> when it was
  never leased. The row found is the one mutated.\<close>

definition idle_since :: "gslt_row \<Rightarrow> instant" where
  "idle_since r = (case g_leasedAt r of None \<Rightarrow> 0 | Some at \<Rightarrow> at)"

definition free_gslt :: "gslt_row \<Rightarrow> bool" where
  "free_gslt r \<longleftrightarrow> g_deletedAt r = None \<and> g_leasedBy r = None"

definition claimFreeGsltToken :: "ident \<Rightarrow> instant \<Rightarrow> store \<Rightarrow> (gslt_row \<times> store) option" where
  "claimFreeGsltToken f at s =
    (case sort_key idle_since (filter free_gslt (gsltTokens s)) of
       [] \<Rightarrow> None
     | row # _ \<Rightarrow>
        (let claimed = row\<lparr>g_leasedBy := Some f, g_leasedAt := Some at\<rparr>
         in Some (claimed,
              s\<lparr>gsltTokens := update_first (\<lambda>r. r = row) (\<lambda>_. claimed) (gsltTokens s)\<rparr>)))"

definition listLeakedGsltLeases :: "store \<Rightarrow> gslt_row list" where
  "listLeakedGsltLeases s =
     filter (\<lambda>r. case g_leasedBy r of
         None \<Rightarrow> False
       | Some f \<Rightarrow> (case findServer f s of
            None \<Rightarrow> True | Some srv \<Rightarrow> s_releasedAt srv \<noteq> None))
       (filter (\<lambda>r. g_deletedAt r = None \<and> g_leasedBy r \<noteq> None) (gsltTokens s))"

end
