(* ===== verification/Store_Laws.thy ===== *)
theory Store_Laws
  imports Memory_Store
begin

text \<open>
  What the callers of the store rely on, as interfaces, with the operations of
  \<open>Memory_Store\<close> interpreted in them:

  \<^item> \<open>keyed_rows\<close>: a table of rows found and patched by key (matches, ledger rows,
    deliveries);
  \<^item> \<open>paged_log\<close>: a log read in pages by sequence number (the events route, and the replay
    after a restart);
  \<^item> \<open>backup_book\<close>: the backups of a match, newest round first, cut back by a rewind.

  Then the durable log itself: the numbering invariant \<open>log_numbered\<close> and its preservation.
\<close>

subsection \<open>Patches\<close>

definition keeps_state :: "match_patch \<Rightarrow> bool" where
  "keeps_state p \<longleftrightarrow> list_all (\<lambda>f. case f of Set_state _ \<Rightarrow> False | _ \<Rightarrow> True) p"

lemma apply_match_patch_Nil [simp]: "apply_match_patch [] r = r"
  by (simp add: apply_match_patch_def)

lemma apply_match_patch_Cons [simp]:
  "apply_match_patch (f # p) r = apply_match_patch p (assign_match f r)"
  by (simp add: apply_match_patch_def)

lemma assign_match_frame [simp]:
  "m_id (assign_match f r) = m_id r" "m_deployment (assign_match f r) = m_deployment r"
  "m_keyId (assign_match f r) = m_keyId r"
  "m_clientMatchId (assign_match f r) = m_clientMatchId r"
  "m_seq (assign_match f r) = m_seq r" "m_request (assign_match f r) = m_request r"
  "m_requestHash (assign_match f r) = m_requestHash r"
  "m_createdAt (assign_match f r) = m_createdAt r"
  by (cases f; simp)+

lemma apply_match_patch_frame [simp]:
  "m_id (apply_match_patch p r) = m_id r"
  "m_deployment (apply_match_patch p r) = m_deployment r"
  "m_keyId (apply_match_patch p r) = m_keyId r"
  "m_clientMatchId (apply_match_patch p r) = m_clientMatchId r"
  "m_seq (apply_match_patch p r) = m_seq r" "m_request (apply_match_patch p r) = m_request r"
  "m_requestHash (apply_match_patch p r) = m_requestHash r"
  "m_createdAt (apply_match_patch p r) = m_createdAt r"
  by (induction p arbitrary: r) simp_all

lemma keeps_state_apply: "keeps_state p \<Longrightarrow> m_state (apply_match_patch p r) = m_state r"
proof (induction p arbitrary: r)
  case (Cons f p)
  then show ?case by (cases f) (simp_all add: keeps_state_def)
qed simp

lemma keeps_state_simps [simp]:
  "keeps_state []" "keeps_state (Set_stateChangedAt a # p) = keeps_state p"
  "keeps_state (Set_provider b # p) = keeps_state p"
  "keeps_state (Set_serverId c # p) = keeps_state p"
  "keeps_state (Set_fleetServerId d # p) = keeps_state p"
  "keeps_state (Set_connect e # p) = keeps_state p" "keeps_state (Set_tv g # p) = keeps_state p"
  "keeps_state (Set_readyAt h # p) = keeps_state p"
  "keeps_state (Set_liveAt i # p) = keeps_state p"
  "keeps_state (Set_webhooksStoppedAt j # p) = keeps_state p"
  "keeps_state (Set_updatedAt k # p) = keeps_state p"
  "\<not> keeps_state (Set_state x # p)"
  by (simp_all add: keeps_state_def)

lemma assign_server_frame [simp]:
  "s_id (assign_server f r) = s_id r" "s_keyId (assign_server f r) = s_keyId r"
  "s_matchId (assign_server f r) = s_matchId r"
  "s_provider (assign_server f r) = s_provider r"
  "s_allocatedAt (assign_server f r) = s_allocatedAt r"
  "s_costHourlyCents (assign_server f r) = s_costHourlyCents r"
  "s_deployment (assign_server f r) = s_deployment r"
  by (cases f; simp)+

lemma apply_server_patch_frame [simp]:
  "s_id (apply_server_patch p r) = s_id r" "s_keyId (apply_server_patch p r) = s_keyId r"
  "s_matchId (apply_server_patch p r) = s_matchId r"
  "s_provider (apply_server_patch p r) = s_provider r"
  "s_allocatedAt (apply_server_patch p r) = s_allocatedAt r"
  "s_costHourlyCents (apply_server_patch p r) = s_costHourlyCents r"
  "s_deployment (apply_server_patch p r) = s_deployment r"
  unfolding apply_server_patch_def by (induction p arbitrary: r) simp_all

lemma apply_server_patch_Nil [simp]: "apply_server_patch [] r = r"
  by (simp add: apply_server_patch_def)

lemma apply_server_patch_Cons [simp]:
  "apply_server_patch (f # p) r = apply_server_patch p (assign_server f r)"
  by (simp add: apply_server_patch_def)

lemma assign_delivery_frame [simp]:
  "d_deliveryId (assign_delivery f r) = d_deliveryId r"
  "d_matchId (assign_delivery f r) = d_matchId r" "d_seq (assign_delivery f r) = d_seq r"
  by (cases f; simp)+

lemma apply_delivery_patch_frame [simp]:
  "d_deliveryId (apply_delivery_patch p r) = d_deliveryId r"
  "d_matchId (apply_delivery_patch p r) = d_matchId r"
  "d_seq (apply_delivery_patch p r) = d_seq r"
  unfolding apply_delivery_patch_def by (induction p arbitrary: r) simp_all

lemma apply_delivery_patch_Nil [simp]: "apply_delivery_patch [] r = r"
  by (simp add: apply_delivery_patch_def)

lemma apply_delivery_patch_Cons [simp]:
  "apply_delivery_patch (f # p) r = apply_delivery_patch p (assign_delivery f r)"
  by (simp add: apply_delivery_patch_def)

subsection \<open>A keyed table\<close>

locale keyed_rows =
  fixes lookup :: "'k \<Rightarrow> 's \<Rightarrow> 'r option"
    and patch :: "'k \<Rightarrow> 'p \<Rightarrow> 's \<Rightarrow> 's option"
    and app :: "'p \<Rightarrow> 'r \<Rightarrow> 'r"
  assumes patch_missing: "lookup k s = None \<Longrightarrow> patch k p s = None"
    and patch_present: "lookup k s = Some r \<Longrightarrow> \<exists>s'. patch k p s = Some s'"
    and lookup_patched: "patch k p s = Some s' \<Longrightarrow>
          lookup j s' = (if j = k then map_option (app p) (lookup j s) else lookup j s)"
begin

lemma patch_defined_iff: "patch k p s \<noteq> None \<longleftrightarrow> lookup k s \<noteq> None"
  using patch_missing patch_present by fastforce

lemma present_kept: "patch k p s = Some s' \<Longrightarrow> lookup j s' = None \<longleftrightarrow> lookup j s = None"
  by (simp add: lookup_patched)

lemma other_row_kept: "patch k p s = Some s' \<Longrightarrow> j \<noteq> k \<Longrightarrow> lookup j s' = lookup j s"
  by (simp add: lookup_patched)

end

lemma find_match_updated:
  "find (\<lambda>r. m_id r = j) (update_first (\<lambda>r. m_id r = i) f rs) =
     (if j = i then map_option f (find (\<lambda>r. m_id r = j) rs) else find (\<lambda>r. m_id r = j) rs)"
  if "\<And>r. m_id (f r) = m_id r"
  using that by (auto intro: find_update_first find_update_first_other)

interpretation match_rows: keyed_rows findMatch updateMatch apply_match_patch
  by unfold_locales
    (auto simp: updateMatch_def findMatch_def find_match_updated split: option.splits)

lemma find_server_updated:
  "find (\<lambda>r. s_id r = j) (update_first (\<lambda>r. s_id r = i) f rs) =
     (if j = i then map_option f (find (\<lambda>r. s_id r = j) rs) else find (\<lambda>r. s_id r = j) rs)"
  if "\<And>r. s_id (f r) = s_id r"
  using that by (auto intro: find_update_first find_update_first_other)

interpretation server_rows: keyed_rows findServer updateServer apply_server_patch
  by unfold_locales
    (auto simp: updateServer_def findServer_def find_server_updated split: option.splits)

lemma find_delivery_updated:
  "find (\<lambda>r. d_deliveryId r = j) (update_first (\<lambda>r. d_deliveryId r = i) f rs) =
     (if j = i then map_option f (find (\<lambda>r. d_deliveryId r = j) rs)
      else find (\<lambda>r. d_deliveryId r = j) rs)"
  if "\<And>r. d_deliveryId (f r) = d_deliveryId r"
  using that by (auto intro: find_update_first find_update_first_other)

interpretation delivery_rows: keyed_rows findDelivery updateDelivery apply_delivery_patch
  by unfold_locales
    (auto simp: updateDelivery_def findDelivery_def find_delivery_updated split: option.splits)

subsection \<open>What each write leaves alone\<close>

lemma updateMatch_frame:
  "updateMatch i p s = Some s' \<Longrightarrow>
   events s' = events s \<and> deliveries s' = deliveries s \<and> servers s' = servers s \<and>
   backups s' = backups s \<and> commands s' = commands s \<and> deployment s' = deployment s \<and>
   map m_id (matches s') = map m_id (matches s) \<and> serverTokens s' = serverTokens s \<and>
   playerTokens s' = playerTokens s \<and> gsltTokens s' = gsltTokens s"
  by (auto simp: updateMatch_def map_update_first split: option.splits)

lemma updateServer_frame:
  "updateServer i p s = Some s' \<Longrightarrow>
   events s' = events s \<and> deliveries s' = deliveries s \<and> matches s' = matches s \<and>
   backups s' = backups s \<and> commands s' = commands s \<and> deployment s' = deployment s \<and>
   map s_id (servers s') = map s_id (servers s) \<and> serverTokens s' = serverTokens s \<and>
   playerTokens s' = playerTokens s \<and> gsltTokens s' = gsltTokens s"
  by (auto simp: updateServer_def map_update_first split: option.splits)

lemma appendEvent_Some:
  assumes "findMatch i s = Some row"
  shows "\<exists>s'. appendEvent i (d, at, pl) upd p s =
      Some (\<lparr>e_matchId = i, e_seq = Suc (m_seq row), e_deliveryId = d, e_occurredAt = at,
             e_payload = pl\<rparr>, s') \<and>
    findMatch i s' = Some ((apply_match_patch p row)\<lparr>m_seq := Suc (m_seq row), m_updatedAt := upd\<rparr>) \<and>
    (\<forall>j. j \<noteq> i \<longrightarrow> findMatch j s' = findMatch j s) \<and>
    events s' = events s @ [\<lparr>e_matchId = i, e_seq = Suc (m_seq row), e_deliveryId = d,
       e_occurredAt = at, e_payload = pl\<rparr>] \<and>
    deliveries s' = deliveries s \<and> servers s' = servers s \<and> backups s' = backups s \<and>
    commands s' = commands s \<and> deployment s' = deployment s \<and>
    map m_id (matches s') = map m_id (matches s)"
  using assms
  by (auto simp: appendEvent_def findMatch_def find_match_updated map_update_first Let_def)

lemma findMatch_id: "findMatch i s = Some r \<Longrightarrow> m_id r = i"
  by (auto simp: findMatch_def dest: find_SomeD)

lemma findServer_id: "findServer i s = Some r \<Longrightarrow> s_id r = i"
  by (auto simp: findServer_def dest: find_SomeD)

subsection \<open>The durable log\<close>

definition log_of :: "ident \<Rightarrow> store \<Rightarrow> event_row list" where
  "log_of i s = filter (\<lambda>r. e_matchId r = i) (events s)"

text \<open>The events of every match are numbered one, two, three, ... up to the match's \<open>seq\<close>, in
  the order they were appended; a match that does not exist has none.\<close>

definition log_numbered :: "store \<Rightarrow> bool" where
  "log_numbered s \<longleftrightarrow>
    (\<forall>i. map e_seq (log_of i s) =
       [1..<Suc (case findMatch i s of None \<Rightarrow> 0 | Some r \<Rightarrow> m_seq r)])"

lemma log_numbered_updateMatch:
  assumes "log_numbered s" and "updateMatch i p s = Some s'"
  shows "log_numbered s'"
proof -
  have "events s' = events s"
    using updateMatch_frame [OF assms(2)] by simp
  moreover have "\<And>j. (case findMatch j s' of None \<Rightarrow> 0 | Some r \<Rightarrow> m_seq r) =
      (case findMatch j s of None \<Rightarrow> 0 | Some r \<Rightarrow> m_seq r)"
    using match_rows.lookup_patched [OF assms(2)] by (simp split: option.split)
  ultimately show ?thesis
    using assms(1) by (simp add: log_numbered_def log_of_def)
qed

lemma log_numbered_snoc:
  assumes "log_numbered s" and row: "findMatch i s = Some row"
    and ev: "events s' = events s @ [e]" "e_matchId e = i" "e_seq e = Suc (m_seq row)"
    and here: "findMatch i s' = Some row'" "m_seq row' = Suc (m_seq row)"
    and there: "\<And>j. j \<noteq> i \<Longrightarrow> findMatch j s' = findMatch j s"
  shows "log_numbered s'"
  unfolding log_numbered_def
proof
  fix j
  show "map e_seq (log_of j s') =
      [1..<Suc (case findMatch j s' of None \<Rightarrow> 0 | Some r \<Rightarrow> m_seq r)]"
  proof (cases "j = i")
    case True
    have "map e_seq (log_of i s) = [1..<Suc (m_seq row)]"
      using assms(1) row by (simp add: log_numbered_def)
    with True ev here show ?thesis by (simp add: log_of_def)
  next
    case False
    with assms(1) ev there show ?thesis by (simp add: log_numbered_def log_of_def)
  qed
qed

subsection \<open>Reading the log in pages\<close>

locale paged_log =
  fixes inv :: "'s \<Rightarrow> bool"
    and log :: "'s \<Rightarrow> 'e list"
    and page_after :: "nat \<Rightarrow> nat \<Rightarrow> 's \<Rightarrow> 'e list"
    and num :: "'e \<Rightarrow> nat"
  assumes numbered: "inv s \<Longrightarrow> sorted_wrt (<) (map num (log s))"
    and page_law: "inv s \<Longrightarrow> page_after a n s = take n (filter (\<lambda>e. a < num e) (log s))"
begin

text \<open>The pages read one after the other, each from the last number of the one before, until
  one is empty.\<close>

fun read_pages :: "nat \<Rightarrow> nat \<Rightarrow> nat \<Rightarrow> 's \<Rightarrow> 'e list option" where
  "read_pages 0 n a s = None"
| "read_pages (Suc fuel) n a s =
     (case page_after a n s of
        [] \<Rightarrow> Some []
      | es \<Rightarrow> map_option (\<lambda>rest. es @ rest) (read_pages fuel n (num (last es)) s))"

lemma last_is_greatest:
  "sorted_wrt (<) (map num xs) \<Longrightarrow> x \<in> set xs \<Longrightarrow> num x \<le> num (last xs)"
  by (induction xs) (force intro: less_imp_le split: if_splits)+

lemma split_sorted:
  assumes "sorted_wrt (<) (map num es)" and "filter (\<lambda>e. a < num e) es = xs @ ys" and "xs \<noteq> []"
  shows "filter (\<lambda>e. num (last xs) < num e) es = ys"
proof -
  have sorted: "sorted_wrt (<) (map num (xs @ ys))"
    using assms(1) by (simp add: sorted_wrt_map sorted_wrt_filter flip: assms(2))
  have last: "last xs \<in> set xs" using assms(3) by simp
  then have "last xs \<in> set (filter (\<lambda>e. a < num e) es)"
    unfolding assms(2) by simp
  then have a: "a < num (last xs)" by simp
  have "sorted_wrt (<) (map num xs)"
    using sorted by (simp add: sorted_wrt_append)
  then have xs_le: "\<And>x. x \<in> set xs \<Longrightarrow> \<not> num (last xs) < num x"
    by (meson last_is_greatest linorder_not_less)
  have ys_gt: "\<And>y. y \<in> set ys \<Longrightarrow> num (last xs) < num y"
    using sorted last by (auto simp: sorted_wrt_append)
  have "filter (\<lambda>e. num (last xs) < num e) es =
      filter (\<lambda>e. num (last xs) < num e) (filter (\<lambda>e. a < num e) es)"
    using a by (auto intro: filter_cong)
  also have "\<dots> = ys"
    using xs_le ys_gt by (simp add: assms(2) filter_empty_conv filter_id_conv)
  finally show ?thesis .
qed

lemma read_pages_complete:
  assumes "inv s" and "n > 0" and "length (filter (\<lambda>e. a < num e) (log s)) < fuel"
  shows "read_pages fuel n a s = Some (filter (\<lambda>e. a < num e) (log s))"
  using assms(3)
proof (induction fuel arbitrary: a)
  case (Suc fuel)
  let ?rest = "filter (\<lambda>e. a < num e) (log s)"
  have page: "page_after a n s = take n ?rest" by (rule page_law [OF assms(1)])
  show ?case
  proof (cases "take n ?rest")
    case Nil
    with assms(2) page show ?thesis by auto
  next
    case (Cons e es)
    let ?p = "take n ?rest"
    have "filter (\<lambda>e. num (last ?p) < num e) (log s) = drop n ?rest"
      by (rule split_sorted [OF numbered [OF assms(1)], of a ?p])
        (simp, use Cons in simp)
    moreover have "length (drop n ?rest) < fuel"
      using Suc.prems assms(2) Cons by (cases ?rest) auto
    ultimately have "read_pages fuel n (num (last ?p)) s = Some (drop n ?rest)"
      using Suc.IH [of "num (last ?p)"] by simp
    with Cons page show ?thesis
      by (simp split: list.split) (metis append_Cons append_take_drop_id)
  qed
qed simp

end

interpretation event_pages: paged_log log_numbered "log_of i" "listEvents i" e_seq for i
proof unfold_locales
  fix s assume "log_numbered s"
  then obtain n where n: "map e_seq (log_of i s) = [1..<Suc n]"
    by (auto simp: log_numbered_def)
  then show "sorted_wrt (<) (map e_seq (log_of i s))"
    using sorted_wrt_upt [of 1 "Suc n"] by (simp only:)
  fix a l
  have "sorted (map e_seq (log_of i s))"
    using sorted_upt [of 1 "Suc n"] by (simp only: n)
  then have "sorted (map e_seq (filter (\<lambda>e. a < e_seq e) (log_of i s)))"
    by (simp add: sorted_map sorted_wrt_filter)
  then show "listEvents i a l s = take l (filter (\<lambda>e. a < e_seq e) (log_of i s))"
    by (simp add: listEvents_def log_of_def sort_key_id_if_sorted conj_commute
        flip: filter_filter)
qed

subsection \<open>The backups of a match\<close>

locale backup_book =
  fixes newest :: "'s \<Rightarrow> 'b list"
    and cut :: "nat \<times> nat \<Rightarrow> 's \<Rightarrow> 's"
    and point :: "'b \<Rightarrow> nat \<times> nat"
  assumes newest_sorted: "sorted_wrt (\<lambda>a b. point b \<le> point a) (newest s)"
    and newest_cut: "newest (cut p s) = filter (\<lambda>b. point b \<le> p) (newest s)"
begin

text \<open>Cutting back to the point of a backup leaves a backup of that point the newest.\<close>

lemma cut_newest:
  assumes "b \<in> set (newest s)"
  shows "\<exists>c rest. newest (cut (point b) s) = c # rest \<and> point c = point b"
proof -
  let ?kept = "filter (\<lambda>x. point x \<le> point b) (newest s)"
  have b: "b \<in> set ?kept" using assms by simp
  then obtain c rest where c: "?kept = c # rest" by (cases ?kept) auto
  have "sorted_wrt (\<lambda>a b. point b \<le> point a) ?kept"
    using newest_sorted by (rule sorted_wrt_filter)
  then have "point b \<le> point c" using b c by auto
  moreover have "c \<in> set ?kept" unfolding c by simp
  then have "point c \<le> point b" by simp
  ultimately show ?thesis using c newest_cut by auto
qed

lemma cut_forgets: "b \<in> set (newest (cut p s)) \<Longrightarrow> point b \<le> p"
  by (simp add: newest_cut)

end

definition point_of :: "backup_row \<Rightarrow> nat \<times> nat" where
  "point_of b = (b_mapNumber b, b_roundNumber b)"

lemma newest_round_le: "newest_round a \<le> newest_round b \<longleftrightarrow> point_of b \<le> point_of a"
  by (auto simp: newest_round_def point_of_def less_eq_prod_def)

interpretation match_backups: backup_book "listBackups i"
    "\<lambda>p. dropBackupsAfter i (fst p) (snd p)" point_of for i
proof unfold_locales
  fix s
  have "sorted (map newest_round (listBackups i s))"
    by (simp add: listBackups_def)
  then show "sorted_wrt (\<lambda>a b. point_of b \<le> point_of a) (listBackups i s)"
    by (simp add: sorted_map newest_round_le)
next
  fix p :: "nat \<times> nat" and s
  have "\<And>b. b_matchId b = i \<Longrightarrow>
      \<not> (b_matchId b = i \<and> (b_mapNumber b > fst p \<or> (b_mapNumber b = fst p \<and> b_roundNumber b > snd p)))
      \<longleftrightarrow> point_of b \<le> p"
    by (cases p) (auto simp: point_of_def less_eq_prod_def)
  then have "filter (\<lambda>b. b_matchId b = i) (backups (dropBackupsAfter i (fst p) (snd p) s)) =
      filter (\<lambda>b. point_of b \<le> p) (filter (\<lambda>b. b_matchId b = i) (backups s))"
    by (auto simp: dropBackupsAfter_def intro: filter_cong)
  then show "listBackups i (dropBackupsAfter i (fst p) (snd p) s) =
      filter (\<lambda>b. point_of b \<le> p) (listBackups i s)"
    by (simp add: listBackups_def filter_sort)
qed

end
