(* ===== verification/Selection.thy ===== *)
theory Selection
  imports Match_Api
begin

text \<open>
  Server selection of the orchestrator: what a provider advertises and when it can host a
  request (\<open>apps/orchestrator/src/providers/provider.ts\<close>), the provider registry
  (\<open>registry.ts\<close>, a JavaScript map read in registration order) and the ranked candidate list
  the provisioning walk goes down (\<open>selection.ts\<close>). A provider's \<open>offerings()\<close> is an external
  answer: the argument \<open>offers\<close> gives it per provider, \<open>Inl\<close> when the call rejects.
\<close>

record capabilities =
  cap_games :: "string list"
  cap_region :: string
  cap_lan :: bool
  cap_workshopMaps :: bool

record offering =
  of_capabilities :: capabilities
  of_hourlyCents :: nat
  of_available :: "int option"

record server_requirements =
  sr_game :: string
  sr_region :: "string option"
  sr_lan :: bool
  sr_workshopMaps :: bool

definition offeringMatches :: "offering \<Rightarrow> server_requirements \<Rightarrow> bool" where
  "offeringMatches ofr r =
    (let c = of_capabilities ofr in
     if sr_game r \<notin> set (cap_games c) then False
     else if sr_region r \<noteq> None \<and> Some (cap_region c) \<noteq> sr_region r then False
     else if sr_lan r \<and> \<not> cap_lan c then False
     else if sr_workshopMaps r \<and> \<not> cap_workshopMaps c then False
     else if (case of_available ofr of None \<Rightarrow> False | Some n \<Rightarrow> n \<le> 0) then False
     else True)"

subsection \<open>The registry\<close>

record provider_entry =
  pe_id :: string
  pe_drained :: bool
  pe_healthy :: bool
  pe_lastCheckedAt :: "string option"
  pe_lastError :: "string option"

type_synonym registry = "provider_entry list"

definition entry_of :: "string \<Rightarrow> registry \<Rightarrow> provider_entry option" where
  "entry_of i reg = find (\<lambda>e. pe_id e = i) reg"

text \<open>\<open>register\<close> throws on an id that is taken (\<open>None\<close>); the id's spelling is checked by the
  schema before.\<close>

definition register :: "string \<Rightarrow> registry \<Rightarrow> registry option" where
  "register i reg =
    (if entry_of i reg \<noteq> None then None
     else Some (reg @ [\<lparr>pe_id = i, pe_drained = False, pe_healthy = True,
                        pe_lastCheckedAt = None, pe_lastError = None\<rparr>]))"

definition setDrained :: "string \<Rightarrow> bool \<Rightarrow> registry \<Rightarrow> api_error + registry" where
  "setDrained i drained reg =
    (case entry_of i reg of
       None \<Rightarrow> Inl (refuse Not_found)
     | Some _ \<Rightarrow> Inr (update_first (\<lambda>e. pe_id e = i) (\<lambda>e. e\<lparr>pe_drained := drained\<rparr>) reg))"

definition observe :: "string \<Rightarrow> string \<Rightarrow> string option \<Rightarrow> registry \<Rightarrow> registry" where
  "observe i at err reg =
     update_first (\<lambda>e. pe_id e = i)
       (\<lambda>e. e\<lparr>pe_lastCheckedAt := Some at, pe_lastError := err, pe_healthy := (err = None)\<rparr>) reg"

definition unregister :: "string \<Rightarrow> registry \<Rightarrow> bool \<times> registry" where
  "unregister i reg = (entry_of i reg \<noteq> None, filter (\<lambda>e. pe_id e \<noteq> i) reg)"

subsection \<open>Candidates\<close>

definition SIM_PROVIDER_ID :: string where "SIM_PROVIDER_ID = ''sim''"

record candidate =
  ca_provider :: string
  ca_offering :: offering

text \<open>The two orderings as sort keys: the smaller key allocates first.\<close>

definition cheapestSuitable :: "candidate \<Rightarrow> nat \<times> nat" where
  "cheapestSuitable c = (0, of_hourlyCents (ca_offering c))"

definition lanFirst :: "candidate \<Rightarrow> nat \<times> nat" where
  "lanFirst c = (if cap_lan (of_capabilities (ca_offering c)) then 0 else 1,
                 of_hourlyCents (ca_offering c))"

definition requirementsOf :: "match_request \<Rightarrow> server_requirements" where
  "requirementsOf r = \<lparr>sr_game = mr_game r, sr_region = rq_region (mr_requirements r),
     sr_lan = rq_lan (mr_requirements r),
     sr_workshopMaps = list_ex (\<lambda>m. take 9 (mp_map m) = ''workshop/'') (mr_maps r)\<rparr>"

definition eligibleProviders :: "registry \<Rightarrow> match_request \<Rightarrow> string list" where
  "eligibleProviders reg r =
    (let all = filter (\<lambda>e. \<not> pe_drained e) reg in
     case rq_provider (mr_requirements r) of
       Some p \<Rightarrow> map pe_id (filter (\<lambda>e. pe_id e = p) all)
     | None \<Rightarrow>
         if rq_simulated (mr_requirements r)
         then map pe_id (filter (\<lambda>e. pe_id e = SIM_PROVIDER_ID) all)
         else
           (let real = filter (\<lambda>e. pe_id e \<noteq> SIM_PROVIDER_ID) all
            in map pe_id (if length real > 0 then real else all)))"

definition orderingFor :: "match_request \<Rightarrow> candidate \<Rightarrow> nat \<times> nat" where
  "orderingFor r =
    (if rq_lan (mr_requirements r) \<or> rq_preferLan (mr_requirements r)
     then lanFirst else cheapestSuitable)"

record selection =
  sl_candidates :: "candidate list"
  sl_failures :: "string list"
  sl_asked :: nat

type_synonym offers = "string \<Rightarrow> string + offering list"

definition suitable :: "offers \<Rightarrow> server_requirements \<Rightarrow> string \<Rightarrow> candidate list" where
  "suitable offers req p =
    (case offers p of
       Inl _ \<Rightarrow> []
     | Inr os \<Rightarrow> map (\<lambda>ofr. \<lparr>ca_provider = p, ca_offering = ofr\<rparr>)
                   (filter (\<lambda>ofr. offeringMatches ofr req) os))"

text \<open>The pools in provider order, each offering with its provider's and its own index, sorted by
  the ordering and then by the two indices.\<close>

definition ranked_pool :: "offers \<Rightarrow> server_requirements \<Rightarrow> string list \<Rightarrow>
    (candidate \<times> nat \<times> nat) list" where
  "ranked_pool offers req providers =
     concat (map (\<lambda>(pi, p). map (\<lambda>(oi, c). (c, pi, oi))
         (zip [0..<length (suitable offers req p)] (suitable offers req p)))
       (zip [0..<length providers] providers))"

definition selectCandidates :: "registry \<Rightarrow> match_request \<Rightarrow> offers \<Rightarrow> selection" where
  "selectCandidates reg r offers =
    (let providers = eligibleProviders reg r; req = requirementsOf r; ordering = orderingFor r
     in \<lparr>sl_candidates = map fst (sort_key (\<lambda>(c, pi, oi). (ordering c, pi, oi))
            (ranked_pool offers req providers)),
         sl_failures = filter (\<lambda>p. case offers p of Inl _ \<Rightarrow> True | Inr _ \<Rightarrow> False) providers,
         sl_asked = length providers\<rparr>)"

text \<open>What the calls taught the registry: every provider asked is observed, in order.\<close>

definition observed_by_selection :: "string \<Rightarrow> match_request \<Rightarrow> offers \<Rightarrow> registry \<Rightarrow> registry" where
  "observed_by_selection at r offers reg =
     fold (\<lambda>p. observe p at (case offers p of Inl err \<Rightarrow> Some err | Inr _ \<Rightarrow> None))
       (eligibleProviders reg r) reg"

subsection \<open>The candidate list\<close>

lemma offeringMatches_iff:
  "offeringMatches ofr r \<longleftrightarrow>
     sr_game r \<in> set (cap_games (of_capabilities ofr)) \<and>
     (\<forall>reg. sr_region r = Some reg \<longrightarrow> cap_region (of_capabilities ofr) = reg) \<and>
     (sr_lan r \<longrightarrow> cap_lan (of_capabilities ofr)) \<and>
     (sr_workshopMaps r \<longrightarrow> cap_workshopMaps (of_capabilities ofr)) \<and>
     (\<forall>n. of_available ofr = Some n \<longrightarrow> n > 0)"
  by (auto simp: offeringMatches_def Let_def split: option.splits)

lemma indexed_fst: "map fst (map (\<lambda>(oi, c). (c, a, oi)) (zip [0..<length xs] xs)) = xs"
proof -
  have "map fst (map (\<lambda>(oi, c). (c, a, oi)) (zip [0..<length xs] xs)) =
      map snd (zip [0..<length xs] xs)"
    unfolding map_map by (rule map_cong) auto
  then show ?thesis by simp
qed

lemma suitable_iff:
  "c \<in> set (suitable offers req p) \<longleftrightarrow> ca_provider c = p \<and>
     (\<exists>os. offers p = Inr os \<and> ca_offering c \<in> set os \<and> offeringMatches (ca_offering c) req)"
  by (cases "offers p"; cases c) (auto simp: suitable_def)

lemma ranked_pool_fst:
  "map fst (ranked_pool offers req ps) = concat (map (suitable offers req) ps)"
proof -
  have "map fst (ranked_pool offers req ps) =
      concat (map (\<lambda>(pi, p). suitable offers req p) (zip [0..<length ps] ps))"
    unfolding ranked_pool_def map_concat map_map
    by (rule arg_cong [where f = concat], rule map_cong [OF refl])
      (auto simp: indexed_fst simp del: map_map)
  also have "map (\<lambda>(pi, p). suitable offers req p) (zip [0..<length ps] ps) =
      map (suitable offers req) (map snd (zip [0..<length ps] ps))"
    unfolding map_map by (rule map_cong [OF refl]) auto
  finally show ?thesis by simp
qed

lemma candidates_set:
  "set (sl_candidates (selectCandidates reg r offers)) =
     {c. ca_provider c \<in> set (eligibleProviders reg r) \<and>
         (\<exists>os. offers (ca_provider c) = Inr os \<and> ca_offering c \<in> set os \<and>
               offeringMatches (ca_offering c) (requirementsOf r))}"
proof -
  have "set (sl_candidates (selectCandidates reg r offers)) =
      set (map fst (ranked_pool offers (requirementsOf r) (eligibleProviders reg r)))"
    by (simp add: selectCandidates_def Let_def)
  also have "\<dots> = (\<Union>p \<in> set (eligibleProviders reg r). set (suitable offers (requirementsOf r) p))"
    by (simp add: ranked_pool_fst)
  finally show ?thesis
    by (auto simp: suitable_iff)
qed

lemma candidates_sorted:
  "sorted_wrt (\<lambda>a b. orderingFor r a \<le> orderingFor r b)
     (sl_candidates (selectCandidates reg r offers))"
proof -
  let ?k = "\<lambda>(c, pi, oi). (orderingFor r c, pi :: nat, oi :: nat)"
  let ?xs = "sort_key ?k (ranked_pool offers (requirementsOf r) (eligibleProviders reg r))"
  have "sorted (map ?k ?xs)" by simp
  then have "sorted_wrt (\<lambda>a b. ?k a \<le> ?k b) ?xs" by (simp add: sorted_map)
  then have "sorted_wrt (\<lambda>a b. orderingFor r (fst a) \<le> orderingFor r (fst b)) ?xs"
    by (rule sorted_wrt_mono_rel [rotated]) (auto simp: less_eq_prod_def less_prod_def)
  then show ?thesis
    by (simp add: selectCandidates_def Let_def sorted_wrt_map)
qed

lemma eligible_registered:
  "p \<in> set (eligibleProviders reg r) \<Longrightarrow> \<exists>e \<in> set reg. pe_id e = p \<and> \<not> pe_drained e"
  by (auto simp: eligibleProviders_def Let_def split: option.splits if_splits)

subsection \<open>Properties of the selection\<close>

text \<open>The candidates of a request are exactly the offerings of the providers that are asked, that
  answered and whose offering can host the request; dearer ones never come before cheaper ones
  (with LAN offerings first when LAN is wanted).\<close>

theorem candidates_exact_and_ranked:
  "set (sl_candidates (selectCandidates reg r offers)) =
     {c. ca_provider c \<in> set (eligibleProviders reg r) \<and>
         (\<exists>os. offers (ca_provider c) = Inr os \<and> ca_offering c \<in> set os \<and>
               offeringMatches (ca_offering c) (requirementsOf r))} \<and>
   sorted_wrt (\<lambda>a b. orderingFor r a \<le> orderingFor r b) (sl_candidates (selectCandidates reg r offers))"
  by (simp only: candidates_set candidates_sorted simp_thms)



text \<open>With every real provider drained, whoever is asked for such a request is the simulator.\<close>

lemma all_drained_falls_to_sim:
  assumes "\<forall>en \<in> set reg. pe_id en \<noteq> SIM_PROVIDER_ID \<longrightarrow> pe_drained en"
    and "en \<in> set reg" and "pe_id en = SIM_PROVIDER_ID" and "\<not> pe_drained en"
    and "rq_provider (mr_requirements r) = None" and "\<not> rq_simulated (mr_requirements r)"
  shows "SIM_PROVIDER_ID \<in> set (eligibleProviders reg r)"
proof -
  have "filter (\<lambda>en. pe_id en \<noteq> SIM_PROVIDER_ID) (filter (\<lambda>en. \<not> pe_drained en) reg) = []"
    using assms(1) by (auto simp: filter_empty_conv)
  then show ?thesis
    using assms(2-) by (force simp: eligibleProviders_def Let_def simp del: filter_filter)
qed

end
