(* ===== verification/Machine_World.thy ===== *)
theory Machine_World
  imports Store_Laws Selection
begin

text \<open>
  The world the match machine (\<open>apps/orchestrator/src/match/machine.ts\<close>) runs in: the
  closure of \<open>createMatches\<close> as a record (runtimes, attribution, the queued steps of the
  chains, the store, the registry, the clock), the outside as an argument \<open>env\<close>, and the
  effects on it as a trace.

  \<^item> \<open>env\<close> answers every call that leaves the process. An answer may depend on everything
    that left it before (the trace), so nothing is assumed of a provider, a server's channel or
    the key service; an answer \<open>Inl\<close> is a rejection. Random identifiers and secrets are drawn
    by a counter.
  \<^item> Everything about one match runs on that match's chain, one step at a time, so a step is
    one computation of the state monad. A step queued behind the running one is an entry of
    \<open>w_queue\<close>.
  \<^item> The source passes a copy of the match's row around and keeps it equal to the stored row
    (\<open>Object.assign\<close> after every write). The model reads the row again where it is used.
\<close>

subsection \<open>The runtime of a match\<close>

datatype timer_name = T_allocate | T_boot | T_join | T_recovery | T_heartbeat | T_ttl | T_demo

type_synonym server_ref = "string \<times> string"

record runtime =
  rt_timers :: "timer_name \<Rightarrow> instant option"
  rt_presence :: "(string \<times> player) list"
  rt_known :: "(string \<times> roster_entry) list"
  rt_seen :: "(server_ref \<times> nat) list"
  rt_currentMap :: nat
  rt_paused :: bool
  rt_lastSeenWrittenAt :: instant
  rt_restoring :: "(nat \<times> nat) option"
  rt_recovering :: bool
  rt_replacementReady :: bool
  rt_resumePending :: "string option"
  rt_announced :: nat
  rt_uploaded :: nat
  rt_awaitingDemo :: bool
  rt_seriesEndReason :: "end_reason option"
  rt_engine :: "engine_game option"

definition new_runtime :: "match_row \<Rightarrow> runtime" where
  "new_runtime row = \<lparr>rt_timers = (\<lambda>_. None), rt_presence = [],
     rt_known = fold (\<lambda>p. map_set (re_steamId64 p) p) (roster_of (m_request row)) [],
     rt_seen = [], rt_currentMap = 1, rt_paused = False, rt_lastSeenWrittenAt = 0,
     rt_restoring = None, rt_recovering = False, rt_replacementReady = False,
     rt_resumePending = None, rt_announced = 0, rt_uploaded = 0, rt_awaitingDemo = False,
     rt_seriesEndReason = None, rt_engine = None\<rparr>"

subsection \<open>The outside\<close>

record deadlines =
  dl_allocateMs :: nat
  dl_bootMs :: nat
  dl_joinMs :: nat
  dl_recoveryMs :: nat
  dl_demoMs :: nat
  dl_heartbeatTimeoutMs :: nat

definition DEFAULT_MATCH_DEADLINES :: deadlines where
  "DEFAULT_MATCH_DEADLINES = \<lparr>dl_allocateMs = 2 * 60000, dl_bootMs = 3 * 60000,
     dl_joinMs = 20 * 60000, dl_recoveryMs = 5 * 60000, dl_demoMs = 6 * 60000,
     dl_heartbeatTimeoutMs = 3 * 10000\<rparr>"

definition BACKUPS_KEPT_PER_MATCH :: nat where "BACKUPS_KEPT_PER_MATCH = 8"

definition LAST_SEEN_WRITE_INTERVAL_MS :: int where "LAST_SEEN_WRITE_INTERVAL_MS = 5000"

definition BACKUP_RESTORED_EVENT :: string where "BACKUP_RESTORED_EVENT = ''backup_restored''"

record allocated =
  al_serverId :: string
  al_connect :: "server_address option"
  al_tv :: "server_tv option"
  al_nodeId :: "string option"

datatype lifecycle = Lc_allocated | Lc_starting | Lc_running | Lc_stopped | Lc_gone

record server_status =
  ss_state :: lifecycle
  ss_detail :: "string option"
  ss_connect :: "server_address option"
  ss_tv :: "server_tv option"

text \<open>A server's channel, with the optional verbs it has.\<close>

record channel =
  ch_release :: bool
  ch_playerCommand :: bool
  ch_lastDetail :: "string option"

record api_key =
  ak_scopes :: "api_scope list"
  ak_fleetWebhook :: "(string \<times> string) option"      \<comment> \<open>url, secret id\<close>
  ak_webhookSecrets :: "string list"

datatype frame =
    Frame_event event_row
  | Frame_presence "player list"
  | Frame_command_result command_result

datatype tap_code = Tap_not_live | Tap_unknown_command | Tap_unavailable | Tap_other string

record tap_outcome =
  to_status :: string
  to_code :: "tap_code option"

datatype effect =
    Eff_offerings ident
  | Eff_allocate string ident ident
  | Eff_configure server_ref ident
  | Eff_restore server_ref nat nat
  | Eff_start server_ref
  | Eff_status server_ref
  | Eff_stop server_ref
  | Eff_deallocate server_ref
  | Eff_release server_ref string
  | Eff_detach server_ref
  | Eff_send server_ref match_command
  | Eff_player_command server_ref string
  | Eff_frame ident frame
  | Eff_close ident
  | Eff_tick ident gameserver_event
  | Eff_kick_webhooks
  | Eff_budget_announce ident

type_synonym history = "effect list"

record env =
  en_deadlines :: deadlines
  en_gamemodes :: "manifest list"
  en_latency :: "history \<Rightarrow> nat"
  en_uuid :: "nat \<Rightarrow> ident"
  en_secret :: "nat \<Rightarrow> string"
  en_hashToken :: "string \<Rightarrow> string"
  en_sha256Head :: "string \<Rightarrow> nat"
  en_requestHash :: "match_request \<Rightarrow> string"
  en_offers :: "history \<Rightarrow> offers"
  en_allocate :: "history \<Rightarrow> string \<Rightarrow> string + allocated"
  en_configure :: "history \<Rightarrow> server_ref \<Rightarrow> string + unit"
  en_has_restore :: "string \<Rightarrow> bool"
  en_restore :: "history \<Rightarrow> server_ref \<Rightarrow> string + bool"
  en_start :: "history \<Rightarrow> server_ref \<Rightarrow> string + unit"
  en_status :: "history \<Rightarrow> server_ref \<Rightarrow> string + server_status"
  en_channel :: "history \<Rightarrow> server_ref \<Rightarrow> channel option"
  en_send :: "history \<Rightarrow> server_ref \<Rightarrow> string + command_status \<times> api_error_code option"
  en_player_command :: "history \<Rightarrow> server_ref \<Rightarrow> string + tap_outcome"
  en_sim :: "history \<Rightarrow> server_ref \<Rightarrow> string option"
  en_key :: "history \<Rightarrow> ident \<Rightarrow> string + api_key option"
  en_budget_check :: "history \<Rightarrow> ident \<Rightarrow> match_request \<Rightarrow> nat \<Rightarrow> api_error option"

text \<open>The steps a chain may have queued: a provisioning walk, a replacement walk, a deadline that
  fired, a fact of the fleet, and an end decided on before the step (by the operator, or at a
  restart).\<close>

datatype chain_step =
    Step_provision
  | Step_recover
  | Step_deadline timer_name
  | Step_emit payload
  | Step_end match_state ended_reason fleet_server_state

record world =
  w_now :: instant
  w_store :: store
  w_registry :: registry
  w_runtimes :: "ident \<Rightarrow> runtime option"
  w_attribution :: "server_ref \<Rightarrow> ident option"
  w_queue :: "(ident \<times> chain_step) list"
  w_closed :: bool
  w_fresh :: nat
  w_trace :: history

type_synonym 'a step = "(world, 'a) state"

definition initial_world :: "string \<Rightarrow> registry \<Rightarrow> instant \<Rightarrow> world" where
  "initial_world d reg t = \<lparr>w_now = t, w_store = createMemoryMatchStore d, w_registry = reg,
     w_runtimes = (\<lambda>_. None), w_attribution = (\<lambda>_. None), w_queue = [], w_closed = False,
     w_fresh = 0, w_trace = []\<rparr>"

subsection \<open>Primitive steps\<close>

definition now :: "instant step" where
  "now = gets w_now"

definition perform :: "effect \<Rightarrow> unit step" where
  "perform eff = modify (\<lambda>w. w\<lparr>w_trace := eff # w_trace w\<rparr>)"

text \<open>A call that leaves the process: it is recorded, takes its time and answers from the
  history before it.\<close>

definition call :: "env \<Rightarrow> effect \<Rightarrow> (history \<Rightarrow> 'a) \<Rightarrow> 'a step" where
  "call e eff answer = do {
     h \<leftarrow> gets w_trace;
     modify (\<lambda>w. w\<lparr>w_trace := eff # h, w_now := w_now w + int (en_latency e h)\<rparr>);
     State_Monad.return (answer h)
   }"

definition randomUUID :: "env \<Rightarrow> ident step" where
  "randomUUID e = do {
     n \<leftarrow> gets w_fresh;
     modify (\<lambda>w. w\<lparr>w_fresh := Suc n\<rparr>);
     State_Monad.return (en_uuid e n)
   }"

definition mintSecret :: "env \<Rightarrow> string step" where
  "mintSecret e = do {
     n \<leftarrow> gets w_fresh;
     modify (\<lambda>w. w\<lparr>w_fresh := Suc n\<rparr>);
     State_Monad.return (en_secret e n)
   }"

definition the_match :: "ident \<Rightarrow> match_row option step" where
  "the_match mid = gets (\<lambda>w. findMatch mid (w_store w))"

text \<open>The rest of a step on the stored row. The step exists only because the row did
  (\<open>enqueue\<close> throws on a row that vanished) and rows are never deleted, so the first branch of
  \<open>with_match\<close> is the throw.\<close>

definition with_match :: "ident \<Rightarrow> 'a \<Rightarrow> (match_row \<Rightarrow> 'a step) \<Rightarrow> 'a step" where
  "with_match mid d f = do {
     r \<leftarrow> the_match mid;
     case r of None \<Rightarrow> State_Monad.return d | Some row \<Rightarrow> f row
   }"

definition on_store :: "(store \<Rightarrow> store) \<Rightarrow> unit step" where
  "on_store f = modify (\<lambda>w. w\<lparr>w_store := f (w_store w)\<rparr>)"

definition on_store_opt :: "(store \<Rightarrow> store option) \<Rightarrow> unit step" where
  "on_store_opt f = on_store (\<lambda>s. case f s of None \<Rightarrow> s | Some s' \<Rightarrow> s')"

definition store_updateMatch :: "ident \<Rightarrow> match_patch \<Rightarrow> unit step" where
  "store_updateMatch mid p = on_store_opt (updateMatch mid p)"

definition store_updateServer :: "ident \<Rightarrow> server_patch \<Rightarrow> unit step" where
  "store_updateServer sid p = on_store_opt (updateServer sid p)"

definition store_insertServer :: "server_row \<Rightarrow> unit step" where
  "store_insertServer row = on_store (insertServer row)"

definition currentServer :: "match_row \<Rightarrow> server_row option step" where
  "currentServer row =
    (case m_fleetServerId row of
       None \<Rightarrow> State_Monad.return None
     | Some fid \<Rightarrow> gets (\<lambda>w. findServer fid (w_store w)))"

subsection \<open>Runtimes and timers\<close>

definition runtimeOf :: "match_row \<Rightarrow> runtime step" where
  "runtimeOf row = do {
     known \<leftarrow> gets (\<lambda>w. w_runtimes w (m_id row));
     case known of
       Some rt \<Rightarrow> State_Monad.return rt
     | None \<Rightarrow> do {
         modify (\<lambda>w. w\<lparr>w_runtimes := (w_runtimes w)(m_id row := Some (new_runtime row))\<rparr>);
         State_Monad.return (new_runtime row)
       }
   }"

definition on_runtime :: "match_row \<Rightarrow> (runtime \<Rightarrow> runtime) \<Rightarrow> unit step" where
  "on_runtime row f = do {
     rt \<leftarrow> runtimeOf row;
     modify (\<lambda>w. w\<lparr>w_runtimes := (w_runtimes w)(m_id row := Some (f rt))\<rparr>)
   }"

text \<open>\<open>runtimes.get(row.id)?.\<close>: nothing happens when there is none.\<close>

definition on_runtime_if_any :: "ident \<Rightarrow> (runtime \<Rightarrow> runtime) \<Rightarrow> unit step" where
  "on_runtime_if_any mid f =
     modify (\<lambda>w. w\<lparr>w_runtimes := (w_runtimes w)(mid := map_option f (w_runtimes w mid))\<rparr>)"

definition drop_runtime :: "ident \<Rightarrow> unit step" where
  "drop_runtime mid = modify (\<lambda>w. w\<lparr>w_runtimes := (w_runtimes w)(mid := None)\<rparr>)"

definition setTimer :: "match_row \<Rightarrow> timer_name \<Rightarrow> instant \<Rightarrow> unit step" where
  "setTimer row name at =
     on_runtime row (\<lambda>rt. rt\<lparr>rt_timers := (rt_timers rt)(name := Some at)\<rparr>)"

definition cancelTimer :: "ident \<Rightarrow> timer_name \<Rightarrow> unit step" where
  "cancelTimer mid name =
     on_runtime_if_any mid (\<lambda>rt. rt\<lparr>rt_timers := (rt_timers rt)(name := None)\<rparr>)"

definition cancelTimers :: "ident \<Rightarrow> unit step" where
  "cancelTimers mid = on_runtime_if_any mid (\<lambda>rt. rt\<lparr>rt_timers := (\<lambda>_. None)\<rparr>)"

definition enqueue_step :: "match_row \<Rightarrow> chain_step \<Rightarrow> unit step" where
  "enqueue_step row st = do {
     _ \<leftarrow> runtimeOf row;
     modify (\<lambda>w. w\<lparr>w_queue := w_queue w @ [(m_id row, st)]\<rparr>)
   }"

subsection \<open>The durable log, the stream, the webhooks\<close>

definition destinationFor :: "env \<Rightarrow> match_row \<Rightarrow> payload \<Rightarrow> (string \<times> string) step" where
  "destinationFor e row pl =
    (let own = (cb_webhookUrl (mr_callbacks (m_request row)),
                cb_webhookSecretId (mr_callbacks (m_request row)))
     in if \<not> is_fleet_fact pl then State_Monad.return own
        else do {
          h \<leftarrow> gets w_trace;
          State_Monad.return
            (case en_key e h (m_keyId row) of
               Inl _ \<Rightarrow> own
             | Inr None \<Rightarrow> own
             | Inr (Some key) \<Rightarrow>
                 (case ak_fleetWebhook key of
                    None \<Rightarrow> own
                  | Some fleet \<Rightarrow>
                      if snd fleet \<in> set (ak_webhookSecrets key) then fleet else own))
        })"

definition store_appendEvent ::
  "ident \<Rightarrow> ident \<times> instant \<times> payload \<Rightarrow> instant \<Rightarrow> match_patch \<Rightarrow> event_row option step" where
  "store_appendEvent mid ev at p = do {
     w \<leftarrow> gets (\<lambda>w. w);
     case appendEvent mid ev at p (w_store w) of
       None \<Rightarrow> State_Monad.return None
     | Some (row, s') \<Rightarrow> do {
         modify (\<lambda>w. w\<lparr>w_store := s'\<rparr>);
         State_Monad.return (Some row)
       }
   }"

definition emit :: "env \<Rightarrow> ident \<Rightarrow> payload \<Rightarrow> match_patch \<Rightarrow> unit step" where
  "emit e mid pl p = do {
     at \<leftarrow> now;
     d \<leftarrow> randomUUID e;
     stored \<leftarrow> store_appendEvent mid (d, at, pl) at p;
     case stored of
       None \<Rightarrow> skip
     | Some event \<Rightarrow> do {
         perform (Eff_frame mid (Frame_event event));
         with_match mid () (\<lambda>row.
           if m_webhooksStoppedAt row \<noteq> None then skip
           else do {
             (url, secretId) \<leftarrow> destinationFor e row pl;
             on_store (insertDelivery
               \<lparr>d_deliveryId = e_deliveryId event, d_matchId = mid, d_seq = e_seq event,
                d_url = url, d_secretId = secretId, d_status = Dl_pending, d_attempt = 0,
                d_nextAttemptAt = Some at, d_lastStatus = None, d_lastError = None,
                d_deliveredAt = None, d_createdAt = at, d_updatedAt = at\<rparr>);
             perform Eff_kick_webhooks
           })
       }
   }"

definition presenceFrame :: "match_row \<Rightarrow> unit step" where
  "presenceFrame row = do {
     rt \<leftarrow> runtimeOf row;
     perform (Eff_frame (m_id row) (Frame_presence (map snd (rt_presence rt))))
   }"

subsection \<open>State, manifest, simulator\<close>

definition setState :: "ident \<Rightarrow> match_state \<Rightarrow> match_patch \<Rightarrow> unit step" where
  "setState mid st extra = do {
     at \<leftarrow> now;
     store_updateMatch mid
       ([Set_state st, Set_stateChangedAt at, Set_updatedAt at] @ extra)
   }"

text \<open>\<open>manifestOf\<close> throws for a gamemode outside the catalog; a match is only created for a
  gamemode in it, and the catalog does not change while the process runs.\<close>

definition manifestOf :: "env \<Rightarrow> match_row \<Rightarrow> manifest option" where
  "manifestOf e row = find (\<lambda>m. gm_id m = m_gamemode row) (en_gamemodes e)"

definition records_demo :: "env \<Rightarrow> match_row \<Rightarrow> bool" where
  "records_demo e row = (case manifestOf e row of None \<Rightarrow> False | Some m \<Rightarrow> gm_records_demo m)"

definition registered :: "string \<Rightarrow> bool step" where
  "registered p = gets (\<lambda>w. entry_of p (w_registry w) \<noteq> None)"

definition simOf :: "env \<Rightarrow> match_row \<Rightarrow> string option step" where
  "simOf e row =
    (case (m_provider row, m_serverId row) of
       (Some p, Some sid) \<Rightarrow> do {
         known \<leftarrow> registered p;
         h \<leftarrow> gets w_trace;
         State_Monad.return
           (case (if known then en_sim e h (p, sid) else None) of
              Some status \<Rightarrow> Some status
            | None \<Rightarrow> m_sim row)
       }
     | _ \<Rightarrow> State_Monad.return (m_sim row))"

definition isSimulated :: "match_row \<Rightarrow> bool" where
  "isSimulated row \<longleftrightarrow> mr_simulation (m_request row) \<noteq> None"

subsection \<open>The ledger\<close>

text \<open>Stopping a server: told over the link first, then stopped, deallocated and detached. Every
  rejection on the way is reported and passed over.\<close>

definition stop_server :: "env \<Rightarrow> server_ref \<Rightarrow> string \<Rightarrow> unit step" where
  "stop_server e ref reason = do {
     h \<leftarrow> gets w_trace;
     (case en_channel e h ref of
        Some ch \<Rightarrow> only_if (ch_release ch) (call e (Eff_release ref reason) (\<lambda>_. ()))
      | None \<Rightarrow> skip);
     call e (Eff_stop ref) (\<lambda>_. ());
     call e (Eff_deallocate ref) (\<lambda>_. ());
     perform (Eff_detach ref)
   }"

definition forget_attribution :: "server_ref \<Rightarrow> unit step" where
  "forget_attribution ref =
     modify (\<lambda>w. w\<lparr>w_attribution := (w_attribution w)(ref := None)\<rparr>)"

definition set_attribution :: "server_ref \<Rightarrow> ident \<Rightarrow> unit step" where
  "set_attribution ref mid =
     modify (\<lambda>w. w\<lparr>w_attribution := (w_attribution w)(ref := Some mid)\<rparr>)"

definition closeRow ::
  "env \<Rightarrow> server_row \<Rightarrow> fleet_server_state \<Rightarrow> string \<Rightarrow> bool \<Rightarrow> unit step" where
  "closeRow e server st reason deallocate = do {
     known \<leftarrow> registered (s_provider server);
     (case s_serverId server of
        None \<Rightarrow> skip
      | Some sid \<Rightarrow> do {
          only_if (deallocate \<and> known) (stop_server e (s_provider server, sid) reason);
          forget_attribution (s_provider server, sid)
        });
     unless (s_releasedAt server \<noteq> None) (do {
       t \<leftarrow> now;
       store_updateServer (s_id server)
         [Srv_state st, Srv_releasedAt (Some t), Srv_releasedReason (Some reason)]
     })
   }"

definition deallocateQuietly :: "env \<Rightarrow> server_ref \<Rightarrow> unit step" where
  "deallocateQuietly e ref = call e (Eff_deallocate ref) (\<lambda>_. ())"

subsection \<open>Demos\<close>

definition demoOf :: "env \<Rightarrow> match_row \<Rightarrow> demo_outcome step" where
  "demoOf e row = do {
     rt \<leftarrow> gets (\<lambda>w. w_runtimes w (m_id row));
     State_Monad.return
       (matchDemoOutcome (records_demo e row) (hasDemoUploadUrl (mr_callbacks (m_request row)))
          (case rt of None \<Rightarrow> 0 | Some r \<Rightarrow> rt_announced r)
          (case rt of None \<Rightarrow> 0 | Some r \<Rightarrow> rt_uploaded r))
   }"

definition demoPending :: "env \<Rightarrow> match_row \<Rightarrow> runtime \<Rightarrow> bool" where
  "demoPending e row rt \<longleftrightarrow>
     m_state row \<noteq> Ready \<and> records_demo e row \<and>
     hasDemoUploadUrl (mr_callbacks (m_request row)) \<and> rt_announced rt < rt_currentMap rt"

subsection \<open>The end\<close>

fun match_state_name :: "match_state \<Rightarrow> string" where
  "match_state_name Pending = ''pending''"
| "match_state_name Allocating = ''allocating''"
| "match_state_name Configuring = ''configuring''"
| "match_state_name Ready = ''ready''"
| "match_state_name Live = ''live''"
| "match_state_name Recovering = ''recovering''"
| "match_state_name Ended = ''ended''"
| "match_state_name Failed = ''failed''"
| "match_state_name Cancelled = ''cancelled''"

fun ended_kind_name :: "ended_kind \<Rightarrow> string" where
  "ended_kind_name Completed = ''completed''"
| "ended_kind_name Force_ended = ''force_ended''"
| "ended_kind_name Kind_cancelled = ''cancelled''"
| "ended_kind_name Ttl_expired = ''ttl_expired''"
| "ended_kind_name Server_lost = ''server_lost''"
| "ended_kind_name Allocation_failed = ''allocation_failed''"
| "ended_kind_name Provider_error = ''provider_error''"

definition end_match ::
  "env \<Rightarrow> ident \<Rightarrow> match_state \<Rightarrow> ended_reason \<Rightarrow> fleet_server_state \<Rightarrow> unit step" where
  "end_match e mid st reason rowState = with_match mid () (\<lambda>row.
     if isTerminalMatchState (m_state row) then skip
     else do {
       cancelTimers mid;
       sim \<leftarrow> simOf e row;
       server \<leftarrow> currentServer row;
       (case server of
          None \<Rightarrow> skip
        | Some srv \<Rightarrow> closeRow e srv rowState
            (match_state_name st @ '': '' @ ended_kind_name (er_kind reason)) True);
       at \<leftarrow> now;
       demo \<leftarrow> demoOf e row;
       emit e mid
         (if st = Failed then Match_failed reason else Match_ended st reason demo)
         [Set_state st, Set_stateChangedAt at, Set_updatedAt at, Set_endedAt (Some at),
          Set_endedReason (Some reason), Set_sim sim];
       perform (Eff_close mid);
       drop_runtime mid
     })"

definition fail_match :: "env \<Rightarrow> ident \<Rightarrow> ended_kind \<Rightarrow> string \<Rightarrow> unit step" where
  "fail_match e mid kind detail =
     end_match e mid Failed \<lparr>er_kind = kind, er_detail = Some detail\<rparr> Fs_failed"

end
