(* ===== verification/Machine.thy ===== *)
theory Machine
  imports Machine_World
begin

text \<open>
  The match machine, \<open>apps/orchestrator/src/match/machine.ts\<close>, function by function: the
  deadlines and what each does when it fires, the loss detector, the provisioning walk, the
  recovery of a lost server, the events of a server, and the doors (create, cancel, command,
  player tokens, widget taps, the reaper's and the fleet's). \<open>composeAssign\<close> is
  \<open>apps/orchestrator/src/link/assign.ts\<close>, \<open>matchView\<close> is \<open>views.ts\<close>.
\<close>

subsection \<open>Deadlines\<close>

definition probeable :: "match_state \<Rightarrow> bool" where
  "probeable st \<longleftrightarrow> st = Configuring \<or> st = Ready \<or> st = Live \<or> st = Recovering"

definition armTtl :: "match_row \<Rightarrow> unit step" where
  "armTtl row = setTimer row T_ttl (m_expiresAt row)"

definition armAllocate :: "env \<Rightarrow> match_row \<Rightarrow> unit step" where
  "armAllocate e row =
     setTimer row T_allocate (m_stateChangedAt row + int (dl_allocateMs (en_deadlines e)))"

definition armBoot :: "env \<Rightarrow> match_row \<Rightarrow> unit step" where
  "armBoot e row = setTimer row T_boot (m_stateChangedAt row + int (dl_bootMs (en_deadlines e)))"

definition armJoin :: "env \<Rightarrow> match_row \<Rightarrow> unit step" where
  "armJoin e row = setTimer row T_join (m_stateChangedAt row + int (dl_joinMs (en_deadlines e)))"

definition armRecovery :: "env \<Rightarrow> match_row \<Rightarrow> unit step" where
  "armRecovery e row =
     setTimer row T_recovery (m_stateChangedAt row + int (dl_recoveryMs (en_deadlines e)))"

definition armDemo :: "env \<Rightarrow> match_row \<Rightarrow> instant \<Rightarrow> unit step" where
  "armDemo e row seriesEndedAt =
     setTimer row T_demo (seriesEndedAt + int (dl_demoMs (en_deadlines e)))"

definition armHeartbeat :: "env \<Rightarrow> match_row \<Rightarrow> unit step" where
  "armHeartbeat e row = do {
     rt \<leftarrow> runtimeOf row;
     if rt_paused rt then skip
     else do {
       t \<leftarrow> now;
       setTimer row T_heartbeat (t + int (dl_heartbeatTimeoutMs (en_deadlines e)))
     }
   }"

text \<open>How a finished series ends its match.\<close>

definition apostrophe :: string where
  "apostrophe = [char_of (226 :: nat), char_of (128 :: nat), char_of (153 :: nat)]"

definition completedBy :: "end_reason option \<Rightarrow> ended_reason" where
  "completedBy reason = \<lparr>er_kind = Completed, er_detail =
     map_option (\<lambda>r. ''the mode'' @ apostrophe @ ''s length: '' @ end_reason_name r) reason\<rparr>"

fun lifecycle_name :: "lifecycle \<Rightarrow> string" where
  "lifecycle_name Lc_allocated = ''allocated''"
| "lifecycle_name Lc_starting = ''starting''"
| "lifecycle_name Lc_running = ''running''"
| "lifecycle_name Lc_stopped = ''stopped''"
| "lifecycle_name Lc_gone = ''gone''"

definition in_brackets :: "string option \<Rightarrow> string" where
  "in_brackets d = (case d of None \<Rightarrow> '''' | Some t \<Rightarrow> if t = '''' then '''' else '' ('' @ t @ '')'')"

definition lastSeen :: "env \<Rightarrow> match_row \<Rightarrow> string step" where
  "lastSeen e row = do {
     server \<leftarrow> currentServer row;
     case server of
       None \<Rightarrow> State_Monad.return ''no server was ever handed over''
     | Some srv \<Rightarrow>
         (case s_serverId srv of
            None \<Rightarrow> State_Monad.return ''no server was ever handed over''
          | Some sid \<Rightarrow> do {
              let ref = (s_provider srv, sid);
              known \<leftarrow> registered (s_provider srv);
              seen \<leftarrow> (if known then do {
                  answer \<leftarrow> call e (Eff_status ref) (\<lambda>h. en_status e h ref);
                  State_Monad.return (case answer of
                      Inr status \<Rightarrow>
                        s_provider srv @ '' reports the server '' @ lifecycle_name (ss_state status)
                          @ in_brackets (ss_detail status) @ ''; ''
                    | Inl _ \<Rightarrow> s_provider srv @ '' did not answer a status read; '')
                } else State_Monad.return '''');
              h \<leftarrow> gets w_trace;
              State_Monad.return (seen @
                (case s_linkState srv of
                   None \<Rightarrow> ''the server never said hello over the link''
                 | Some link \<Rightarrow>
                     ''the link last said '' @ link @ '' on '' @
                     (case s_currentMap srv of None \<Rightarrow> ''no map'' | Some m \<Rightarrow> m) @
                     in_brackets (case en_channel e h ref of
                        None \<Rightarrow> None | Some ch \<Rightarrow> ch_lastDetail ch) @
                     (if en_channel e h ref = None then '', since disconnected''
                      else '', still connected'')))
            })
   }"

definition BOOT_DETAIL_MAX :: nat where "BOOT_DETAIL_MAX = 512"

subsection \<open>A lost server\<close>

definition kickRecovery :: "match_row \<Rightarrow> unit step" where
  "kickRecovery row = do {
     rt \<leftarrow> runtimeOf row;
     if rt_recovering rt then skip
     else do {
       on_runtime row (\<lambda>rt. rt\<lparr>rt_recovering := True\<rparr>);
       enqueue_step row Step_recover
     }
   }"

definition close_current ::
  "env \<Rightarrow> ident \<Rightarrow> fleet_server_state \<Rightarrow> string \<Rightarrow> unit step" where
  "close_current e mid st reason = with_match mid () (\<lambda>row. do {
     server \<leftarrow> currentServer row;
     case server of None \<Rightarrow> skip | Some srv \<Rightarrow> closeRow e srv st reason True
   })"

definition lost :: "env \<Rightarrow> ident \<Rightarrow> string \<Rightarrow> unit step" where
  "lost e mid reason = with_match mid () (\<lambda>row.
     if isTerminalMatchState (m_state row) then skip
     else if m_state row = Recovering then do {
       replacement \<leftarrow> currentServer row;
       case replacement of
         None \<Rightarrow> skip
       | Some srv \<Rightarrow>
           if s_releasedAt srv \<noteq> None then skip
           else fail_match e mid Server_lost
                  (''the replacement server was lost while restoring: '' @ reason)
     }
     else if m_state row \<noteq> Live then
       fail_match e mid Provider_error (''server lost before going live: '' @ reason)
     else do {
       cancelTimer mid T_heartbeat;
       on_runtime row (\<lambda>rt. rt\<lparr>rt_replacementReady := False, rt_resumePending := None\<rparr>);
       backup \<leftarrow> gets (\<lambda>w. latestBackup mid (w_store w));
       emit e mid (Match_recovering (take 256 reason) (map_option b_roundNumber backup)) [];
       setState mid Recovering [];
       close_current e mid Fs_failed (''server lost: '' @ reason);
       on_runtime row (\<lambda>rt. rt\<lparr>rt_presence := []\<rparr>);
       presenceFrame row;
       case backup of
         None \<Rightarrow> fail_match e mid Server_lost ''no backup to restore from''
       | Some b \<Rightarrow> with_match mid () (\<lambda>row. do {
           armRecovery e row;
           on_runtime row (\<lambda>rt. rt\<lparr>rt_restoring := Some (b_mapNumber b, b_roundNumber b)\<rparr>);
           kickRecovery row
         })
     })"

definition probe :: "env \<Rightarrow> ident \<Rightarrow> unit step" where
  "probe e mid = with_match mid () (\<lambda>row.
     if \<not> probeable (m_state row) then skip
     else do {
       server \<leftarrow> currentServer row;
       known \<leftarrow> (case m_provider row of
          None \<Rightarrow> State_Monad.return False | Some p \<Rightarrow> registered p);
       case (Option.bind server s_serverId, m_provider row, known) of
         (Some sid, Some p, True) \<Rightarrow> do {
           answer \<leftarrow> call e (Eff_status (p, sid)) (\<lambda>h. en_status e h (p, sid));
           case answer of
             Inl _ \<Rightarrow> armHeartbeat e row
           | Inr status \<Rightarrow>
               if ss_state status = Lc_gone \<or> ss_state status = Lc_stopped then
                 lost e mid (''silent for '' @
                   decimal (int (dl_heartbeatTimeoutMs (en_deadlines e))) @ '' ms; '' @ p @
                   '' reports the server '' @ lifecycle_name (ss_state status))
               else armHeartbeat e row
         }
       | _ \<Rightarrow> skip
     })"

definition restorePoint :: "match_row \<Rightarrow> backup_row option step" where
  "restorePoint row = do {
     rt \<leftarrow> runtimeOf row;
     s \<leftarrow> gets w_store;
     State_Monad.return
       (case rt_restoring rt of
          None \<Rightarrow> latestBackup (m_id row) s
        | Some (mapNumber, roundNumber) \<Rightarrow>
            (case find (\<lambda>b. b_mapNumber b = mapNumber \<and> b_roundNumber b = roundNumber)
                (listBackups (m_id row) s) of
               Some chosen \<Rightarrow> Some chosen
             | None \<Rightarrow> latestBackup (m_id row) s))
   }"

subsection \<open>The provisioning walk\<close>

text \<open>Configuring and starting the server a candidate allocated: the body of the walk's second
  \<open>try\<close>. \<open>Inl\<close> is the thrown error's text.\<close>

definition configure_and_start ::
  "env \<Rightarrow> ident \<Rightarrow> ident \<Rightarrow> string \<Rightarrow> allocated \<Rightarrow> backup_row option \<Rightarrow> (string + unit) step" where
  "configure_and_start e mid fleetServerId provider a restore = do {
     let ref = (provider, al_serverId a);
     joinPassword \<leftarrow> mintSecret e;
     serverToken \<leftarrow> mintSecret e;
     tokenId \<leftarrow> randomUUID e;
     t \<leftarrow> now;
     on_store (insertServerToken \<lparr>st_id = tokenId, st_fleetServerId = fleetServerId,
       st_tokenHash = en_hashToken e serverToken, st_createdAt = t, st_lastUsedAt = None,
       st_revokedAt = None\<rparr>);
     configured \<leftarrow> call e (Eff_configure ref mid) (\<lambda>h. en_configure e h ref);
     case configured of
       Inl err \<Rightarrow> State_Monad.return (Inl err)
     | Inr _ \<Rightarrow> do {
         let connect = map_option (\<lambda>c. \<lparr>cn_address = c, cn_password = Some joinPassword\<rparr>)
                         (al_connect a);
         t \<leftarrow> now;
         store_updateMatch mid [Set_connect connect, Set_tv (al_tv a), Set_updatedAt t];
         restored \<leftarrow>
           (case restore of
              None \<Rightarrow> State_Monad.return (Inr False)
            | Some b \<Rightarrow>
                if en_has_restore e provider
                then call e (Eff_restore ref (b_mapNumber b) (b_roundNumber b))
                       (\<lambda>h. en_restore e h ref)
                else State_Monad.return (Inr False));
         case restored of
           Inl err \<Rightarrow> State_Monad.return (Inl err)
         | Inr _ \<Rightarrow> call e (Eff_start ref) (\<lambda>h. en_start e h ref)
       }
   }"

definition ledger_row :: "match_row \<Rightarrow> candidate \<Rightarrow> ident \<Rightarrow> instant \<Rightarrow> server_row" where
  "ledger_row row c fleetServerId at =
    \<lparr>s_id = fleetServerId, s_deployment = '''', s_provider = ca_provider c, s_serverId = None,
     s_nodeId = None, s_matchId = Some (m_id row), s_keyId = m_keyId row,
     s_state = Fs_allocated, s_region = Some (cap_region (of_capabilities (ca_offering c))),
     s_lan = cap_lan (of_capabilities (ca_offering c)), s_address = None, s_tv = None,
     s_costHourlyCents = of_hourlyCents (ca_offering c), s_gsltTokenId = None,
     s_currentMap = None, s_linkState = None, s_linkAckedSeq = 0, s_lastSeenAt = None, s_lastError = None,
     s_releasedReason = None, s_allocatedAt = at, s_releasedAt = None,
     s_expiresAt = m_expiresAt row\<rparr>"

text \<open>One candidate: a ledger row, then the provider, then the configuration. \<open>True\<close> once a
  server is configured and started.\<close>

definition try_candidate ::
  "env \<Rightarrow> match_row \<Rightarrow> backup_row option \<Rightarrow> candidate \<Rightarrow> bool step" where
  "try_candidate e row restore c = do {
     let mid = m_id row;
     let provider = ca_provider c;
     fleetServerId \<leftarrow> randomUUID e;
     at \<leftarrow> now;
     store_insertServer (ledger_row row c fleetServerId at);
     store_updateMatch mid
       [Set_provider (Some provider), Set_fleetServerId (Some fleetServerId), Set_updatedAt at];
     perform (Eff_budget_announce (m_keyId row));
     allocated \<leftarrow> call e (Eff_allocate provider mid fleetServerId)
       (\<lambda>h. en_allocate e h provider);
     case allocated of
       Inl err \<Rightarrow> do {
         t \<leftarrow> now;
         store_updateServer fleetServerId
           [Srv_state Fs_failed, Srv_lastError (Some err), Srv_releasedAt (Some t),
            Srv_releasedReason (Some ''allocate failed'')];
         State_Monad.return False
       }
     | Inr a \<Rightarrow> do {
         let ref = (provider, al_serverId a);
         set_attribution ref mid;
         store_updateServer fleetServerId
           [Srv_serverId (Some (al_serverId a)), Srv_nodeId (al_nodeId a),
            Srv_address (al_connect a), Srv_tv (al_tv a)];
         t \<leftarrow> now;
         store_updateMatch mid [Set_serverId (Some (al_serverId a)), Set_updatedAt t];
         emit e mid (Match_allocated provider (al_serverId a) fleetServerId
           (Some (cap_region (of_capabilities (ca_offering c))))) [];
         ready \<leftarrow> configure_and_start e mid fleetServerId provider a restore;
         case ready of
           Inl err \<Rightarrow> do {
             deallocateQuietly e ref;
             perform (Eff_detach ref);
             forget_attribution ref;
             t \<leftarrow> now;
             store_updateServer fleetServerId
               [Srv_state Fs_failed, Srv_lastError (Some err), Srv_releasedAt (Some t),
                Srv_releasedReason (Some ''configure failed'')];
             State_Monad.return False
           }
         | Inr _ \<Rightarrow> do {
             store_updateServer fleetServerId [Srv_state Fs_configured];
             State_Monad.return True
           }
       }
   }"

fun walk_candidates ::
  "env \<Rightarrow> match_row \<Rightarrow> instant \<Rightarrow> backup_row option \<Rightarrow> candidate list \<Rightarrow> bool step" where
  "walk_candidates e row until restore [] = State_Monad.return False"
| "walk_candidates e row until restore (c # cs) = do {
     t \<leftarrow> now;
     if t \<ge> until then State_Monad.return False
     else do {
       found \<leftarrow> try_candidate e row restore c;
       if found then State_Monad.return True
       else walk_candidates e row until restore cs
     }
   }"

definition select_for :: "env \<Rightarrow> match_request \<Rightarrow> ident \<Rightarrow> selection step" where
  "select_for e request tag = do {
     reg \<leftarrow> gets w_registry;
     t \<leftarrow> now;
     offers \<leftarrow> call e (Eff_offerings tag) (en_offers e);
     modify (\<lambda>w. w\<lparr>w_registry := observed_by_selection (decimal t) request offers (w_registry w)\<rparr>);
     State_Monad.return (selectCandidates reg request offers)
   }"

text \<open>\<open>(found, number of candidates)\<close>.\<close>

definition walk ::
  "env \<Rightarrow> match_row \<Rightarrow> instant \<Rightarrow> backup_row option \<Rightarrow> (bool \<times> nat) step" where
  "walk e row until restore = do {
     selection \<leftarrow> select_for e (m_request row) (m_id row);
     found \<leftarrow> walk_candidates e row until restore (sl_candidates selection);
     State_Monad.return (found, length (sl_candidates selection))
   }"

definition noCapableServer :: "nat \<Rightarrow> string" where
  "noCapableServer candidates =
    (if candidates = 0 then ''no_capable_server: no provider could host the request''
     else ''no_capable_server: all '' @ decimal (int candidates) @ '' candidates failed'')"

definition provision :: "env \<Rightarrow> ident \<Rightarrow> unit step" where
  "provision e mid = with_match mid () (\<lambda>row.
     if m_state row \<noteq> Pending \<and> m_state row \<noteq> Allocating then skip
     else do {
       only_if (m_state row = Pending) (setState mid Allocating []);
       with_match mid () (\<lambda>row. do {
         armAllocate e row;
         (found, candidates) \<leftarrow> walk e row
           (m_stateChangedAt row + int (dl_allocateMs (en_deadlines e))) None;
         cancelTimer mid T_allocate;
         if \<not> found then fail_match e mid Allocation_failed (noCapableServer candidates)
         else do {
           setState mid Configuring [];
           with_match mid () (\<lambda>row. do {
             armBoot e row;
             armHeartbeat e row
           })
         }
       })
     })"

definition reprovision :: "env \<Rightarrow> ident \<Rightarrow> unit step" where
  "reprovision e mid = with_match mid () (\<lambda>row.
     if isTerminalMatchState (m_state row) \<or> m_state row = Live \<or> m_state row = Recovering
     then skip
     else do {
       for_each (cancelTimer mid) [T_allocate, T_boot, T_join, T_heartbeat];
       close_current e mid Fs_released ''reprovision: the client asked for another server'';
       on_runtime row (\<lambda>rt. rt\<lparr>rt_presence := []\<rparr>);
       presenceFrame row;
       t \<leftarrow> now;
       store_updateMatch mid [Set_provider None, Set_serverId None, Set_fleetServerId None,
         Set_connect None, Set_tv None, Set_readyAt None, Set_updatedAt t];
       setState mid Pending [];
       enqueue_step row Step_provision
     })"

definition recover :: "env \<Rightarrow> ident \<Rightarrow> unit step" where
  "recover e mid = with_match mid () (\<lambda>row.
     if m_state row \<noteq> Recovering then skip
     else do {
       open_row \<leftarrow> currentServer row;
       if (case open_row of None \<Rightarrow> False | Some srv \<Rightarrow> s_releasedAt srv = None) then skip
       else do {
         backup \<leftarrow> restorePoint row;
         case backup of
           None \<Rightarrow> fail_match e mid Server_lost ''no backup to restore from''
         | Some b \<Rightarrow> do {
             (found, candidates) \<leftarrow> walk e row
               (m_stateChangedAt row + int (dl_recoveryMs (en_deadlines e))) (Some b);
             if \<not> found then
               fail_match e mid Server_lost
                 (''no server to restore onto: '' @ noCapableServer candidates)
             else with_match mid () (\<lambda>row. armHeartbeat e row)
           }
       }
     })"

definition resumed :: "env \<Rightarrow> ident \<Rightarrow> server_ref \<Rightarrow> string \<Rightarrow> unit step" where
  "resumed e mid source sign = with_match mid () (\<lambda>row.
     case m_fleetServerId row of
       None \<Rightarrow> skip
     | Some fleetServerId \<Rightarrow>
         if m_state row \<noteq> Recovering then skip
         else do {
           rt \<leftarrow> runtimeOf row;
           if \<not> rt_replacementReady rt then
             on_runtime row (\<lambda>rt. rt\<lparr>rt_resumePending := Some sign\<rparr>)
           else do {
             cancelTimer mid T_join;
             cancelTimer mid T_recovery;
             on_runtime row (\<lambda>rt. rt\<lparr>rt_resumePending := None\<rparr>);
             emit e mid (Match_recovered (snd source) fleetServerId
               (map_option snd (rt_restoring rt))) [];
             on_runtime row (\<lambda>rt. rt\<lparr>rt_restoring := None\<rparr>);
             setState mid Live []
           }
         })"

text \<open>What a deadline does when its step runs. When it fires it is disarmed and its step queued.\<close>

definition on_deadline :: "env \<Rightarrow> ident \<Rightarrow> timer_name \<Rightarrow> unit step" where
  "on_deadline e mid name = with_match mid () (\<lambda>row.
     case name of
       T_ttl \<Rightarrow> end_match e mid Ended
         \<lparr>er_kind = Ttl_expired, er_detail = Some (''ttlMinutes '' @
            decimal (int (mr_ttlMinutes (m_request row))) @ '' ran out'')\<rparr> Fs_released
     | T_allocate \<Rightarrow>
         if m_state row = Allocating then
           fail_match e mid Allocation_failed (''no server within '' @
             decimal (int (dl_allocateMs (en_deadlines e))) @ '' ms'')
         else skip
     | T_boot \<Rightarrow>
         if m_state row \<noteq> Configuring then skip
         else do {
           seen \<leftarrow> lastSeen e row;
           fail_match e mid Provider_error (take BOOT_DETAIL_MAX
             (''no server_ready on '' @
              (case mr_maps (m_request row) of [] \<Rightarrow> ''no map'' | m # _ \<Rightarrow> mp_map m) @ '' within '' @
              decimal (int (dl_bootMs (en_deadlines e) div 1000)) @ '' s; '' @ seen))
         }
     | T_join \<Rightarrow>
         if m_state row = Ready then
           end_match e mid Ended \<lparr>er_kind = Ttl_expired, er_detail =
             Some (''no going_live within '' @ decimal (int (dl_joinMs (en_deadlines e))) @
                   '' ms of ready'')\<rparr> Fs_released
         else if m_state row = Recovering then
           fail_match e mid Server_lost (''no sign of play within '' @
             decimal (int (dl_joinMs (en_deadlines e))) @ '' ms of the replacement being ready'')
         else skip
     | T_recovery \<Rightarrow>
         if m_state row = Recovering then fail_match e mid Server_lost ''recovery window expired''
         else skip
     | T_heartbeat \<Rightarrow> probe e mid
     | T_demo \<Rightarrow> do {
         rt \<leftarrow> gets (\<lambda>w. w_runtimes w mid);
         case rt of
           None \<Rightarrow> skip
         | Some r \<Rightarrow>
             if \<not> rt_awaitingDemo r then skip
             else do {
               on_runtime_if_any mid (\<lambda>rt. rt\<lparr>rt_awaitingDemo := False\<rparr>);
               end_match e mid Ended (completedBy (rt_seriesEndReason r)) Fs_released
             }
       })"

definition fire_timer :: "ident \<Rightarrow> timer_name \<Rightarrow> unit step" where
  "fire_timer mid name = do {
     cancelTimer mid name;
     with_match mid () (\<lambda>row. enqueue_step row (Step_deadline name))
   }"

subsection \<open>Events from the server\<close>

definition withEngine :: "engine_game option \<Rightarrow> event_body \<Rightarrow> engine_game option \<times> event_body" where
  "withEngine known body =
    (case body of
       Server_ready engine \<Rightarrow> (case engine of Some g \<Rightarrow> (Some g, body) | None \<Rightarrow> (known, body))
     | Going_live mapNumber None format \<Rightarrow>
         (case known of
            None \<Rightarrow> (known, body)
          | Some g \<Rightarrow> (known, Going_live mapNumber (Some g)
              (case formatOfEngineGame g of Some f \<Rightarrow> Some f | None \<Rightarrow> format)))
     | _ \<Rightarrow> (known, body))"

text \<open>The connect facts at \<open>server_ready\<close>: a provider that learns the address after allocation
  is asked for it. That call is not inside a \<open>try\<close>: when it rejects, the step throws, which is
  \<open>None\<close>.\<close>

definition connect_facts ::
  "env \<Rightarrow> match_row \<Rightarrow> server_row option \<Rightarrow> (server_connect option \<times> server_tv option) option step"
where
  "connect_facts e row server =
    (case (server, m_provider row, m_serverId row) of
       (Some srv, Some p, Some sid) \<Rightarrow>
         if s_address srv \<noteq> None then State_Monad.return (Some (m_connect row, m_tv row))
         else do {
           known \<leftarrow> registered p;
           if \<not> known then State_Monad.return (Some (m_connect row, m_tv row))
           else do {
             status \<leftarrow> call e (Eff_status (p, sid)) (\<lambda>h. en_status e h (p, sid));
             case status of
               Inl _ \<Rightarrow> State_Monad.return None
             | Inr s \<Rightarrow>
                 (case ss_connect s of
                    None \<Rightarrow> State_Monad.return (Some (m_connect row, m_tv row))
                  | Some address \<Rightarrow> do {
                      store_updateServer (s_id srv)
                        [Srv_address (Some address), Srv_tv (ss_tv s)];
                      State_Monad.return (Some
                        (Some \<lparr>cn_address = address, cn_password =
                           Option.bind (m_connect row) cn_password\<rparr>, ss_tv s))
                    })
           }
         }
     | _ \<Rightarrow> State_Monad.return (Some (m_connect row, m_tv row)))"

text \<open>\<open>server_ready\<close>: \<open>False\<close> when the step threw.\<close>

definition on_server_ready :: "env \<Rightarrow> ident \<Rightarrow> server_ref \<Rightarrow> bool step" where
  "on_server_ready e mid source = with_match mid True (\<lambda>row.
     if m_state row \<noteq> Configuring \<and> m_state row \<noteq> Recovering then State_Monad.return True
     else do {
       let restoring = (m_state row = Recovering);
       cancelTimer mid (if restoring then T_recovery else T_boot);
       server \<leftarrow> currentServer row;
       facts \<leftarrow> connect_facts e row server;
       case facts of
         None \<Rightarrow> State_Monad.return False
       | Some (connect, tv) \<Rightarrow> do {
           (case server of
              None \<Rightarrow> skip | Some srv \<Rightarrow> store_updateServer (s_id srv) [Srv_state Fs_running]);
           t \<leftarrow> now;
           setState mid (if restoring then Recovering else Ready)
             [Set_readyAt (Some t), Set_connect connect, Set_tv tv];
           rt \<leftarrow> runtimeOf row;
           (case connect of
              None \<Rightarrow> skip
            | Some c \<Rightarrow> emit e mid (Match_server_ready c tv
                (if restoring then map_option snd (rt_restoring rt) else None)) []);
           with_match mid () (\<lambda>row. armJoin e row);
           only_if restoring (do {
             on_runtime row (\<lambda>rt. rt\<lparr>rt_replacementReady := True\<rparr>);
             (case rt_resumePending rt of
                None \<Rightarrow> skip | Some sign \<Rightarrow> resumed e mid source sign)
           });
           State_Monad.return True
         }
     })"

definition on_going_live :: "env \<Rightarrow> ident \<Rightarrow> server_ref \<Rightarrow> nat \<Rightarrow> unit step" where
  "on_going_live e mid source mapNumber = with_match mid () (\<lambda>row. do {
     on_runtime row (\<lambda>rt. rt\<lparr>rt_currentMap := mapNumber\<rparr>);
     if m_state row = Ready then do {
       cancelTimer mid T_join;
       t \<leftarrow> now;
       setState mid Live [Set_liveAt (Some t)]
     }
     else if m_state row = Recovering then resumed e mid source ''going_live''
     else skip
   })"

text \<open>The object key of a demo is read out of a URL by the \<open>URL\<close> class; it travels as the URL
  itself here.\<close>

definition demoKeyOf :: "match_row \<Rightarrow> nat \<Rightarrow> string option" where
  "demoKeyOf row mapNumber = demoUploadUrlFor (mr_callbacks (m_request row)) mapNumber"

definition on_demo_available ::
  "env \<Rightarrow> ident \<Rightarrow> nat \<Rightarrow> nat option \<Rightarrow> string option \<Rightarrow> string option \<Rightarrow> unit step" where
  "on_demo_available e mid mapNumber sizeBytes sha256 contentType = with_match mid () (\<lambda>row. do {
     on_runtime row (\<lambda>rt. rt\<lparr>rt_announced := Suc (rt_announced rt)\<rparr>);
     (case (sha256, contentType) of
        (Some sha, Some ct) \<Rightarrow> do {
          on_runtime row (\<lambda>rt. rt\<lparr>rt_uploaded := Suc (rt_uploaded rt)\<rparr>);
          emit e mid (Demo_uploaded mapNumber (demoKeyOf row mapNumber)
            (case sizeBytes of None \<Rightarrow> 0 | Some n \<Rightarrow> n) sha ct) []
        }
      | _ \<Rightarrow> skip);
     rt \<leftarrow> runtimeOf row;
     if rt_awaitingDemo rt \<and> \<not> demoPending e row rt then do {
       cancelTimer mid T_demo;
       on_runtime row (\<lambda>rt. rt\<lparr>rt_awaitingDemo := False\<rparr>);
       end_match e mid Ended (completedBy (rt_seriesEndReason rt)) Fs_released
     }
     else skip
   })"

definition on_series_end :: "env \<Rightarrow> ident \<Rightarrow> end_reason option \<Rightarrow> unit step" where
  "on_series_end e mid reason = with_match mid () (\<lambda>row. do {
     on_runtime row (\<lambda>rt. rt\<lparr>rt_seriesEndReason := reason\<rparr>);
     rt \<leftarrow> runtimeOf row;
     if demoPending e row rt then do {
       on_runtime row (\<lambda>rt. rt\<lparr>rt_awaitingDemo := True\<rparr>);
       t \<leftarrow> now;
       armDemo e row t
     }
     else end_match e mid Ended (completedBy reason) Fs_released
   })"

definition recovering_sign :: "env \<Rightarrow> ident \<Rightarrow> server_ref \<Rightarrow> string \<Rightarrow> unit step" where
  "recovering_sign e mid source sign = with_match mid () (\<lambda>row.
     if m_state row = Recovering then resumed e mid source sign else skip)"

text \<open>The \<open>switch\<close> over an accepted event. \<open>False\<close> when it threw.\<close>

definition completes :: "unit step \<Rightarrow> bool step" where
  "completes m = do { m; State_Monad.return True }"

definition on_player_connected :: "env \<Rightarrow> ident \<Rightarrow> player \<Rightarrow> unit step" where
  "on_player_connected e mid p = with_match mid () (\<lambda>row. do {
     on_runtime row (\<lambda>rt. rt\<lparr>rt_presence := map_set (pl_steamId64 p) p (rt_presence rt)\<rparr>);
     rt \<leftarrow> runtimeOf row;
     emit e mid (Player_joined p (map_of (rt_known rt) (pl_steamId64 p) \<noteq> None)) [];
     presenceFrame row
   })"

definition on_player_disconnected :: "env \<Rightarrow> ident \<Rightarrow> player \<Rightarrow> unit step" where
  "on_player_disconnected e mid p = with_match mid () (\<lambda>row. do {
     on_runtime row (\<lambda>rt. rt\<lparr>rt_presence := map_delete (pl_steamId64 p) (rt_presence rt)\<rparr>);
     emit e mid (Player_left p) [];
     presenceFrame row
   })"

fun dispatch_event :: "env \<Rightarrow> ident \<Rightarrow> server_ref \<Rightarrow> event_body \<Rightarrow> bool step" where
  "dispatch_event e mid source (Server_ready _) = on_server_ready e mid source"
| "dispatch_event e mid source (Player_connected p) = completes (on_player_connected e mid p)"
| "dispatch_event e mid source (Player_disconnected p) =
     completes (on_player_disconnected e mid p)"
| "dispatch_event e mid source (Going_live mapNumber _ _) =
     completes (on_going_live e mid source mapNumber)"
| "dispatch_event e mid source (Plugin_event name) =
     completes (if name = BACKUP_RESTORED_EVENT
       then recovering_sign e mid source (''the plugin's '' @ BACKUP_RESTORED_EVENT)
       else skip)"
| "dispatch_event e mid source (Round_end n) =
     completes (recovering_sign e mid source
       (''round '' @ decimal (int n) @ '' ending on the replacement''))"
| "dispatch_event e mid source (Demo_available mapNumber bytes sha ct) =
     completes (on_demo_available e mid mapNumber bytes sha ct)"
| "dispatch_event e mid source (Series_end reason) = completes (on_series_end e mid reason)"
| "dispatch_event e mid source Position_tick = completes skip"
| "dispatch_event e mid source (Other_event _) = completes skip"

text \<open>\<open>In_threw\<close> is the rejected promise of a step that threw.\<close>

datatype ingest_status = In_accepted | In_duplicate | In_ephemeral | In_rejected | In_threw

definition onServerEvent ::
  "env \<Rightarrow> ident \<Rightarrow> server_ref \<Rightarrow> gameserver_event \<Rightarrow> ingest_status step" where
  "onServerEvent e mid source said = with_match mid In_rejected (\<lambda>row.
     if isTerminalMatchState (m_state row) then State_Monad.return In_rejected
     else if m_provider row \<noteq> Some (fst source) \<or> m_serverId row \<noteq> Some (snd source)
       then State_Monad.return In_rejected
     else if ge_matchId said \<noteq> mid then State_Monad.return In_rejected
     else do {
       let stamped = (if isSimulated row then said\<lparr>ge_simulated := True\<rparr> else said);
       rt \<leftarrow> runtimeOf row;
       let (engine, body) = withEngine (rt_engine rt) (ge_body stamped);
       on_runtime row (\<lambda>rt. rt\<lparr>rt_engine := engine\<rparr>);
       let event = stamped\<lparr>ge_body := body\<rparr>;
       let mark = map_option (\<lambda>n. (source, n)) (ge_seq event);
       if (case mark of None \<Rightarrow> False | Some m \<Rightarrow> m \<in> set (rt_seen rt))
       then State_Monad.return In_duplicate
       else do {
         (case mark of
            None \<Rightarrow> skip
          | Some m \<Rightarrow> on_runtime row (\<lambda>rt. rt\<lparr>rt_seen := m # rt_seen rt\<rparr>));
         t \<leftarrow> now;
         (case m_fleetServerId row of
            Some fid \<Rightarrow>
              only_if (t - rt_lastSeenWrittenAt rt \<ge> LAST_SEEN_WRITE_INTERVAL_MS) (do {
                on_runtime row (\<lambda>rt. rt\<lparr>rt_lastSeenWrittenAt := t\<rparr>);
                store_updateServer fid [Srv_lastSeenAt (Some t)]
              })
          | None \<Rightarrow> skip);
         armHeartbeat e row;
         if body = Position_tick then do {
           perform (Eff_tick mid event);
           State_Monad.return In_ephemeral
         }
         else do {
           emit e mid (Server_event event) [];
           completed \<leftarrow> dispatch_event e mid source body;
           State_Monad.return (if completed then In_accepted else In_threw)
         }
       }
     })"

end
