(* ===== verification/Match_Config.thy ===== *)
theory Match_Config
  imports Match_Api
begin

text \<open>
  The documents the match plugins read, \<open>apps/orchestrator/src/match-config\<close>: the MatchZy match file
  (CS2), the Get5 one (CS:GO), the cvars and the retakes plugin's own file. Pure builders over the
  request and the manifest; SHA-256 is an argument, as the first four bytes of the digest.
\<close>

subsection \<open>Console variables: request under mode under rules\<close>

definition map_merge :: "('k \<times> 'v) list \<Rightarrow> ('k \<times> 'v) list \<Rightarrow> ('k \<times> 'v) list" where
  "map_merge base over = fold (\<lambda>(k, v). map_set k v) over base"

definition derivedCvars :: "match_rules option \<Rightarrow> (string \<times> string) list" where
  "derivedCvars rules =
    (case rules of
       None \<Rightarrow> []
     | Some ru \<Rightarrow>
         [(''mp_maxrounds'', decimal_nat (ru_regulationRounds ru)),
          (''mp_overtime_enable'', if ru_overtimeEnabled ru then ''1'' else ''0''),
          (''mp_overtime_maxrounds'', decimal_nat (ru_overtimeMaxRounds ru)),
          (''mp_overtime_startmoney'', decimal_nat (ru_startMoney ru))])"

definition mergeCvars :: "match_request \<Rightarrow> manifest \<Rightarrow> (string \<times> string) list" where
  "mergeCvars r m =
    map_merge (map_merge (case mr_rules r of None \<Rightarrow> [] | Some ru \<Rightarrow> ru_cvars ru) (gm_cvars m))
      (derivedCvars (mr_rules r))"

subsection \<open>What MatchZy and Get5 share\<close>

definition SERIAL_MAX :: nat where "SERIAL_MAX = 2 ^ 31 - 1"

text \<open>\<open>readUInt32BE(0) & SERIAL_MAX\<close>, never zero.\<close>

definition matchzySerial :: "(string \<Rightarrow> nat) \<Rightarrow> ident \<Rightarrow> nat" where
  "matchzySerial sha256_head mid =
    (let serial = sha256_head mid mod (SERIAL_MAX + 1) in if serial = 0 then 1 else serial)"

definition isWingman :: "match_request \<Rightarrow> bool" where
  "isWingman r \<longleftrightarrow> map_option ru_format (mr_rules r) = Some Wingman"

definition mapSide :: "map_plan \<Rightarrow> string" where
  "mapSide plan = (case mp_sides plan of Knife \<Rightarrow> ''knife'' | Starts Ct \<Rightarrow> ''team1_ct''
     | Starts Terrorist \<Rightarrow> ''team1_t'')"

definition playerMap :: "roster_entry list \<Rightarrow> (string \<times> string) list" where
  "playerMap players = fold (\<lambda>p. map_set (re_steamId64 p) (re_name p)) players []"

text \<open>A name, or \<open>{ name, simulated: false }\<close>.\<close>

datatype seat = Seat string | Human_seat string

record plugin_team =
  tc_name :: string
  tc_players :: "(string \<times> seat) list"

definition config_team :: "string \<Rightarrow> roster_entry list \<Rightarrow> plugin_team" where
  "config_team name players = \<lparr>tc_name = name,
     tc_players = map (\<lambda>(k, v). (k, Seat v)) (playerMap players)\<rparr>"

definition playersPerTeam :: "match_request \<Rightarrow> manifest \<Rightarrow> nat" where
  "playersPerTeam r m =
    (let seats = (if isWingman r then min (gm_teamSize m) WINGMAN_TEAM_SIZE else gm_teamSize m);
         rostered = filter (\<lambda>size. size > 0) [length (mr_teamA r), length (mr_teamB r)]
     in if rostered = [] then seats else fold min rostered seats)"

definition PLUGIN_TEAMS :: nat where "PLUGIN_TEAMS = 2"

definition warmup_players :: "match_request \<Rightarrow> manifest \<Rightarrow> nat" where
  "warmup_players r m =
    (let total = (case mr_rules r of Some ru \<Rightarrow> ru_minPlayersToReady ru
                  | None \<Rightarrow> gm_teamSize m * gm_teams m)
     in min ((total + PLUGIN_TEAMS - 1) div PLUGIN_TEAMS) (playersPerTeam r m))"

definition warmup_spectators :: "match_request \<Rightarrow> nat" where
  "warmup_spectators r = (case mr_rules r of Some ru \<Rightarrow> ru_minSpectatorsToReady ru | None \<Rightarrow> 0)"

record ready_gate =
  rg_playersPerTeam :: nat
  rg_minPlayersToReady :: nat

definition matchZyReadyGate :: "match_request \<Rightarrow> manifest \<Rightarrow> ready_gate" where
  "matchZyReadyGate r m =
    \<lparr>rg_playersPerTeam = playersPerTeam r m, rg_minPlayersToReady = warmup_players r m\<rparr>"

definition matchzyCvars :: "match_request \<Rightarrow> (string \<times> string) list" where
  "matchzyCvars r = [(''matchzy_autoready_enabled'',
     if (case mr_rules r of Some ru \<Rightarrow> ru_autoReady ru | None \<Rightarrow> True) then ''true'' else ''false'')]"

definition matchzyMap :: "map_plan \<Rightarrow> string" where
  "matchzyMap plan = (case workshop_parts (mp_map plan) of Some (wid, _) \<Rightarrow> wid | None \<Rightarrow> mp_map plan)"

subsection \<open>The two match files\<close>

record matchzy_config =
  zc_matchid :: nat
  zc_num_maps :: nat
  zc_maplist :: "string list"
  zc_map_sides :: "string list"
  zc_skip_veto :: bool
  zc_clinch_series :: bool
  zc_wingman :: bool
  zc_simulation :: "string option"     \<comment> \<open>\<open>simulation_timescale\<close>, with \<open>simulation: true\<close>\<close>
  zc_players_per_team :: nat
  zc_min_players_to_ready :: nat
  zc_min_spectators_to_ready :: nat
  zc_team1 :: plugin_team
  zc_team2 :: plugin_team
  zc_spectators :: "(string \<times> string) list"
  zc_cvars :: "(string \<times> string) list"

definition simulation_part :: "match_request \<Rightarrow> string option" where
  "simulation_part r = map_option (\<lambda>sim. case sn_timeScale sim of None \<Rightarrow> ''1'' | Some ts \<Rightarrow> ts) (mr_simulation r)"

definition withHumanSeats :: "plugin_team \<Rightarrow> string set \<Rightarrow> plugin_team" where
  "withHumanSeats team humans =
    (if humans = {} then team
     else team\<lparr>tc_players := map (\<lambda>(k, s). (k, case s of
       Seat name \<Rightarrow> if k \<in> humans then Human_seat name else Seat name
     | Human_seat name \<Rightarrow> Human_seat name)) (tc_players team)\<rparr>)"

definition buildMatchZyConfig :: "(string \<Rightarrow> nat) \<Rightarrow> ident \<Rightarrow> match_request \<Rightarrow> manifest \<Rightarrow> matchzy_config" where
  "buildMatchZyConfig sha256_head mid r m =
    (let humans = set (matchHumans r)
     in \<lparr>zc_matchid = matchzySerial sha256_head mid,
         zc_num_maps = length (mr_maps r),
         zc_maplist = map matchzyMap (mr_maps r),
         zc_map_sides = map mapSide (mr_maps r),
         zc_skip_veto = True, zc_clinch_series = True,
         zc_wingman = isWingman r,
         zc_simulation = simulation_part r,
         zc_players_per_team = playersPerTeam r m,
         zc_min_players_to_ready = warmup_players r m,
         zc_min_spectators_to_ready = warmup_spectators r,
         zc_team1 = withHumanSeats (config_team (mr_nameA r) (mr_teamA r)) humans,
         zc_team2 = withHumanSeats (config_team (mr_nameB r) (mr_teamB r)) humans,
         zc_spectators = [],
         zc_cvars = map_merge (mergeCvars r m) (matchzyCvars r)\<rparr>)"

datatype get5_side_type = Standard | Never_knife | Always_knife

definition get5SideType :: "map_plan list \<Rightarrow> get5_side_type" where
  "get5SideType maps =
    (let knives = length (filter (\<lambda>plan. mp_sides plan = Knife) maps)
     in if knives = 0 then Never_knife
        else if knives = length maps then Always_knife else Standard)"

record get5_config =
  g5_matchid :: ident
  g5_match_title :: string
  g5_num_maps :: nat
  g5_maplist :: "string list"
  g5_map_sides :: "string list"
  g5_skip_veto :: bool
  g5_side_type :: get5_side_type
  g5_players_per_team :: nat
  g5_min_players_to_ready :: nat
  g5_min_spectators_to_ready :: nat
  g5_team1 :: plugin_team
  g5_team2 :: plugin_team
  g5_spectators :: "(string \<times> string) list"
  g5_cvars :: "(string \<times> string) list"

text \<open>The dash of the title, as its three bytes.\<close>

definition em_dash :: string where "em_dash = [CHR 0xE2, CHR 0x80, CHR 0x94]"

definition matchTitle :: "match_request \<Rightarrow> string" where
  "matchTitle r = (case mr_hostname r of Some h \<Rightarrow> h
     | None \<Rightarrow> ''EZPug '' @ em_dash @ '' '' @ mr_nameA r @ '' vs '' @ mr_nameB r)"

definition buildGet5Config :: "ident \<Rightarrow> match_request \<Rightarrow> manifest \<Rightarrow> get5_config" where
  "buildGet5Config mid r m =
    \<lparr>g5_matchid = mid, g5_match_title = matchTitle r,
     g5_num_maps = length (mr_maps r),
     g5_maplist = map mp_map (mr_maps r),
     g5_map_sides = map mapSide (mr_maps r),
     g5_skip_veto = True,
     g5_side_type = get5SideType (mr_maps r),
     g5_players_per_team = playersPerTeam r m,
     g5_min_players_to_ready = warmup_players r m,
     g5_min_spectators_to_ready = warmup_spectators r,
     g5_team1 = config_team (mr_nameA r) (mr_teamA r),
     g5_team2 = config_team (mr_nameB r) (mr_teamB r),
     g5_spectators = [],
     g5_cvars = mergeCvars r m\<rparr>"

datatype plugin_match_config = MatchZy_config matchzy_config | Get5_config get5_config

definition buildMatchConfig ::
  "(string \<Rightarrow> nat) \<Rightarrow> ident \<Rightarrow> match_request \<Rightarrow> manifest \<Rightarrow> plugin_match_config" where
  "buildMatchConfig sha256_head mid r m =
    (if mr_game r = ''cs2'' then MatchZy_config (buildMatchZyConfig sha256_head mid r m)
     else Get5_config (buildGet5Config mid r m))"

subsection \<open>The retakes plugin\<close>

definition RETAKES_PLUGIN :: string where "RETAKES_PLUGIN = ''RetakesPlugin''"
definition RETAKES_ALLOCATOR_PLUGIN :: string where "RETAKES_ALLOCATOR_PLUGIN = ''RetakesAllocator''"
definition MAX_PLAYERS_RANGE :: "nat \<times> nat" where "MAX_PLAYERS_RANGE = (2, 10)"

record retakes_config =
  rc_MaxPlayers :: nat
  rc_EnableFallbackAllocation :: bool
  rc_ShouldAutoJoinGame :: bool
  rc_QueuePriorityFlag :: "string list"
  rc_QueueImmunityFlag :: "string list"

definition buildRetakesConfig :: "manifest \<Rightarrow> string list \<Rightarrow> retakes_config" where
  "buildRetakesConfig m plugins =
    \<lparr>rc_MaxPlayers = min (max (gm_teamSize m * gm_teams m) (fst MAX_PLAYERS_RANGE)) (snd MAX_PLAYERS_RANGE),
     rc_EnableFallbackAllocation = (RETAKES_ALLOCATOR_PLUGIN \<notin> set plugins),
     rc_ShouldAutoJoinGame = gm_openJoin m,
     rc_QueuePriorityFlag = [], rc_QueueImmunityFlag = []\<rparr>"

definition pluginConfigsFor :: "manifest \<Rightarrow> string list \<Rightarrow> (string \<times> retakes_config) list option" where
  "pluginConfigsFor m plugins =
    (if RETAKES_PLUGIN \<notin> set plugins then None
     else Some [(RETAKES_PLUGIN, buildRetakesConfig m plugins)])"

subsection \<open>Laws\<close>

lemma map_of_map_merge:
  "distinct (map fst over) \<Longrightarrow>
   map_of (map_merge base over) k = (case map_of over k of Some v \<Rightarrow> Some v | None \<Rightarrow> map_of base k)"
proof (induction over arbitrary: base)
  case (Cons p over)
  obtain k' v where p: "p = (k', v)" by (cases p)
  then have "map_merge base (p # over) = map_merge (map_set k' v base) over"
    by (simp add: map_merge_def)
  moreover have "map_of over k' = None" using Cons.prems p by (simp add: map_of_eq_None_iff)
  ultimately show ?case using Cons p by (cases "k = k'") (simp_all split: option.split)
qed (simp add: map_merge_def)

lemma playersPerTeam_roster:
  "mr_teamA r \<noteq> [] \<Longrightarrow> playersPerTeam r m \<le> length (mr_teamA r)"
  "mr_teamB r \<noteq> [] \<Longrightarrow> playersPerTeam r m \<le> length (mr_teamB r)"
  "playersPerTeam r m \<le> gm_teamSize m"
  by (auto simp: playersPerTeam_def Let_def)

lemma playersPerTeam_positive: "0 < gm_teamSize m \<Longrightarrow> 0 < playersPerTeam r m"
  by (auto simp: playersPerTeam_def Let_def WINGMAN_TEAM_SIZE_def)

lemma warmup_players_bound: "warmup_players r m \<le> playersPerTeam r m"
  by (simp add: warmup_players_def Let_def)

end
