(* ===== verification/Machine_Doors.thy ===== *)
theory Machine_Doors
  imports Machine Match_Config
begin

text \<open>
  The doors of the match machine (\<open>machine.ts\<close>): what the link asks (\<open>ingest\<close>, \<open>touch\<close>,
  \<open>backup\<close>, \<open>assignment\<close>), what a client asks (\<open>create\<close>, \<open>cancel\<close>, \<open>command\<close>, player
  tokens, widget taps, the events route), what the reaper and the fleet ask, and the restart
  (\<open>resume\<close>). A door that throws an \<open>ApiError\<close> answers \<open>Inl\<close>.
\<close>

subsection \<open>The link\<close>

definition matchOf :: "server_ref \<Rightarrow> match_row option step" where
  "matchOf source = do {
     w \<leftarrow> gets (\<lambda>w. w);
     case w_attribution w source of
       Some mid \<Rightarrow> State_Monad.return (findMatch mid (w_store w))
     | None \<Rightarrow>
         (case findServerByHandle (fst source) (snd source) (w_store w) of
            None \<Rightarrow> State_Monad.return None
          | Some server \<Rightarrow>
              (case s_matchId server of
                 None \<Rightarrow> State_Monad.return None
               | Some mid \<Rightarrow>
                   if s_releasedAt server \<noteq> None then State_Monad.return None
                   else do {
                     set_attribution source mid;
                     State_Monad.return (findMatch mid (w_store w))
                   }))
   }"

definition ingest :: "env \<Rightarrow> server_ref \<Rightarrow> gameserver_event \<Rightarrow> ingest_status step" where
  "ingest e source event = do {
     closed \<leftarrow> gets w_closed;
     if closed then State_Monad.return In_rejected
     else do {
       row \<leftarrow> matchOf source;
       case row of
         None \<Rightarrow> State_Monad.return In_rejected
       | Some r \<Rightarrow> do {
           _ \<leftarrow> runtimeOf r;
           onServerEvent e (m_id r) source event
         }
     }
   }"

definition touch :: "env \<Rightarrow> server_ref \<Rightarrow> unit step" where
  "touch e source = do {
     closed \<leftarrow> gets w_closed;
     if closed then skip
     else do {
       row \<leftarrow> matchOf source;
       case row of
         None \<Rightarrow> skip
       | Some r \<Rightarrow> if probeable (m_state r) then armHeartbeat e r else skip
     }
   }"

record round_backup =
  rb_mapNumber :: nat
  rb_roundNumber :: nat
  rb_filename :: string
  rb_content :: string

definition roundBackupOf :: "backup_row \<Rightarrow> round_backup" where
  "roundBackupOf b = \<lparr>rb_mapNumber = b_mapNumber b, rb_roundNumber = b_roundNumber b,
     rb_filename = b_filename b, rb_content = b_content b\<rparr>"

definition backup :: "env \<Rightarrow> server_ref \<Rightarrow> round_backup \<Rightarrow> bool step" where
  "backup e source b = do {
     closed \<leftarrow> gets w_closed;
     if closed then State_Monad.return False
     else do {
       row \<leftarrow> matchOf source;
       case row of
         None \<Rightarrow> State_Monad.return False
       | Some r \<Rightarrow>
           if isTerminalMatchState (m_state r) then State_Monad.return False
           else do {
             bid \<leftarrow> randomUUID e;
             t \<leftarrow> now;
             on_store (upsertBackup \<lparr>b_id = bid, b_matchId = m_id r,
               b_fleetServerId = m_fleetServerId r, b_mapNumber = rb_mapNumber b,
               b_roundNumber = rb_roundNumber b, b_filename = rb_filename b,
               b_content = rb_content b, b_createdAt = t\<rparr> BACKUPS_KEPT_PER_MATCH);
             State_Monad.return True
           }
     }
   }"

subsection \<open>The assignment\<close>

definition SKINS_PLUGIN :: string where "SKINS_PLUGIN = ''WeaponPaints''"

definition withProfiles ::
  "roster_entry list \<Rightarrow> (string \<times> roster_entry) list \<Rightarrow> roster_entry list" where
  "withProfiles players profiles =
     map (\<lambda>p. case map_of profiles (re_steamId64 p) of Some q \<Rightarrow> q | None \<Rightarrow> p) players"

definition pluginsFor :: "manifest \<Rightarrow> roster_entry list \<Rightarrow> string list \<Rightarrow> string list" where
  "pluginsFor m players installed =
    (if list_ex (\<lambda>p. re_loadout p \<noteq> None) players \<and> SKINS_PLUGIN \<in> set installed \<and>
        SKINS_PLUGIN \<notin> set (gm_plugins m)
     then gm_plugins m @ [SKINS_PLUGIN] else gm_plugins m)"

definition missingPlugins :: "manifest \<Rightarrow> string list \<Rightarrow> string list" where
  "missingPlugins m installed = filter (\<lambda>p. p \<notin> set installed) (gm_plugins m)"

text \<open>The computed parts of the \<open>assign\<close> frame; the rest is copied from request and manifest.\<close>

record assign_frame =
  as_matchId :: ident
  as_plugins :: "string list"
  as_teamA :: "roster_entry list"
  as_teamB :: "roster_entry list"
  as_cvars :: "(string \<times> string) list"
  as_matchzyConfig :: "matchzy_config option"
  as_pluginConfigs :: "(string \<times> retakes_config) list option"
  as_restore :: "round_backup option"
  as_puppets :: "puppet_script option"
  as_halftimeVoice :: bool

definition puppets :: "match_request \<Rightarrow> puppet_script option" where
  "puppets r =
     Option.bind (Option.bind (mr_simulation r) sn_scenario)
       (\<lambda>named. Option.bind (findScenario named) puppetScriptFor)"

definition composeAssign ::
  "env \<Rightarrow> ident \<Rightarrow> match_request \<Rightarrow> manifest \<Rightarrow> (string \<times> roster_entry) list \<Rightarrow> string list
     \<Rightarrow> round_backup option \<Rightarrow> assign_frame" where
  "composeAssign e mid r m profiles installed restore =
    (let a = withProfiles (mr_teamA r) profiles; b = withProfiles (mr_teamB r) profiles;
         plugins = pluginsFor m (a @ b) installed
     in \<lparr>as_matchId = mid, as_plugins = plugins, as_teamA = a,
         as_teamB = b, as_cvars = mergeCvars r m,
         as_matchzyConfig = (if gm_flow m = ''matchzy''
           then Some (buildMatchZyConfig (en_sha256Head e) mid r m) else None),
         as_pluginConfigs = pluginConfigsFor m plugins,
         as_restore = restore, as_puppets = puppets r,
         as_halftimeVoice = halftimeVoiceOf r m\<rparr>)"

fun comma_list :: "string list \<Rightarrow> string" where
  "comma_list [] = ''''"
| "comma_list [x] = x"
| "comma_list (x # xs) = x @ '', '' @ comma_list xs"

definition assignment :: "env \<Rightarrow> server_ref \<Rightarrow> string list \<Rightarrow> assign_frame option step" where
  "assignment e source installed = do {
     closed \<leftarrow> gets w_closed;
     if closed then State_Monad.return None
     else do {
       found \<leftarrow> matchOf source;
       case found of
         None \<Rightarrow> State_Monad.return None
       | Some r \<Rightarrow>
           if isTerminalMatchState (m_state r) then State_Monad.return None
           else do {
             rt \<leftarrow> runtimeOf r;
             if m_provider r \<noteq> Some (fst source) \<or> m_serverId r \<noteq> Some (snd source)
             then State_Monad.return None
             else
               (case manifestOf e r of
                  None \<Rightarrow> State_Monad.return None
                | Some m \<Rightarrow>
                    if missingPlugins m installed \<noteq> [] then do {
                      fail_match e (m_id r) Provider_error (''the server's image lacks '' @
                        comma_list (missingPlugins m installed) @ '', which '' @ gm_id m @ '' needs'');
                      State_Monad.return None
                    }
                    else do {
                      restore \<leftarrow> (if m_state r = Recovering then restorePoint r
                                  else State_Monad.return None);
                      State_Monad.return (Some (composeAssign e (m_id r) (m_request r) m
                        (rt_known rt) installed (map_option roundBackupOf restore)))
                    })
           }
     }
   }"

subsection \<open>The client's doors\<close>

record caller =
  cl_keyId :: ident
  cl_scopes :: "api_scope list"
  cl_webhookSecrets :: "string list"

record match_view =
  mv_id :: ident
  mv_clientMatchId :: string
  mv_state :: match_state
  mv_provider :: "string option"
  mv_serverId :: "string option"
  mv_fleetServerId :: "ident option"
  mv_connect :: "server_connect option"
  mv_tv :: "server_tv option"
  mv_seq :: nat
  mv_readyAt :: "instant option"
  mv_liveAt :: "instant option"
  mv_endedAt :: "instant option"
  mv_expiresAt :: instant
  mv_endedReason :: "ended_reason option"
  mv_sim :: "string option"
  mv_simulated :: bool

definition matchView :: "match_row \<Rightarrow> string option \<Rightarrow> bool \<Rightarrow> match_view" where
  "matchView row sim simulated =
    (let before = (m_readyAt row = None)
     in \<lparr>mv_id = m_id row, mv_clientMatchId = m_clientMatchId row, mv_state = m_state row,
         mv_provider = m_provider row, mv_serverId = m_serverId row,
         mv_fleetServerId = m_fleetServerId row,
         mv_connect = (if before then None else m_connect row),
         mv_tv = (if before then None else m_tv row), mv_seq = m_seq row,
         mv_readyAt = m_readyAt row, mv_liveAt = m_liveAt row, mv_endedAt = m_endedAt row,
         mv_expiresAt = m_expiresAt row, mv_endedReason = m_endedReason row, mv_sim = sim,
         mv_simulated = simulated\<rparr>)"

definition view :: "env \<Rightarrow> match_row \<Rightarrow> match_view step" where
  "view e row = do {
     sim \<leftarrow> simOf e row;
     State_Monad.return (matchView row sim (isSimulated row))
   }"

definition require_match :: "caller \<Rightarrow> ident \<Rightarrow> (api_error + match_row) step" where
  "require_match key mid = do {
     r \<leftarrow> the_match mid;
     State_Monad.return
       (case r of
          None \<Rightarrow> Inl (refuse Not_found)
        | Some row \<Rightarrow> if m_keyId row = cl_keyId key then Inr row else Inl (refuse Not_found))
   }"

text \<open>\<open>simPlanFor\<close>: the field whose scenario nobody defined.\<close>

definition simPlanProblem :: "match_request \<Rightarrow> string option" where
  "simPlanProblem r =
    (let name = (case mr_simScenario r of
                   Some n \<Rightarrow> Some n | None \<Rightarrow> Option.bind (mr_simulation r) sn_scenario)
     in case name of
          None \<Rightarrow> None
        | Some n \<Rightarrow>
            if findScenario n \<noteq> None then None
            else Some (if mr_simScenario r \<noteq> None then ''sim.scenario''
                       else ''simulation.scenario''))"

definition assertBodyScopes :: "caller \<Rightarrow> match_request \<Rightarrow> api_error option" where
  "assertBodyScopes key r =
    (case find (\<lambda>s. \<not> scopeAllows (cl_scopes key) s) (matchRequestScopes r) of
       None \<Rightarrow> None
     | Some _ \<Rightarrow> Some (refuse_field Forbidden ''simulation''))"

definition assertScenarioIsPlayable :: "match_request \<Rightarrow> manifest \<Rightarrow> string option" where
  "assertScenarioIsPlayable r m =
    (case Option.bind (mr_simulation r) sn_scenario of
       None \<Rightarrow> None
     | Some named \<Rightarrow>
         (case findScenario named of
            None \<Rightarrow> None
          | Some s \<Rightarrow>
              if scenarioPuppetProblem s (gm_flow m) \<noteq> None then Some ''simulation.scenario''
              else None))"

text \<open>The manifest's rules in the order the door asks them: the first field refused.\<close>

definition unplayable :: "match_request \<Rightarrow> manifest \<Rightarrow> string option" where
  "unplayable r m =
    (case matchFormatProblem r m of Some f \<Rightarrow> Some f | None \<Rightarrow>
    (case matchRulesProblem r m of Some f \<Rightarrow> Some f | None \<Rightarrow>
    (case matchVoiceProblem r m of Some f \<Rightarrow> Some f | None \<Rightarrow>
    (case matchSimulationProblem r m of Some f \<Rightarrow> Some f | None \<Rightarrow>
       assertScenarioIsPlayable r m))))"

definition new_match_row :: "caller \<Rightarrow> match_request \<Rightarrow> ident \<Rightarrow> string \<Rightarrow> instant \<Rightarrow> match_row" where
  "new_match_row key r mid hash at =
    \<lparr>m_id = mid, m_deployment = '''', m_keyId = cl_keyId key,
     m_clientMatchId = mr_clientMatchId r, m_state = Pending, m_stateChangedAt = at,
     m_game = mr_game r, m_gamemode = mr_gamemode r, m_provider = None, m_serverId = None,
     m_fleetServerId = None, m_connect = None, m_tv = None, m_seq = 0, m_request = r,
     m_requestHash = hash, m_endedReason = None, m_sim = None,
     m_expiresAt = at + int (mr_ttlMinutes r) * 60000, m_readyAt = None, m_liveAt = None,
     m_endedAt = None, m_webhooksStoppedAt = None, m_createdAt = at, m_updatedAt = at\<rparr>"

text \<open>The refusals between the door and the money: \<open>Inr\<close> carries the hourly price of the first
  candidate.\<close>

definition judge_request ::
  "env \<Rightarrow> match_request \<Rightarrow> manifest \<Rightarrow> selection \<Rightarrow> api_error + nat" where
  "judge_request e r m selection =
    (case sl_candidates selection of
       [] \<Rightarrow>
         if sl_asked selection > 0 \<and> length (sl_failures selection) = sl_asked selection
         then Inl (refuse Provider_unavailable) else Inl (refuse No_capable_server)
     | first # _ \<Rightarrow>
         if gm_game m \<noteq> mr_game r then Inl (refuse Game_unsupported)
         else
           (case unplayable r m of
              Some f \<Rightarrow> Inl (refuse_field Validation_failed f)
            | None \<Rightarrow>
                if list_ex (\<lambda>p. \<not> gamemodeAllowsMap (gm_maps m) (mp_map p)) (mr_maps r)
                then Inl (refuse Map_not_allowed)
                else Inr (of_hourlyCents (ca_offering first))))"

text \<open>\<open>insertMatch\<close> rejects an identifier that is taken; the rejection is the caller's 500.\<close>

definition insert_new_match ::
  "env \<Rightarrow> caller \<Rightarrow> match_request \<Rightarrow> string \<Rightarrow> (api_error + match_view) step" where
  "insert_new_match e key r hash = do {
     at \<leftarrow> now;
     mid \<leftarrow> randomUUID e;
     let row = new_match_row key r mid hash at;
     s \<leftarrow> gets w_store;
     case insertMatch row s of
       None \<Rightarrow> State_Monad.return (Inl (refuse Internal))
     | Some s' \<Rightarrow> do {
         on_store (\<lambda>_. s');
         _ \<leftarrow> runtimeOf row;
         armTtl row;
         enqueue_step row Step_provision;
         v \<leftarrow> view e row;
         State_Monad.return (Inr v)
       }
   }"

definition create ::
  "env \<Rightarrow> caller \<Rightarrow> match_request \<Rightarrow> (api_error + match_view \<times> bool) step" where
  "create e key r = do {
     existing \<leftarrow> gets (\<lambda>w. findMatchByClientId (cl_keyId key) (mr_clientMatchId r) (w_store w));
     let hash = en_requestHash e r;
     case existing of
       Some row \<Rightarrow>
         if m_requestHash row = hash then do {
           v \<leftarrow> view e row;
           State_Monad.return (Inr (v, True))
         }
         else State_Monad.return (Inl (refuse Conflict))
     | None \<Rightarrow>
         (case assertBodyScopes key r of
            Some err \<Rightarrow> State_Monad.return (Inl err)
          | None \<Rightarrow>
              if cb_webhookSecretId (mr_callbacks r) \<notin> set (cl_webhookSecrets key)
              then State_Monad.return
                (Inl (refuse_field Validation_failed ''callbacks.webhookSecretId''))
              else
                (case simPlanProblem r of
                   Some f \<Rightarrow> State_Monad.return (Inl (refuse_field Validation_failed f))
                 | None \<Rightarrow>
                     (case find (\<lambda>m. gm_id m = mr_gamemode r) (en_gamemodes e) of
                        None \<Rightarrow> State_Monad.return (Inl (refuse Unknown_gamemode))
                      | Some m \<Rightarrow> do {
                          selection \<leftarrow> select_for e r ''create'';
                          case judge_request e r m selection of
                            Inl err \<Rightarrow> State_Monad.return (Inl err)
                          | Inr hourlyCents \<Rightarrow> do {
                              h \<leftarrow> gets w_trace;
                              case en_budget_check e h (cl_keyId key) r hourlyCents of
                                Some err \<Rightarrow> State_Monad.return (Inl err)
                              | None \<Rightarrow> do {
                                  v \<leftarrow> insert_new_match e key r hash;
                                  State_Monad.return (map_sum id (\<lambda>v. (v, False)) v)
                                }
                            }
                        })))
   }"

definition cancel :: "env \<Rightarrow> caller \<Rightarrow> ident \<Rightarrow> (api_error + match_view) step" where
  "cancel e key mid = do {
     required \<leftarrow> require_match key mid;
     case required of
       Inl err \<Rightarrow> State_Monad.return (Inl err)
     | Inr row \<Rightarrow> do {
         _ \<leftarrow> runtimeOf row;
         if isTerminalMatchState (m_state row) \<or> m_state row = Live \<or> m_state row = Recovering
         then State_Monad.return (Inl (refuse Invalid_state))
         else do {
           end_match e mid Cancelled \<lparr>er_kind = Kind_cancelled, er_detail = None\<rparr> Fs_released;
           with_match mid (Inl (refuse Not_found)) (\<lambda>row. do {
             v \<leftarrow> view e row;
             State_Monad.return (Inr v)
           })
         }
       }
   }"

subsection \<open>Commands\<close>

definition answer :: "match_command \<Rightarrow> command_status \<Rightarrow> api_error_code option \<Rightarrow> command_result" where
  "answer c st code = \<lparr>cr_correlationId = cm_correlationId c, cr_status = st, cr_code = code\<rparr>"

definition applied :: "match_command \<Rightarrow> command_result" where
  "applied c = answer c St_applied None"

definition rejected :: "match_command \<Rightarrow> api_error_code \<Rightarrow> command_result" where
  "rejected c code = answer c St_rejected (Some code)"

text \<open>What the switch over the command decides: an answer, or a command to relay to the server
  with the backup a live \<open>restore\<close> rewinds to.\<close>

datatype decision = Answered command_result | Relay command_body "backup_row option"

definition decide_restore :: "env \<Rightarrow> match_row \<Rightarrow> match_command \<Rightarrow> nat option \<Rightarrow> decision step" where
  "decide_restore e row c roundNumber =
    (if m_state row = Live then do {
       bs \<leftarrow> gets (\<lambda>w. listBackups (m_id row) (w_store w));
       let playing = (case bs of [] \<Rightarrow> None | b # _ \<Rightarrow> Some (b_mapNumber b));
       let rewound = (case roundNumber of
              None \<Rightarrow> (case bs of [] \<Rightarrow> None | b # _ \<Rightarrow> Some b)
            | Some n \<Rightarrow> find (\<lambda>b. Some (b_mapNumber b) = playing \<and> b_roundNumber b = n) bs);
       State_Monad.return
         (case rewound of
            None \<Rightarrow> Answered (rejected c No_backup)
          | Some b \<Rightarrow> Relay (Cmd_restore (Some (b_roundNumber b))) (Some b))
     }
     else if m_state row \<noteq> Recovering then
       State_Monad.return (Answered (rejected c Invalid_state))
     else do {
       bs \<leftarrow> gets (\<lambda>w. listBackups (m_id row) (w_store w));
       let chosen = (case roundNumber of
              None \<Rightarrow> (case bs of [] \<Rightarrow> None | b # _ \<Rightarrow> Some b)
            | Some n \<Rightarrow> find (\<lambda>b. b_roundNumber b = n) bs);
       case chosen of
         None \<Rightarrow> State_Monad.return (Answered (rejected c No_backup))
       | Some b \<Rightarrow> do {
           open_row \<leftarrow> currentServer row;
           rt \<leftarrow> runtimeOf row;
           if rt_recovering rt \<or>
              (case open_row of None \<Rightarrow> False | Some srv \<Rightarrow> s_releasedAt srv = None)
           then State_Monad.return (Answered (rejected c Invalid_state))
           else do {
             on_runtime row (\<lambda>rt. rt\<lparr>rt_restoring := Some (b_mapNumber b, b_roundNumber b)\<rparr>);
             kickRecovery row;
             State_Monad.return (Answered (applied c))
           }
         }
     })"

definition decide_reprovision :: "env \<Rightarrow> match_row \<Rightarrow> match_command \<Rightarrow> decision step" where
  "decide_reprovision e row c =
    (if m_state row = Recovering then State_Monad.return (Answered (rejected c Invalid_state))
     else if m_state row = Live then do {
       b \<leftarrow> gets (\<lambda>w. latestBackup (m_id row) (w_store w));
       if b = None then State_Monad.return (Answered (rejected c No_backup))
       else do {
         lost e (m_id row) ''the client asked for another server'';
         State_Monad.return (Answered (applied c))
       }
     }
     else do {
       reprovision e (m_id row);
       State_Monad.return (Answered (applied c))
     })"

definition decide_profile :: "env \<Rightarrow> match_row \<Rightarrow> match_command \<Rightarrow> roster_entry \<Rightarrow> decision step" where
  "decide_profile e row c player = do {
     rt \<leftarrow> runtimeOf row;
     let openJoin = (case manifestOf e row of None \<Rightarrow> False | Some m \<Rightarrow> gm_openJoin m);
     if \<not> openJoin \<and> map_of (rt_known rt) (re_steamId64 player) = None
     then State_Monad.return (Answered (rejected c Player_not_in_match))
     else do {
       on_runtime row (\<lambda>rt. rt\<lparr>rt_known := map_set (re_steamId64 player) player (rt_known rt)\<rparr>);
       State_Monad.return (Relay (cm_body c) None)
     }
   }"

fun decide_command :: "env \<Rightarrow> match_row \<Rightarrow> match_command \<Rightarrow> command_body \<Rightarrow> decision step" where
  "decide_command e row c (Cmd_force_end reason) =
    (if m_state row \<noteq> Ready \<and> m_state row \<noteq> Live \<and> m_state row \<noteq> Recovering
     then State_Monad.return (Answered (rejected c Invalid_state))
     else do {
       end_match e (m_id row) Ended \<lparr>er_kind = Force_ended, er_detail =
         (if reason = Some '''' then None else reason)\<rparr> Fs_released;
       State_Monad.return (Answered (applied c))
     })"
| "decide_command e row c (Cmd_restore n) = decide_restore e row c n"
| "decide_command e row c Cmd_reprovision = decide_reprovision e row c"
| "decide_command e row c (Cmd_profile player) = decide_profile e row c player"
| "decide_command e row c (Cmd_kick steamId) = do {
     rt \<leftarrow> runtimeOf row;
     State_Monad.return
       (if map_of (rt_presence rt) steamId = None then Answered (rejected c Player_not_in_match)
        else Relay (cm_body c) None)
   }"
| "decide_command e row c Cmd_pause = State_Monad.return
     (if m_state row \<noteq> Live then Answered (rejected c Invalid_state) else Relay (cm_body c) None)"
| "decide_command e row c Cmd_unpause = State_Monad.return
     (if m_state row \<noteq> Live then Answered (rejected c Invalid_state) else Relay (cm_body c) None)"
| "decide_command e row c body = State_Monad.return (Relay (cm_body c) None)"

definition relay_command ::
  "env \<Rightarrow> match_row \<Rightarrow> match_command \<Rightarrow> command_body \<Rightarrow> backup_row option \<Rightarrow> command_result step"
where
  "relay_command e row c relayed rewound =
    (if isSimCommand (cm_body c) \<and> m_provider row \<noteq> Some SIM_PROVIDER_ID
     then State_Monad.return (rejected c Command_unsupported)
     else do {
       h \<leftarrow> gets w_trace;
       let ref = (case (m_provider row, m_serverId row) of
                    (Some p, Some sid) \<Rightarrow> Some (p, sid) | _ \<Rightarrow> None);
       case Option.bind ref (\<lambda>ref. map_option (\<lambda>_. ref) (en_channel e h ref)) of
         None \<Rightarrow> State_Monad.return
           (case cm_body c of
              Cmd_profile _ \<Rightarrow> applied c
            | _ \<Rightarrow> rejected c Invalid_state)
       | Some ref \<Rightarrow> do {
           said \<leftarrow> call e (Eff_send ref (c\<lparr>cm_body := relayed\<rparr>)) (\<lambda>h. en_send e h ref);
           case said of
             Inl _ \<Rightarrow> State_Monad.return (rejected c Provider_unavailable)
           | Inr (st, code) \<Rightarrow> do {
               only_if (st \<noteq> St_rejected)
                 (if cm_body c = Cmd_pause then do {
                    on_runtime row (\<lambda>rt. rt\<lparr>rt_paused := True\<rparr>);
                    cancelTimer (m_id row) T_heartbeat
                  }
                  else if cm_body c = Cmd_unpause then do {
                    on_runtime row (\<lambda>rt. rt\<lparr>rt_paused := False\<rparr>);
                    armHeartbeat e row
                  }
                  else skip);
               (case rewound of
                  None \<Rightarrow> skip
                | Some b \<Rightarrow> only_if (st = St_applied)
                    (on_store (dropBackupsAfter (m_id row) (b_mapNumber b) (b_roundNumber b))));
               State_Monad.return (answer c st code)
             }
         }
     })"

definition applyCommand :: "env \<Rightarrow> match_row \<Rightarrow> match_command \<Rightarrow> command_result step" where
  "applyCommand e row c =
    (if isTerminalMatchState (m_state row) then State_Monad.return (rejected c Invalid_state)
     else do {
       _ \<leftarrow> runtimeOf row;
       decided \<leftarrow> decide_command e row c (cm_body c);
       case decided of
         Answered res \<Rightarrow> State_Monad.return res
       | Relay body rewound \<Rightarrow> relay_command e row c body rewound
     })"

definition command ::
  "env \<Rightarrow> caller \<Rightarrow> ident \<Rightarrow> match_command \<Rightarrow> (api_error + command_result) step" where
  "command e key mid c = do {
     required \<leftarrow> require_match key mid;
     case required of
       Inl err \<Rightarrow> State_Monad.return (Inl err)
     | Inr row \<Rightarrow>
         if (case cm_body c of Cmd_rcon _ \<Rightarrow> True | _ \<Rightarrow> False) \<and> Scope_admin \<notin> set (cl_scopes key)
         then State_Monad.return (Inl (refuse Forbidden))
         else do {
           _ \<leftarrow> runtimeOf row;
           cached \<leftarrow> gets (\<lambda>w. findCommand mid (cm_correlationId c) (w_store w));
           case Option.bind cached c_result of
             Some res \<Rightarrow> State_Monad.return (Inr res)
           | None \<Rightarrow> do {
               t \<leftarrow> now;
               only_if (cached = None) (on_store (insertCommand
                 \<lparr>c_matchId = mid, c_correlationId = cm_correlationId c, c_command = c,
                  c_result = None, c_createdAt = t, c_updatedAt = t\<rparr>));
               res \<leftarrow> applyCommand e row c;
               t \<leftarrow> now;
               on_store_opt (setCommandResult mid (cm_correlationId c) res t);
               perform (Eff_frame mid (Frame_command_result res));
               State_Monad.return (Inr res)
             }
         }
   }"

subsection \<open>Player tokens, widgets, the events route\<close>

definition mintPlayerToken ::
  "env \<Rightarrow> caller \<Rightarrow> ident \<Rightarrow> string \<Rightarrow> nat \<Rightarrow> (api_error + string \<times> instant) step" where
  "mintPlayerToken e key mid steamId64 ttlSeconds = do {
     required \<leftarrow> require_match key mid;
     case required of
       Inl err \<Rightarrow> State_Monad.return (Inl err)
     | Inr row \<Rightarrow>
         if isTerminalMatchState (m_state row) then State_Monad.return (Inl (refuse Invalid_state))
         else do {
           rt \<leftarrow> runtimeOf row;
           let openJoin = (case manifestOf e row of None \<Rightarrow> False | Some m \<Rightarrow> gm_openJoin m);
           if \<not> openJoin \<and> map_of (rt_known rt) steamId64 = None \<and>
              map_of (rt_presence rt) steamId64 = None
           then State_Monad.return (Inl (refuse Player_not_in_match))
           else do {
             token \<leftarrow> mintSecret e;
             at \<leftarrow> now;
             let expiresAt = at + int ttlSeconds * 1000;
             tid \<leftarrow> randomUUID e;
             on_store (insertPlayerToken \<lparr>pt_id = tid, pt_matchId = mid,
               pt_keyId = cl_keyId key, pt_steamId64 = steamId64,
               pt_tokenHash = en_hashToken e token, pt_expiresAt = expiresAt,
               pt_createdAt = at, pt_revokedAt = None\<rparr>);
             State_Monad.return (Inr (token, expiresAt))
           }
         }
   }"

definition profileOf :: "match_row \<Rightarrow> string \<Rightarrow> roster_entry option step" where
  "profileOf row steamId64 = do {
     rt \<leftarrow> gets (\<lambda>w. w_runtimes w (m_id row));
     State_Monad.return
       (case Option.bind rt (\<lambda>r. map_of (rt_known r) steamId64) of
          Some pushed \<Rightarrow> Some pushed
        | None \<Rightarrow> find (\<lambda>p. re_steamId64 p = steamId64) (roster_of (m_request row)))
   }"

definition playerCommand :: "env \<Rightarrow> ident \<Rightarrow> string \<Rightarrow> tap_outcome step" where
  "playerCommand e mid tap =
    (let no = (\<lambda>code. \<lparr>to_status = ''rejected'', to_code = Some code\<rparr>)
     in with_match mid (no Tap_not_live) (\<lambda>row.
       if m_state row \<noteq> Live then State_Monad.return (no Tap_not_live)
       else if \<not> (case manifestOf e row of None \<Rightarrow> False | Some m \<Rightarrow> tap \<in> set (gm_commands m))
         then State_Monad.return (no Tap_unknown_command)
       else
         (case (m_provider row, m_serverId row) of
            (Some p, Some sid) \<Rightarrow> do {
              h \<leftarrow> gets w_trace;
              case en_channel e h (p, sid) of
                None \<Rightarrow> State_Monad.return (no Tap_not_live)
              | Some ch \<Rightarrow>
                  if \<not> ch_playerCommand ch then State_Monad.return (no Tap_not_live)
                  else do {
                    said \<leftarrow> call e (Eff_player_command (p, sid) tap)
                      (\<lambda>h. en_player_command e h (p, sid));
                    State_Monad.return
                      (case said of Inl _ \<Rightarrow> no Tap_unavailable | Inr out \<Rightarrow> out)
                  }
            }
          | _ \<Rightarrow> State_Monad.return (no Tap_not_live))))"

record events_page =
  ep_items :: "event_row list"
  ep_nextCursor :: "nat option"

definition list_match_events ::
  "caller \<Rightarrow> ident \<Rightarrow> nat \<Rightarrow> nat \<Rightarrow> (api_error + events_page) step" where
  "list_match_events key mid afterSeq limit = do {
     required \<leftarrow> require_match key mid;
     s \<leftarrow> gets w_store;
     State_Monad.return
       (case required of
          Inl err \<Rightarrow> Inl err
        | Inr row \<Rightarrow>
            (let items = listEvents mid afterSeq limit s;
                 caughtUp = ((if items = [] then afterSeq else e_seq (last items)) \<ge> m_seq row)
             in Inr \<lparr>ep_items = items, ep_nextCursor =
                  (if caughtUp \<and> isTerminalMatchState (m_state row) then None
                   else Some (if items = [] then afterSeq else e_seq (last items)))\<rparr>))
   }"

subsection \<open>The reaper's and the fleet's doors\<close>

text \<open>The door looks at the row before the step is queued; the step emits without looking again.\<close>

definition emitTo :: "ident \<Rightarrow> payload \<Rightarrow> unit step" where
  "emitTo mid pl = with_match mid () (\<lambda>row.
     if isTerminalMatchState (m_state row) then skip else enqueue_step row (Step_emit pl))"

definition probeOrLose :: "env \<Rightarrow> ident \<Rightarrow> string \<Rightarrow> unit step" where
  "probeOrLose e mid detail = with_match mid () (\<lambda>row.
     if \<not> probeable (m_state row) then skip
     else
       (case (m_provider row, m_serverId row) of
          (Some p, Some sid) \<Rightarrow> do {
            known \<leftarrow> registered p;
            if \<not> known then skip
            else do {
              said \<leftarrow> call e (Eff_status (p, sid)) (\<lambda>h. en_status e h (p, sid));
              case said of
                Inl _ \<Rightarrow> skip
              | Inr status \<Rightarrow>
                  if ss_state status \<noteq> Lc_gone \<and> ss_state status \<noteq> Lc_stopped then skip
                  else lost e mid detail
            }
          }
        | _ \<Rightarrow> skip))"

definition suspect :: "env \<Rightarrow> ident \<Rightarrow> string \<Rightarrow> unit step" where
  "suspect e mid detail = with_match mid () (\<lambda>row. do {
     _ \<leftarrow> runtimeOf row;
     probeOrLose e mid detail
   })"

definition expire :: "env \<Rightarrow> ident \<Rightarrow> string \<Rightarrow> unit step" where
  "expire e mid detail = with_match mid () (\<lambda>row. do {
     _ \<leftarrow> runtimeOf row;
     end_match e mid Ended \<lparr>er_kind = Ttl_expired, er_detail = Some detail\<rparr> Fs_released
   })"

definition releaseRow :: "env \<Rightarrow> server_row \<Rightarrow> string option \<Rightarrow> unit step" where
  "releaseRow e server reason =
    (let detail = ''released by operator'' @
       (case reason of None \<Rightarrow> '''' | Some r \<Rightarrow> if r = '''' then '''' else '': '' @ r)
     in do {
       found \<leftarrow> gets (\<lambda>w. Option.bind (s_matchId server) (\<lambda>mid. findMatch mid (w_store w)));
       case found of
         None \<Rightarrow> closeRow e server Fs_released detail True
       | Some row \<Rightarrow>
           if \<not> isTerminalMatchState (m_state row) \<and> m_fleetServerId row = Some (s_id server)
           then enqueue_step row (Step_end Failed
             \<lparr>er_kind = Provider_error, er_detail = Some detail\<rparr> Fs_released)
           else closeRow e server Fs_released detail True
     })"

subsection \<open>Restart\<close>

text \<open>What the log of a match tells its runtime after a restart.\<close>

record replay =
  rp_currentMap :: nat
  rp_engine :: "engine_game option"
  rp_announced :: nat
  rp_uploaded :: nat
  rp_seriesEnd :: "(instant \<times> end_reason option) option"

definition replay_event :: "event_row \<Rightarrow> replay \<Rightarrow> replay" where
  "replay_event ev r =
    (case e_payload ev of
       Server_event g \<Rightarrow>
         (case ge_body g of
            Going_live mapNumber _ _ \<Rightarrow> r\<lparr>rp_currentMap := mapNumber\<rparr>
          | Server_ready (Some engine) \<Rightarrow> r\<lparr>rp_engine := Some engine\<rparr>
          | Series_end reason \<Rightarrow> r\<lparr>rp_seriesEnd := Some (e_occurredAt ev, reason)\<rparr>
          | Demo_available _ _ sha ct \<Rightarrow>
              r\<lparr>rp_announced := Suc (rp_announced r),
                rp_uploaded := (if sha \<noteq> None \<and> ct \<noteq> None then Suc (rp_uploaded r)
                                else rp_uploaded r)\<rparr>
          | _ \<Rightarrow> r)
     | _ \<Rightarrow> r)"

fun replay_pages :: "nat \<Rightarrow> ident \<Rightarrow> nat \<Rightarrow> store \<Rightarrow> replay \<Rightarrow> replay option" where
  "replay_pages 0 mid from_seq s r = None"
| "replay_pages (Suc fuel) mid from_seq s r =
    (case listEvents mid from_seq 500 s of
       [] \<Rightarrow> Some r
     | ev # evs \<Rightarrow>
         replay_pages fuel mid (e_seq (last (ev # evs))) s (fold replay_event (ev # evs) r))"

definition replay_of :: "runtime \<Rightarrow> replay" where
  "replay_of rt = \<lparr>rp_currentMap = rt_currentMap rt, rp_engine = rt_engine rt,
     rp_announced = rt_announced rt, rp_uploaded = rt_uploaded rt, rp_seriesEnd = None\<rparr>"

definition replayDemoWait :: "env \<Rightarrow> match_row \<Rightarrow> unit step" where
  "replayDemoWait e row = do {
     rt \<leftarrow> runtimeOf row;
     s \<leftarrow> gets w_store;
     case replay_pages (Suc (length (events s))) (m_id row) 0 s (replay_of rt) of
       None \<Rightarrow> skip
     | Some r \<Rightarrow> do {
         on_runtime row (\<lambda>rt. rt\<lparr>rt_currentMap := rp_currentMap r, rt_engine := rp_engine r,
           rt_announced := rp_announced r, rt_uploaded := rp_uploaded r\<rparr>);
         case rp_seriesEnd r of
           None \<Rightarrow> skip
         | Some (at, reason) \<Rightarrow> do {
             rt \<leftarrow> runtimeOf row;
             if \<not> demoPending e row rt then enqueue_step row (Step_end Ended (completedBy reason) Fs_released)
             else do {
               on_runtime row (\<lambda>rt. rt\<lparr>rt_awaitingDemo := True, rt_seriesEndReason := reason\<rparr>);
               armDemo e row at
             }
           }
       }
   }"

definition resume_recovering :: "env \<Rightarrow> match_row \<Rightarrow> unit step" where
  "resume_recovering e row = do {
     replacement \<leftarrow> currentServer row;
     newest \<leftarrow> gets (\<lambda>w. latestBackup (m_id row) (w_store w));
     (case newest of
        None \<Rightarrow> skip
      | Some b \<Rightarrow> on_runtime row
          (\<lambda>rt. rt\<lparr>rt_restoring := Some (b_mapNumber b, b_roundNumber b)\<rparr>));
     (case replacement of
        Some srv \<Rightarrow>
          if s_releasedAt srv = None \<and> s_state srv = Fs_running then do {
            on_runtime row (\<lambda>rt. rt\<lparr>rt_replacementReady := True\<rparr>);
            armJoin e row;
            armHeartbeat e row
          }
          else if s_releasedAt srv = None then do {
            armRecovery e row;
            armHeartbeat e row
          }
          else do { armRecovery e row; kickRecovery row }
      | None \<Rightarrow> do { armRecovery e row; kickRecovery row })
   }"

definition resume_match :: "env \<Rightarrow> match_row \<Rightarrow> unit step" where
  "resume_match e row = do {
     _ \<leftarrow> runtimeOf row;
     (case (m_provider row, m_serverId row) of
        (Some p, Some sid) \<Rightarrow> set_attribution (p, sid) (m_id row)
      | _ \<Rightarrow> skip);
     armTtl row;
     (case m_state row of
        Pending \<Rightarrow> enqueue_step row Step_provision
      | Allocating \<Rightarrow> enqueue_step row Step_provision
      | Configuring \<Rightarrow> do { armBoot e row; armHeartbeat e row }
      | Ready \<Rightarrow> do { armJoin e row; armHeartbeat e row; replayDemoWait e row }
      | Live \<Rightarrow> do { armHeartbeat e row; replayDemoWait e row }
      | Recovering \<Rightarrow> resume_recovering e row
      | _ \<Rightarrow> skip)
   }"

definition resume :: "env \<Rightarrow> unit step" where
  "resume e = do {
     open_rows \<leftarrow> gets (\<lambda>w. listOpenMatches None (w_store w));
     for_each (resume_match e) open_rows
   }"

text \<open>A restart: the store survives, everything in memory does not.\<close>

definition restart :: "env \<Rightarrow> unit step" where
  "restart e = do {
     modify (\<lambda>w. w\<lparr>w_runtimes := (\<lambda>_. None), w_attribution := (\<lambda>_. None), w_queue := [],
       w_closed := False\<rparr>);
     resume e
   }"

definition close_machine :: "unit step" where
  "close_machine = modify (\<lambda>w. w\<lparr>w_closed := True, w_runtimes := (\<lambda>_. None)\<rparr>)"

text \<open>A queued step runs. The replacement walk clears its flag when it has run.\<close>

definition run_step :: "env \<Rightarrow> ident \<Rightarrow> chain_step \<Rightarrow> unit step" where
  "run_step e mid st =
    (case st of
       Step_provision \<Rightarrow> provision e mid
     | Step_recover \<Rightarrow> do {
         recover e mid;
         on_runtime_if_any mid (\<lambda>rt. rt\<lparr>rt_recovering := False\<rparr>)
       }
     | Step_deadline name \<Rightarrow> on_deadline e mid name
     | Step_emit pl \<Rightarrow> emit e mid pl []
     | Step_end st reason rowState \<Rightarrow> end_match e mid st reason rowState)"

text \<open>The oldest queued step of a match leaves the queue and runs: a chain is first in, first out,
  and the chains of different matches interleave in any order.\<close>

fun dequeue :: "ident \<Rightarrow> (ident \<times> chain_step) list \<Rightarrow> (chain_step \<times> (ident \<times> chain_step) list) option"
where
  "dequeue mid [] = None"
| "dequeue mid (p # ps) =
    (if fst p = mid then Some (snd p, ps)
     else map_option (\<lambda>(st, rest). (st, p # rest)) (dequeue mid ps))"

definition run_next :: "env \<Rightarrow> ident \<Rightarrow> unit step" where
  "run_next e mid = do {
     q \<leftarrow> gets w_queue;
     case dequeue mid q of
       None \<Rightarrow> skip
     | Some (st, rest) \<Rightarrow> do {
         modify (\<lambda>w. w\<lparr>w_queue := rest\<rparr>);
         run_step e mid st
       }
   }"

subsection \<open>The machine as a transition system\<close>

text \<open>Everything that can happen to the machine. Any operation may come at any time, which covers
  every order the chains and the clock allow.\<close>

datatype operation =
    Op_ingest server_ref gameserver_event
  | Op_touch server_ref
  | Op_backup server_ref round_backup
  | Op_assignment server_ref "string list"
  | Op_create caller match_request
  | Op_cancel caller ident
  | Op_command caller ident match_command
  | Op_mint caller ident string nat
  | Op_tap ident string
  | Op_emit ident payload
  | Op_suspect ident string
  | Op_expire ident string
  | Op_release server_row "string option"
  | Op_timer ident timer_name
  | Op_run ident
  | Op_restart
  | Op_close
  | Op_wait nat

definition ignore :: "'a step \<Rightarrow> unit step" where
  "ignore m = do { _ \<leftarrow> m; skip }"

fun operate :: "env \<Rightarrow> operation \<Rightarrow> unit step" where
  "operate e (Op_ingest source ev) = ignore (ingest e source ev)"
| "operate e (Op_touch source) = touch e source"
| "operate e (Op_backup source b) = ignore (backup e source b)"
| "operate e (Op_assignment source installed) = ignore (assignment e source installed)"
| "operate e (Op_create key r) = ignore (create e key r)"
| "operate e (Op_cancel key mid) = ignore (cancel e key mid)"
| "operate e (Op_command key mid c) = ignore (command e key mid c)"
| "operate e (Op_mint key mid steamId ttl) = ignore (mintPlayerToken e key mid steamId ttl)"
| "operate e (Op_tap mid tap) = ignore (playerCommand e mid tap)"
| "operate e (Op_emit mid pl) = only_if (is_fleet_fact pl) (emitTo mid pl)"
| "operate e (Op_suspect mid detail) = suspect e mid detail"
| "operate e (Op_expire mid detail) = expire e mid detail"
| "operate e (Op_release server reason) = releaseRow e server reason"
| "operate e (Op_timer mid name) = fire_timer mid name"
| "operate e (Op_run mid) = run_next e mid"
| "operate e Op_restart = restart e"
| "operate e Op_close = close_machine"
| "operate e (Op_wait ms) = modify (\<lambda>w. w\<lparr>w_now := w_now w + int ms\<rparr>)"

inductive reachable :: "env \<Rightarrow> world \<Rightarrow> bool" for e where
  reachable_init: "reachable e (initial_world d reg t)"
| reachable_step: "reachable e w \<Longrightarrow> reachable e (after (operate e op) w)"

text \<open>A run: the operations of a list, one after the other.\<close>

definition run :: "env \<Rightarrow> operation list \<Rightarrow> world \<Rightarrow> world" where
  "run e ops w = fold (\<lambda>op. after (operate e op)) ops w"

lemma run_ops_simps [simp]: "run e [] w = w" "run e (op # ops) w = run e ops (after (operate e op) w)"
  by (simp_all add: run_def)

lemma reachable_run: "reachable e w \<Longrightarrow> reachable e (run e ops w)"
  by (induction ops arbitrary: w) (auto intro: reachable_step)

end
