(* ===== verification/Chain_Invariants.thy ===== *)
theory Chain_Invariants
  imports Machine_Doors
begin

text \<open>
  The contract between the match machine's operations and an invariant of its world.

  The locale \<open>chain_invariant\<close> asks of a predicate what the primitive steps do to it: reading,
  calling out, arming a timer of an open match, patching an open match's row, writing the
  ledger, appending a fact, and the one write that ends a match. In return every handler, door
  and queued step keeps the predicate, so it holds in every reachable world. The handlers are
  walked through once, here; \<open>Machine_Laws\<close> interprets the locale for each invariant.
\<close>

subsection \<open>What the contract speaks of\<close>

definition is_open :: "ident \<Rightarrow> store \<Rightarrow> bool" where
  "is_open mid s = (case findMatch mid s of
     None \<Rightarrow> False | Some row \<Rightarrow> \<not> isTerminalMatchState (m_state row))"

definition armed :: "world \<Rightarrow> ident \<Rightarrow> timer_name \<Rightarrow> bool" where
  "armed w mid name = (case w_runtimes w mid of
     None \<Rightarrow> False | Some rt \<Rightarrow> rt_timers rt name \<noteq> None)"

definition harmless :: "match_patch \<Rightarrow> bool" where
  "harmless p \<longleftrightarrow> list_all (\<lambda>f. case f of
     Set_state st \<Rightarrow> \<not> isTerminalMatchState st
   | Set_endedAt _ \<Rightarrow> False | Set_endedReason _ \<Rightarrow> False | Set_sim _ \<Rightarrow> False
   | Set_webhooksStoppedAt _ \<Rightarrow> False
   | _ \<Rightarrow> True) p"

definition command_keys :: "store \<Rightarrow> (ident \<times> string) set" where
  "command_keys s = (\<lambda>r. (c_matchId r, c_correlationId r)) ` set (commands s)"

definition same_tables :: "store \<Rightarrow> store \<Rightarrow> bool" where
  "same_tables s s' \<longleftrightarrow> matches s' = matches s \<and> events s' = events s \<and>
     deliveries s' = deliveries s \<and> servers s' = servers s \<and> deployment s' = deployment s \<and>
     command_keys s \<subseteq> command_keys s'"

definition ledgered :: "ident \<Rightarrow> string \<Rightarrow> ident \<Rightarrow> store \<Rightarrow> bool" where
  "ledgered mid p fid s \<longleftrightarrow> (\<exists>srv \<in> set (servers s).
     s_id srv = fid \<and> s_provider srv = p \<and> s_matchId srv = Some mid)"

definition is_new :: "match_row \<Rightarrow> bool" where
  "is_new row \<longleftrightarrow> m_state row = Pending \<and> m_seq row = 0 \<and> m_webhooksStoppedAt row = None \<and>
     m_endedAt row = None \<and> m_endedReason row = None"

fun is_allocation :: "effect \<Rightarrow> bool" where
  "is_allocation (Eff_allocate _ _ _) = True"
| "is_allocation _ = False"

text \<open>The effects that have an obligation of their own: an allocation, and an event told to the stream.\<close>

fun noted :: "effect \<Rightarrow> bool" where
  "noted (Eff_allocate _ _ _) = True"
| "noted (Eff_frame _ (Frame_event _)) = True"
| "noted _ = False"

text \<open>The fact that announces an end, and the patch written with it.\<close>

definition ending_fact :: "match_state \<Rightarrow> ended_reason \<Rightarrow> demo_outcome \<Rightarrow> payload" where
  "ending_fact st reason demo =
     (if st = Failed then Match_failed reason else Match_ended st reason demo)"

definition ending_patch :: "match_state \<Rightarrow> ended_reason \<Rightarrow> instant \<Rightarrow> string option \<Rightarrow> match_patch" where
  "ending_patch st reason at sim = [Set_state st, Set_stateChangedAt at, Set_updatedAt at,
     Set_endedAt (Some at), Set_endedReason (Some reason), Set_sim sim]"

definition step_ok :: "chain_step \<Rightarrow> bool" where
  "step_ok st = (case st of
     Step_end end_state _ _ \<Rightarrow> isTerminalMatchState end_state
   | Step_emit pl \<Rightarrow> is_fleet_fact pl
   | _ \<Rightarrow> True)"

text \<open>What every world keeps: the queued steps are sound and the match ids are distinct.\<close>

definition queue_ok :: "world \<Rightarrow> bool" where
  "queue_ok w \<longleftrightarrow> (\<forall>p \<in> set (w_queue w). step_ok (snd p)) \<and>
     distinct (map m_id (matches (w_store w)))"

lemma fleet_fact_not_terminal: "is_fleet_fact pl \<Longrightarrow> \<not> is_terminal_fact pl"
  by (cases pl) simp_all

lemma command_keys_simps [simp]:
  "command_keys (s\<lparr>serverTokens := a\<rparr>) = command_keys s"
  "command_keys (s\<lparr>playerTokens := b\<rparr>) = command_keys s"
  "command_keys (s\<lparr>backups := c\<rparr>) = command_keys s"
  "command_keys (s\<lparr>matches := d\<rparr>) = command_keys s"
  "command_keys (s\<lparr>servers := f\<rparr>) = command_keys s"
  "command_keys (insertCommand r s) = insert (c_matchId r, c_correlationId r) (command_keys s)"
  by (simp_all add: command_keys_def insertCommand_def)

lemma command_keys_result:
  assumes "setCommandResult i c res at s = Some s'"
  shows "command_keys s' = command_keys s"
proof -
  have "map (\<lambda>r. (c_matchId r, c_correlationId r)) (commands s') =
      map (\<lambda>r. (c_matchId r, c_correlationId r)) (commands s)"
    using assms by (auto simp: setCommandResult_def map_update_first split: option.splits)
  then show ?thesis unfolding command_keys_def by (metis list.set_map)
qed

lemma same_tables_open: "same_tables s s' \<Longrightarrow> is_open mid s' = is_open mid s"
  by (simp add: is_open_def same_tables_def findMatch_def)

lemma harmless_Cons: "harmless (f # p) \<longleftrightarrow> harmless [f] \<and> harmless p"
  by (simp add: harmless_def)

lemma harmless_apply:
  "harmless p \<Longrightarrow> \<not> isTerminalMatchState (m_state row) \<Longrightarrow>
   \<not> isTerminalMatchState (m_state (apply_match_patch p row))"
proof (induction p arbitrary: row)
  case (Cons f p)
  then show ?case by (cases f) (simp_all add: harmless_def)
qed simp

lemma harmless_keeps:
  "harmless p \<Longrightarrow> m_endedAt (apply_match_patch p row) = m_endedAt row \<and>
   m_endedReason (apply_match_patch p row) = m_endedReason row \<and>
   m_sim (apply_match_patch p row) = m_sim row \<and>
   m_webhooksStoppedAt (apply_match_patch p row) = m_webhooksStoppedAt row"
proof (induction p arbitrary: row)
  case (Cons f p)
  then show ?case by (cases f) (simp_all add: harmless_def)
qed simp

lemma open_updateMatch:
  assumes "updateMatch i p s = Some s'" and "harmless p" and "is_open j s"
  shows "is_open j s'"
  using assms match_rows.lookup_patched [OF assms(1), of j]
  by (auto simp: is_open_def harmless_apply split: option.splits)

lemma dequeue_set:
  "dequeue mid q = Some (st, rest) \<Longrightarrow> (mid, st) \<in> set q \<and> set rest \<subseteq> set q"
  by (induction q arbitrary: rest) (auto split: if_splits)

subsection \<open>What an emitted fact does\<close>

lemma run_now [simp]: "run_state now w = (w_now w, w)"
  by (simp add: now_def)

lemma run_perform [simp]: "run_state (perform eff) w = ((), w\<lparr>w_trace := eff # w_trace w\<rparr>)"
  by (simp add: perform_def)

lemma run_on_store [simp]: "run_state (on_store f) w = ((), w\<lparr>w_store := f (w_store w)\<rparr>)"
  by (simp add: on_store_def)

lemma after_destinationFor [simp]: "after (destinationFor e row pl) w = w"
  by (simp add: destinationFor_def Let_def)

definition delivery_for :: "event_row \<Rightarrow> string \<Rightarrow> string \<Rightarrow> delivery_row" where
  "delivery_for ev url secretId =
    \<lparr>d_deliveryId = e_deliveryId ev, d_matchId = e_matchId ev, d_seq = e_seq ev, d_url = url,
     d_secretId = secretId, d_status = Dl_pending, d_attempt = 0,
     d_nextAttemptAt = Some (e_occurredAt ev), d_lastStatus = None, d_lastError = None,
     d_deliveredAt = None, d_createdAt = e_occurredAt ev, d_updatedAt = e_occurredAt ev\<rparr>"

text \<open>A fact of a match whose webhooks were not stopped: the event is appended, framed on the
  stream and queued for delivery, and nothing else of the world changes.\<close>

lemma emit_effect:
  assumes row: "findMatch mid (w_store w) = Some row"
  shows "\<exists>ev s' u si n.
    appendEvent mid (en_uuid e (w_fresh w), w_now w, pl) (w_now w) p (w_store w) = Some (ev, s') \<and>
    after (emit e mid pl p) w =
      (if m_webhooksStoppedAt (apply_match_patch p row) = None
       then w\<lparr>w_store := insertDelivery (delivery_for ev u si) s', w_fresh := n,
              w_trace := Eff_kick_webhooks # Eff_frame mid (Frame_event ev) # w_trace w\<rparr>
       else w\<lparr>w_store := s', w_fresh := n,
              w_trace := Eff_frame mid (Frame_event ev) # w_trace w\<rparr>)"
proof -
  let ?d = "en_uuid e (w_fresh w)"
  let ?ev = "\<lparr>e_matchId = mid, e_seq = Suc (m_seq row), e_deliveryId = ?d, e_occurredAt = w_now w,
    e_payload = pl\<rparr>"
  obtain s' where s': "appendEvent mid (?d, w_now w, pl) (w_now w) p (w_store w) = Some (?ev, s')"
    and here: "findMatch mid s' =
      Some ((apply_match_patch p row)\<lparr>m_seq := Suc (m_seq row), m_updatedAt := w_now w\<rparr>)"
    using appendEvent_Some [OF row, of ?d "w_now w" pl "w_now w" p] by auto
  let ?w = "w\<lparr>w_fresh := Suc (w_fresh w), w_store := s',
    w_trace := Eff_frame mid (Frame_event ?ev) # w_trace w\<rparr>"
  let ?row = "(apply_match_patch p row)\<lparr>m_seq := Suc (m_seq row), m_updatedAt := w_now w\<rparr>"
  obtain u si where dest: "result (destinationFor e ?row pl) ?w = (u, si)" by fastforce
  have "after (emit e mid pl p) w =
      (if m_webhooksStoppedAt (apply_match_patch p row) = None
       then ?w\<lparr>w_store := insertDelivery (delivery_for ?ev u si) s',
               w_trace := Eff_kick_webhooks # w_trace ?w\<rparr>
       else ?w)"
    using s' here dest
    by (simp add: emit_def randomUUID_def store_appendEvent_def with_match_def the_match_def
        delivery_for_def case_prod_beta)
  then show ?thesis
    using s' by (intro exI [of _ ?ev] exI [of _ s'] exI [of _ u] exI [of _ si]
      exI [of _ "Suc (w_fresh w)"]) simp
qed


lemma armed_update:
  "armed (w\<lparr>w_runtimes := (w_runtimes w)(i := x)\<rparr>) mid name =
    (if mid = i then (case x of None \<Rightarrow> False | Some rt \<Rightarrow> rt_timers rt name \<noteq> None)
     else armed w mid name)"
  by (simp add: armed_def)

lemma run_runtimeOf:
  "run_state (runtimeOf row) w = (case w_runtimes w (m_id row) of
     Some rt \<Rightarrow> (rt, w)
   | None \<Rightarrow> (new_runtime row, w\<lparr>w_runtimes := (w_runtimes w)(m_id row := Some (new_runtime row))\<rparr>))"
  by (simp add: runtimeOf_def split: option.split)

lemma run_on_runtime:
  "run_state (on_runtime row f) w = ((), w\<lparr>w_runtimes := (w_runtimes w)(m_id row :=
     Some (f (case w_runtimes w (m_id row) of Some rt \<Rightarrow> rt | None \<Rightarrow> new_runtime row)))\<rparr>)"
  by (simp add: on_runtime_def run_runtimeOf split: option.split)

subsection \<open>The contract\<close>

locale chain_invariant =
  fixes I :: "world \<Rightarrow> bool"
  assumes view_kept: "I w \<Longrightarrow> w_store w' = w_store w \<Longrightarrow> w_trace w' = w_trace w \<Longrightarrow>
      (\<And>mid name. armed w' mid name \<Longrightarrow> armed w mid name \<or> is_open mid (w_store w)) \<Longrightarrow> I w'"
    and trace_kept: "I w \<Longrightarrow> \<not> noted eff \<Longrightarrow> I (w\<lparr>w_trace := eff # w_trace w\<rparr>)"
    and allocate_kept: "I w \<Longrightarrow> ledgered mid pr fid (w_store w) \<Longrightarrow>
      I (w\<lparr>w_trace := Eff_allocate pr mid fid # w_trace w\<rparr>)"
    and elsewhere_kept: "I w \<Longrightarrow> same_tables (w_store w) s' \<Longrightarrow> I (w\<lparr>w_store := s'\<rparr>)"
    and row_kept: "I w \<Longrightarrow> is_open mid (w_store w) \<Longrightarrow> harmless p \<Longrightarrow>
      updateMatch mid p (w_store w) = Some s' \<Longrightarrow> I (w\<lparr>w_store := s'\<rparr>)"
    and ledger_insert_kept: "I w \<Longrightarrow> I (w\<lparr>w_store := insertServer srv (w_store w)\<rparr>)"
    and ledger_update_kept: "I w \<Longrightarrow> updateServer sid sp (w_store w) = Some s' \<Longrightarrow>
      I (w\<lparr>w_store := s'\<rparr>)"
    and new_match_kept: "I w \<Longrightarrow> is_new row \<Longrightarrow> insertMatch row (w_store w) = Some s' \<Longrightarrow>
      I (w\<lparr>w_store := s'\<rparr>)"
    and fact_kept: "I w \<Longrightarrow> findMatch mid (w_store w) \<noteq> None \<Longrightarrow> \<not> is_terminal_fact pl \<Longrightarrow>
      is_open mid (w_store w) \<or> is_fleet_fact pl \<Longrightarrow> I (after (emit e mid pl []) w)"
    and ending_kept: "I w \<Longrightarrow> is_open mid (w_store w) \<Longrightarrow> (\<And>name. \<not> armed w mid name) \<Longrightarrow>
      isTerminalMatchState st \<Longrightarrow>
      I (after (emit e mid (ending_fact st reason demo) (ending_patch st reason at sim)) w)"
begin

text \<open>The invariant with the matches of \<open>S\<close> known to be open.\<close>

definition invs :: "ident set \<Rightarrow> world \<Rightarrow> bool" where
  "invs S w \<longleftrightarrow> I w \<and> queue_ok w \<and> (\<forall>mid \<in> S. is_open mid (w_store w))"

lemma invs_mono: "invs S w \<Longrightarrow> T \<subseteq> S \<Longrightarrow> invs T w"
  by (auto simp: invs_def)

lemma invs_view:
  "invs S w \<Longrightarrow> w_store w' = w_store w \<Longrightarrow> w_trace w' = w_trace w \<Longrightarrow> w_queue w' = w_queue w \<Longrightarrow>
   (\<And>mid name. armed w' mid name \<Longrightarrow> armed w mid name \<or> mid \<in> S) \<Longrightarrow> invs S w'"
  using view_kept [of w w'] by (auto simp: invs_def queue_ok_def)

lemma forget_open: "keeps (invs S) m \<Longrightarrow> triple (invs S) m (\<lambda>_. invs {})"
  by (auto simp: triple_def intro: invs_mono)

lemma from_open: "triple (invs {}) m Q \<Longrightarrow> triple (invs S) m Q"
  by (auto simp: triple_def intro: invs_mono)

subsection \<open>The primitive steps\<close>

lemma keeps_modify_view:
  "(\<And>w. w_store (f w) = w_store w \<and> w_trace (f w) = w_trace w \<and> w_queue (f w) = w_queue w) \<Longrightarrow>
   (\<And>w mid name. armed (f w) mid name \<Longrightarrow> armed w mid name \<or> mid \<in> S) \<Longrightarrow>
   keeps (invs S) (modify f)"
  by (rule triple_modify) (rule invs_view, auto)

lemma keeps_now: "keeps (invs S) now"
  by (simp add: triple_def)

lemma keeps_perform: "\<not> noted eff \<Longrightarrow> keeps (invs S) (perform eff)"
  using trace_kept by (auto simp: triple_def invs_def queue_ok_def)

lemma invs_time: "invs S w \<Longrightarrow> invs S (w\<lparr>w_now := t\<rparr>)"
  by (rule invs_view) (auto simp: armed_def)

lemma invs_trace: "invs S w \<Longrightarrow> \<not> noted eff \<Longrightarrow> invs S (w\<lparr>w_trace := eff # w_trace w\<rparr>)"
  using keeps_perform [of eff S] by (auto simp: triple_def)

lemma keeps_call: "\<not> noted eff \<Longrightarrow> keeps (invs S) (call e eff ans)"
  using invs_time [OF invs_trace [of S _ eff]] by (simp add: call_def triple_def)

lemma keeps_randomUUID: "keeps (invs S) (randomUUID e)"
  unfolding randomUUID_def by (intro triple_intros keeps_modify_view) (simp_all add: armed_def)

lemma keeps_mintSecret: "keeps (invs S) (mintSecret e)"
  unfolding mintSecret_def by (intro triple_intros keeps_modify_view) (simp_all add: armed_def)

lemma keeps_the_match: "keeps (invs S) (the_match mid)"
  by (simp add: the_match_def keeps_gets)

lemma keeps_registered: "keeps (invs S) (registered p)"
  by (simp add: registered_def keeps_gets)

lemma keeps_currentServer: "keeps (invs S) (currentServer row)"
  by (simp add: currentServer_def triple_def split: option.split)

lemma keeps_simOf: "keeps (invs S) (simOf e row)"
  unfolding simOf_def
  by (cases "m_provider row"; cases "m_serverId row")
    (simp_all add: triple_def registered_def case_prod_beta)

lemma keeps_demoOf: "keeps (invs S) (demoOf e row)"
  by (simp add: demoOf_def triple_def)

lemma keeps_runtimeOf: "keeps (invs S) (runtimeOf row)"
  unfolding runtimeOf_def
  by (intro triple_intros keeps_modify_view)
    (auto simp: armed_def new_runtime_def split: if_splits)

lemma keeps_on_runtime:
  "(\<And>rt. rt_timers (f rt) = rt_timers rt) \<Longrightarrow> keeps (invs S) (on_runtime row f)"
  by (rule tripleI, simp add: run_on_runtime, rule invs_view)
    (auto simp: armed_def new_runtime_def split: if_splits option.splits)

lemma keeps_on_runtime_if_any:
  "(\<And>rt name. rt_timers (f rt) name \<noteq> None \<Longrightarrow> rt_timers rt name \<noteq> None) \<Longrightarrow>
   keeps (invs S) (on_runtime_if_any mid f)"
  unfolding on_runtime_if_any_def
  by (rule keeps_modify_view) (auto simp: armed_def split: if_splits option.splits)

lemma keeps_cancelTimer: "keeps (invs S) (cancelTimer mid name)"
  unfolding cancelTimer_def by (rule keeps_on_runtime_if_any) (simp split: if_splits)

lemma keeps_cancelTimers: "keeps (invs S) (cancelTimers mid)"
  unfolding cancelTimers_def by (rule keeps_on_runtime_if_any) simp

lemma keeps_drop_runtime: "keeps (invs S) (drop_runtime mid)"
  unfolding drop_runtime_def by (rule keeps_modify_view) (auto simp: armed_def split: if_splits)

lemma keeps_setTimer: "m_id row \<in> S \<Longrightarrow> keeps (invs S) (setTimer row name at)"
  unfolding setTimer_def
  by (rule tripleI, simp add: run_on_runtime, rule invs_view)
    (auto simp: armed_def new_runtime_def split: if_splits option.splits)

lemma keeps_attribution:
  "keeps (invs S) (forget_attribution ref)" "keeps (invs S) (set_attribution ref mid)"
  unfolding forget_attribution_def set_attribution_def
  by (rule keeps_modify_view; simp add: armed_def)+

lemma keeps_enqueue_step: "step_ok st \<Longrightarrow> keeps (invs S) (enqueue_step row st)"
  unfolding enqueue_step_def
  by (intro triple_intros keeps_runtimeOf triple_modify)
    (auto simp: invs_def queue_ok_def intro: view_kept simp: armed_def)

lemma keeps_presenceFrame: "keeps (invs S) (presenceFrame row)"
  unfolding presenceFrame_def by (intro triple_intros keeps_runtimeOf keeps_perform) simp

end

subsection \<open>Writes to the store\<close>

lemma open_after_emit:
  assumes "findMatch mid (w_store w) \<noteq> None" and "is_open i (w_store w)"
  shows "is_open i (w_store (after (emit e mid pl []) w))"
proof -
  obtain row where row: "findMatch mid (w_store w) = Some row"
    using assms(1) by auto
  obtain ev s' where a: "appendEvent mid (en_uuid e (w_fresh w), w_now w, pl) (w_now w) []
      (w_store w) = Some (ev, s')"
    and st: "\<And>j. findMatch j (w_store (after (emit e mid pl []) w)) = findMatch j s'"
    using emit_effect [OF row, of e pl "[]"] by (fastforce simp: insertDelivery_def findMatch_def)
  have "findMatch i s' = (if i = mid
      then Some (row\<lparr>m_seq := Suc (m_seq row), m_updatedAt := w_now w\<rparr>)
      else findMatch i (w_store w))"
    using appendEvent_Some [OF row, of "en_uuid e (w_fresh w)" "w_now w" pl "w_now w" "[]"] a
    by auto
  with assms(2) row st show ?thesis by (auto simp: is_open_def split: option.splits)
qed

lemma queue_after_emit: "queue_ok w \<Longrightarrow> queue_ok (after (emit e mid pl p) w)"
proof (cases "findMatch mid (w_store w)")
  case None
  assume "queue_ok w"
  with None show ?thesis
    by (simp add: emit_def randomUUID_def store_appendEvent_def appendEvent_def queue_ok_def)
next
  case (Some row)
  assume "queue_ok w"
  obtain ev s' where a: "appendEvent mid (en_uuid e (w_fresh w), w_now w, pl) (w_now w) p
      (w_store w) = Some (ev, s')"
    and ms: "matches (w_store (after (emit e mid pl p) w)) = matches s'"
    and "w_queue (after (emit e mid pl p) w) = w_queue w"
    using emit_effect [OF Some, of e pl p] by (fastforce simp: insertDelivery_def)
  moreover have "map m_id (matches s') = map m_id (matches (w_store w))"
    using appendEvent_Some [OF Some, of "en_uuid e (w_fresh w)" "w_now w" pl "w_now w" p] a
    by auto
  ultimately show ?thesis using \<open>queue_ok w\<close> by (simp add: queue_ok_def)
qed

context chain_invariant
begin

lemma keeps_elsewhere:
  assumes "\<And>s. same_tables s (f s)"
  shows "keeps (invs S) (on_store f)"
  using elsewhere_kept [OF _ assms] same_tables_open [OF assms] assms
  by (auto simp: triple_def invs_def queue_ok_def same_tables_def)

lemma keeps_elsewhere_opt:
  "(\<And>s s'. f s = Some s' \<Longrightarrow> same_tables s s') \<Longrightarrow> keeps (invs S) (on_store_opt f)"
  unfolding on_store_opt_def
  by (rule keeps_elsewhere) (auto simp: same_tables_def split: option.split)

lemma keeps_updateMatch:
  assumes "mid \<in> S" and "harmless p"
  shows "keeps (invs S) (store_updateMatch mid p)"
proof (rule tripleI)
  fix w assume w: "invs S w"
  show "invs S (after (store_updateMatch mid p) w)"
  proof (cases "updateMatch mid p (w_store w)")
    case None
    with w show ?thesis by (simp add: store_updateMatch_def on_store_opt_def)
  next
    case (Some s')
    with w assms row_kept [of w mid p s'] open_updateMatch [OF Some assms(2)]
      updateMatch_frame [OF Some] show ?thesis
      by (auto simp: store_updateMatch_def on_store_opt_def invs_def queue_ok_def)
  qed
qed

lemma keeps_setState:
  "mid \<in> S \<Longrightarrow> \<not> isTerminalMatchState st \<Longrightarrow> harmless extra \<Longrightarrow>
   keeps (invs S) (setState mid st extra)"
  unfolding setState_def
  by (intro triple_intros keeps_now keeps_updateMatch) (simp_all add: harmless_def)

lemma keeps_updateServer: "keeps (invs S) (store_updateServer sid sp)"
proof (rule tripleI)
  fix w assume w: "invs S w"
  show "invs S (after (store_updateServer sid sp) w)"
  proof (cases "updateServer sid sp (w_store w)")
    case None
    with w show ?thesis by (simp add: store_updateServer_def on_store_opt_def)
  next
    case (Some s')
    then have "\<And>i. is_open i s' = is_open i (w_store w)"
      using updateServer_frame [OF Some] by (simp add: is_open_def findMatch_def)
    with w Some ledger_update_kept [of w sid sp s'] updateServer_frame [OF Some] show ?thesis
      by (auto simp: store_updateServer_def on_store_opt_def invs_def queue_ok_def)
  qed
qed

lemma keeps_insertServer: "keeps (invs S) (store_insertServer srv)"
  using ledger_insert_kept [of _ srv]
  by (auto simp: triple_def store_insertServer_def invs_def queue_ok_def is_open_def findMatch_def
      insertServer_def)

lemma keeps_emit:
  assumes "mid \<in> S" and "\<not> is_terminal_fact pl"
  shows "keeps (invs S) (emit e mid pl [])"
proof (rule tripleI)
  fix w assume w: "invs S w"
  with assms(1) have o: "is_open mid (w_store w)" by (simp add: invs_def)
  then have "findMatch mid (w_store w) \<noteq> None" by (auto simp: is_open_def split: option.splits)
  with w o assms show "invs S (after (emit e mid pl []) w)"
    by (simp add: invs_def fact_kept queue_after_emit open_after_emit)
qed

lemma keeps_fleet_emit:
  assumes "is_fleet_fact pl"
  shows "triple (\<lambda>w. invs S w \<and> findMatch mid (w_store w) \<noteq> None) (emit e mid pl []) (\<lambda>_. invs S)"
  using assms fleet_fact_not_terminal
  by (auto simp: triple_def invs_def intro!: fact_kept queue_after_emit open_after_emit)

text \<open>The rest of a step on the row of an open match, and of a match of any kind.\<close>

lemma with_open:
  "mid \<in> S \<Longrightarrow>
   (\<And>row. m_id row = mid \<Longrightarrow> \<not> isTerminalMatchState (m_state row) \<Longrightarrow> triple (invs S) (f row) Q) \<Longrightarrow>
   triple (invs S) (with_match mid d f) Q"
  by (auto simp: triple_def with_match_def the_match_def invs_def is_open_def findMatch_id
      split: option.splits)

lemma with_any:
  assumes "\<And>row. m_id row = mid \<Longrightarrow> isTerminalMatchState (m_state row) \<Longrightarrow>
      triple (invs {}) (f row) (\<lambda>_. invs {})"
    and "\<And>row. m_id row = mid \<Longrightarrow> \<not> isTerminalMatchState (m_state row) \<Longrightarrow>
      triple (invs {mid}) (f row) (\<lambda>_. invs {})"
  shows "keeps (invs {}) (with_match mid d f)"
proof (rule tripleI)
  fix w assume w: "invs {} w"
  show "invs {} (after (with_match mid d f) w)"
  proof (cases "findMatch mid (w_store w)")
    case None
    with w show ?thesis by (simp add: with_match_def the_match_def)
  next
    case (Some row)
    have "invs {} (after (f row) w)"
    proof (cases "isTerminalMatchState (m_state row)")
      case True
      then show ?thesis by (rule tripleD [OF assms(1) [OF findMatch_id [OF Some]] w])
    next
      case False
      with w Some have "invs {mid} w" by (simp add: invs_def is_open_def)
      with False show ?thesis by (rule tripleD [OF assms(2) [OF findMatch_id [OF Some]]])
    qed
    with Some show ?thesis by (simp add: with_match_def the_match_def)
  qed
qed

end

end
