(* ===== verification/Chain_Handlers.thy ===== *)
theory Chain_Handlers
  imports Chain_Invariants
begin

text \<open>
  Every handler, door and queued step of the match machine keeps a \<open>chain_invariant\<close>: one
  lemma per function of \<open>Machine\<close> and \<open>Machine_Doors\<close>, in their order, each by the structural
  rules of \<open>Prelude\<close> and the lemmas of the functions it calls. \<open>operate_keeps\<close> and
  \<open>reachable_keeps\<close> close the development of the locale.
\<close>

lemma triple_conj:
  "triple P m Q \<Longrightarrow> triple P' m Q' \<Longrightarrow>
   triple (\<lambda>s. P s \<and> P' s) m (\<lambda>x s. Q x s \<and> Q' x s)"
  by (simp add: triple_def)

lemma triple_bool [triple_intros]:
  "(b \<Longrightarrow> triple P m Q) \<Longrightarrow> (\<not> b \<Longrightarrow> triple P n Q) \<Longrightarrow>
   triple P (case b of True \<Rightarrow> m | False \<Rightarrow> n) Q"
  by (cases b) auto

lemma triple_timer_name:
  "triple P a Q \<Longrightarrow> triple P b Q \<Longrightarrow> triple P c Q \<Longrightarrow> triple P d Q \<Longrightarrow> triple P f Q \<Longrightarrow>
   triple P g Q \<Longrightarrow> triple P h Q \<Longrightarrow> triple P (case_timer_name a b c d f g h name) Q"
  by (cases name) simp_all

lemma probeable_open: "probeable st \<Longrightarrow> \<not> isTerminalMatchState st"
  by (auto simp: probeable_def)

text \<open>Closing a row leaves the runtimes alone.\<close>

lemma runtimes_stop_server: "keeps (\<lambda>w. w_runtimes w = R) (stop_server e ref reason)"
  unfolding stop_server_def call_def perform_def
  by (intro triple_intros triple_modify) simp_all

lemma runtimes_closeRow: "keeps (\<lambda>w. w_runtimes w = R) (closeRow e server st reason b)"
  unfolding closeRow_def registered_def forget_attribution_def now_def store_updateServer_def
    on_store_opt_def on_store_def
  by (intro triple_intros runtimes_stop_server triple_modify) simp_all

context chain_invariant
begin

lemmas primitive_keeps = keeps_now keeps_randomUUID keeps_mintSecret keeps_the_match
  keeps_registered keeps_currentServer keeps_simOf keeps_demoOf keeps_runtimeOf keeps_cancelTimer
  keeps_cancelTimers keeps_drop_runtime keeps_attribution keeps_presenceFrame keeps_updateServer
  keeps_insertServer

lemma keeps_stop_server: "keeps (invs S) (stop_server e ref reason)"
  unfolding stop_server_def by (intro triple_intros keeps_call keeps_perform) simp_all

lemma keeps_closeRow: "keeps (invs S) (closeRow e server st reason b)"
  unfolding closeRow_def by (intro triple_intros primitive_keeps keeps_stop_server)

lemma keeps_deallocateQuietly: "keeps (invs S) (deallocateQuietly e ref)"
  unfolding deallocateQuietly_def by (rule keeps_call) simp

lemma keeps_close_current: "mid \<in> S \<Longrightarrow> keeps (invs S) (close_current e mid st reason)"
  unfolding close_current_def
  by (rule with_open, assumption) (intro triple_intros primitive_keeps keeps_closeRow)

subsection \<open>The end of a match\<close>

definition hushed :: "ident \<Rightarrow> world \<Rightarrow> bool" where
  "hushed mid w \<longleftrightarrow> invs {mid} w \<and> (\<forall>name. \<not> armed w mid name)"

lemma hushed_keeps:
  assumes "keeps (invs {mid}) m" and "\<And>R. keeps (\<lambda>w. w_runtimes w = R) m"
  shows "keeps (hushed mid) m"
proof (rule tripleI)
  fix w assume w: "hushed mid w"
  have "w_runtimes (after m w) = w_runtimes w"
    using tripleD [OF assms(2) [of "w_runtimes w"], of w] by simp
  with w tripleD [OF assms(1), of w] show "hushed mid (after m w)"
    by (simp add: hushed_def armed_def)
qed

lemma hushed_simple:
  "keeps (hushed mid) now" "keeps (hushed mid) (simOf e row)"
  "keeps (hushed mid) (currentServer row)" "keeps (hushed mid) (demoOf e row)"
  "keeps (hushed mid) (closeRow e srv rs reason b)"
proof -
  show "keeps (hushed mid) now"
    by (rule hushed_keeps) (simp_all add: keeps_now triple_def)
  show "keeps (hushed mid) (simOf e row)"
    by (rule hushed_keeps [OF keeps_simOf])
      (cases "m_provider row"; cases "m_serverId row";
        simp add: simOf_def triple_def registered_def case_prod_beta)
  show "keeps (hushed mid) (currentServer row)"
    by (rule hushed_keeps [OF keeps_currentServer])
      (simp add: currentServer_def triple_def split: option.split)
  show "keeps (hushed mid) (demoOf e row)"
    by (rule hushed_keeps [OF keeps_demoOf]) (simp add: demoOf_def triple_def)
  show "keeps (hushed mid) (closeRow e srv rs reason b)"
    by (rule hushed_keeps [OF keeps_closeRow runtimes_closeRow])
qed

lemma cancelTimers_hushes: "triple (invs {mid}) (cancelTimers mid) (\<lambda>_. hushed mid)"
proof (rule tripleI)
  fix w assume "invs {mid} w"
  then have "invs {mid} (after (cancelTimers mid) w)"
    by (rule tripleD [OF keeps_cancelTimers])
  then show "hushed mid (after (cancelTimers mid) w)"
    by (simp add: hushed_def armed_def cancelTimers_def on_runtime_if_any_def split: option.split)
qed

lemma announce_ends:
  assumes "isTerminalMatchState st"
  shows "triple (hushed mid)
    (emit e mid (if st = Failed then Match_failed reason else Match_ended st reason demo)
       [Set_state st, Set_stateChangedAt at, Set_updatedAt at, Set_endedAt (Some at),
        Set_endedReason (Some reason), Set_sim sim]) (\<lambda>_. invs {})"
  using ending_kept [OF _ _ _ assms, of _ mid e reason demo at sim]
  by (auto simp: triple_def hushed_def invs_def ending_fact_def ending_patch_def queue_after_emit)

lemma keeps_end_match:
  assumes "isTerminalMatchState st"
  shows "keeps (invs {}) (end_match e mid st reason rs)"
  unfolding end_match_def
  apply (rule with_any)
   apply (simp add: keeps_skip)
  apply (simp only: if_False)
  apply (rule triple_bind [OF cancelTimers_hushes])
  apply (rule keeps_bind, rule hushed_simple)
  apply (rule keeps_bind, rule hushed_simple)
  apply (rule keeps_bind, intro triple_option keeps_skip hushed_simple)
  apply (rule keeps_bind, rule hushed_simple)
  apply (rule keeps_bind, rule hushed_simple)
  apply (rule triple_bind [OF announce_ends [OF assms]])
  by (intro triple_intros keeps_perform keeps_drop_runtime) simp

lemma leaf_skip: "triple (invs S) skip (\<lambda>_. invs {})"
  by (rule forget_open [OF keeps_skip])

lemma leaf_return: "triple (invs S) (State_Monad.return x) (\<lambda>_. invs {})"
  by (rule forget_open [OF keeps_return])

lemma leaf_end: "isTerminalMatchState st \<Longrightarrow> triple (invs S) (end_match e mid st reason rs) (\<lambda>_. invs {})"
  by (rule from_open [OF keeps_end_match])

lemma leaf_fail: "triple (invs S) (fail_match e mid kind detail) (\<lambda>_. invs {})"
  unfolding fail_match_def by (rule leaf_end) simp

lemmas leaf_rules = leaf_skip leaf_return leaf_end leaf_fail

lemma with_row:
  "(\<And>row. m_id row = mid \<Longrightarrow> keeps (invs {}) (f row)) \<Longrightarrow> keeps (invs {}) (with_match mid d f)"
  by (rule with_any) (auto intro: from_open)

subsection \<open>Deadlines and the loss detector\<close>

lemma keeps_arm:
  assumes "m_id row \<in> S"
  shows "keeps (invs S) (armTtl row)" "keeps (invs S) (armAllocate e row)"
    "keeps (invs S) (armBoot e row)" "keeps (invs S) (armJoin e row)"
    "keeps (invs S) (armRecovery e row)" "keeps (invs S) (armDemo e row t)"
  unfolding armTtl_def armAllocate_def armBoot_def armJoin_def armRecovery_def armDemo_def
  using assms by (simp_all add: keeps_setTimer)

lemma keeps_armHeartbeat: "m_id row \<in> S \<Longrightarrow> keeps (invs S) (armHeartbeat e row)"
  unfolding armHeartbeat_def by (intro triple_intros primitive_keeps keeps_setTimer)

lemmas arm_rules = keeps_arm keeps_armHeartbeat

lemma keeps_lastSeen: "keeps (invs S) (lastSeen e row)"
  unfolding lastSeen_def by (intro triple_intros primitive_keeps keeps_call) simp_all

lemma keeps_kickRecovery: "keeps (invs S) (kickRecovery row)"
  unfolding kickRecovery_def
  by (intro triple_intros primitive_keeps keeps_on_runtime keeps_enqueue_step)
    (simp_all add: step_ok_def)

lemma keeps_restorePoint: "keeps (invs S) (restorePoint row)"
  unfolding restorePoint_def by (intro triple_intros primitive_keeps)

lemma ends_lost: "keeps (invs {}) (lost e mid reason)"
  unfolding lost_def
  apply (rule with_any)
   apply (simp add: leaf_skip)
  apply (intro triple_intros leaf_rules primitive_keeps keeps_on_runtime keeps_emit keeps_setState
      keeps_close_current with_open arm_rules forget_open [OF keeps_kickRecovery])
  by (simp_all add: harmless_def)

lemma ends_probe: "keeps (invs {}) (probe e mid)"
  unfolding probe_def
  apply (rule with_any)
   apply (rule triple_if, rule leaf_skip, blast dest: probeable_open)
  apply (intro triple_intros leaf_rules primitive_keeps keeps_call from_open [OF ends_lost]
      forget_open [OF keeps_armHeartbeat])
  by simp_all

subsection \<open>The provisioning walk\<close>

definition on_ledger :: "ident set \<Rightarrow> ident \<Rightarrow> string \<Rightarrow> ident \<Rightarrow> world \<Rightarrow> bool" where
  "on_ledger S mid provider fid w \<longleftrightarrow> invs S w \<and> ledgered mid provider fid (w_store w)"

lemma insert_on_ledger:
  "triple (invs S) (store_insertServer (ledger_row row c fid at))
     (\<lambda>_. on_ledger S (m_id row) (ca_provider c) fid)"
  using tripleD [OF keeps_insertServer, of S _ "ledger_row row c fid at"]
  by (auto simp: triple_def on_ledger_def ledgered_def store_insertServer_def insertServer_def
      ledger_row_def)

lemma on_ledger_keeps:
  "keeps (invs S) m \<Longrightarrow> (\<And>w. servers (w_store (after m w)) = servers (w_store w)) \<Longrightarrow>
   keeps (on_ledger S mid provider fid) m"
  by (simp add: triple_def on_ledger_def ledgered_def)

lemma servers_updateMatch:
  "servers (w_store (after (store_updateMatch i p) w)) = servers (w_store w)"
  by (auto simp: store_updateMatch_def on_store_opt_def dest: updateMatch_frame split: option.split)

lemma call_allocate:
  "triple (on_ledger S mid provider fid) (call e (Eff_allocate provider mid fid) ans) (\<lambda>_. invs S)"
proof (rule tripleI)
  fix w assume w: "on_ledger S mid provider fid w"
  then have "invs S (w\<lparr>w_trace := Eff_allocate provider mid fid # w_trace w\<rparr>)"
    using allocate_kept [of w mid provider fid] by (simp add: on_ledger_def invs_def queue_ok_def)
  from invs_time [OF this] show "invs S (after (call e (Eff_allocate provider mid fid) ans) w)"
    by (simp add: call_def)
qed

lemma keeps_configure_and_start:
  "mid \<in> S \<Longrightarrow> keeps (invs S) (configure_and_start e mid fid provider a restore)"
  unfolding configure_and_start_def
  by (intro triple_intros primitive_keeps keeps_call keeps_elsewhere keeps_updateMatch)
    (simp_all add: harmless_def same_tables_def insertServerToken_def)

lemma keeps_try_candidate:
  assumes "m_id row \<in> S"
  shows "keeps (invs S) (try_candidate e row restore c)"
  unfolding try_candidate_def Let_def
  apply (rule keeps_bind, rule keeps_randomUUID)
  apply (rule keeps_bind, rule keeps_now)
  apply (rule triple_bind [OF insert_on_ledger])
  apply (rule keeps_bind, rule on_ledger_keeps, rule keeps_updateMatch [OF assms])
    apply (simp_all add: harmless_def servers_updateMatch)
  apply (rule keeps_bind, rule on_ledger_keeps, rule keeps_perform)
    apply simp_all
  apply (rule triple_bind [OF call_allocate])
  apply (intro triple_intros primitive_keeps keeps_updateMatch keeps_emit keeps_perform
      keeps_configure_and_start keeps_deallocateQuietly)
  by (simp_all add: assms harmless_def)

lemma keeps_walk_candidates:
  "m_id row \<in> S \<Longrightarrow> keeps (invs S) (walk_candidates e row until restore cs)"
  by (induction cs) (auto intro!: triple_intros keeps_now keeps_try_candidate)

lemma keeps_select_for: "keeps (invs S) (select_for e request tag)"
  unfolding select_for_def
  by (intro triple_intros keeps_now keeps_call keeps_modify_view) (simp_all add: armed_def)

lemma keeps_walk: "m_id row \<in> S \<Longrightarrow> keeps (invs S) (walk e row until restore)"
  unfolding walk_def by (intro triple_intros keeps_select_for keeps_walk_candidates)

lemma ends_provision: "keeps (invs {}) (provision e mid)"
  unfolding provision_def
  apply (rule with_any)
   apply (rule triple_if, rule leaf_skip, force)
  apply (intro triple_intros leaf_rules keeps_setState with_open arm_rules keeps_walk
      primitive_keeps forget_open [OF keeps_armHeartbeat])
  by (simp_all add: harmless_def)

lemma ends_reprovision: "keeps (invs {}) (reprovision e mid)"
  unfolding reprovision_def
  apply (rule with_any)
   apply (simp add: leaf_skip)
  apply (intro triple_intros leaf_rules primitive_keeps keeps_close_current keeps_on_runtime
      keeps_updateMatch keeps_setState forget_open [OF keeps_enqueue_step])
  by (simp_all add: harmless_def step_ok_def)

lemma ends_recover: "keeps (invs {}) (recover e mid)"
  unfolding recover_def
  apply (rule with_any)
   apply (rule triple_if, rule leaf_skip, force)
  apply (intro triple_intros leaf_rules primitive_keeps keeps_restorePoint keeps_walk with_open
      forget_open [OF keeps_armHeartbeat])
  by simp_all

subsection \<open>Deadlines and events\<close>

lemma keeps_resumed: "mid \<in> S \<Longrightarrow> keeps (invs S) (resumed e mid source sign)"
  unfolding resumed_def
  apply (rule with_open, assumption)
  apply (intro triple_intros primitive_keeps keeps_on_runtime keeps_emit keeps_setState)
  by (simp_all add: harmless_def)

lemma ends_on_deadline: "keeps (invs {}) (on_deadline e mid name)"
  unfolding on_deadline_def
  apply (rule with_row)
  apply (intro triple_timer_name triple_intros leaf_rules primitive_keeps keeps_lastSeen
      keeps_on_runtime_if_any ends_probe)
  by simp_all

lemma keeps_fire_timer: "keeps (invs {}) (fire_timer mid name)"
  unfolding fire_timer_def
  by (intro triple_intros keeps_cancelTimer with_row keeps_enqueue_step) (simp add: step_ok_def)

lemma keeps_connect_facts: "keeps (invs S) (connect_facts e row server)"
  unfolding connect_facts_def
  by (intro triple_intros primitive_keeps keeps_call) simp_all

lemma ends_on_server_ready: "keeps (invs {}) (on_server_ready e mid source)"
  unfolding on_server_ready_def
  apply (rule with_any)
   apply (rule triple_if, rule leaf_return, force)
  apply (intro triple_intros leaf_rules primitive_keeps keeps_connect_facts keeps_setState
      keeps_emit with_open arm_rules keeps_on_runtime keeps_resumed)
  by (simp_all add: harmless_def)

lemma ends_on_going_live: "mid \<in> S \<Longrightarrow> keeps (invs S) (on_going_live e mid source n)"
  unfolding on_going_live_def
  apply (rule with_open, assumption)
  apply (intro triple_intros primitive_keeps keeps_on_runtime keeps_setState keeps_resumed)
  by (simp_all add: harmless_def)

lemma keeps_player_events:
  "mid \<in> S \<Longrightarrow> keeps (invs S) (on_player_connected e mid pl)"
  "mid \<in> S \<Longrightarrow> keeps (invs S) (on_player_disconnected e mid pl)"
  unfolding on_player_connected_def on_player_disconnected_def
  by (rule with_open, assumption,
      (intro triple_intros primitive_keeps keeps_on_runtime keeps_emit; simp))+

lemma ends_on_demo_available: "triple (invs {mid}) (on_demo_available e mid n b sha ct) (\<lambda>_. invs {})"
  unfolding on_demo_available_def
  apply (rule with_open, simp)
  apply (intro triple_intros leaf_rules primitive_keeps keeps_on_runtime keeps_emit)
  by simp_all

lemma ends_on_series_end: "triple (invs {mid}) (on_series_end e mid reason) (\<lambda>_. invs {})"
  unfolding on_series_end_def
  apply (rule with_open, simp)
  apply (intro triple_intros leaf_rules primitive_keeps keeps_on_runtime forget_open [OF keeps_arm(6)])
  by simp_all

lemma keeps_recovering_sign: "mid \<in> S \<Longrightarrow> keeps (invs S) (recovering_sign e mid source sign)"
  unfolding recovering_sign_def
  by (rule with_open, assumption) (intro triple_intros keeps_resumed)

lemma ends_dispatch_event: "triple (invs {mid}) (dispatch_event e mid source body) (\<lambda>_. invs {})"
proof -
  have ends: "triple (invs {mid}) m (\<lambda>_. invs {}) \<Longrightarrow> triple (invs {mid}) (completes m) (\<lambda>_. invs {})"
    for m by (auto simp: completes_def intro: triple_bind keeps_return)
  have kept: "keeps (invs {mid}) m \<Longrightarrow> triple (invs {mid}) (completes m) (\<lambda>_. invs {})" for m
    by (rule ends [OF forget_open])
  show ?thesis
    by (cases body)
      (auto intro!: ends ends_on_demo_available ends_on_series_end from_open [OF ends_on_server_ready]
        kept [OF ends_on_going_live] kept [OF keeps_player_events(1)]
        kept [OF keeps_player_events(2)] kept [OF keeps_recovering_sign] leaf_skip)
qed

lemma ends_dispatched:
  "triple (invs {mid}) (dispatch_event e mid source body \<bind> (\<lambda>b. State_Monad.return (f b)))
     (\<lambda>_. invs {})"
  by (rule triple_bind [OF ends_dispatch_event keeps_return])

lemma ends_onServerEvent: "keeps (invs {}) (onServerEvent e mid source said)"
  unfolding onServerEvent_def
  apply (rule with_any)
   apply (simp add: leaf_return)
  apply (rule ends_dispatched triple_intros leaf_rules primitive_keeps keeps_on_runtime
      keeps_armHeartbeat keeps_perform keeps_emit refl singletonI | simp; fail)+
  done

subsection \<open>The doors\<close>

lemma keeps_matchOf: "keeps (invs S) (matchOf source)"
  unfolding matchOf_def by (intro triple_intros primitive_keeps)

text \<open>The row \<open>matchOf\<close> answers is stored.\<close>

lemma matchOf_stored:
  "triple (invs {}) (matchOf source) (\<lambda>r w. invs {} w \<and>
     (\<forall>row. r = Some row \<longrightarrow> findMatch (m_id row) (w_store w) = Some row))"
proof (rule tripleI)
  fix w assume w: "invs {} w"
  have "result (matchOf source) w = Some row \<Longrightarrow>
      findMatch (m_id row) (w_store (after (matchOf source) w)) = Some row" for row
    by (auto simp: matchOf_def set_attribution_def dest: findMatch_id
        split: option.splits if_splits)
  with tripleD [OF keeps_matchOf w] show "invs {} (after (matchOf source) w) \<and>
     (\<forall>row. result (matchOf source) w = Some row \<longrightarrow>
       findMatch (m_id row) (w_store (after (matchOf source) w)) = Some row)"
    by auto
qed

text \<open>What follows a stored row, and what follows \<open>matchOf\<close>.\<close>

lemma on_stored:
  assumes "isTerminalMatchState (m_state r) \<Longrightarrow> keeps (invs {}) m"
    and "\<not> isTerminalMatchState (m_state r) \<Longrightarrow> triple (invs {m_id r}) m (\<lambda>_. invs {})"
  shows "triple (\<lambda>w. invs {} w \<and> findMatch (m_id r) (w_store w) = Some r) m (\<lambda>_. invs {})"
proof (cases "isTerminalMatchState (m_state r)")
  case True
  with assms(1) show ?thesis by (auto simp: triple_def)
next
  case False
  with assms(2) show ?thesis by (auto simp: triple_def invs_def is_open_def)
qed

lemma keeps_from_matchOf:
  assumes "keeps (invs {}) (f None)"
    and "\<And>r. isTerminalMatchState (m_state r) \<Longrightarrow> keeps (invs {}) (f (Some r))"
    and "\<And>r. \<not> isTerminalMatchState (m_state r) \<Longrightarrow> triple (invs {m_id r}) (f (Some r)) (\<lambda>_. invs {})"
  shows "keeps (invs {}) (matchOf source \<bind> f)"
proof (rule triple_bind [OF matchOf_stored])
  fix x
  show "triple (\<lambda>w. invs {} w \<and> (\<forall>row. x = Some row \<longrightarrow>
      findMatch (m_id row) (w_store w) = Some row)) (f x) (\<lambda>_. invs {})"
  proof (cases x)
    case None
    with assms(1) show ?thesis by (auto simp: triple_def)
  next
    case (Some r)
    then show ?thesis using on_stored [OF assms(2,3), of r] by (simp add: triple_def)
  qed
qed

lemma keeps_ingest: "keeps (invs {}) (ingest e source event)"
  unfolding ingest_def
  by (intro triple_intros keeps_matchOf keeps_runtimeOf ends_onServerEvent)

lemma keeps_touch: "keeps (invs {}) (touch e source)"
  unfolding touch_def
  apply (rule keeps_bind, rule keeps_gets)
  apply (rule triple_if, rule keeps_skip)
  apply (rule keeps_from_matchOf)
    apply (simp add: keeps_skip)
   apply (simp only: option.case)
   apply (rule triple_if, blast dest: probeable_open, rule keeps_skip)
  apply (simp add: leaf_skip forget_open [OF keeps_armHeartbeat])
  done

lemma keeps_backup: "keeps (invs {}) (backup e source b)"
  unfolding backup_def
  by (intro triple_intros keeps_matchOf primitive_keeps keeps_elsewhere)
    (simp add: same_tables_def upsertBackup_def Let_def)

lemma keeps_assignment: "keeps (invs {}) (assignment e source installed)"
  unfolding assignment_def
  by (intro triple_intros keeps_matchOf primitive_keeps leaf_rules keeps_restorePoint)

lemma keeps_view: "keeps (invs S) (view e row)"
  unfolding view_def by (intro triple_intros primitive_keeps)

lemma keeps_require_match: "keeps (invs S) (require_match key mid)"
  unfolding require_match_def by (intro triple_intros primitive_keeps)

text \<open>The new row goes in as an open match.\<close>

lemma inserted_open:
  assumes "invs {} w" and "insertMatch (new_match_row key r mid hash at) (w_store w) = Some s'"
  shows "invs {mid} (w\<lparr>w_store := s'\<rparr>)"
proof -
  have "I (w\<lparr>w_store := s'\<rparr>)"
    using new_match_kept [OF _ _ assms(2)] assms(1)
    by (simp add: invs_def is_new_def new_match_row_def)
  moreover have "is_open mid s'"
    using assms(2) by (auto simp: insertMatch_def findMatch_def find_append new_match_row_def
        is_open_def split: option.splits)
  moreover have "distinct (map m_id (matches s'))"
    using assms by (auto simp: insertMatch_def invs_def queue_ok_def findMatch_def find_None_iff
        new_match_row_def split: option.splits)
  ultimately show ?thesis
    using assms(1) by (simp add: invs_def queue_ok_def)
qed

lemma keeps_insert_new_match: "keeps (invs {}) (insert_new_match e key r hash)"
  unfolding insert_new_match_def
  apply (rule keeps_bind, rule primitive_keeps)
  apply (rule keeps_bind, rule primitive_keeps)
  apply (rule triple_let)
  apply (rule triple_read)
  apply (rule triple_option)
   apply (simp add: triple_def)
  apply (rule triple_bind [where R = "\<lambda>_. invs {_}"])
   apply (rule tripleI, simp, rule inserted_open, simp, simp)
  apply (intro triple_intros primitive_keeps keeps_arm(1) keeps_enqueue_step keeps_view leaf_return)
  by (simp_all add: new_match_row_def step_ok_def)

lemma keeps_create: "keeps (invs {}) (create e key r)"
  unfolding create_def
  by (intro triple_intros keeps_view keeps_select_for keeps_insert_new_match)

lemma keeps_cancel: "keeps (invs {}) (cancel e key mid)"
  unfolding cancel_def
  by (intro triple_intros keeps_require_match primitive_keeps leaf_end with_row keeps_view) simp

subsection \<open>Commands\<close>

text \<open>A command that is to be relayed left the match open; an answered one may have ended it.\<close>

fun left_open :: "ident \<Rightarrow> decision \<Rightarrow> ident set" where
  "left_open mid (Answered _) = {}"
| "left_open mid (Relay _ _) = {mid}"

lemma decided_return:
  "triple (invs {mid}) (State_Monad.return d) (\<lambda>d. invs (left_open mid d))"
  by (cases d) (auto simp: triple_def intro: invs_mono)

lemma decided_ended:
  "keeps (invs {}) m \<Longrightarrow>
   triple (invs {mid}) (m \<bind> (\<lambda>_. State_Monad.return (Answered r))) (\<lambda>d. invs (left_open mid d))"
  by (rule from_open, rule triple_bind, assumption) (simp add: triple_def)

lemma triple_list: "triple P m Q \<Longrightarrow> (\<And>x xs. triple P (f x xs) Q) \<Longrightarrow> triple P (case_list m f l) Q"
  by (cases l) auto

lemma decided_restore:
  "triple (invs {mid}) (decide_restore e row c n) (\<lambda>d. invs (left_open mid d))"
  unfolding decide_restore_def
  by (intro triple_intros decided_return primitive_keeps keeps_on_runtime keeps_kickRecovery) simp_all

lemma decided_reprovision:
  "triple (invs {mid}) (decide_reprovision e row c) (\<lambda>d. invs (left_open mid d))"
  unfolding decide_reprovision_def
  by (rule decided_ended [OF ends_lost] decided_ended [OF ends_reprovision] decided_return
      keeps_bind keeps_gets triple_if)+

lemma decided_profile:
  "triple (invs {mid}) (decide_profile e row c pl) (\<lambda>d. invs (left_open mid d))"
  unfolding decide_profile_def
  by (intro triple_intros decided_return primitive_keeps keeps_on_runtime) simp_all

lemma decided_command:
  "triple (invs {mid}) (decide_command e row c body) (\<lambda>d. invs (left_open mid d))"
proof (cases body)
  case (Cmd_force_end reason)
  then show ?thesis
    by (auto intro!: decided_ended keeps_end_match decided_return)
qed (auto intro!: decided_return decided_restore decided_reprovision decided_profile
      keeps_bind keeps_runtimeOf)

lemma ends_relay_command:
  assumes "m_id row \<in> S"
  shows "triple (invs S) (relay_command e row c body b) (\<lambda>_. invs {})"
  unfolding relay_command_def
  apply (rule forget_open)
  apply (intro triple_intros primitive_keeps keeps_call keeps_on_runtime keeps_armHeartbeat
      keeps_elsewhere)
  by (simp_all add: assms same_tables_def dropBackupsAfter_def)

lemma ends_applyCommand:
  "triple (invs (if isTerminalMatchState (m_state row) then {} else {m_id row}))
     (applyCommand e row c) (\<lambda>_. invs {})"
proof (cases "isTerminalMatchState (m_state row)")
  case True
  then show ?thesis by (simp add: applyCommand_def keeps_return)
next
  case False
  have "triple (invs (left_open (m_id row) d))
     (case d of Answered res \<Rightarrow> State_Monad.return res
      | Relay body rewound \<Rightarrow> relay_command e row c body rewound) (\<lambda>_. invs {})" for d
    by (cases d) (simp_all add: leaf_return ends_relay_command)
  with False show ?thesis
    by (auto simp: applyCommand_def intro: keeps_bind keeps_runtimeOf triple_bind decided_command)
qed

lemma require_match_stored:
  "invs {} w \<Longrightarrow> result (require_match key mid) w = Inr row \<Longrightarrow>
   after (require_match key mid) w = w \<and>
   m_id row = mid \<and> invs (if isTerminalMatchState (m_state row) then {} else {mid}) w"
  by (auto simp: require_match_def the_match_def invs_def is_open_def dest: findMatch_id
      split: option.splits if_splits)

lemma keeps_from_require:
  assumes "\<And>err. keeps (invs {}) (f (Inl err))"
    and "\<And>row. m_id row = mid \<Longrightarrow>
      triple (invs (if isTerminalMatchState (m_state row) then {} else {mid})) (f (Inr row))
        (\<lambda>_. invs {})"
  shows "keeps (invs {}) (require_match key mid \<bind> f)"
proof (rule tripleI)
  fix w assume w: "invs {} w"
  have same: "after (require_match key mid) w = w"
    by (simp add: require_match_def the_match_def)
  show "invs {} (after (require_match key mid \<bind> f) w)"
  proof (cases "result (require_match key mid) w")
    case (Inl err)
    with tripleD [OF assms(1) w, of err] same show ?thesis by (simp only: run_simps)
  next
    case (Inr row)
    note row = require_match_stored [OF w Inr]
    then have "invs {} (after (f (Inr row)) w)"
      by (intro tripleD [OF assms(2) [of row]]) simp_all
    with Inr same show ?thesis by (simp only: run_simps)
  qed
qed

lemma after_applyCommand:
  "m_id row = mid \<Longrightarrow> (\<And>x. keeps (invs {}) (f x)) \<Longrightarrow>
   triple (invs (if isTerminalMatchState (m_state row) then {} else {mid}))
     (applyCommand e row c \<bind> f) (\<lambda>_. invs {})"
  using triple_bind [OF ends_applyCommand] by blast

lemma same_tables_commands:
  "same_tables s (insertCommand r s)" "setCommandResult i c res at s = Some s' \<Longrightarrow> same_tables s s'"
  using command_keys_result [of i c res at s s']
  by (auto simp: same_tables_def insertCommand_def setCommandResult_def command_keys_def
      split: option.splits)

lemma keeps_command: "keeps (invs {}) (command e key mid c)"
  unfolding command_def
  apply (rule keeps_from_require)
   apply (simp add: keeps_return)
  apply (simp only: sum.case)
  apply (rule after_applyCommand triple_intros leaf_return primitive_keeps keeps_elsewhere
      keeps_elsewhere_opt keeps_perform same_tables_commands | assumption | (simp; fail))+
  done

subsection \<open>The remaining doors\<close>

lemma keeps_mintPlayerToken: "keeps (invs {}) (mintPlayerToken e key mid steamId ttl)"
  unfolding mintPlayerToken_def
  by (intro triple_intros keeps_require_match primitive_keeps keeps_elsewhere)
    (simp add: same_tables_def insertPlayerToken_def)

lemma keeps_playerCommand: "keeps (invs {}) (playerCommand e mid tap)"
  unfolding playerCommand_def
  by (intro triple_intros with_row keeps_call) simp

lemma keeps_emitTo: "is_fleet_fact pl \<Longrightarrow> keeps (invs {}) (emitTo mid pl)"
  unfolding emitTo_def
  by (intro triple_intros with_row keeps_enqueue_step) (simp add: step_ok_def)

lemma keeps_probeOrLose: "keeps (invs {}) (probeOrLose e mid detail)"
  unfolding probeOrLose_def
  by (intro triple_intros with_row keeps_call primitive_keeps ends_lost) simp

lemma keeps_suspect: "keeps (invs {}) (suspect e mid detail)"
  unfolding suspect_def by (intro triple_intros with_row primitive_keeps keeps_probeOrLose)

lemma keeps_expire: "keeps (invs {}) (expire e mid detail)"
  unfolding expire_def by (intro triple_intros with_row primitive_keeps keeps_end_match) simp

lemma keeps_releaseRow: "keeps (invs {}) (releaseRow e server reason)"
  unfolding releaseRow_def
  by (intro triple_intros keeps_closeRow keeps_enqueue_step) (simp add: step_ok_def)

subsection \<open>Restart, the queue, the whole machine\<close>

lemma keeps_replayDemoWait: "m_id row \<in> S \<Longrightarrow> keeps (invs S) (replayDemoWait e row)"
  unfolding replayDemoWait_def
  by (intro triple_intros primitive_keeps keeps_on_runtime keeps_arm(6) keeps_enqueue_step)
    (simp_all add: step_ok_def)

lemma keeps_resume_recovering: "m_id row \<in> S \<Longrightarrow> keeps (invs S) (resume_recovering e row)"
  unfolding resume_recovering_def
  by (intro triple_intros primitive_keeps keeps_on_runtime arm_rules keeps_kickRecovery) simp_all

lemma keeps_resume_match: "m_id row \<in> S \<Longrightarrow> keeps (invs S) (resume_match e row)"
  unfolding resume_match_def
  apply (intro triple_intros primitive_keeps keeps_arm(1), assumption)
  by (cases "m_state row")
    (auto simp: step_ok_def intro!: keeps_bind keeps_skip arm_rules keeps_enqueue_step
      keeps_replayDemoWait keeps_resume_recovering)

lemma keeps_resume_all:
  "\<forall>row \<in> set rows. m_id row \<in> S \<Longrightarrow> keeps (invs S) (for_each (resume_match e) rows)"
  by (induction rows) (auto intro!: keeps_skip keeps_bind keeps_resume_match)

lemma keeps_resume: "keeps (invs {}) (resume e)"
proof (rule tripleI)
  fix w assume w: "invs {} w"
  let ?rows = "listOpenMatches None (w_store w)"
  have "invs (m_id ` set ?rows) w"
    using w find_unique [of m_id "matches (w_store w)"]
    by (auto simp: invs_def queue_ok_def is_open_def findMatch_def listOpenMatches_def)
  then have "invs (m_id ` set ?rows) (after (for_each (resume_match e) ?rows) w)"
    by (rule tripleD [OF keeps_resume_all, rotated]) simp
  then show "invs {} (after (resume e) w)"
    by (simp add: resume_def invs_mono)
qed

lemma keeps_restart: "keeps (invs {}) (restart e)"
  unfolding restart_def
proof (rule keeps_bind)
  show "keeps (invs {}) (modify (\<lambda>w. w\<lparr>w_runtimes := (\<lambda>_. None), w_attribution := (\<lambda>_. None),
      w_queue := [], w_closed := False\<rparr>))"
    by (rule triple_modify) (auto simp: invs_def queue_ok_def armed_def intro: view_kept)
qed (rule keeps_resume)

lemma keeps_emit_any: "is_fleet_fact pl \<Longrightarrow> keeps (invs {}) (emit e mid pl [])"
proof (rule tripleI)
  fix w assume w: "invs {} w" and pl: "is_fleet_fact pl"
  show "invs {} (after (emit e mid pl []) w)"
  proof (cases "findMatch mid (w_store w)")
    case None
    then have "after (emit e mid pl []) w = after (randomUUID e) w"
      by (simp add: emit_def randomUUID_def store_appendEvent_def appendEvent_def)
    with tripleD [OF keeps_randomUUID w] show ?thesis by simp
  next
    case (Some row)
    with w show ?thesis by (intro tripleD [OF keeps_fleet_emit [OF pl]]) simp
  qed
qed

lemma keeps_run_step: "step_ok st \<Longrightarrow> keeps (invs {}) (run_step e mid st)"
  unfolding run_step_def
  by (cases st) (auto simp: step_ok_def intro!: ends_provision keeps_bind ends_recover
      keeps_on_runtime_if_any ends_on_deadline keeps_end_match keeps_emit_any)

lemma keeps_run_next: "keeps (invs {}) (run_next e mid)"
proof (rule tripleI)
  fix w assume w: "invs {} w"
  show "invs {} (after (run_next e mid) w)"
  proof (cases "dequeue mid (w_queue w)")
    case None
    with w show ?thesis by (simp add: run_next_def)
  next
    case (Some p)
    obtain st rest where p: "p = (st, rest)" by fastforce
    have q: "(mid, st) \<in> set (w_queue w)" "set rest \<subseteq> set (w_queue w)"
      using dequeue_set Some p by auto
    with w have "invs {} (w\<lparr>w_queue := rest\<rparr>)"
      by (auto simp: invs_def queue_ok_def armed_def intro: view_kept)
    moreover have "step_ok st"
      using q w by (auto simp: invs_def queue_ok_def)
    ultimately show ?thesis
      using Some p tripleD [OF keeps_run_step] by (simp add: run_next_def)
  qed
qed

lemma keeps_ignore: "keeps (invs {}) m \<Longrightarrow> keeps (invs {}) (ignore m)"
  unfolding ignore_def by (intro triple_intros)

lemma operate_keeps: "keeps (invs {}) (operate e op)"
proof (cases op)
  case Op_close
  have "keeps (invs {}) close_machine"
    unfolding close_machine_def
    by (rule keeps_modify_view) (simp_all add: armed_def)
  with Op_close show ?thesis by simp
next
  case (Op_wait ms)
  then show ?thesis
    by (simp add: triple_def invs_time)
qed (auto intro!: keeps_ignore keeps_ingest keeps_touch keeps_backup keeps_assignment keeps_create
    keeps_cancel keeps_command keeps_mintPlayerToken keeps_playerCommand keeps_only_if keeps_emitTo
    keeps_suspect keeps_expire keeps_releaseRow keeps_fire_timer keeps_run_next keeps_restart)

theorem reachable_keeps:
  assumes "\<And>d reg t. I (initial_world d reg t)" and "reachable e w"
  shows "I w" and "queue_ok w"
proof -
  have "invs {} w"
    using assms(2)
  proof induction
    case (reachable_init d reg t)
    show ?case
      using assms(1) by (simp add: invs_def queue_ok_def initial_world_def createMemoryMatchStore_def)
  next
    case (reachable_step w op)
    then show ?case using tripleD [OF operate_keeps] by blast
  qed
  then show "I w" and "queue_ok w" by (simp_all add: invs_def)
qed

theorem run_keeps: "I w \<Longrightarrow> queue_ok w \<Longrightarrow> I (run e ops w)"
proof -
  assume "I w" and "queue_ok w"
  then have "invs {} (run e ops w)"
    using tripleD [OF operate_keeps] by (induction ops arbitrary: w) (auto simp: invs_def)
  then show "I (run e ops w)" by (simp add: invs_def)
qed

end

end
