(* ===== verification/Machine_Laws.thy ===== *)
theory Machine_Laws
  imports Chain_Handlers
begin

text \<open>
  The invariants of the match machine, each an interpretation of \<open>chain_invariant\<close>: the
  numbering of the log, the single end of a match, one delivery per event, no deadline armed on
  an ended match, no server without its ledger row, and the append-only history with its frozen
  ends.
\<close>

subsection \<open>What an emitted fact does to the tables\<close>

lemma emit_tables:
  assumes row: "findMatch mid (w_store w) = Some row"
  shows "\<exists>ev. e_matchId ev = mid \<and> e_payload ev = pl \<and> e_seq ev = Suc (m_seq row) \<and>
    findMatch mid (w_store (after (emit e mid pl p) w)) =
      Some ((apply_match_patch p row)\<lparr>m_seq := Suc (m_seq row), m_updatedAt := w_now w\<rparr>) \<and>
    (\<forall>j. j \<noteq> mid \<longrightarrow> findMatch j (w_store (after (emit e mid pl p) w)) = findMatch j (w_store w)) \<and>
    events (w_store (after (emit e mid pl p) w)) = events (w_store w) @ [ev] \<and>
    (if m_webhooksStoppedAt (apply_match_patch p row) = None
     then \<exists>u si. deliveries (w_store (after (emit e mid pl p) w)) =
       deliveries (w_store w) @ [delivery_for ev u si]
     else deliveries (w_store (after (emit e mid pl p) w)) = deliveries (w_store w)) \<and>
    servers (w_store (after (emit e mid pl p) w)) = servers (w_store w) \<and>
    commands (w_store (after (emit e mid pl p) w)) = commands (w_store w) \<and>
    w_runtimes (after (emit e mid pl p) w) = w_runtimes w \<and>
    (\<forall>eff. is_allocation eff \<longrightarrow> eff \<in> set (w_trace (after (emit e mid pl p) w)) \<longrightarrow>
      eff \<in> set (w_trace w))"
proof -
  obtain ev s' u si n where a: "appendEvent mid (en_uuid e (w_fresh w), w_now w, pl) (w_now w) p
      (w_store w) = Some (ev, s')"
    and eff: "after (emit e mid pl p) w =
      (if m_webhooksStoppedAt (apply_match_patch p row) = None
       then w\<lparr>w_store := insertDelivery (delivery_for ev u si) s', w_fresh := n,
              w_trace := Eff_kick_webhooks # Eff_frame mid (Frame_event ev) # w_trace w\<rparr>
       else w\<lparr>w_store := s', w_fresh := n,
              w_trace := Eff_frame mid (Frame_event ev) # w_trace w\<rparr>)"
    using emit_effect [OF row, of e pl p] by blast
  have s': "e_matchId ev = mid" "e_payload ev = pl" "e_seq ev = Suc (m_seq row)"
    "findMatch mid s' = Some ((apply_match_patch p row)\<lparr>m_seq := Suc (m_seq row),
       m_updatedAt := w_now w\<rparr>)"
    "\<forall>j. j \<noteq> mid \<longrightarrow> findMatch j s' = findMatch j (w_store w)"
    "events s' = events (w_store w) @ [ev]" "deliveries s' = deliveries (w_store w)"
    "servers s' = servers (w_store w)" "commands s' = commands (w_store w)"
    using appendEvent_Some [OF row, of "en_uuid e (w_fresh w)" "w_now w" pl "w_now w" p] a
    by auto
  show ?thesis
  proof (cases "m_webhooksStoppedAt (apply_match_patch p row) = None")
    case True
    have t: "after (emit e mid pl p) w =
        w\<lparr>w_store := insertDelivery (delivery_for ev u si) s', w_fresh := n,
          w_trace := Eff_kick_webhooks # Eff_frame mid (Frame_event ev) # w_trace w\<rparr>"
      using eff True by simp
    show ?thesis
      unfolding t using s' True by (intro exI [of _ ev]) (auto simp: insertDelivery_def findMatch_def)
  next
    case False
    have t: "after (emit e mid pl p) w = w\<lparr>w_store := s', w_fresh := n,
        w_trace := Eff_frame mid (Frame_event ev) # w_trace w\<rparr>"
      using eff False by simp
    show ?thesis
      unfolding t using s' False by (intro exI [of _ ev]) auto
  qed
qed

lemma emit_find:
  assumes "findMatch mid (w_store w) = Some row"
  shows "findMatch j (w_store (after (emit e mid pl p) w)) =
    (if j = mid then Some ((apply_match_patch p row)\<lparr>m_seq := Suc (m_seq row), m_updatedAt := w_now w\<rparr>)
     else findMatch j (w_store w))"
  using emit_tables [OF assms, of pl e p] by auto

subsection \<open>The numbering\<close>

lemma log_numbered_cong:
  "events s' = events s \<Longrightarrow> (\<And>j. map_option m_seq (findMatch j s') = map_option m_seq (findMatch j s)) \<Longrightarrow>
   log_numbered s' = log_numbered s"
proof -
  assume ev: "events s' = events s"
    and ms: "\<And>j. map_option m_seq (findMatch j s') = map_option m_seq (findMatch j s)"
  have "(case findMatch j s' of None \<Rightarrow> 0 | Some r \<Rightarrow> m_seq r) =
      (case findMatch j s of None \<Rightarrow> 0 | Some r \<Rightarrow> m_seq r)" for j
    using ms [of j] by (auto split: option.splits)
  with ev show ?thesis by (simp add: log_numbered_def log_of_def)
qed

lemma log_numbered_emit:
  assumes "log_numbered (w_store w)"
  shows "log_numbered (w_store (after (emit e mid pl p) w))"
proof (cases "findMatch mid (w_store w)")
  case None
  with assms show ?thesis
    by (simp add: emit_def randomUUID_def store_appendEvent_def appendEvent_def)
next
  case (Some row)
  from emit_tables [OF Some, of pl e p] show ?thesis
    by (elim exE conjE, intro log_numbered_snoc [OF assms Some]) auto
qed

lemma emit_unknown: "findMatch mid (w_store w) = None \<Longrightarrow>
   after (emit e mid pl p) w = w\<lparr>w_fresh := Suc (w_fresh w)\<rparr>"
  by (simp add: emit_def randomUUID_def store_appendEvent_def appendEvent_def)

lemma open_known: "is_open mid s \<Longrightarrow> \<exists>row. findMatch mid s = Some row \<and> \<not> isTerminalMatchState (m_state row)"
  by (auto simp: is_open_def split: option.splits)

lemma findMatch_insertMatch:
  "insertMatch row s = Some s' \<Longrightarrow> findMatch (m_id row) s = None \<and>
   findMatch j s' = (if j = m_id row then Some (row\<lparr>m_deployment := deployment s\<rparr>)
     else findMatch j s) \<and>
   events s' = events s \<and> deliveries s' = deliveries s \<and> servers s' = servers s"
  by (auto simp: insertMatch_def findMatch_def find_append split: option.splits)

lemma same_tables_match: "same_tables s s' \<Longrightarrow> findMatch j s' = findMatch j s"
  by (simp add: same_tables_def findMatch_def)

lemma findMatch_insertServer [simp]: "findMatch j (insertServer srv s) = findMatch j s"
  "events (insertServer srv s) = events s" "deliveries (insertServer srv s) = deliveries s"
  by (simp_all add: insertServer_def findMatch_def)

lemma findMatch_updateServer: "updateServer sid sp s = Some s' \<Longrightarrow> findMatch j s' = findMatch j s"
  using updateServer_frame [of sid sp s s'] by (simp add: findMatch_def)

lemma log_numbered_insertMatch:
  assumes "log_numbered s" and "is_new row" and "insertMatch row s = Some s'"
  shows "log_numbered s'"
proof -
  note ins = findMatch_insertMatch [OF assms(3)]
  have "(case findMatch j s' of None \<Rightarrow> 0 | Some r \<Rightarrow> m_seq r) =
      (case findMatch j s of None \<Rightarrow> 0 | Some r \<Rightarrow> m_seq r)" for j
    using ins [of j] assms(2) by (auto simp: is_new_def)
  with assms(1) ins show ?thesis by (simp add: log_numbered_def log_of_def)
qed

interpretation numbering: chain_invariant "\<lambda>w. log_numbered (w_store w)"
proof (unfold_locales, goal_cases)
  case (4 w s')
  with same_tables_match [OF 4(2)] log_numbered_cong [of s' "w_store w"] show ?case
    by (simp add: same_tables_def)
next
  case (5 w mid p s')
  then show ?case using log_numbered_updateMatch [of "w_store w" mid p s'] by simp
next
  case (6 w srv)
  then show ?case using log_numbered_cong [of "insertServer srv (w_store w)" "w_store w"] by simp
next
  case (7 w sid sp s')
  with findMatch_updateServer [OF 7(2)] updateServer_frame [OF 7(2)]
    log_numbered_cong [of s' "w_store w"]
  show ?case by simp
next
  case (8 w row s')
  then show ?case using log_numbered_insertMatch [of "w_store w" row s'] by simp
qed (simp_all add: log_numbered_emit)

subsection \<open>No deadline of an ended match is armed\<close>

definition deadlines_open :: "world \<Rightarrow> bool" where
  "deadlines_open w \<longleftrightarrow> (\<forall>mid name. armed w mid name \<longrightarrow> is_open mid (w_store w))"

lemma armed_store [simp]: "armed (w\<lparr>w_store := s\<rparr>) mid name = armed w mid name"
  "armed (w\<lparr>w_trace := h\<rparr>) mid name = armed w mid name"
  by (simp_all add: armed_def)

lemma open_insertMatch: "insertMatch row s = Some s' \<Longrightarrow> is_open j s \<Longrightarrow> is_open j s'"
  using findMatch_insertMatch [of row s s' j] by (auto simp: is_open_def split: option.splits)

lemma open_emit_other:
  assumes "is_open j (w_store w)" and "j \<noteq> mid"
  shows "is_open j (w_store (after (emit e mid pl p) w))"
proof (cases "findMatch mid (w_store w)")
  case None
  with assms show ?thesis by (simp add: emit_unknown)
next
  case (Some row)
  from emit_tables [OF Some, of pl e p] assms show ?thesis by (auto simp: is_open_def)
qed

lemma armed_emit: "armed (after (emit e mid pl p) w) j name = armed w j name"
proof (cases "findMatch mid (w_store w)")
  case None
  then show ?thesis by (simp add: emit_unknown armed_def)
next
  case (Some row)
  from emit_tables [OF Some, of pl e p] show ?thesis by (auto simp: armed_def)
qed

interpretation quiet_ends: chain_invariant deadlines_open
proof (unfold_locales, goal_cases)
  case (1 w w') then show ?case by (auto simp: deadlines_open_def)
next
  case (4 w s') then show ?case
    using same_tables_open [OF 4(2)] by (simp add: deadlines_open_def)
next
  case (5 w mid p s') then show ?case by (auto simp: deadlines_open_def intro: open_updateMatch)
next
  case (7 w sid sp s') then show ?case
    using findMatch_updateServer [OF 7(2)] by (simp add: deadlines_open_def is_open_def)
next
  case (8 w row s') then show ?case by (auto simp: deadlines_open_def intro: open_insertMatch)
next
  case (9 w mid pl e) then show ?case
    by (auto simp: deadlines_open_def armed_emit intro!: open_after_emit)
next
  case (10 w mid st e reason demo at sim) then show ?case
    by (auto simp: deadlines_open_def armed_emit intro!: open_emit_other)
qed (auto simp: deadlines_open_def is_open_def)

subsection \<open>Every server has its ledger row\<close>

definition servers_accounted :: "world \<Rightarrow> bool" where
  "servers_accounted w \<longleftrightarrow> (\<forall>p mid fid.
     Eff_allocate p mid fid \<in> set (w_trace w) \<longrightarrow> ledgered mid p fid (w_store w))"

lemma ledgered_updateServer:
  assumes "ledgered mid p fid s" and "updateServer sid sp s = Some s'"
  shows "ledgered mid p fid s'"
proof -
  let ?k = "\<lambda>r. (s_id r, s_provider r, s_matchId r)"
  have "map ?k (servers s') = map ?k (servers s)"
    using assms(2) by (auto simp: updateServer_def map_update_first split: option.splits)
  then have "set (map ?k (servers s')) = set (map ?k (servers s))"
    by (rule arg_cong)
  then have "?k ` set (servers s') = ?k ` set (servers s)"
    by (simp only: set_map)
  moreover have "\<And>s. ledgered mid p fid s \<longleftrightarrow> (fid, p, Some mid) \<in> ?k ` set (servers s)"
    unfolding ledgered_def by force
  ultimately show ?thesis using assms(1) by simp
qed

lemma ledgered_emit:
  "ledgered m pr fid (w_store (after (emit e mid pl p) w)) = ledgered m pr fid (w_store w)"
proof (cases "findMatch mid (w_store w)")
  case None
  then show ?thesis by (simp add: emit_unknown)
next
  case (Some row)
  from emit_tables [OF Some, of pl e p] show ?thesis by (auto simp: ledgered_def)
qed

lemma allocations_emit:
  "Eff_allocate pr m fid \<in> set (w_trace (after (emit e mid pl p) w)) \<Longrightarrow>
   Eff_allocate pr m fid \<in> set (w_trace w)"
proof (cases "findMatch mid (w_store w)")
  case None
  assume "Eff_allocate pr m fid \<in> set (w_trace (after (emit e mid pl p) w))"
  with None show ?thesis by (simp add: emit_unknown)
next
  case (Some row)
  assume "Eff_allocate pr m fid \<in> set (w_trace (after (emit e mid pl p) w))"
  with emit_tables [OF Some, of pl e p] show ?thesis by auto
qed

lemma ledgered_cong: "servers s' = servers s \<Longrightarrow> ledgered m pr fid s' = ledgered m pr fid s"
  by (simp add: ledgered_def)

interpretation ledger: chain_invariant servers_accounted
proof (unfold_locales, goal_cases)
  case (1 w w') then show ?case by (simp add: servers_accounted_def)
next
  case (2 w eff) then show ?case by (cases eff) (auto simp: servers_accounted_def)
next
  case (4 w s') then show ?case
    by (auto simp: servers_accounted_def same_tables_def ledgered_cong [of s' "w_store w"])
next
  case (5 w mid p s') then show ?case
    by (auto simp: servers_accounted_def ledgered_cong [of s' "w_store w"] dest: updateMatch_frame)
next
  case (6 w srv) then show ?case
    by (auto simp: servers_accounted_def insertServer_def ledgered_def)
next
  case (7 w sid sp s') then show ?case
    by (auto simp: servers_accounted_def intro: ledgered_updateServer)
next
  case (8 w row s') then show ?case
    using findMatch_insertMatch [of row "w_store w" s']
    by (auto simp: servers_accounted_def ledgered_cong [of s' "w_store w"])
qed (auto simp: servers_accounted_def ledgered_emit dest: allocations_emit)

subsection \<open>One delivery for every event\<close>

definition delivered_once :: "world \<Rightarrow> bool" where
  "delivered_once w \<longleftrightarrow>
     (\<forall>mid row. findMatch mid (w_store w) = Some row \<longrightarrow> m_webhooksStoppedAt row = None) \<and>
     map (\<lambda>d. (d_matchId d, d_seq d, d_deliveryId d)) (deliveries (w_store w)) =
     map (\<lambda>ev. (e_matchId ev, e_seq ev, e_deliveryId ev)) (events (w_store w))"

definition stops_nothing :: "match_patch \<Rightarrow> bool" where
  "stops_nothing p \<longleftrightarrow> list_all (\<lambda>f. case f of Set_webhooksStoppedAt _ \<Rightarrow> False | _ \<Rightarrow> True) p"

lemma stops_nothing_apply:
  "stops_nothing p \<Longrightarrow> m_webhooksStoppedAt (apply_match_patch p r) = m_webhooksStoppedAt r"
proof (induction p arbitrary: r)
  case (Cons f p)
  then show ?case by (cases f) (simp_all add: stops_nothing_def)
qed simp

lemma delivered_emit:
  assumes "delivered_once w" and "stops_nothing p"
  shows "delivered_once (after (emit e mid pl p) w)"
proof (cases "findMatch mid (w_store w)")
  case None
  with assms show ?thesis by (simp add: emit_unknown delivered_once_def)
next
  case (Some row)
  with assms have "m_webhooksStoppedAt (apply_match_patch p row) = None"
    by (simp add: delivered_once_def stops_nothing_apply)
  with assms(1) emit_find [OF Some, of _ e pl p] emit_tables [OF Some, of pl e p]
  have "\<forall>j r. findMatch j (w_store (after (emit e mid pl p) w)) = Some r \<longrightarrow> m_webhooksStoppedAt r = None"
    and "\<exists>ev u si. events (w_store (after (emit e mid pl p) w)) = events (w_store w) @ [ev] \<and>
      deliveries (w_store (after (emit e mid pl p) w)) = deliveries (w_store w) @ [delivery_for ev u si]"
    by (auto simp: delivered_once_def)
  with assms(1) show ?thesis
    unfolding delivered_once_def by (auto simp: delivery_for_def)
qed

lemma delivered_cong:
  "delivered_once w \<Longrightarrow> events (w_store w') = events (w_store w) \<Longrightarrow>
   deliveries (w_store w') = deliveries (w_store w) \<Longrightarrow>
   (\<And>j row. findMatch j (w_store w') = Some row \<Longrightarrow> m_webhooksStoppedAt row = None) \<Longrightarrow>
   delivered_once w'"
  by (simp add: delivered_once_def)

lemma delivered_updateMatch:
  assumes "delivered_once w" and "harmless p" and "updateMatch mid p (w_store w) = Some s'"
  shows "delivered_once (w\<lparr>w_store := s'\<rparr>)"
  using assms(1)
proof (rule delivered_cong)
  fix j row assume "findMatch j (w_store (w\<lparr>w_store := s'\<rparr>)) = Some row"
  with assms match_rows.lookup_patched [OF assms(3), of j] show "m_webhooksStoppedAt row = None"
    by (auto simp: delivered_once_def harmless_keeps split: if_splits)
qed (use updateMatch_frame [OF assms(3)] in simp_all)

interpretation outbox: chain_invariant delivered_once
proof (unfold_locales, goal_cases)
  case (4 w s') then show ?case
    using same_tables_match [OF 4(2)] by (auto simp: delivered_once_def same_tables_def)
next
  case (5 w mid p s') then show ?case by (simp add: delivered_updateMatch)
next
  case (7 w sid sp s') then show ?case
    using updateServer_frame [OF 7(2)] by (simp add: delivered_once_def findMatch_def)
next
  case (8 w row s')
  show ?case
  proof (rule delivered_cong [OF 8(1)])
    fix j r assume "findMatch j (w_store (w\<lparr>w_store := s'\<rparr>)) = Some r"
    with 8 findMatch_insertMatch [OF 8(3), of j] show "m_webhooksStoppedAt r = None"
      by (auto simp: delivered_once_def is_new_def split: if_splits)
  qed (use findMatch_insertMatch [OF 8(3)] in simp_all)
next
  case (9 w mid pl e) then show ?case by (simp add: delivered_emit stops_nothing_def)
next
  case (10 w mid st e reason demo at sim) then show ?case
    by (simp add: delivered_emit stops_nothing_def ending_patch_def)
qed (simp_all add: delivered_once_def)

subsection \<open>A match ends once, and says so once\<close>

fun announces :: "match_row \<Rightarrow> payload \<Rightarrow> bool" where
  "announces row (Match_failed r) \<longleftrightarrow> m_state row = Failed \<and> m_endedReason row = Some r"
| "announces row (Match_ended st r d) \<longleftrightarrow>
     m_state row = st \<and> st \<noteq> Failed \<and> m_endedReason row = Some r"
| "announces row _ \<longleftrightarrow> False"

text \<open>The log of an open match holds no ending. The log of an ended match holds one, which says the
  state and the reason the row has; only facts of the fleet come after it.\<close>

definition told_by :: "match_row \<Rightarrow> event_row list \<Rightarrow> bool" where
  "told_by row evs \<longleftrightarrow>
    (if isTerminalMatchState (m_state row) then
       (case dropWhile (\<lambda>x. \<not> is_terminal_fact (e_payload x)) evs of
          [] \<Rightarrow> False
        | ev # late \<Rightarrow> announces row (e_payload ev) \<and>
            list_all (\<lambda>x. is_fleet_fact (e_payload x)) late)
     else m_endedReason row = None \<and> list_all (\<lambda>x. \<not> is_terminal_fact (e_payload x)) evs)"

definition story_told :: "store \<Rightarrow> bool" where
  "story_told s \<longleftrightarrow> (\<forall>mid. case findMatch mid s of
     None \<Rightarrow> log_of mid s = [] | Some row \<Rightarrow> told_by row (log_of mid s))"

lemma announces_cong:
  "m_state row' = m_state row \<Longrightarrow> m_endedReason row' = m_endedReason row \<Longrightarrow>
   announces row' pl = announces row pl"
  by (cases pl) simp_all

lemma told_by_cong:
  "m_state row' = m_state row \<Longrightarrow> m_endedReason row' = m_endedReason row \<Longrightarrow>
   told_by row' evs = told_by row evs"
proof -
  assume same: "m_state row' = m_state row" "m_endedReason row' = m_endedReason row"
  then have "announces row' = announces row" by (intro ext announces_cong)
  with same show ?thesis by (simp add: told_by_def cong: list.case_cong)
qed

lemma dropWhile_found: "dropWhile (\<lambda>x. \<not> P x) xs = y # ys \<Longrightarrow> \<exists>x \<in> set xs. P x"
  by (induction xs) (auto split: if_splits)

lemma told_by_open:
  "told_by row evs \<Longrightarrow> \<not> isTerminalMatchState (m_state row) \<Longrightarrow>
   \<not> isTerminalMatchState (m_state row') \<Longrightarrow> m_endedReason row' = m_endedReason row \<Longrightarrow>
   told_by row' evs"
  by (simp add: told_by_def)

lemma told_by_fact:
  assumes "told_by row evs" and "\<not> is_terminal_fact (e_payload ev)"
    and "\<not> isTerminalMatchState (m_state row) \<or> is_fleet_fact (e_payload ev)"
  shows "told_by row (evs @ [ev])"
  using assms by (auto simp: told_by_def dropWhile_append split: list.splits if_splits
      dest: dropWhile_found)

lemma told_by_ending:
  assumes "told_by row evs" and "\<not> isTerminalMatchState (m_state row)"
    and "e_payload ev = ending_fact st reason demo" and "isTerminalMatchState st"
    and "m_state row' = st" and "m_endedReason row' = Some reason"
  shows "told_by row' (evs @ [ev])"
proof -
  have "dropWhile (\<lambda>x. \<not> is_terminal_fact (e_payload x)) evs = []"
    using assms(1,2) by (simp add: told_by_def list_all_iff)
  then show ?thesis
    using assms by (auto simp: told_by_def dropWhile_append ending_fact_def)
qed

lemma story_cong:
  "events s' = events s \<Longrightarrow> (\<And>j. findMatch j s' = findMatch j s) \<Longrightarrow> story_told s' = story_told s"
proof -
  assume "events s' = events s" and f: "\<And>j. findMatch j s' = findMatch j s"
  then have "\<And>j. log_of j s' = log_of j s" by (simp add: log_of_def)
  with f show ?thesis by (simp add: story_told_def cong: option.case_cong)
qed

lemma story_at:
  "story_told s \<Longrightarrow> findMatch mid s = Some row \<Longrightarrow> told_by row (log_of mid s)"
  by (auto simp: story_told_def split: option.splits)

lemma story_absent: "story_told s \<Longrightarrow> findMatch mid s = None \<Longrightarrow> log_of mid s = []"
  unfolding story_told_def by (drule spec [of _ mid]) simp

text \<open>One match's row and log change, every other match is left alone.\<close>

lemma story_step:
  assumes "story_told s" and "findMatch mid s' = Some row'" and "told_by row' (log_of mid s')"
    and "\<And>j. j \<noteq> mid \<Longrightarrow> findMatch j s' = findMatch j s"
    and "\<And>j. j \<noteq> mid \<Longrightarrow> log_of j s' = log_of j s"
  shows "story_told s'"
  unfolding story_told_def
proof
  fix j
  show "case findMatch j s' of None \<Rightarrow> log_of j s' = [] | Some row \<Rightarrow> told_by row (log_of j s')"
  proof (cases "j = mid")
    case True
    with assms(2,3) show ?thesis by simp
  next
    case False
    with assms(1) assms(4,5) [of j] show ?thesis
      by (simp add: story_told_def cong: option.case_cong)
  qed
qed

lemma story_updateMatch:
  assumes "story_told s" and "is_open mid s" and "harmless p" and up: "updateMatch mid p s = Some s'"
  shows "story_told s'"
proof -
  obtain row where row: "findMatch mid s = Some row" "\<not> isTerminalMatchState (m_state row)"
    using open_known [OF assms(2)] by blast
  have log: "log_of j s' = log_of j s" for j
    using updateMatch_frame [OF up] by (simp add: log_of_def)
  have "told_by (apply_match_patch p row) (log_of mid s')"
    unfolding log
    by (rule told_by_open [OF story_at [OF assms(1) row(1)] row(2)])
      (simp_all add: harmless_apply harmless_keeps assms(3) row(2))
  moreover have "findMatch mid s' = Some (apply_match_patch p row)"
    using match_rows.lookup_patched [OF up, of mid] row by simp
  ultimately show ?thesis
    using match_rows.other_row_kept [OF up] log by (intro story_step [OF assms(1)]) auto
qed

lemma story_emit:
  assumes "story_told (w_store w)" and row: "findMatch mid (w_store w) = Some row"
    and told: "\<And>ev. told_by row (log_of mid (w_store w)) \<Longrightarrow> e_payload ev = pl \<Longrightarrow>
      told_by ((apply_match_patch p row)\<lparr>m_seq := Suc (m_seq row), m_updatedAt := w_now w\<rparr>)
        (log_of mid (w_store w) @ [ev])"
  shows "story_told (w_store (after (emit e mid pl p) w))"
proof -
  let ?s = "w_store (after (emit e mid pl p) w)"
  obtain ev where ev: "e_matchId ev = mid" "e_payload ev = pl"
    "events ?s = events (w_store w) @ [ev]"
    using emit_tables [OF row, of pl e p] by blast
  have log: "log_of j ?s = (if j = mid then log_of mid (w_store w) @ [ev]
      else log_of j (w_store w))" for j
    unfolding log_of_def ev(3) using ev(1) by simp
  have "told_by ((apply_match_patch p row)\<lparr>m_seq := Suc (m_seq row), m_updatedAt := w_now w\<rparr>)
      (log_of mid ?s)"
    using told [OF story_at [OF assms(1) row] ev(2)] by (simp add: log)
  then show ?thesis
    using emit_find [OF row, of _ e pl p] log by (intro story_step [OF assms(1)]) auto
qed

lemma story_insertMatch:
  assumes "story_told s" and "is_new row" and "insertMatch row s = Some s'"
  shows "story_told s'"
proof -
  note ins = findMatch_insertMatch [OF assms(3)]
  have log: "log_of j s' = log_of j s" for j
    using ins by (simp add: log_of_def)
  have "log_of (m_id row) s = []"
    using story_absent [OF assms(1)] ins by blast
  then have "told_by (row\<lparr>m_deployment := deployment s\<rparr>) (log_of (m_id row) s')"
    using assms(2) log by (simp add: told_by_def is_new_def)
  with ins log show ?thesis by (intro story_step [OF assms(1), of "m_id row"]) auto
qed

interpretation single_end: chain_invariant "\<lambda>w. story_told (w_store w)"
proof (unfold_locales, goal_cases)
  case (4 w s')
  with same_tables_match [OF 4(2)] story_cong [of s' "w_store w"] show ?case
    by (simp add: same_tables_def)
next
  case (5 w mid p s')
  then show ?case using story_updateMatch [of "w_store w" mid p s'] by simp
next
  case (6 w srv)
  then show ?case using story_cong [of "insertServer srv (w_store w)" "w_store w"] by simp
next
  case (7 w sid sp s')
  with findMatch_updateServer [OF 7(2)] updateServer_frame [OF 7(2)] story_cong [of s' "w_store w"]
  show ?case by simp
next
  case (8 w row s')
  then show ?case using story_insertMatch [of "w_store w" row s'] by simp
next
  case (9 w mid pl e)
  then obtain row where row: "findMatch mid (w_store w) = Some row" by auto
  with 9(4) have guard: "\<not> isTerminalMatchState (m_state row) \<or> is_fleet_fact pl"
    by (auto simp: is_open_def)
  show ?case
  proof (rule story_emit [OF 9(1) row])
    fix ev :: event_row assume "told_by row (log_of mid (w_store w))" and ev: "e_payload ev = pl"
    then have "told_by row (log_of mid (w_store w) @ [ev])"
      using 9(3) guard by (intro told_by_fact) simp_all
    then show "told_by ((apply_match_patch [] row)\<lparr>m_seq := Suc (m_seq row), m_updatedAt := w_now w\<rparr>)
        (log_of mid (w_store w) @ [ev])"
      by (subst told_by_cong [of _ row]) simp_all
  qed
next
  case (10 w mid st e reason demo at sim)
  obtain row where row: "findMatch mid (w_store w) = Some row" "\<not> isTerminalMatchState (m_state row)"
    using open_known [OF 10(2)] by blast
  show ?case
  proof (rule story_emit [OF 10(1) row(1)])
    fix ev :: event_row assume "told_by row (log_of mid (w_store w))" and ev: "e_payload ev = ending_fact st reason demo"
    then show "told_by ((apply_match_patch (ending_patch st reason at sim) row)
          \<lparr>m_seq := Suc (m_seq row), m_updatedAt := w_now w\<rparr>) (log_of mid (w_store w) @ [ev])"
      by (rule told_by_ending [OF _ row(2) _ 10(4)]) (simp_all add: ending_patch_def)
  qed
qed simp_all

subsection \<open>The past does not change\<close>

text \<open>Between two worlds of one run: the log is only appended to, the request of a match stays, and
  the row of an ended match stays as it is but for its sequence number (the late facts of the
  fleet).\<close>

definition row_lasts :: "match_row \<Rightarrow> match_row \<Rightarrow> bool" where
  "row_lasts row row' \<longleftrightarrow>
     m_request row' = m_request row \<and> m_keyId row' = m_keyId row \<and>
     m_clientMatchId row' = m_clientMatchId row \<and> m_seq row \<le> m_seq row' \<and>
     (isTerminalMatchState (m_state row) \<longrightarrow>
       row' = row\<lparr>m_seq := m_seq row', m_updatedAt := m_updatedAt row'\<rparr>)"

definition past_kept :: "store \<Rightarrow> store \<Rightarrow> bool" where
  "past_kept s0 s \<longleftrightarrow>
     take (length (events s0)) (events s) = events s0 \<and>
     (\<forall>mid row. findMatch mid s0 = Some row \<longrightarrow>
        (case findMatch mid s of None \<Rightarrow> False | Some row' \<Rightarrow> row_lasts row row'))"

lemma row_lasts_open:
  "row_lasts row row' \<Longrightarrow> \<not> isTerminalMatchState (m_state row') \<Longrightarrow>
   \<not> isTerminalMatchState (m_state row)"
  unfolding row_lasts_def by (cases "isTerminalMatchState (m_state row)") (auto dest!: arg_cong [of _ _ m_state])

lemma row_lasts_patch:
  "row_lasts row row' \<Longrightarrow> \<not> isTerminalMatchState (m_state row') \<Longrightarrow>
   row_lasts row (apply_match_patch p row')"
  using row_lasts_open by (auto simp: row_lasts_def)

lemma row_lasts_seq:
  "row_lasts row row' \<Longrightarrow> n \<ge> m_seq row' \<Longrightarrow> row_lasts row (row'\<lparr>m_seq := n, m_updatedAt := t\<rparr>)"
  unfolding row_lasts_def by (auto dest: arg_cong [of _ _ "\<lambda>r. r\<lparr>m_seq := n, m_updatedAt := t\<rparr>"])

lemma past_at:
  "past_kept s0 s \<Longrightarrow> findMatch mid s0 = Some row \<Longrightarrow> \<exists>row'. findMatch mid s = Some row' \<and> row_lasts row row'"
  by (auto simp: past_kept_def split: option.splits) fastforce

lemma past_step:
  assumes "past_kept s0 s" and "events s' = events s @ es"
    and "\<And>j row'. findMatch j s = Some row' \<Longrightarrow> \<exists>row''. findMatch j s' = Some row'' \<and>
      (\<forall>row. row_lasts row row' \<longrightarrow> row_lasts row row'')"
  shows "past_kept s0 s'"
proof -
  have "length (events s0) \<le> length (events s)"
    using assms(1) unfolding past_kept_def by (metis nat_le_linear take_all_iff)
  then have "take (length (events s0)) (events s') = events s0"
    using assms(1,2) by (simp add: past_kept_def)
  moreover have "case findMatch mid s' of None \<Rightarrow> False | Some row' \<Rightarrow> row_lasts row row'"
    if "findMatch mid s0 = Some row" for mid row
    using past_at [OF assms(1) that] assms(3) by fastforce
  ultimately show ?thesis by (simp add: past_kept_def)
qed

lemma past_same:
  "past_kept s0 s \<Longrightarrow> events s' = events s \<Longrightarrow> (\<And>j. findMatch j s' = findMatch j s) \<Longrightarrow> past_kept s0 s'"
  by (rule past_step [of s0 s s' "[]"]) auto

lemma past_emit:
  assumes "past_kept s0 (w_store w)"
    and "\<And>row. findMatch mid (w_store w) = Some row \<Longrightarrow> p = [] \<or> \<not> isTerminalMatchState (m_state row)"
  shows "past_kept s0 (w_store (after (emit e mid pl p) w))"
proof (cases "findMatch mid (w_store w)")
  case None
  with assms show ?thesis by (simp add: emit_unknown)
next
  case (Some r)
  obtain ev where "events (w_store (after (emit e mid pl p) w)) = events (w_store w) @ [ev]"
    using emit_tables [OF Some, of pl e p] by blast
  then show ?thesis
  proof (rule past_step [OF assms(1)])
    fix j row' assume j: "findMatch j (w_store w) = Some row'"
    have "row_lasts row (apply_match_patch p r)" if "row_lasts row r" for row
      using assms(2) [OF Some] that by (auto intro: row_lasts_patch)
    then have "row_lasts row r \<Longrightarrow> row_lasts row ((apply_match_patch p r)
        \<lparr>m_seq := Suc (m_seq r), m_updatedAt := w_now w\<rparr>)" for row
      by (auto intro: row_lasts_seq)
    with j Some show "\<exists>row''. findMatch j (w_store (after (emit e mid pl p) w)) = Some row'' \<and>
        (\<forall>row. row_lasts row row' \<longrightarrow> row_lasts row row'')"
      by (cases "j = mid") (simp_all add: emit_find [OF Some])
  qed
qed

interpretation history: chain_invariant "\<lambda>w. past_kept s0 (w_store w)" for s0
proof (unfold_locales, goal_cases)
  case (4 w s')
  with same_tables_match [OF 4(2)] show ?case
    by (intro past_same [OF 4(1)]) (simp_all add: same_tables_def)
next
  case (5 w mid p s')
  have "past_kept s0 s'"
  proof (rule past_step [OF 5(1), of s' "[]"])
    show "events s' = events (w_store w) @ []" using updateMatch_frame [OF 5(4)] by simp
    fix j row' assume "findMatch j (w_store w) = Some row'"
    with match_rows.lookup_patched [OF 5(4), of j] open_known [OF 5(2)]
    show "\<exists>row''. findMatch j s' = Some row'' \<and> (\<forall>row. row_lasts row row' \<longrightarrow> row_lasts row row'')"
      by (auto intro: row_lasts_patch)
  qed
  then show ?case by simp
next
  case (6 w srv)
  then show ?case by (auto intro: past_same)
next
  case (7 w sid sp s')
  with findMatch_updateServer [OF 7(2)] updateServer_frame [OF 7(2)] show ?case
    by (auto intro: past_same)
next
  case (8 w row s')
  have "past_kept s0 s'"
  proof (rule past_step [OF 8(1), of s' "[]"])
    show "events s' = events (w_store w) @ []" using findMatch_insertMatch [OF 8(3)] by simp
    fix j row' assume "findMatch j (w_store w) = Some row'"
    with findMatch_insertMatch [OF 8(3), of j]
    show "\<exists>row''. findMatch j s' = Some row'' \<and> (\<forall>row. row_lasts row row' \<longrightarrow> row_lasts row row'')"
      by (auto split: if_splits)
  qed
  then show ?case by simp
next
  case (9 w mid pl e) then show ?case by (simp add: past_emit)
next
  case (10 w mid st e reason demo at sim)
  with open_known [OF 10(2)] show ?case by (auto intro!: past_emit)
qed simp_all

subsection \<open>A command is never forgotten\<close>

lemma command_keys_emit: "command_keys (w_store (after (emit e mid pl p) w)) = command_keys (w_store w)"
proof (cases "findMatch mid (w_store w)")
  case None
  then show ?thesis by (simp add: emit_unknown)
next
  case (Some row)
  from emit_tables [OF Some, of pl e p] show ?thesis by (auto simp: command_keys_def)
qed

interpretation answers: chain_invariant "\<lambda>w. k \<in> command_keys (w_store w)" for k
proof (unfold_locales, goal_cases)
  case (4 w s') then show ?case by (auto simp: same_tables_def)
next
  case (5 w mid p s')
  with updateMatch_frame [OF 5(4)] show ?case by (simp add: command_keys_def)
next
  case (7 w sid sp s')
  with updateServer_frame [OF 7(2)] show ?case by (simp add: command_keys_def)
next
  case (8 w row s')
  then show ?case by (auto simp: insertMatch_def split: option.splits)
qed (simp_all add: command_keys_emit insertServer_def)

lemma initial_tables [simp]:
  "findMatch mid (w_store (initial_world d reg t)) = None"
  "log_of mid (w_store (initial_world d reg t)) = []"
  "events (w_store (initial_world d reg t)) = []"
  "deliveries (w_store (initial_world d reg t)) = []"
  "w_trace (initial_world d reg t) = []" "w_runtimes (initial_world d reg t) = (\<lambda>_. None)"
  by (simp_all add: initial_world_def createMemoryMatchStore_def findMatch_def log_of_def)

lemma reachable_queue_ok: "reachable e w \<Longrightarrow> queue_ok w"
  by (rule quiet_ends.reachable_keeps(2)) (simp_all add: deadlines_open_def armed_def)

end
