(* ===== verification/Sample_Run.thy ===== *)
theory Sample_Run
  imports Machine_Laws
begin

text \<open>
  A small run of the match machine on a concrete outside: one provider that always answers, one
  gamemode, one client. The worlds reached along it are where the properties are applied.
\<close>

definition sample_manifest :: manifest where
  "sample_manifest = \<lparr>gm_id = ''5v5'', gm_game = ''cs2'', gm_formats = [Competitive],
     gm_rules_mode = False, gm_simulation = True, gm_mixedRoster = True, gm_halftimeVoice = False,
     gm_flow = ''matchzy'', gm_records_demo = False, gm_maps = Any_map, gm_openJoin = False,
     gm_commands = [''gg''], gm_plugins = [], gm_teamSize = 5, gm_teams = 2,
     gm_cvars = [(''mp_freezetime'', ''15'')]\<rparr>"

definition sample_offering :: offering where
  "sample_offering = \<lparr>of_capabilities = \<lparr>cap_games = [''cs2''], cap_region = ''eu'', cap_lan = False,
     cap_workshopMaps = True\<rparr>, of_hourlyCents = 20, of_available = None\<rparr>"

definition sample_env :: env where
  "sample_env = \<lparr>en_deadlines = DEFAULT_MATCH_DEADLINES, en_gamemodes = [sample_manifest],
     en_latency = (\<lambda>_. 10), en_uuid = (\<lambda>n. replicate n CHR ''u''), en_secret = (\<lambda>n. replicate n CHR ''s''),
     en_hashToken = (\<lambda>t. t), en_sha256Head = (\<lambda>_. 7), en_requestHash = (\<lambda>r. mr_clientMatchId r @ mr_gamemode r),
     en_offers = (\<lambda>_ _. Inr [sample_offering]),
     en_allocate = (\<lambda>h p. Inr \<lparr>al_serverId = ''s1'', al_connect = Some \<lparr>sa_host = ''h'', sa_port = 27015\<rparr>,
       al_tv = None, al_nodeId = None\<rparr>),
     en_configure = (\<lambda>_ _. Inr ()), en_has_restore = (\<lambda>_. False), en_restore = (\<lambda>_ _. Inr True),
     en_start = (\<lambda>_ _. Inr ()),
     en_status = (\<lambda>_ _. Inr \<lparr>ss_state = Lc_gone, ss_detail = None, ss_connect = None, ss_tv = None\<rparr>),
     en_channel = (\<lambda>_ _. Some \<lparr>ch_release = True, ch_playerCommand = True, ch_lastDetail = None\<rparr>),
     en_send = (\<lambda>_ _. Inr (St_applied, None)),
     en_player_command = (\<lambda>_ _. Inr \<lparr>to_status = ''applied'', to_code = None\<rparr>),
     en_sim = (\<lambda>_ _. None), en_key = (\<lambda>_ _. Inr None), en_budget_check = (\<lambda>_ _ _ _. None)\<rparr>"

definition sample_request :: match_request where
  "sample_request = \<lparr>mr_clientMatchId = ''c1'', mr_game = ''cs2'', mr_gamemode = ''5v5'',
     mr_teamA = [\<lparr>re_steamId64 = ''1'', re_name = ''a'', re_loadout = None\<rparr>],
     mr_teamB = [\<lparr>re_steamId64 = ''2'', re_name = ''b'', re_loadout = None\<rparr>],
     mr_nameA = ''A'', mr_nameB = ''B'',
     mr_maps = [\<lparr>mp_map = ''de_dust2'', mp_sides = Starts Ct\<rparr>], mr_rules = None,
     mr_requirements = \<lparr>rq_region = None, rq_lan = False, rq_preferLan = False, rq_provider = None,
       rq_simulated = False\<rparr>,
     mr_callbacks = \<lparr>cb_webhookUrl = ''u'', cb_webhookSecretId = ''w'', cb_demoUploadUrl = None,
       cb_demoUploadUrls = None, cb_streamAllowedOrigins = None\<rparr>,
     mr_halftime = None, mr_simScenario = None, mr_simulation = None, mr_ttlMinutes = 60,
     mr_hostname = None\<rparr>"

definition sample_caller :: caller where
  "sample_caller = \<lparr>cl_keyId = ''k'', cl_scopes = [Scope_matches], cl_webhookSecrets = [''w'']\<rparr>"

definition sample_registry :: registry where
  "sample_registry = [\<lparr>pe_id = ''p'', pe_drained = False, pe_healthy = True,
     pe_lastCheckedAt = None, pe_lastError = None\<rparr>]"

definition sample_start :: world where
  "sample_start = initial_world ''d'' sample_registry 0"

definition says :: "nat \<Rightarrow> event_body \<Rightarrow> operation" where
  "says n body = Op_ingest (''p'', ''s1'')
     \<lparr>ge_matchId = '''', ge_seq = Some n, ge_simulated = False, ge_body = body\<rparr>"

definition sample_ops :: "operation list" where
  "sample_ops = [Op_create sample_caller sample_request, Op_run '''', says 1 (Server_ready None),
     says 2 (Going_live 1 None None)]"


lemma sample_reachable: "reachable sample_env (run sample_env ops sample_start)"
  unfolding sample_start_def by (rule reachable_run [OF reachable_init])

text \<open>One match on one server, in any state, as an explicit world.\<close>

definition sample_row :: "match_state \<Rightarrow> match_row" where
  "sample_row st = (new_match_row sample_caller sample_request ''m'' ''c15v5'' 0)
     \<lparr>m_state := st, m_provider := Some ''p'', m_serverId := Some ''s1'',
      m_fleetServerId := Some ''f''\<rparr>"

definition sample_candidate :: candidate where
  "sample_candidate = \<lparr>ca_provider = ''p'', ca_offering = sample_offering\<rparr>"

definition sample_server :: server_row where
  "sample_server = (ledger_row (sample_row Allocating) sample_candidate ''f'' 0)
     \<lparr>s_serverId := Some ''s1'', s_state := Fs_running\<rparr>"

definition sample_backup :: "nat \<Rightarrow> backup_row" where
  "sample_backup n = \<lparr>b_id = replicate n CHR ''b'', b_matchId = ''m'', b_fleetServerId = Some ''f'',
     b_mapNumber = 1, b_roundNumber = n, b_filename = ''f'', b_content = ''c'', b_createdAt = 0\<rparr>"

definition sample_world :: "match_state \<Rightarrow> backup_row list \<Rightarrow> world" where
  "sample_world st bs = (initial_world ''d'' sample_registry 0)
     \<lparr>w_store := (createMemoryMatchStore ''d'')
        \<lparr>matches := [sample_row st], servers := [sample_server], backups := bs\<rparr>,
      w_attribution := (\<lambda>_. None)((''p'', ''s1'') := Some ''m'')\<rparr>"

lemma sample_world_find [simp]:
  "findMatch ''m'' (w_store (sample_world st bs)) = Some (sample_row st)"
  "backups (w_store (sample_world st bs)) = bs"
  by (simp_all add: sample_world_def findMatch_def sample_row_def new_match_row_def)

lemma sample_row_simps [simp]:
  "m_state (sample_row st) = st" "m_id (sample_row st) = ''m''"
  "m_provider (sample_row st) = Some ''p''" "m_serverId (sample_row st) = Some ''s1''"
  "m_keyId (sample_row st) = ''k''" "m_fleetServerId (sample_row st) = Some ''f''"
  by (simp_all add: sample_row_def new_match_row_def sample_caller_def)

text \<open>The same match after its end.\<close>

definition sample_ending :: event_row where
  "sample_ending = \<lparr>e_matchId = ''m'', e_seq = 1, e_deliveryId = ''d1'', e_occurredAt = 5,
     e_payload = Match_failed \<lparr>er_kind = Server_lost, er_detail = None\<rparr>\<rparr>"

definition sample_over :: world where
  "sample_over = (sample_world Failed [])\<lparr>w_store := (createMemoryMatchStore ''d'')
     \<lparr>matches := [(sample_row Failed)\<lparr>m_seq := 1,
        m_endedReason := Some \<lparr>er_kind = Server_lost, er_detail = None\<rparr>\<rparr>],
      events := [sample_ending]\<rparr>\<rparr>"

end
