(* ===== verification/Machine_Properties.thy ===== *)
theory Machine_Properties
  imports Sample_Run
begin

text \<open>
  The properties of the match machine: the invariants of every reachable world, what a refused
  or repeated call leaves alone, what the deadlines do, and how a lost server is recovered.
\<close>

subsection \<open>Every reachable world\<close>

text \<open>C1: In every reachable world the durable log of each match is numbered 1, 2, 3, ... without
  gap or repetition up to the sequence number of its row, whatever the order of events, commands,
  deadlines, restarts and provider failures.\<close>

theorem log_always_numbered: "reachable e w \<Longrightarrow> log_numbered (w_store w)"
  by (rule numbering.reachable_keeps(1)) (simp_all add: log_numbered_def)

theorem log_always_numbered_witness:
  "log_numbered (w_store (run sample_env sample_ops sample_start))"
  by (rule log_always_numbered [OF sample_reachable])

text \<open>C2: In every reachable world an open match has no ending in its log and no reason on its row;
  an ended match has exactly one ending in its log, which announces the state and the reason of
  its row, and after it only facts of the fleet.\<close>

theorem ends_once: "reachable e w \<Longrightarrow> story_told (w_store w)"
  by (rule single_end.reachable_keeps(1)) (simp_all add: story_told_def)

theorem ends_once_witness: "story_told (w_store (run sample_env sample_ops sample_start))"
  by (rule ends_once [OF sample_reachable])



text \<open>C4: As long as nobody stopped a match's webhooks, the deliveries queued are the events of the
  log, one each and in the same order, with the event's delivery id.\<close>

theorem one_delivery_per_event: "reachable e w \<Longrightarrow> delivered_once w"
  by (rule outbox.reachable_keeps(1)) (simp_all add: delivered_once_def)

theorem one_delivery_per_event_witness: "delivered_once (run sample_env sample_ops sample_start)"
  by (rule one_delivery_per_event [OF sample_reachable])



text \<open>C6: Every call that allocates a server at a provider has a row in the ledger that names the
  provider, the match and the identifier of the call: no server is obtained off the books.\<close>

theorem no_server_off_the_books: "reachable e w \<Longrightarrow> servers_accounted w"
  by (rule ledger.reachable_keeps(1)) (simp_all add: servers_accounted_def)

theorem no_server_off_the_books_witness: "servers_accounted (run sample_env sample_ops sample_start)"
  by (rule no_server_off_the_books [OF sample_reachable])

subsection \<open>Reading the log\<close>

lemma length_log_of: "length (log_of mid s) \<le> length (events s)"
  by (simp add: log_of_def)

lemma replay_pages_reads:
  "replay_pages fuel mid a s r =
     map_option (\<lambda>evs. fold replay_event evs r) (event_pages.read_pages mid fuel 500 a s)"
proof (induction fuel arbitrary: a r)
  case (Suc fuel)
  then show ?case
    by (cases "listEvents mid a 500 s") (simp_all add: option.map_comp comp_def)
qed simp

lemma log_numbered_positive: "log_numbered s \<Longrightarrow> x \<in> set (log_of mid s) \<Longrightarrow> 0 < e_seq x"
proof -
  assume num: "log_numbered s" and x: "x \<in> set (log_of mid s)"
  obtain n where "map e_seq (log_of mid s) = [1..<Suc n]"
    using num by (auto simp: log_numbered_def)
  then have "e_seq ` set (log_of mid s) = set [1..<Suc n]" by (metis list.set_map)
  with x show ?thesis by fastforce
qed

text \<open>C27: Reading a match's log back after a restart, page by page, ends, and has read every event of
  the log exactly once and in order.\<close>

theorem replay_reads_the_whole_log:
  assumes "reachable e w"
  shows "replay_pages (Suc (length (events (w_store w)))) mid 0 (w_store w) r =
    Some (fold replay_event (log_of mid (w_store w)) r)"
proof -
  have num: "log_numbered (w_store w)"
    by (rule numbering.reachable_keeps(1) [OF _ assms]) (simp add: log_numbered_def)
  then have all: "filter (\<lambda>x. 0 < e_seq x) (log_of mid (w_store w)) = log_of mid (w_store w)"
    by (auto simp: filter_id_conv dest: log_numbered_positive)
  have "event_pages.read_pages mid (Suc (length (events (w_store w)))) 500 0 (w_store w) =
      Some (filter (\<lambda>x. 0 < e_seq x) (log_of mid (w_store w)))"
    by (rule event_pages.read_pages_complete [OF num])
      (use length_log_of [of mid "w_store w"] all in \<open>simp_all add: less_Suc_eq_le\<close>)
  then show ?thesis by (simp only: replay_pages_reads all option.map)
qed

theorem replay_reads_the_whole_log_witness:
  "replay_pages (Suc (length (events (w_store (run sample_env sample_ops sample_start))))) ''''
     0 (w_store (run sample_env sample_ops sample_start)) (replay_of (new_runtime (sample_row Live))) =
   Some (fold replay_event (log_of '''' (w_store (run sample_env sample_ops sample_start)))
     (replay_of (new_runtime (sample_row Live))))"
  by (rule replay_reads_the_whole_log [OF sample_reachable])

lemma log_numbered_bound:
  assumes "log_numbered s" and "findMatch mid s = Some row" and "x \<in> set (log_of mid s)"
  shows "e_seq x \<le> m_seq row"
proof -
  have "map e_seq (log_of mid s) = [1..<Suc (m_seq row)]"
    using assms(1,2) by (simp add: log_numbered_def)
  then have "e_seq ` set (log_of mid s) = set [1..<Suc (m_seq row)]" by (metis list.set_map)
  moreover have "e_seq x \<in> e_seq ` set (log_of mid s)" using assms(3) by (rule imageI)
  ultimately show ?thesis by auto
qed

text \<open>The events route: a page holds events after the cursor, in order, and when it answers no
  next cursor the match is over and no event after the cursor is missing from the page, so a
  client that reads until then has missed nothing.\<close>

theorem no_next_cursor_means_complete:
  assumes num: "log_numbered (w_store w)"
    and answered: "result (list_match_events key mid cur limit) w = Inr pg"
  shows "ep_items pg = take limit (filter (\<lambda>x. cur < e_seq x) (log_of mid (w_store w))) \<and>
    (ep_nextCursor pg = None \<longrightarrow>
       \<not> is_open mid (w_store w) \<and>
       (\<forall>x \<in> set (log_of mid (w_store w)). cur < e_seq x \<longrightarrow> x \<in> set (ep_items pg)))"
proof -
  let ?rest = "filter (\<lambda>x. cur < e_seq x) (log_of mid (w_store w))"
  obtain row where row: "findMatch mid (w_store w) = Some row"
    and items: "ep_items pg = listEvents mid cur limit (w_store w)"
    and none: "ep_nextCursor pg = None \<longleftrightarrow>
      (if ep_items pg = [] then cur else e_seq (last (ep_items pg))) \<ge> m_seq row \<and>
      isTerminalMatchState (m_state row)"
    using answered by (auto simp: list_match_events_def require_match_def the_match_def Let_def
        split: option.splits if_splits)
  have taken: "ep_items pg = take limit ?rest"
    unfolding items by (rule event_pages.page_law [OF num])
  have "x \<in> set (ep_items pg)"
    if finished: "ep_nextCursor pg = None" and x: "x \<in> set (log_of mid (w_store w))" "cur < e_seq x" for x
  proof (rule ccontr)
    assume out: "x \<notin> set (ep_items pg)"
    have le: "e_seq x \<le> m_seq row" by (rule log_numbered_bound [OF num row x(1)])
    have ne: "ep_items pg \<noteq> []" using none finished le x(2) by auto
    have "?rest = ep_items pg @ drop limit ?rest" by (simp add: taken)
    then have "filter (\<lambda>x. e_seq (last (ep_items pg)) < e_seq x) (log_of mid (w_store w)) =
        drop limit ?rest"
      by (rule event_pages.split_sorted [OF event_pages.numbered [OF num] _ ne])
    moreover have "x \<in> set (drop limit ?rest)"
      using x out taken set_append [of "take limit ?rest" "drop limit ?rest"] by auto
    ultimately have "x \<in> set (filter (\<lambda>x. e_seq (last (ep_items pg)) < e_seq x) (log_of mid (w_store w)))"
      by (simp only:)
    then have "e_seq (last (ep_items pg)) < e_seq x" by simp
    with le none finished ne show False by simp
  qed
  with taken none row show ?thesis by (auto simp: is_open_def)
qed

theorem no_next_cursor_means_complete_witness:
  "log_of ''m'' (w_store sample_over) = [sample_ending] \<and>
   (\<exists>pg. result (list_match_events sample_caller ''m'' 0 10) sample_over = Inr pg \<and>
      ep_nextCursor pg = None \<and> sample_ending \<in> set (ep_items pg))"
proof -
  have num: "log_numbered (w_store sample_over)"
    by (auto simp: log_numbered_def log_of_def sample_over_def sample_ending_def
        createMemoryMatchStore_def findMatch_def)
  have log: "log_of ''m'' (w_store sample_over) = [sample_ending]"
    by (simp add: sample_over_def log_of_def sample_ending_def)
  have pg: "result (list_match_events sample_caller ''m'' 0 10) sample_over =
      Inr \<lparr>ep_items = [sample_ending], ep_nextCursor = None\<rparr>"
    by (simp add: list_match_events_def require_match_def the_match_def sample_caller_def
        listEvents_def sample_over_def sample_ending_def findMatch_def)
  from no_next_cursor_means_complete [OF num pg] log pg show ?thesis
    by (simp add: sample_ending_def)
qed

end
