(* ===== verification/Machine_Behaviour.thy ===== *)
theory Machine_Behaviour
  imports Sample_Run
begin

text \<open>
  What single operations of the match machine do, branch by branch: the end of a match, refused
  and repeated events and commands, the deadlines, the loss of a server, the walk down the
  candidates.
\<close>

subsection \<open>Running the primitives\<close>

lemma run_with_match:
  "findMatch mid (w_store w) = Some row \<Longrightarrow> run_state (with_match mid d f) w = run_state (f row) w"
  by (simp add: with_match_def the_match_def)

lemma run_call [simp]:
  "run_state (call e eff ans) w =
     (ans (w_trace w), w\<lparr>w_trace := eff # w_trace w, w_now := w_now w + int (en_latency e (w_trace w))\<rparr>)"
  by (simp add: call_def)

definition tables :: "world \<Rightarrow> match_row list \<times> event_row list" where
  "tables w = (matches (w_store w), events (w_store w))"

lemma tables_find: "tables w' = tables w \<Longrightarrow> findMatch mid (w_store w') = findMatch mid (w_store w)"
  by (simp add: tables_def findMatch_def)

lemma tables_events: "tables w' = tables w \<Longrightarrow> events (w_store w') = events (w_store w)"
  by (simp add: tables_def)

subsection \<open>What leaves the tables alone\<close>

lemma tables_modify:
  "(\<And>w. matches (w_store (f w)) = matches (w_store w) \<and> events (w_store (f w)) = events (w_store w)) \<Longrightarrow>
   keeps (\<lambda>w. tables w = T) (modify f)"
  by (rule triple_modify) (simp add: tables_def)

lemma tables_primitives:
  "keeps (\<lambda>w. tables w = T) now" "keeps (\<lambda>w. tables w = T) (perform eff)"
  "keeps (\<lambda>w. tables w = T) (call e eff2 ans)" "keeps (\<lambda>w. tables w = T) (registered p)"
  "keeps (\<lambda>w. tables w = T) (cancelTimers mid)" "keeps (\<lambda>w. tables w = T) (cancelTimer mid name)"
  "keeps (\<lambda>w. tables w = T) (forget_attribution ref)"
  "keeps (\<lambda>w. tables w = T) (currentServer row)" "keeps (\<lambda>w. tables w = T) (demoOf e row2)"
  "keeps (\<lambda>w. tables w = T) (runtimeOf row3)" "keeps (\<lambda>w. tables w = T) (on_runtime row4 g)"
  "keeps (\<lambda>w. tables w = T) (on_runtime_if_any mid g)"
  by (auto simp: triple_def tables_def registered_def cancelTimers_def cancelTimer_def
      on_runtime_if_any_def forget_attribution_def currentServer_def demoOf_def run_runtimeOf
      run_on_runtime split: option.split)

lemma tables_updateServer: "keeps (\<lambda>w. tables w = T) (store_updateServer sid p)"
  by (auto simp: triple_def store_updateServer_def on_store_opt_def tables_def
      dest: updateServer_frame split: option.split)

lemma tables_simOf: "keeps (\<lambda>w. tables w = T) (simOf e row)"
  unfolding simOf_def
  by (cases "m_provider row"; cases "m_serverId row")
    (simp_all add: triple_def registered_def case_prod_beta)

lemma tables_stop_server: "keeps (\<lambda>w. tables w = T) (stop_server e ref reason)"
  unfolding stop_server_def by (intro triple_intros tables_primitives)

lemma tables_closeRow: "keeps (\<lambda>w. tables w = T) (closeRow e server st reason b)"
  unfolding closeRow_def by (intro triple_intros tables_primitives tables_stop_server tables_updateServer)

lemma tables_lastSeen: "keeps (\<lambda>w. tables w = T) (lastSeen e row)"
  unfolding lastSeen_def by (intro triple_intros tables_primitives)

lemma tables_timers:
  "keeps (\<lambda>w. tables w = T) (setTimer row name at)" "keeps (\<lambda>w. tables w = T) (armRecovery e row)"
  "keeps (\<lambda>w. tables w = T) (enqueue_step row st)" "keeps (\<lambda>w. tables w = T) (kickRecovery row)"
  by (auto simp: triple_def tables_def setTimer_def armRecovery_def enqueue_step_def kickRecovery_def
      run_on_runtime run_runtimeOf split: option.split)

subsection \<open>The end of a match\<close>

definition ended_as ::
  "ident \<Rightarrow> match_row \<Rightarrow> event_row list \<Rightarrow> match_state \<Rightarrow> ended_reason \<Rightarrow> world \<Rightarrow> bool" where
  "ended_as mid row evs st reason w \<longleftrightarrow>
     (\<exists>row' ev demo. findMatch mid (w_store w) = Some row' \<and> m_state row' = st \<and>
        m_endedReason row' = Some reason \<and> m_endedAt row' \<noteq> None \<and> m_seq row' = Suc (m_seq row) \<and>
        m_keyId row' = m_keyId row \<and>
        events (w_store w) = evs @ [ev] \<and> e_matchId ev = mid \<and>
        e_payload ev = ending_fact st reason demo)"

lemma emit_ends:
  assumes "findMatch mid (w_store w) = Some row"
  shows "ended_as mid row (events (w_store w)) st reason
    (after (emit e mid (ending_fact st reason demo) (ending_patch st reason at sim)) w)"
proof -
  let ?w = "after (emit e mid (ending_fact st reason demo) (ending_patch st reason at sim)) w"
  obtain ev where "e_matchId ev = mid" "e_payload ev = ending_fact st reason demo"
    "findMatch mid (w_store ?w) = Some ((apply_match_patch (ending_patch st reason at sim) row)
       \<lparr>m_seq := Suc (m_seq row), m_updatedAt := w_now w\<rparr>)"
    "events (w_store ?w) = events (w_store w) @ [ev]"
    using emit_tables [OF assms, of "ending_fact st reason demo" e "ending_patch st reason at sim"]
    by blast
  then show ?thesis
    unfolding ended_as_def by (intro exI conjI) (assumption | simp add: ending_patch_def)+
qed

lemma end_match_unfold: "end_match e mid st reason rs = with_match mid () (\<lambda>row.
     if isTerminalMatchState (m_state row) then skip
     else do {
       cancelTimers mid;
       sim \<leftarrow> simOf e row;
       server \<leftarrow> currentServer row;
       (case server of
          None \<Rightarrow> skip
        | Some srv \<Rightarrow> closeRow e srv rs
            (match_state_name st @ '': '' @ ended_kind_name (er_kind reason)) True);
       at \<leftarrow> now;
       demo \<leftarrow> demoOf e row;
       emit e mid (ending_fact st reason demo) (ending_patch st reason at sim);
       perform (Eff_close mid);
       drop_runtime mid
     })"
  unfolding end_match_def ending_fact_def ending_patch_def ..

lemma end_match_ends:
  assumes row: "findMatch mid (w_store w) = Some row" and "\<not> isTerminalMatchState (m_state row)"
  shows "ended_as mid row (events (w_store w)) st reason (after (end_match e mid st reason rs) w)"
proof -
  let ?T = "tables w" and ?E = "ended_as mid row (events (w_store w)) st reason"
  have emit: "triple (\<lambda>v. tables v = ?T)
      (emit e mid (ending_fact st reason demo) (ending_patch st reason at sim)) (\<lambda>_. ?E)" for demo at sim
  proof (rule tripleI)
    fix v assume v: "tables v = ?T"
    have "findMatch mid (w_store v) = Some row" "events (w_store v) = events (w_store w)"
      by (simp_all only: tables_find [OF v] tables_events [OF v] row)
    then show "?E (after (emit e mid (ending_fact st reason demo) (ending_patch st reason at sim)) v)"
      using emit_ends [of mid v row] by simp
  qed
  have tail: "keeps ?E (perform (Eff_close mid))" "keeps ?E (drop_runtime mid)"
    by (simp_all add: triple_def ended_as_def drop_runtime_def)
  have "triple (\<lambda>v. tables v = ?T) (do {
       cancelTimers mid;
       sim \<leftarrow> simOf e row;
       server \<leftarrow> currentServer row;
       (case server of
          None \<Rightarrow> skip
        | Some srv \<Rightarrow> closeRow e srv rs
            (match_state_name st @ '': '' @ ended_kind_name (er_kind reason)) True);
       at \<leftarrow> now;
       demo \<leftarrow> demoOf e row;
       emit e mid (ending_fact st reason demo) (ending_patch st reason at sim);
       perform (Eff_close mid);
       drop_runtime mid
     }) (\<lambda>_. ?E)"
    by (rule triple_bind [OF emit] tail keeps_bind keeps_skip triple_option tables_primitives
        tables_simOf tables_closeRow)+
  from tripleD [OF this refl] assms(2) show ?thesis
    unfolding end_match_unfold run_with_match [OF row] by (simp only: if_False)
qed

lemma fail_match_ends:
  "findMatch mid (w_store w) = Some row \<Longrightarrow> \<not> isTerminalMatchState (m_state row) \<Longrightarrow>
   ended_as mid row (events (w_store w)) Failed \<lparr>er_kind = kind, er_detail = Some detail\<rparr>
     (after (fail_match e mid kind detail) w)"
  unfolding fail_match_def by (rule end_match_ends)

lemma end_match_from:
  assumes "findMatch mid (w_store w) = Some row" and "\<not> isTerminalMatchState (m_state row)"
  shows "triple (\<lambda>v. tables v = tables w) (end_match e mid st reason rs)
    (\<lambda>_. ended_as mid row (events (w_store w)) st reason)"
proof (rule tripleI)
  fix v assume v: "tables v = tables w"
  with assms(1) have "findMatch mid (w_store v) = Some row" by (simp only: tables_find [OF v])
  from end_match_ends [OF this assms(2), of st reason e rs]
  show "ended_as mid row (events (w_store w)) st reason (after (end_match e mid st reason rs) v)"
    by (simp only: tables_events [OF v])
qed

subsection \<open>Deadlines\<close>

text \<open>The table of the deadlines: how the match ends when the deadline fires in a state.\<close>

fun deadline_end :: "match_state \<Rightarrow> timer_name \<Rightarrow> (match_state \<times> ended_kind) option" where
  "deadline_end st T_ttl = (if isTerminalMatchState st then None else Some (Ended, Ttl_expired))"
| "deadline_end Allocating T_allocate = Some (Failed, Allocation_failed)"
| "deadline_end Configuring T_boot = Some (Failed, Provider_error)"
| "deadline_end Ready T_join = Some (Ended, Ttl_expired)"
| "deadline_end Recovering T_join = Some (Failed, Server_lost)"
| "deadline_end Recovering T_recovery = Some (Failed, Server_lost)"
| "deadline_end _ _ = None"

lemma fail_match_from:
  assumes "findMatch mid (w_store w) = Some row" and "\<not> isTerminalMatchState (m_state row)"
  shows "triple (\<lambda>v. tables v = tables w) (fail_match e mid kind detail)
    (\<lambda>_. ended_as mid row (events (w_store w)) Failed \<lparr>er_kind = kind, er_detail = Some detail\<rparr>)"
  unfolding fail_match_def by (rule end_match_from [OF assms])

text \<open>A deadline that fires in the state it guards ends the match in the state and for the reason
  of the table (the allocation, boot, join and recovery windows and the ceiling), with one ending
  appended to the log, whatever the provider answers meanwhile; a deadline that fires in another
  state changes nothing at all.\<close>

theorem deadline_fires:
  assumes row: "findMatch mid (w_store w) = Some row"
    and name: "name \<noteq> T_heartbeat" "name \<noteq> T_demo"
  shows "case deadline_end (m_state row) name of
      Some (st, kind) \<Rightarrow> \<exists>detail. ended_as mid row (events (w_store w)) st
        \<lparr>er_kind = kind, er_detail = Some detail\<rparr> (after (on_deadline e mid name) w)
    | None \<Rightarrow> after (on_deadline e mid name) w = w"
proof (cases "deadline_end (m_state row) name")
  case None
  then have "after (on_deadline e mid name) w = w"
    using name by (cases "m_state row"; cases name)
      (simp_all add: on_deadline_def run_with_match [OF row] end_match_def)
  with None show ?thesis by simp
next
  case (Some p)
  obtain st kind where p: "p = (st, kind)" by fastforce
  have opened: "\<not> isTerminalMatchState (m_state row)"
    using Some by (cases "m_state row"; cases name) simp_all
  note fin = tripleD [OF end_match_from [OF row opened] refl]
  note bad = tripleD [OF fail_match_from [OF row opened] refl]
  have boot: "\<exists>detail. ended_as mid row (events (w_store w)) Failed
      \<lparr>er_kind = Provider_error, er_detail = Some detail\<rparr>
      (after (lastSeen e row \<bind> (\<lambda>seen. fail_match e mid Provider_error (f seen))) w)" for f
    using tripleD [OF tables_lastSeen, of w "tables w" e row] fail_match_from [OF row opened]
    unfolding run_simps triple_def by blast
  have "\<exists>detail. ended_as mid row (events (w_store w)) st
        \<lparr>er_kind = kind, er_detail = Some detail\<rparr> (after (on_deadline e mid name) w)"
    using Some p name
    by (cases name; cases "m_state row")
      (auto simp: on_deadline_def run_with_match [OF row] simp del: run_state_bind intro: fin bad boot)
  with Some p show ?thesis by simp
qed

theorem deadline_fires_witness:
  "\<exists>detail. ended_as ''m'' (sample_row Recovering) [] Failed
     \<lparr>er_kind = Server_lost, er_detail = Some detail\<rparr>
     (after (on_deadline sample_env ''m'' T_recovery) (sample_world Recovering []))"
  using deadline_fires [of "''m''" "sample_world Recovering []" "sample_row Recovering" T_recovery sample_env]
  by (simp add: sample_world_def createMemoryMatchStore_def findMatch_def)

subsection \<open>Refused and repeated\<close>

text \<open>An event is turned away, and nothing in the orchestrator changes, when its match is over,
  when it comes from a server other than the one the match is on (the server a recovery
  replaced, say), or when it names another match.\<close>

theorem foreign_event_changes_nothing:
  assumes "findMatch mid (w_store w) = Some row"
    and "isTerminalMatchState (m_state row) \<or> m_provider row \<noteq> Some (fst source) \<or>
      m_serverId row \<noteq> Some (snd source) \<or> ge_matchId said \<noteq> mid"
  shows "run_state (onServerEvent e mid source said) w = (In_rejected, w)"
  using assms by (auto simp: onServerEvent_def run_with_match)

theorem foreign_event_changes_nothing_witness:
  "run_state (onServerEvent sample_env ''m'' (''p'', ''lost'')
      \<lparr>ge_matchId = ''m'', ge_seq = Some 1, ge_simulated = False, ge_body = Series_end None\<rparr>)
     (sample_world Live []) = (In_rejected, sample_world Live [])"
  by (rule foreign_event_changes_nothing [where row = "sample_row Live"]) simp_all

text \<open>An event whose number that server has already used is answered as a duplicate: it reaches
  neither the log nor the stream nor a provider, and the match's row, deadlines and presence stay
  as they are.\<close>

theorem duplicate_event_is_ignored:
  assumes row: "findMatch mid (w_store w) = Some row" "\<not> isTerminalMatchState (m_state row)"
      "m_provider row = Some (fst source)" "m_serverId row = Some (snd source)" "ge_matchId said = mid"
    and rt: "w_runtimes w mid = Some rt"
    and seen: "ge_seq said = Some n" "(source, n) \<in> set (rt_seen rt)"
  shows "result (onServerEvent e mid source said) w = In_duplicate \<and>
    w_store (after (onServerEvent e mid source said) w) = w_store w \<and>
    w_trace (after (onServerEvent e mid source said) w) = w_trace w \<and>
    w_queue (after (onServerEvent e mid source said) w) = w_queue w \<and>
    (\<exists>rt'. w_runtimes (after (onServerEvent e mid source said) w) = (w_runtimes w)(mid := Some rt') \<and>
       rt_timers rt' = rt_timers rt \<and> rt_presence rt' = rt_presence rt \<and> rt_seen rt' = rt_seen rt)"
proof -
  have mid: "m_id row = mid" by (rule findMatch_id [OF row(1)])
  show ?thesis
    using row rt seen mid
    by (simp add: onServerEvent_def run_with_match run_runtimeOf run_on_runtime case_prod_beta Let_def)
      (rule exI, rule conjI, rule refl, simp)
qed

theorem duplicate_event_is_ignored_witness:
  "result (onServerEvent sample_env ''m'' (''p'', ''s1'')
      \<lparr>ge_matchId = ''m'', ge_seq = Some 1, ge_simulated = False, ge_body = Series_end None\<rparr>)
     ((sample_world Live [])\<lparr>w_runtimes := (\<lambda>_. None)(''m'' :=
        Some ((new_runtime (sample_row Live))\<lparr>rt_seen := [((''p'', ''s1''), 1)]\<rparr>))\<rparr>) = In_duplicate"
  using duplicate_event_is_ignored [of "''m''" "(sample_world Live [])\<lparr>w_runtimes := (\<lambda>_. None)(''m'' :=
        Some ((new_runtime (sample_row Live))\<lparr>rt_seen := [((''p'', ''s1''), 1)]\<rparr>))\<rparr>"
      "sample_row Live" "(''p'', ''s1'')"
      "\<lparr>ge_matchId = ''m'', ge_seq = Some 1, ge_simulated = False, ge_body = Series_end None\<rparr>"
      _ 1 sample_env] by simp

text \<open>A client cancels its match only before it is played: a live, recovering or ended match is
  refused with \<open>invalid_state\<close> and nothing stored changes; any other match is then Cancelled, and
  the answer says so.\<close>

theorem cancel_only_before_play:
  assumes row: "findMatch mid (w_store w) = Some row" and key: "m_keyId row = cl_keyId key"
  shows "if isTerminalMatchState (m_state row) \<or> m_state row = Live \<or> m_state row = Recovering
    then result (cancel e key mid) w = Inl (refuse Invalid_state) \<and>
         w_store (after (cancel e key mid) w) = w_store w
    else ended_as mid row (events (w_store w)) Cancelled \<lparr>er_kind = Kind_cancelled, er_detail = None\<rparr>
           (after (cancel e key mid) w) \<and>
         (\<exists>v. result (cancel e key mid) w = Inr v \<and> mv_state v = Cancelled)"
proof (cases "isTerminalMatchState (m_state row) \<or> m_state row = Live \<or> m_state row = Recovering")
  case True
  with row key show ?thesis
    by (simp add: cancel_def require_match_def the_match_def run_runtimeOf split: option.split)
next
  case False
  let ?r = "\<lparr>er_kind = Kind_cancelled, er_detail = None\<rparr>"
  let ?w1 = "after (runtimeOf row) w"
  let ?w2 = "after (end_match e mid Cancelled ?r Fs_released) ?w1"
  have w1: "w_store ?w1 = w_store w" by (simp add: run_runtimeOf split: option.split)
  have "ended_as mid row (events (w_store ?w1)) Cancelled ?r ?w2"
    using False row w1 by (intro end_match_ends) auto
  then have ended: "ended_as mid row (events (w_store w)) Cancelled ?r ?w2"
    unfolding w1 .
  then obtain row' where row': "findMatch mid (w_store ?w2) = Some row'" "m_state row' = Cancelled"
    unfolding ended_as_def by blast
  have step: "run_state (cancel e key mid) w = run_state (do {
      v \<leftarrow> view e row'; State_Monad.return (Inr v) }) ?w2"
    using False row key row' by (simp add: cancel_def require_match_def the_match_def case_prod_beta
        run_with_match [OF row'(1)])
  have view: "after (view e row') ?w2 = ?w2" "mv_state (result (view e row') ?w2) = Cancelled"
    unfolding view_def simOf_def using row'(2)
    by (cases "m_provider row'"; cases "m_serverId row'";
        simp add: matchView_def Let_def registered_def case_prod_beta)+
  show ?thesis
    using False ended view by (simp add: step case_prod_beta)
qed

theorem cancel_only_before_play_witness:
  "result (cancel sample_env sample_caller ''m'') (sample_world Live []) = Inl (refuse Invalid_state)"
  using cancel_only_before_play [of "''m''" "sample_world Live []" "sample_row Live" sample_caller sample_env]
  by (simp add: sample_caller_def)

subsection \<open>Idempotence\<close>

lemma findCommand_known: "(mid, c) \<in> command_keys s \<Longrightarrow> \<exists>r. findCommand mid c s = Some r"
proof -
  assume "(mid, c) \<in> command_keys s"
  then have "findCommand mid c s \<noteq> None"
    by (auto simp: command_keys_def findCommand_def find_None_iff)
  then show ?thesis by simp
qed

lemma setCommandResult_found:
  assumes "findCommand mid c s = Some r"
  shows "\<exists>s' r'. setCommandResult mid c res at s = Some s' \<and> findCommand mid c s' = Some r' \<and>
    c_result r' = Some res"
  using assms
  by (auto simp: setCommandResult_def findCommand_def find_update_first split: option.split)

text \<open>The result of a command is stored under its correlation id.\<close>

lemma command_stored:
  assumes w: "queue_ok w" and res: "result (command e key mid c) w = Inr res"
  shows "Option.bind (findCommand mid (cm_correlationId c) (w_store (after (command e key mid c) w)))
    c_result = Some res"
proof -
  let ?k = "(mid, cm_correlationId c)"
  obtain row where row: "findMatch mid (w_store w) = Some row" "m_keyId row = cl_keyId key"
    and allowed: "\<not> ((case cm_body c of Cmd_rcon _ \<Rightarrow> True | _ \<Rightarrow> False) \<and> Scope_admin \<notin> set (cl_scopes key))"
    using res by (auto simp: command_def require_match_def the_match_def
        split: option.splits if_splits)
  have req: "run_state (require_match key mid) w = (Inr row, w)"
    using row by (simp add: require_match_def the_match_def)
  let ?w1 = "after (runtimeOf row) w"
  have w1: "w_store ?w1 = w_store w" "w_queue ?w1 = w_queue w"
    by (simp_all add: run_runtimeOf split: option.split)
  let ?cached = "findCommand mid (cm_correlationId c) (w_store w)"
  show ?thesis
  proof (cases "Option.bind ?cached c_result")
    case (Some r)
    then show ?thesis
      using res req allowed w1 by (simp add: command_def case_prod_beta)
  next
    case None
    let ?new = "\<lparr>c_matchId = mid, c_correlationId = cm_correlationId c, c_command = c,
      c_result = None, c_createdAt = w_now ?w1, c_updatedAt = w_now ?w1\<rparr>"
    let ?w2 = "after (only_if (?cached = None) (on_store (insertCommand ?new))) ?w1"
    let ?w3 = "after (applyCommand e row c) ?w2"
    have known: "?k \<in> command_keys (w_store ?w2)"
    proof (cases ?cached)
      case None
      then show ?thesis using w1 by simp
    next
      case (Some r)
      then show ?thesis
        using w1 by (auto simp: findCommand_def command_keys_def dest!: find_SomeD intro!: image_eqI)
    qed
    have "answers.invs ?k (if isTerminalMatchState (m_state row) then {} else {m_id row}) ?w2"
      using known w w1 row findMatch_id [OF row(1)]
      by (auto simp: answers.invs_def queue_ok_def is_open_def insertCommand_def findMatch_def)
    from tripleD [OF answers.ends_applyCommand this, of e c]
    have "?k \<in> command_keys (w_store ?w3)" by (simp add: answers.invs_def)
    then obtain r3 where "findCommand mid (cm_correlationId c) (w_store ?w3) = Some r3"
      using findCommand_known by blast
    from setCommandResult_found [OF this, of "result (applyCommand e row c) ?w2" "w_now ?w3"]
    show ?thesis
      using res req allowed w1 None
      by (auto simp: command_def case_prod_beta on_store_opt_def)
  qed
qed

text \<open>A command is applied at most once: a second one with the same correlation id is answered
  with the first one's result, and neither the store nor a server hears of it.\<close>

theorem command_is_idempotent:
  assumes w: "reachable e w" and res: "result (command e key mid c) w = Inr res"
    and again: "cm_correlationId c2 = cm_correlationId c" "Scope_admin \<in> set (cl_scopes key)"
  shows "result (command e key mid c2) (after (command e key mid c) w) = Inr res \<and>
    w_store (after (command e key mid c2) (after (command e key mid c) w)) =
      w_store (after (command e key mid c) w) \<and>
    w_trace (after (command e key mid c2) (after (command e key mid c) w)) =
      w_trace (after (command e key mid c) w)"
proof -
  let ?w1 = "after (command e key mid c) w"
  obtain row where row: "findMatch mid (w_store w) = Some row" "m_keyId row = cl_keyId key"
    using res by (auto simp: command_def require_match_def the_match_def split: option.splits if_splits)
  have "past_kept (w_store w) (w_store (run e [Op_command key mid c] w))"
    by (rule history.run_keeps [OF _ reachable_queue_ok [OF w]])
      (simp add: past_kept_def row_lasts_def split: option.split)
  then have "past_kept (w_store w) (w_store ?w1)"
    by (simp add: ignore_def case_prod_beta)
  from past_at [OF this row(1)] obtain row1 where
    row1: "findMatch mid (w_store ?w1) = Some row1" "m_keyId row1 = cl_keyId key"
    using row(2) by (auto simp: row_lasts_def)
  have req: "run_state (require_match key mid) ?w1 = (Inr row1, ?w1)"
    using row1 by (simp add: require_match_def the_match_def)
  have "Option.bind (findCommand mid (cm_correlationId c) (w_store ?w1)) c_result = Some res"
    by (rule command_stored [OF reachable_queue_ok [OF w] res])
  then obtain r where "findCommand mid (cm_correlationId c) (w_store ?w1) = Some r" "c_result r = Some res"
    by (cases "findCommand mid (cm_correlationId c) (w_store ?w1)") auto
  then show ?thesis
    using again by (simp add: command_def [of e key mid c2] req case_prod_beta run_runtimeOf
        split: option.split)
qed

definition sample_admin :: caller where
  "sample_admin = sample_caller\<lparr>cl_scopes := [Scope_admin]\<rparr>"

definition sample_ended_ops :: "operation list" where
  "sample_ended_ops = [Op_create sample_caller sample_request, Op_cancel sample_caller '''']"

text \<open>A request repeated under its \<open>clientMatchId\<close> makes no second match: the same body is
  answered with the match already there, marked as replayed, a different body with \<open>conflict\<close>,
  and in both cases nothing of the orchestrator changes.\<close>

theorem create_is_idempotent:
  assumes "findMatchByClientId (cl_keyId key) (mr_clientMatchId r) (w_store w) = Some row"
  shows "after (create e key r) w = w \<and>
    (if m_requestHash row = en_requestHash e r
     then \<exists>v. result (create e key r) w = Inr (v, True) \<and> mv_id v = m_id row \<and> mv_state v = m_state row
     else result (create e key r) w = Inl (refuse Conflict))"
proof -
  have "after (view e row) w = w" "mv_id (result (view e row) w) = m_id row"
    "mv_state (result (view e row) w) = m_state row"
    unfolding view_def simOf_def
    by (cases "m_provider row"; cases "m_serverId row";
        simp add: matchView_def Let_def registered_def case_prod_beta)+
  with assms show ?thesis by (simp add: create_def Let_def case_prod_beta)
qed

theorem create_is_idempotent_witness:
  "\<exists>v. result (create sample_env sample_caller sample_request) (sample_world Ready []) = Inr (v, True) \<and>
     mv_id v = ''m''"
  using create_is_idempotent [of sample_caller sample_request "sample_world Ready []" "sample_row Ready"
      sample_env]
  by (auto simp: findMatchByClientId_def sample_world_def createMemoryMatchStore_def sample_row_def
      new_match_row_def sample_caller_def sample_request_def sample_env_def)

text \<open>What a newly created match is stored as.\<close>

definition fresh_match ::
  "ident \<Rightarrow> caller \<Rightarrow> match_request \<Rightarrow> string \<Rightarrow> match_view \<Rightarrow> world \<Rightarrow> bool" where
  "fresh_match mid key r hash v w \<longleftrightarrow>
    (\<exists>row rt. findMatch mid (w_store w) = Some row \<and>
       m_state row = Pending \<and> m_keyId row = cl_keyId key \<and> m_request row = r \<and>
       m_requestHash row = hash \<and> mv_id v = mid \<and> mv_state v = Pending \<and> mv_connect v = None \<and>
       m_expiresAt row = m_createdAt row + int (mr_ttlMinutes r) * 60000 \<and>
       w_runtimes w mid = Some rt \<and> rt_timers rt T_ttl = Some (m_expiresAt row) \<and>
       (mid, Step_provision) \<in> set (w_queue w))"

lemma insert_new_match_fresh:
  assumes "result (insert_new_match e key r hash) w = Inr v"
  shows "fresh_match (mv_id v) key r hash v (after (insert_new_match e key r hash) w)"
proof -
  let ?mid = "en_uuid e (w_fresh w)"
  let ?row = "new_match_row key r ?mid hash (w_now w)"
  obtain s' where s': "insertMatch ?row (w_store w) = Some s'"
    using assms by (auto simp: insert_new_match_def randomUUID_def Let_def split: option.splits)
  have id: "m_id ?row = ?mid" by (simp add: new_match_row_def)
  have "findMatch ?mid s' = Some (?row\<lparr>m_deployment := deployment (w_store w)\<rparr>)"
    using findMatch_insertMatch [OF s', of ?mid] id by simp
  then show ?thesis
    using assms s'
    by (auto simp: insert_new_match_def randomUUID_def run_runtimeOf armTtl_def setTimer_def
        run_on_runtime enqueue_step_def view_def simOf_def matchView_def Let_def fresh_match_def
        new_match_row_def split: option.splits)
qed

lemma create_inserts:
  assumes "result (create e key r) w = Inr (v, False)"
  shows "\<exists>w1. result (insert_new_match e key r (en_requestHash e r)) w1 = Inr v \<and>
    after (create e key r) w = after (insert_new_match e key r (en_requestHash e r)) w1"
proof -
  let ?ins = "insert_new_match e key r (en_requestHash e r)"
  obtain m where m: "find (\<lambda>m. gm_id m = mr_gamemode r) (en_gamemodes e) = Some m"
    and front: "findMatchByClientId (cl_keyId key) (mr_clientMatchId r) (w_store w) = None"
      "assertBodyScopes key r = None" "simPlanProblem r = None"
      "cb_webhookSecretId (mr_callbacks r) \<in> set (cl_webhookSecrets key)"
    using assms by (auto simp: create_def Let_def case_prod_beta split: option.splits if_splits)
  let ?w1 = "after (select_for e r ''create'') w"
  let ?sel = "result (select_for e r ''create'') w"
  obtain cents where judged: "judge_request e r m ?sel = Inr cents"
    using assms m front by (auto simp: create_def Let_def case_prod_beta split: sum.splits)
  have "en_budget_check e (w_trace ?w1) (cl_keyId key) r cents = None"
    using assms m front judged by (auto simp: create_def Let_def case_prod_beta split: option.splits)
  then have "run_state (create e key r) w =
      (map_sum id (\<lambda>v. (v, False)) (result ?ins ?w1), after ?ins ?w1)"
    using m front judged by (simp add: create_def Let_def case_prod_beta)
  with assms show ?thesis by (intro exI [of _ ?w1]) (cases "result ?ins ?w1", auto)
qed

text \<open>A request that is accepted stores one open match of the caller in the state Pending, with the
  request and its hash, its ceiling armed at the end of the request's lifetime and its
  provisioning queued; the answer carries no connect facts yet.\<close>

theorem create_stores_a_pending_match:
  "result (create e key r) w = Inr (v, False) \<Longrightarrow>
   fresh_match (mv_id v) key r (en_requestHash e r) v (after (create e key r) w)"
  using create_inserts insert_new_match_fresh by metis

lemma sample_selection: "result (select_for sample_env sample_request ''create'') sample_start =
   \<lparr>sl_candidates = [\<lparr>ca_provider = ''p'', ca_offering = sample_offering\<rparr>], sl_failures = [], sl_asked = Suc 0\<rparr>"
  by (simp add: select_for_def sample_start_def initial_world_def selectCandidates_def
      eligibleProviders_def sample_registry_def sample_request_def sample_env_def requirementsOf_def
      ranked_pool_def suitable_def offeringMatches_def sample_offering_def SIM_PROVIDER_ID_def)

lemma sample_created:
  "\<exists>v. result (create sample_env sample_caller sample_request) sample_start = Inr (v, False)"
proof -
  have judged: "judge_request sample_env sample_request sample_manifest
      \<lparr>sl_candidates = [\<lparr>ca_provider = ''p'', ca_offering = sample_offering\<rparr>], sl_failures = [], sl_asked = Suc 0\<rparr>
      = Inr 20"
    by (simp add: judge_request_def unplayable_def matchFormatProblem_def matchRulesProblem_def
        matchVoiceProblem_def matchSimulationProblem_def assertScenarioIsPlayable_def
        sample_request_def sample_manifest_def sample_offering_def gamemodeAllowsMap_def
        is_map_identifier_def is_map_name_def map_name_char_def digit_char_def)
  have find: "find (\<lambda>m. gm_id m = mr_gamemode sample_request) (en_gamemodes sample_env) =
      Some sample_manifest"
    by (simp add: sample_env_def sample_manifest_def sample_request_def)
  have front: "findMatchByClientId (cl_keyId sample_caller) (mr_clientMatchId sample_request)
      (w_store sample_start) = None" "assertBodyScopes sample_caller sample_request = None"
    "simPlanProblem sample_request = None"
    "cb_webhookSecretId (mr_callbacks sample_request) \<in> set (cl_webhookSecrets sample_caller)"
    "en_budget_check sample_env h k r c = None" for h k r c
    by (simp_all add: findMatchByClientId_def sample_start_def initial_world_def
        createMemoryMatchStore_def assertBodyScopes_def matchRequestScopes_def sample_request_def
        simPlanProblem_def sample_caller_def sample_env_def)
  have "matches (w_store (after (select_for sample_env sample_request ''create'') sample_start)) = []"
    by (simp add: select_for_def sample_start_def initial_world_def createMemoryMatchStore_def)
  then have "\<exists>v. result (insert_new_match sample_env sample_caller sample_request h)
      (after (select_for sample_env sample_request ''create'') sample_start) = Inr v" for h
    by (simp add: insert_new_match_def randomUUID_def Let_def insertMatch_def findMatch_def
        case_prod_beta)
  then obtain v where "result (insert_new_match sample_env sample_caller sample_request
      (en_requestHash sample_env sample_request))
      (after (select_for sample_env sample_request ''create'') sample_start) = Inr v" by blast
  then show ?thesis
    by (simp add: create_def Let_def case_prod_beta front find sample_selection judged)
qed

theorem create_stores_a_pending_match_witness:
  "\<exists>v. fresh_match (mv_id v) sample_caller sample_request (en_requestHash sample_env sample_request) v
     (after (create sample_env sample_caller sample_request) sample_start)"
  using sample_created create_stores_a_pending_match by metis

lemma command_answers:
  "findMatch mid (w_store w) = Some row \<Longrightarrow> m_keyId row = cl_keyId key \<Longrightarrow>
   Scope_admin \<in> set (cl_scopes key) \<Longrightarrow> \<exists>res. result (command e key mid c) w = Inr res"
  by (cases "Option.bind (findCommand mid (cm_correlationId c) (w_store w)) c_result")
    (simp_all add: command_def require_match_def the_match_def case_prod_beta run_runtimeOf
      split: option.split)

definition sample_after_create :: world where
  "sample_after_create = run sample_env [Op_create sample_caller sample_request] sample_start"

lemma sample_after_create:
  "\<exists>mid row. findMatch mid (w_store sample_after_create) = Some row \<and> m_keyId row = ''k'' \<and>
     m_state row = Pending"
proof -
  obtain v where "result (create sample_env sample_caller sample_request) sample_start = Inr (v, False)"
    using sample_created by blast
  from create_inserts [OF this] obtain w1 where
    w1: "result (insert_new_match sample_env sample_caller sample_request
      (en_requestHash sample_env sample_request)) w1 = Inr v"
      "after (create sample_env sample_caller sample_request) sample_start =
       after (insert_new_match sample_env sample_caller sample_request
         (en_requestHash sample_env sample_request)) w1" by blast
  from insert_new_match_fresh [OF w1(1)] show ?thesis
    unfolding fresh_match_def w1(2) [symmetric]
    by (auto simp: sample_after_create_def ignore_def case_prod_beta sample_caller_def)
qed

theorem command_is_idempotent_witness:
  "\<exists>mid res. result (command sample_env sample_admin mid \<lparr>cm_correlationId = ''x'', cm_body = Cmd_pause\<rparr>)
      sample_after_create = Inr res \<and>
    result (command sample_env sample_admin mid \<lparr>cm_correlationId = ''x'', cm_body = Cmd_unpause\<rparr>)
      (after (command sample_env sample_admin mid \<lparr>cm_correlationId = ''x'', cm_body = Cmd_pause\<rparr>)
        sample_after_create) = Inr res"
proof -
  obtain mid row where "findMatch mid (w_store sample_after_create) = Some row"
    "m_keyId row = cl_keyId sample_admin"
    using sample_after_create by (auto simp: sample_admin_def sample_caller_def)
  then obtain res where res: "result (command sample_env sample_admin mid
      \<lparr>cm_correlationId = ''x'', cm_body = Cmd_pause\<rparr>) sample_after_create = Inr res"
    using command_answers [of mid sample_after_create row sample_admin] by (auto simp: sample_admin_def)
  have "reachable sample_env sample_after_create"
    unfolding sample_after_create_def by (rule sample_reachable)
  from command_is_idempotent [OF this res, of "\<lparr>cm_correlationId = ''x'', cm_body = Cmd_unpause\<rparr>"] res
  show ?thesis by (intro exI [of _ mid] exI [of _ res]) (simp add: sample_admin_def)
qed

subsection \<open>The loss of a live server\<close>

definition losing ::
  "ident \<Rightarrow> event_row list \<Rightarrow> string \<Rightarrow> nat option \<Rightarrow> world \<Rightarrow> bool" where
  "losing mid evs reason round w \<longleftrightarrow>
    (\<exists>row ev. findMatch mid (w_store w) = Some row \<and> m_state row = Recovering \<and>
       events (w_store w) = evs @ [ev] \<and> e_matchId ev = mid \<and>
       e_payload ev = Match_recovering (take 256 reason) round)"

lemma losing_tables: "losing mid evs reason round w \<Longrightarrow> tables w' = tables w \<Longrightarrow> losing mid evs reason round w'"
  by (simp add: losing_def tables_def findMatch_def)

lemma losing_keeps:
  assumes "\<And>T. keeps (\<lambda>w. tables w = T) m"
  shows "keeps (losing mid evs reason round) m"
proof (rule tripleI)
  fix w assume "losing mid evs reason round w"
  then show "losing mid evs reason round (after m w)"
    by (rule losing_tables) (use tripleD [OF assms refl] in blast)
qed

lemma tables_close_current: "keeps (\<lambda>w. tables w = T) (close_current e mid st reason)"
  unfolding close_current_def with_match_def the_match_def
  by (intro triple_intros tables_primitives tables_closeRow)

lemma tables_presenceFrame: "keeps (\<lambda>w. tables w = T) (presenceFrame row)"
  unfolding presenceFrame_def by (intro triple_intros tables_primitives)

lemma recovering_announced:
  assumes row: "findMatch mid (w_store w) = Some row"
  shows "losing mid (events (w_store w)) reason round
    (after (do { emit e mid (Match_recovering (take 256 reason) round) []; setState mid Recovering [] }) w)"
proof -
  let ?w = "after (emit e mid (Match_recovering (take 256 reason) round) []) w"
  obtain ev where ev: "e_matchId ev = mid" "e_payload ev = Match_recovering (take 256 reason) round"
    "events (w_store ?w) = events (w_store w) @ [ev]"
    using emit_tables [OF row, of "Match_recovering (take 256 reason) round" e "[]"] by blast
  obtain row1 where row1: "findMatch mid (w_store ?w) = Some row1"
    using emit_find [OF row, of mid] by simp
  obtain s' where s': "updateMatch mid [Set_state Recovering, Set_stateChangedAt (w_now ?w),
      Set_updatedAt (w_now ?w)] (w_store ?w) = Some s'"
    using match_rows.patch_present [OF row1] by blast
  have "findMatch mid s' = Some (apply_match_patch [Set_state Recovering, Set_stateChangedAt (w_now ?w),
      Set_updatedAt (w_now ?w)] row1)"
    using match_rows.lookup_patched [OF s', of mid] row1 by simp
  moreover have "events s' = events (w_store ?w)" using updateMatch_frame [OF s'] by simp
  ultimately show ?thesis
    using ev s' by (auto simp: losing_def run_simps setState_def store_updateMatch_def on_store_opt_def
        simp del: run_state_bind)
qed

definition recovery_open :: "env \<Rightarrow> ident \<Rightarrow> nat \<times> nat \<Rightarrow> world \<Rightarrow> bool" where
  "recovery_open e mid point w \<longleftrightarrow>
    (\<exists>row rt. findMatch mid (w_store w) = Some row \<and> m_state row = Recovering \<and>
       w_runtimes w mid = Some rt \<and> rt_restoring rt = Some point \<and> rt_recovering rt \<and>
       rt_timers rt T_recovery = Some (m_stateChangedAt row + int (dl_recoveryMs (en_deadlines e))))"

lemma recovery_armed:
  assumes "losing mid evs reason round w"
  shows "recovery_open e mid (point_of b) (after (with_match mid () (\<lambda>row. do {
     armRecovery e row;
     on_runtime row (\<lambda>rt. rt\<lparr>rt_restoring := Some (b_mapNumber b, b_roundNumber b)\<rparr>);
     kickRecovery row })) w)"
proof -
  obtain row where row: "findMatch mid (w_store w) = Some row" "m_state row = Recovering"
    using assms by (auto simp: losing_def)
  have mid: "m_id row = mid" by (rule findMatch_id [OF row(1)])
  show ?thesis
    using row mid
    by (auto simp: recovery_open_def run_with_match armRecovery_def setTimer_def run_on_runtime
        kickRecovery_def run_runtimeOf enqueue_step_def point_of_def split: option.split)
qed

text \<open>C28: A live match that loses its server says so in its log and goes to Recovering when a round
  backup exists, aiming at the newest backup, with a replacement walk under way and the recovery
  window armed from the moment of the loss; without a backup it fails with \<open>server_lost\<close>.\<close>

theorem live_loss_recovers_or_fails:
  assumes row: "findMatch mid (w_store w) = Some row" "m_state row = Live"
  shows "case latestBackup mid (w_store w) of
      Some b \<Rightarrow> recovery_open e mid (point_of b) (after (lost e mid reason) w) \<and>
        losing mid (events (w_store w)) reason (Some (b_roundNumber b)) (after (lost e mid reason) w)
    | None \<Rightarrow> \<exists>row' ev. ended_as mid row' (events (w_store w) @ [ev]) Failed
        \<lparr>er_kind = Server_lost, er_detail = Some ''no backup to restore from''\<rparr> (after (lost e mid reason) w) \<and>
        e_payload ev = Match_recovering (take 256 reason) None"
proof -
  let ?backup = "latestBackup mid (w_store w)"
  let ?round = "map_option b_roundNumber ?backup"
  let ?evs = "events (w_store w)"
  let ?L = "losing mid ?evs reason ?round"
  let ?w0 = "after (do { cancelTimer mid T_heartbeat;
    on_runtime row (\<lambda>rt. rt\<lparr>rt_replacementReady := False, rt_resumePending := None\<rparr>) }) w"
  have w0: "w_store ?w0 = w_store w"
    by (simp add: cancelTimer_def on_runtime_if_any_def run_on_runtime)
  define rest where "rest = (case ?backup of
         None \<Rightarrow> fail_match e mid Server_lost ''no backup to restore from''
       | Some b \<Rightarrow> with_match mid () (\<lambda>row. do {
           armRecovery e row;
           on_runtime row (\<lambda>rt. rt\<lparr>rt_restoring := Some (b_mapNumber b, b_roundNumber b)\<rparr>);
           kickRecovery row
         }))"
  define tail where "tail = do {
       close_current e mid Fs_failed (''server lost: '' @ reason);
       on_runtime row (\<lambda>rt. rt\<lparr>rt_presence := []\<rparr>);
       presenceFrame row;
       rest }"
  have body: "after (lost e mid reason) w = after (do {
      emit e mid (Match_recovering (take 256 reason) ?round) []; setState mid Recovering []; tail }) ?w0"
    using row w0 by (simp add: lost_def run_with_match run_simps tail_def rest_def del: run_state_bind)
  have "?L (after (do { emit e mid (Match_recovering (take 256 reason) ?round) [];
      setState mid Recovering [] }) ?w0)"
    using recovering_announced [of mid ?w0 row reason ?round e] row w0 by simp
  moreover have "triple ?L tail (\<lambda>_ v. \<exists>u. ?L u \<and> v = after rest u)"
    unfolding tail_def
    by (intro keeps_bind losing_keeps tables_close_current tables_primitives tables_presenceFrame)
      (auto simp: triple_def)
  ultimately obtain u where u: "?L u" "after (lost e mid reason) w = after rest u"
    unfolding body by (auto simp: run_simps triple_def simp del: run_state_bind)
  show ?thesis
  proof (cases ?backup)
    case None
    obtain row' ev where row': "findMatch mid (w_store u) = Some row'" "m_state row' = Recovering"
      and ev: "events (w_store u) = ?evs @ [ev]" "e_payload ev = Match_recovering (take 256 reason) None"
      using u(1) None by (auto simp: losing_def)
    from fail_match_ends [OF row'(1), of Server_lost "''no backup to restore from''" e] row'(2) ev None u(2)
    show ?thesis by (auto simp: rest_def)
  next
    case (Some b)
    have "keeps ?L rest"
      unfolding rest_def Some option.case with_match_def the_match_def
      by (intro triple_intros losing_keeps tables_primitives tables_timers)
    then have "?L (after rest u)" using u(1) by (simp add: triple_def)
    moreover have "recovery_open e mid (point_of b) (after rest u)"
      using recovery_armed [OF u(1)] Some by (simp add: rest_def)
    ultimately show ?thesis using u(2) Some by simp
  qed
qed

theorem live_loss_recovers_or_fails_witness:
  "recovery_open sample_env ''m'' (1, 3)
     (after (lost sample_env ''m'' ''gone'') (sample_world Live [sample_backup 2, sample_backup 3]))"
proof -
  have "latestBackup ''m'' (w_store (sample_world Live [sample_backup 2, sample_backup 3])) =
      Some (sample_backup 3)"
    by (simp add: latestBackup_def listBackups_def sample_backup_def newest_round_def)
  with live_loss_recovers_or_fails [of "''m''" "sample_world Live [sample_backup 2, sample_backup 3]"
      "sample_row Live" sample_env "''gone''"]
  show ?thesis by (simp add: point_of_def sample_backup_def)
qed

subsection \<open>A live rewind\<close>

lemma decide_restore_live:
  assumes "m_state row = Live"
  shows "after (decide_restore e row c n) w = w \<and>
    (case result (decide_restore e row c n) w of
       Answered r \<Rightarrow> cr_status r = St_rejected
     | Relay body rewound \<Rightarrow> \<exists>b newest. rewound = Some b \<and> body = Cmd_restore (Some (b_roundNumber b)) \<and>
         b \<in> set (listBackups (m_id row) (w_store w)) \<and>
         latestBackup (m_id row) (w_store w) = Some newest \<and> b_mapNumber b = b_mapNumber newest \<and>
         (case n of None \<Rightarrow> b = newest | Some k \<Rightarrow> b_roundNumber b = k))"
  using assms
  by (auto simp: decide_restore_def Let_def latestBackup_def rejected_def answer_def
      split: option.splits list.splits dest!: find_SomeD)

text \<open>A round restored on the live server (an applied \<open>restore\<close>) was a stored backup of the map
  being played, the one asked for or the newest; the server was told that round; and the backups
  of the rounds it undid are gone, so that a later recovery restores that round too.\<close>

theorem live_restore_rewinds_the_backups:
  assumes live: "m_state row = Live" and body: "cm_body c = Cmd_restore n"
    and applied: "cr_status (result (applyCommand e row c) w) = St_applied"
  shows "\<exists>b newest ref kept.
    latestBackup (m_id row) (w_store w) = Some newest \<and>
    b \<in> set (listBackups (m_id row) (w_store w)) \<and> b_mapNumber b = b_mapNumber newest \<and>
    (case n of None \<Rightarrow> b = newest | Some k \<Rightarrow> b_roundNumber b = k) \<and>
    Eff_send ref (c\<lparr>cm_body := Cmd_restore (Some (b_roundNumber b))\<rparr>) \<in>
      set (w_trace (after (applyCommand e row c) w)) \<and>
    latestBackup (m_id row) (w_store (after (applyCommand e row c) w)) = Some kept \<and>
    point_of kept = point_of b"
proof -
  let ?w1 = "after (runtimeOf row) w"
  have w1: "w_store ?w1 = w_store w" by (simp add: run_runtimeOf split: option.split)
  note dec = decide_restore_live [OF live, of e c n ?w1, unfolded w1]
  obtain b newest where relay: "result (decide_restore e row c n) ?w1 =
      Relay (Cmd_restore (Some (b_roundNumber b))) (Some b)"
    and b: "b \<in> set (listBackups (m_id row) (w_store w))"
      "latestBackup (m_id row) (w_store w) = Some newest" "b_mapNumber b = b_mapNumber newest"
      "case n of None \<Rightarrow> b = newest | Some k \<Rightarrow> b_roundNumber b = k"
    using applied dec live body
    by (cases "result (decide_restore e row c n) ?w1")
      (auto simp: applyCommand_def case_prod_beta)
  have run: "run_state (applyCommand e row c) w =
      run_state (relay_command e row c (Cmd_restore (Some (b_roundNumber b))) (Some b)) ?w1"
    using live body dec relay by (simp add: applyCommand_def case_prod_beta)
  have "w_store (after (applyCommand e row c) w) =
      dropBackupsAfter (m_id row) (b_mapNumber b) (b_roundNumber b) (w_store w) \<and>
    (\<exists>ref. Eff_send ref (c\<lparr>cm_body := Cmd_restore (Some (b_roundNumber b))\<rparr>) \<in>
      set (w_trace (after (applyCommand e row c) w)))"
    using applied body w1 unfolding run
    by (auto simp: relay_command_def Let_def rejected_def answer_def split: option.splits sum.splits
        prod.splits if_splits)
  then obtain ref where sent: "w_store (after (applyCommand e row c) w) =
      dropBackupsAfter (m_id row) (b_mapNumber b) (b_roundNumber b) (w_store w)"
    "Eff_send ref (c\<lparr>cm_body := Cmd_restore (Some (b_roundNumber b))\<rparr>) \<in>
      set (w_trace (after (applyCommand e row c) w))" by blast
  obtain kept rest where "listBackups (m_id row) (w_store (after (applyCommand e row c) w)) = kept # rest"
    "point_of kept = point_of b"
    using match_backups.cut_newest [OF b(1)] unfolding sent(1) by (auto simp: point_of_def)
  then show ?thesis
    using b sent(2) by (intro exI [of _ b] exI [of _ newest] exI [of _ ref] exI [of _ kept])
      (simp add: latestBackup_def [of _ "w_store (after (applyCommand e row c) w)"])
qed

theorem live_restore_rewinds_the_backups_witness:
  "\<exists>kept. latestBackup ''m'' (w_store (after (applyCommand sample_env (sample_row Live)
       \<lparr>cm_correlationId = ''x'', cm_body = Cmd_restore (Some 2)\<rparr>)
       (sample_world Live [sample_backup 2, sample_backup 3]))) = Some kept \<and> point_of kept = (1, 2)"
proof -
  let ?c = "\<lparr>cm_correlationId = ''x'', cm_body = Cmd_restore (Some 2)\<rparr>"
  let ?w = "sample_world Live [sample_backup 2, sample_backup 3]"
  have bs: "listBackups ''m'' (w_store ?w) = [sample_backup 3, sample_backup 2]"
    by (simp add: listBackups_def sample_backup_def newest_round_def)
  have "cr_status (result (applyCommand sample_env (sample_row Live) ?c) ?w) = St_applied"
    using bs by (simp add: applyCommand_def run_runtimeOf decide_restore_def relay_command_def answer_def
        case_prod_beta sample_backup_def sample_env_def sample_world_def initial_world_def
        createMemoryMatchStore_def listBackups_def newest_round_def)
  from live_restore_rewinds_the_backups [OF _ _ this, of "Some 2"] bs show ?thesis
    by (auto simp: point_of_def sample_backup_def latestBackup_def)
qed

end
