(* ===== verification/Machine_Walk.thy ===== *)
theory Machine_Walk
  imports Machine_Behaviour
begin

text \<open>
  The provisioning walk: what a candidate that was tried leaves in the ledger, and what a whole
  walk leaves. \<open>last_row\<close> follows the row of the candidate being tried, which is the last one of
  the ledger, through the steps of \<open>try_candidate\<close>.
\<close>

definition last_row ::
  "server_row list \<Rightarrow> ident \<Rightarrow> nat \<Rightarrow> (server_row \<Rightarrow> bool) \<Rightarrow> world \<Rightarrow> bool" where
  "last_row pre fid n P w \<longleftrightarrow>
    (\<exists>srv. servers (w_store w) = pre @ [srv] \<and> s_id srv = fid \<and> P srv) \<and> n \<le> w_fresh w"

lemma last_row_same:
  "last_row pre fid n P w \<Longrightarrow> servers (w_store w') = servers (w_store w) \<Longrightarrow> w_fresh w \<le> w_fresh w' \<Longrightarrow>
   last_row pre fid n P w'"
  by (auto simp: last_row_def)

lemma emit_fresh: "w_fresh w \<le> w_fresh (after (emit e mid pl p) w)"
proof (cases "findMatch mid (w_store w)")
  case None
  then show ?thesis by (simp add: emit_unknown)
next
  case (Some row)
  show ?thesis
    by (auto simp: emit_def randomUUID_def store_appendEvent_def with_match_def the_match_def
        case_prod_beta split: option.split)
qed

lemma emit_servers: "servers (w_store (after (emit e mid pl p) w)) = servers (w_store w)"
proof (cases "findMatch mid (w_store w)")
  case None
  then show ?thesis by (simp add: emit_unknown)
next
  case (Some row)
  from emit_tables [OF Some, of pl e p] show ?thesis by blast
qed

lemma last_row_updateMatch: "keeps (last_row pre fid n P) (store_updateMatch mid p)"
proof (rule tripleI)
  fix w assume w: "last_row pre fid n P w"
  show "last_row pre fid n P (after (store_updateMatch mid p) w)"
  proof (rule last_row_same [OF w])
    show "servers (w_store (after (store_updateMatch mid p) w)) = servers (w_store w)"
      by (auto simp: store_updateMatch_def on_store_opt_def dest: updateMatch_frame split: option.split)
  qed (simp add: store_updateMatch_def on_store_opt_def)
qed

lemma last_row_steps:
  "keeps (last_row pre fid n P) now" "keeps (last_row pre fid n P) (perform eff)"
  "keeps (last_row pre fid n P) (call e eff2 ans)" "keeps (last_row pre fid n P) (mintSecret e)"
  "keeps (last_row pre fid n P) (randomUUID e)"
  "keeps (last_row pre fid n P) (emit e mid pl p2)" "keeps (last_row pre fid n P) (set_attribution ref mid)"
  "keeps (last_row pre fid n P) (forget_attribution ref)"
  "keeps (last_row pre fid n P) (on_store (insertServerToken t))"
  by (auto simp: triple_def mintSecret_def randomUUID_def emit_servers
      set_attribution_def forget_attribution_def insertServerToken_def
      intro: last_row_same emit_fresh)

lemmas row_steps = last_row_steps last_row_updateMatch

lemma last_row_configure:
  "keeps (last_row pre fid n P) (configure_and_start e mid f provider a restore)"
  unfolding configure_and_start_def by (intro triple_intros row_steps)

lemma last_row_insert:
  "triple (\<lambda>w. servers (w_store w) = pre \<and> n \<le> w_fresh w) (store_insertServer srv)
     (\<lambda>_. last_row pre (s_id srv) n (\<lambda>s. s_releasedAt s = s_releasedAt srv))"
  by (auto simp: triple_def store_insertServer_def insertServer_def last_row_def)

lemma update_last:
  "\<forall>x \<in> set pre. \<not> Q x \<Longrightarrow> Q y \<Longrightarrow> update_first Q f (pre @ [y]) = pre @ [f y]"
  by (induction pre) auto

lemma last_row_update:
  assumes "fid \<notin> s_id ` set pre"
  shows "triple (last_row pre fid n (\<lambda>s. P (apply_server_patch p s))) (store_updateServer fid p)
    (\<lambda>_. last_row pre fid n P)"
proof (rule tripleI)
  fix w assume w: "last_row pre fid n (\<lambda>s. P (apply_server_patch p s)) w"
  then obtain srv where srv: "servers (w_store w) = pre @ [srv]" "s_id srv = fid"
    "P (apply_server_patch p srv)" by (auto simp: last_row_def)
  have pre: "\<forall>x \<in> set pre. s_id x \<noteq> fid" using assms by auto
  have "update_first (\<lambda>r. s_id r = fid) (apply_server_patch p) (pre @ [srv]) =
      pre @ [apply_server_patch p srv]"
    by (rule update_last) (use pre srv in auto)
  moreover have "findServer fid (w_store w) \<noteq> None"
    using srv by (auto simp: findServer_def find_None_iff)
  ultimately show "last_row pre fid n P (after (store_updateServer fid p) w)"
    using w srv by (auto simp: last_row_def store_updateServer_def on_store_opt_def updateServer_def)
qed

definition closed_row :: "server_row \<Rightarrow> bool" where
  "closed_row s \<longleftrightarrow> s_state s = Fs_failed \<and> s_releasedAt s \<noteq> None \<and> s_lastError s \<noteq> None"

definition configured_row :: "server_row \<Rightarrow> bool" where
  "configured_row s \<longleftrightarrow> s_state s = Fs_configured \<and> s_releasedAt s = None \<and> s_serverId s \<noteq> None"

lemma candidate_row:
  assumes "en_uuid e n \<notin> s_id ` set pre"
  shows "triple (\<lambda>w. servers (w_store w) = pre \<and> w_fresh w = n) (try_candidate e row restore c)
    (\<lambda>found. last_row pre (en_uuid e n) (Suc n) (if found then configured_row else closed_row))"
proof -
  let ?fid = "en_uuid e n"
  let ?Q = "\<lambda>found. last_row pre ?fid (Suc n) (if found then configured_row else closed_row)"
  have start: "triple (\<lambda>w. servers (w_store w) = pre \<and> w_fresh w = n) (randomUUID e)
      (\<lambda>f w. f = ?fid \<and> servers (w_store w) = pre \<and> Suc n \<le> w_fresh w)"
    by (simp add: triple_def randomUUID_def)
  have failed: "triple (last_row pre ?fid (Suc n) P) (do {
       t \<leftarrow> now;
       store_updateServer ?fid [Srv_state Fs_failed, Srv_lastError (Some err), Srv_releasedAt (Some t),
         Srv_releasedReason (Some why)];
       State_Monad.return False }) ?Q" for P err why
    apply (rule keeps_bind, rule row_steps)
    apply (rule triple_bind)
     apply (rule triple_pre [OF last_row_update [OF assms, of _ closed_row]])
     apply (auto simp: last_row_def closed_row_def triple_def)
    done
  have ready: "triple (last_row pre ?fid (Suc n) (\<lambda>s. s_releasedAt s = None \<and> s_serverId s \<noteq> None))
      (do { store_updateServer ?fid [Srv_state Fs_configured]; State_Monad.return True }) ?Q"
    apply (rule triple_bind)
     apply (rule triple_pre [OF last_row_update [OF assms, of _ configured_row]])
     apply (auto simp: last_row_def configured_row_def triple_def)
    done
  have handed: "triple (last_row pre ?fid (Suc n) (\<lambda>s. s_releasedAt s = None))
      (store_updateServer ?fid [Srv_serverId (Some sid), Srv_nodeId nd, Srv_address ad, Srv_tv tv])
      (\<lambda>_. last_row pre ?fid (Suc n) (\<lambda>s. s_releasedAt s = None \<and> s_serverId s \<noteq> None))" for sid nd ad tv
    by (rule triple_pre [OF last_row_update [OF assms]]) (auto simp: last_row_def)
  have inserted: "triple (\<lambda>w. servers (w_store w) = pre \<and> Suc n \<le> w_fresh w)
      (store_insertServer (ledger_row row c ?fid at))
      (\<lambda>_. last_row pre ?fid (Suc n) (\<lambda>s. s_releasedAt s = None))" for at
    using last_row_insert [of pre "Suc n" "ledger_row row c ?fid at"] by (simp add: ledger_row_def)
  have facts: "(b \<Longrightarrow> triple P m Q) \<Longrightarrow> triple (\<lambda>w. b \<and> P w) m Q" for b P m Q
    by (simp add: triple_def)
  show ?thesis
    unfolding try_candidate_def Let_def
    apply (rule triple_bind [OF start])
    apply (rule facts, hypsubst)
    apply (rule keeps_bind, simp add: triple_def)
    apply (rule triple_bind [OF inserted])
    apply (rule keeps_bind, rule row_steps)
    apply (rule keeps_bind, rule row_steps)
    apply (rule keeps_bind, rule row_steps)
    apply (rule triple_sum)
     apply (rule failed)
    apply (rule keeps_bind, rule row_steps)
    apply (rule triple_bind [OF handed])
    apply (rule keeps_bind, rule row_steps)
    apply (rule keeps_bind, rule row_steps)
    apply (rule keeps_bind, rule row_steps)
    apply (rule keeps_bind, rule last_row_configure)
    apply (rule triple_sum)
     apply (unfold deallocateQuietly_def)
     apply (rule keeps_bind, rule row_steps)
     apply (rule keeps_bind, rule row_steps)
     apply (rule keeps_bind, rule row_steps)
     apply (rule failed)
    apply (rule ready)
    done
qed

definition ids_drawn :: "env \<Rightarrow> world \<Rightarrow> bool" where
  "ids_drawn e w \<longleftrightarrow> (\<forall>srv \<in> set (servers (w_store w)). \<exists>k < w_fresh w. s_id srv = en_uuid e k)"

text \<open>C29: A provisioning walk keeps its books: every candidate it tried has a ledger row, the rows of
  the candidates that failed are closed with the provider's error, and only when the walk found a
  server does it leave one row open, the last, which is configured and names the server. Identifiers
  are taken to be drawn without repetition, as \<open>randomUUID\<close> does.\<close>

theorem walk_leaves_one_row_or_none:
  assumes ids: "inj (en_uuid e)" and drawn: "ids_drawn e w"
  shows "\<exists>tried. servers (w_store (after (walk_candidates e row until restore cs) w)) =
      servers (w_store w) @ tried \<and> length tried \<le> length cs \<and>
    (if result (walk_candidates e row until restore cs) w
     then tried \<noteq> [] \<and> configured_row (last tried) \<and> list_all closed_row (butlast tried)
     else list_all closed_row tried)"
  using drawn
proof (induction cs arbitrary: w)
  case Nil
  then show ?case by simp
next
  case (Cons c cs)
  show ?case
  proof (cases "w_now w \<ge> until")
    case True
    then show ?thesis by simp
  next
    case False
    let ?fid = "en_uuid e (w_fresh w)" and ?attempt = "try_candidate e row restore c"
    have "?fid \<notin> s_id ` set (servers (w_store w))"
      using Cons.prems ids by (auto simp: ids_drawn_def dest!: bspec dest: injD)
    from tripleD [OF candidate_row [OF this], of w row restore c]
    obtain srv where srv: "servers (w_store (after ?attempt w)) = servers (w_store w) @ [srv]"
        "s_id srv = ?fid" "(if result ?attempt w then configured_row else closed_row) srv"
      and fresh: "Suc (w_fresh w) \<le> w_fresh (after ?attempt w)"
      by (auto simp: last_row_def)
    show ?thesis
    proof (cases "result ?attempt w")
      case True
      with False srv show ?thesis by (simp add: case_prod_beta)
    next
      case unfound: False
      have "ids_drawn e (after ?attempt w)"
        unfolding ids_drawn_def
      proof
        fix x assume "x \<in> set (servers (w_store (after ?attempt w)))"
        then consider "x \<in> set (servers (w_store w))" | "s_id x = ?fid" using srv(1,2) by auto
        then show "\<exists>k < w_fresh (after ?attempt w). s_id x = en_uuid e k"
        proof cases
          case 1
          then obtain k where "k < w_fresh w" "s_id x = en_uuid e k"
            using Cons.prems unfolding ids_drawn_def by blast
          with fresh show ?thesis by (intro exI [of _ k]) simp
        next
          case 2
          with fresh show ?thesis by (intro exI [of _ "w_fresh w"]) simp
        qed
      qed
      from Cons.IH [OF this] obtain tried where
        "servers (w_store (after (walk_candidates e row until restore cs) (after ?attempt w))) =
          servers (w_store (after ?attempt w)) @ tried"
        "length tried \<le> length cs"
        "if result (walk_candidates e row until restore cs) (after ?attempt w)
         then tried \<noteq> [] \<and> configured_row (last tried) \<and> list_all closed_row (butlast tried)
         else list_all closed_row tried" by blast
      with False srv unfound show ?thesis
        by (intro exI [of _ "srv # tried"]) (simp add: case_prod_beta)
    qed
  qed
qed

theorem walk_leaves_one_row_or_none_witness:
  "\<exists>tried. servers (w_store (after (walk_candidates sample_env (sample_row Allocating) 1000 None
      [sample_candidate, sample_candidate]) sample_start)) = tried \<and> length tried \<le> 2"
proof -
  have "inj (en_uuid sample_env)"
    by (auto simp: inj_def sample_env_def dest: arg_cong [of _ _ length])
  moreover have "ids_drawn sample_env sample_start"
    by (simp add: ids_drawn_def sample_start_def initial_world_def createMemoryMatchStore_def)
  ultimately show ?thesis
    using walk_leaves_one_row_or_none [of sample_env sample_start "sample_row Allocating" 1000 None
      "[sample_candidate, sample_candidate]"]
    by (auto simp: sample_start_def initial_world_def createMemoryMatchStore_def)
qed

subsection \<open>The replacement\<close>

definition sign_of_play :: "event_body \<Rightarrow> bool" where
  "sign_of_play body = (case body of
     Going_live _ _ _ \<Rightarrow> True | Round_end _ \<Rightarrow> True
   | Plugin_event name \<Rightarrow> name = BACKUP_RESTORED_EVENT | _ \<Rightarrow> False)"

lemma on_runtime_tables [simp]: "tables (after (on_runtime row f) w) = tables w"
  by (simp add: run_on_runtime tables_def)

text \<open>While a match recovers, play on the replacement (going live, a round ending, the plugin's
  restore) does not end the recovery before the replacement said it is ready: nothing is logged,
  the match stays as it is, and the sign is remembered for the moment it is.\<close>

theorem play_waits_for_the_replacement:
  assumes row: "findMatch mid (w_store w) = Some row" "m_state row = Recovering"
      "m_fleetServerId row = Some fid"
    and rt: "w_runtimes w mid = Some rt" "\<not> rt_replacementReady rt"
    and body: "sign_of_play body"
  shows "tables (after (dispatch_event e mid source body) w) = tables w \<and>
    (\<exists>rt' sign. w_runtimes (after (dispatch_event e mid source body) w) mid = Some rt' \<and>
       rt_resumePending rt' = Some sign \<and> \<not> rt_replacementReady rt')"
proof -
  have mid: "m_id row = mid" by (rule findMatch_id [OF row(1)])
  show ?thesis
  proof (cases body)
    case (Going_live n g f)
    then show ?thesis
      using row rt mid
      by (simp add: completes_def on_going_live_def resumed_def run_with_match run_runtimeOf run_on_runtime
          with_match_def the_match_def tables_def)
  qed (use row rt mid body in \<open>auto simp: sign_of_play_def completes_def recovering_sign_def resumed_def
        run_with_match run_runtimeOf run_on_runtime with_match_def the_match_def tables_def
        BACKUP_RESTORED_EVENT_def\<close>)
qed

theorem play_waits_for_the_replacement_witness:
  "tables (after (dispatch_event sample_env ''m'' (''p'', ''s1'') (Round_end 3))
     ((sample_world Recovering [])\<lparr>w_runtimes := (\<lambda>_. None)(''m'' := Some (new_runtime (sample_row Recovering)))\<rparr>)) =
   tables (sample_world Recovering [])"
  using play_waits_for_the_replacement [of "''m''"
      "(sample_world Recovering [])\<lparr>w_runtimes := (\<lambda>_. None)(''m'' := Some (new_runtime (sample_row Recovering)))\<rparr>"
      "sample_row Recovering" "''f''" "new_runtime (sample_row Recovering)" "Round_end 3" sample_env "(''p'', ''s1'')"]
  by (simp add: new_runtime_def sign_of_play_def tables_def)

text \<open>Once the replacement is ready, the first sign of play ends the recovery: the join and
  recovery windows are disarmed, \<open>match.recovered\<close> with the restored round is appended to the log
  and the match is live again.\<close>

theorem play_on_a_ready_replacement_recovers:
  assumes row: "findMatch mid (w_store w) = Some row" "m_state row = Recovering"
      "m_fleetServerId row = Some fid"
    and rt: "w_runtimes w mid = Some rt" "rt_replacementReady rt"
  shows "\<exists>row' ev. findMatch mid (w_store (after (resumed e mid source sign) w)) = Some row' \<and>
    m_state row' = Live \<and>
    events (w_store (after (resumed e mid source sign) w)) = events (w_store w) @ [ev] \<and>
    e_matchId ev = mid \<and>
    e_payload ev = Match_recovered (snd source) fid (map_option snd (rt_restoring rt)) \<and>
    \<not> armed (after (resumed e mid source sign) w) mid T_join \<and>
    \<not> armed (after (resumed e mid source sign) w) mid T_recovery"
proof -
  have mid: "m_id row = mid" by (rule findMatch_id [OF row(1)])
  let ?rt = "rt\<lparr>rt_timers := (rt_timers rt)(T_join := None, T_recovery := None), rt_resumePending := None\<rparr>"
  let ?w0 = "w\<lparr>w_runtimes := (w_runtimes w)(mid := Some ?rt)\<rparr>"
  let ?pl = "Match_recovered (snd source) fid (map_option snd (rt_restoring rt))"
  let ?w1 = "after (emit e mid ?pl []) ?w0"
  have row0: "findMatch mid (w_store ?w0) = Some row" using row by simp
  obtain ev where ev: "e_matchId ev = mid" "e_payload ev = ?pl"
      "events (w_store ?w1) = events (w_store w) @ [ev]"
    and rts: "w_runtimes ?w1 = (w_runtimes w)(mid := Some ?rt)"
    using emit_tables [OF row0, of ?pl e "[]"] by auto
  obtain row1 where row1: "findMatch mid (w_store ?w1) = Some row1"
    using emit_find [OF row0, of mid] by simp
  let ?p = "[Set_state Live, Set_stateChangedAt (w_now ?w1), Set_updatedAt (w_now ?w1)]"
  obtain s' where s': "updateMatch mid ?p (w_store ?w1) = Some s'"
    using match_rows.patch_present [OF row1] by blast
  have run: "after (resumed e mid source sign) w =
      ?w1\<lparr>w_runtimes := (w_runtimes w)(mid := Some (?rt\<lparr>rt_restoring := None\<rparr>)), w_store := s'\<rparr>"
    using row rt mid rts s'
    by (simp add: resumed_def run_with_match run_runtimeOf run_on_runtime cancelTimer_def
        on_runtime_if_any_def setState_def store_updateMatch_def on_store_opt_def case_prod_beta
        fun_upd_twist)
  show ?thesis
    unfolding run using ev match_rows.lookup_patched [OF s', of mid] row1 updateMatch_frame [OF s']
    by (simp add: armed_def)
qed

theorem play_on_a_ready_replacement_recovers_witness:
  "\<exists>row'. findMatch ''m'' (w_store (after (resumed sample_env ''m'' (''p'', ''s1'') ''play'')
      ((sample_world Recovering [])\<lparr>w_runtimes := (\<lambda>_. None)(''m'' :=
         Some ((new_runtime (sample_row Recovering))\<lparr>rt_replacementReady := True\<rparr>))\<rparr>))) = Some row' \<and>
    m_state row' = Live"
  using play_on_a_ready_replacement_recovers [of "''m''"
      "(sample_world Recovering [])\<lparr>w_runtimes := (\<lambda>_. None)(''m'' :=
         Some ((new_runtime (sample_row Recovering))\<lparr>rt_replacementReady := True\<rparr>))\<rparr>"
      "sample_row Recovering" "''f''" "(new_runtime (sample_row Recovering))\<lparr>rt_replacementReady := True\<rparr>"
      sample_env "(''p'', ''s1'')" "''play''"]
  by auto

subsection \<open>What the code does at its edges\<close>

text \<open>A fact of the fleet that was accepted while the match was open, and whose step runs behind the
  end of the match, is still appended to the log.\<close>

lemma fact_after_the_end:
  assumes "findMatch mid (w_store w) = Some row" and "isTerminalMatchState (m_state row)"
  shows "\<exists>ev. events (w_store (after (run_step e mid (Step_emit pl)) w)) = events (w_store w) @ [ev] \<and>
    e_matchId ev = mid \<and> e_payload ev = pl"
  using emit_tables [OF assms(1), of pl e "[]"] by (auto simp: run_step_def)

text \<open>When the provider rejects the address question at \<open>server_ready\<close>, the step throws: the event is
  in the log already, the match stays Configuring, and its boot deadline is disarmed.\<close>

lemma server_ready_may_strand:
  assumes row: "findMatch mid (w_store w) = Some row" "m_state row = Configuring"
      "m_provider row = Some p" "m_serverId row = Some sid" "m_fleetServerId row = Some fid"
    and srv: "findServer fid (w_store w) = Some srv" "s_address srv = None"
    and known: "entry_of p (w_registry w) \<noteq> None"
    and rejects: "\<And>h. \<exists>err. en_status e h (p, sid) = Inl err"
  shows "\<not> result (on_server_ready e mid source) w \<and>
    w_store (after (on_server_ready e mid source) w) = w_store w \<and>
    \<not> armed (after (on_server_ready e mid source) w) mid T_boot"
proof -
  obtain err where err: "en_status e (w_trace w) (p, sid) = Inl err" using rejects by blast
  let ?w0 = "after (cancelTimer mid T_boot) w"
  have w0: "w_store ?w0 = w_store w" "w_registry ?w0 = w_registry w" "w_trace ?w0 = w_trace w"
    "\<not> armed ?w0 mid T_boot"
    by (simp_all add: cancelTimer_def on_runtime_if_any_def armed_def split: option.split)
  have facts: "run_state (connect_facts e row (Some srv)) ?w0 =
      (None, ?w0\<lparr>w_trace := Eff_status (p, sid) # w_trace w,
                 w_now := w_now ?w0 + int (en_latency e (w_trace w))\<rparr>)"
    using row srv known err w0 by (simp add: connect_facts_def registered_def)
  have "run_state (on_server_ready e mid source) w =
      (False, ?w0\<lparr>w_trace := Eff_status (p, sid) # w_trace w,
                  w_now := w_now ?w0 + int (en_latency e (w_trace w))\<rparr>)"
    using row srv w0 facts
    by (simp add: on_server_ready_def run_with_match currentServer_def case_prod_beta)
  then show ?thesis using w0 by (simp add: armed_def)
qed

end
