(* ===== verification/Link.thy ===== *)
theory Link
  imports Sample_Run
begin

text \<open>
  The server link, \<open>apps/orchestrator/src/link/server-link.ts\<close> and the registry of
  \<open>link/channels.ts\<close>: the sockets servers dial, their sessions, and what crosses them, on top of the
  machine's world.

  \<^item> A socket is a number; \<open>si_sockets\<close> holds its ready state, its inbound chain and the variable
    \<open>session\<close> of \<open>open\<close>; \<open>si_made\<close> holds the closure of \<open>createSession\<close>, one per socket at most.
  \<^item> A frame handled on a chain is one step. A greeting is three, because it awaits the store and the
    machine on the way: other sockets, timers and the socket's own close come in between.
  \<^item> What leaves the link (frames, closes, settled requests) is a trace, of this process's life.
  \<^item> Frames arrive parsed (the schemas are a library), as \<open>Frame\<close> or as what the parser found
    wrong. Fields that only travel through the link are left out; log lines and the recorder too.
\<close>

subsection \<open>Frames\<close>

record hello =
  he_token :: string
  he_plugins :: "string list"
  he_map :: string
  he_state :: string
  he_matchId :: "ident option"
  he_lastSeq :: nat

record widget_push =
  wp_name :: string
  wp_data :: string                \<comment> \<open>as serialized\<close>

datatype server_frame =
    Fr_hello hello
  | Fr_heartbeat string string               \<comment> \<open>state, map\<close>
  | Fr_state string "string option"          \<comment> \<open>state, detail\<close>
  | Fr_events "(nat \<times> gameserver_event) list"
  | Fr_command_result string command_status "api_error_code option"
  | Fr_backup ident round_backup
  | Fr_console "string option" nat "string list"
  | Fr_player_command_result string tap_outcome
  | Fr_widget_push ident string widget_push

datatype incoming = Not_json | Other_protocol | Not_a_frame | Frame server_frame

datatype link_command = Relayed match_command | Ask_console string nat

record ack =
  ak_seq :: nat
  ak_status :: ingest_status
  ak_message :: "string option"

datatype orchestrator_frame =
    Of_welcome server_ref nat nat            \<comment> \<open>heartbeat interval, acked\<close>
  | Of_assign assign_frame
  | Of_command link_command
  | Of_player_command string string string   \<comment> \<open>correlation, player, verb\<close>
  | Of_profile roster_entry
  | Of_release string
  | Of_drain
  | Of_ack "ack list"

text \<open>\<open>LINK_CLOSE_CODES\<close>, and 1011 for an exception on the chain.\<close>

datatype close_code = Cc_unauthorized | Cc_protocolMismatch | Cc_malformed | Cc_replaced
  | Cc_helloTimeout | Cc_revoked | Cc_shuttingDown | Cc_internal

fun LINK_CLOSE_CODES :: "close_code \<Rightarrow> nat" where
  "LINK_CLOSE_CODES Cc_unauthorized = 4001"
| "LINK_CLOSE_CODES Cc_protocolMismatch = 4002"
| "LINK_CLOSE_CODES Cc_malformed = 4003"
| "LINK_CLOSE_CODES Cc_replaced = 4005"
| "LINK_CLOSE_CODES Cc_helloTimeout = 4008"
| "LINK_CLOSE_CODES Cc_revoked = 4009"
| "LINK_CLOSE_CODES Cc_shuttingDown = 4012"
| "LINK_CLOSE_CODES Cc_internal = 1011"

datatype answer_kind = Ak_command_result | Ak_console | Ak_player_command_result

fun answer_of :: "server_frame \<Rightarrow> (string \<times> answer_kind) option" where
  "answer_of (Fr_command_result cid _ _) = Some (cid, Ak_command_result)"
| "answer_of (Fr_player_command_result cid _) = Some (cid, Ak_player_command_result)"
| "answer_of (Fr_console (Some cid) _ _) = Some (cid, Ak_console)"
| "answer_of _ = None"

text \<open>The requests of the channel that expect an answer.\<close>

datatype request = Rq_send match_command | Rq_announce string | Rq_console "nat option"
  | Rq_player_command string string string

datatype request_failure = Rf_closed | Rf_in_flight | Rf_no_answer | Rf_link_closed

datatype link_output =
    Out_frame orchestrator_frame
  | Out_close nat
  | Out_terminate
  | Out_answer string server_frame
  | Out_failed string request_failure
  | Out_unsupported string
  | Out_push ident string widget_push

subsection \<open>State\<close>

record console_tail =
  ct_at :: instant
  ct_uptimeMs :: nat
  ct_lines :: "string list"

record session =
  se_ref :: server_ref
  se_installed :: "string list"
  se_row :: ident
  se_match :: "ident option"
  se_acked :: nat
  se_window :: "nat list"
  se_pending :: "(string \<times> answer_kind \<times> instant) list"
  se_tail :: "console_tail option"
  se_lastDetail :: "string option"
  se_linkState :: "string option"
  se_currentMap :: "string option"
  se_lastSeenWrittenAt :: instant
  se_silence :: "instant option"
  se_gone :: bool
  se_correlation :: nat

datatype ready_state = Rs_open | Rs_closing | Rs_closed

text \<open>A greeting waits for the store (with the row and the token it found), then for the machine.\<close>

datatype greeting = Gr_none | Gr_found server_row ident hello | Gr_made server_row hello

text \<open>A frame on the chain: \<open>True\<close> when the session existed as it arrived.\<close>

record socket =
  so_ready :: ready_state
  so_chain :: "(bool \<times> server_frame) list"
  so_greeting :: greeting
  so_adopted :: bool               \<comment> \<open>\<open>session !== undefined\<close>\<close>
  so_helloBy :: "instant option"

record link_config =
  li_machine :: env
  li_heartbeatIntervalMs :: nat
  li_helloTimeoutMs :: nat
  li_commandTimeoutMs :: nat
  li_widgets :: bool

record site =
  si_world :: world
  si_sockets :: "nat \<Rightarrow> socket option"
  si_made :: "nat \<Rightarrow> session option"
  si_sessions :: "server_ref \<Rightarrow> nat option"
  si_links :: "server_ref \<Rightarrow> nat option"
  si_next :: nat
  si_closing :: bool
  si_out :: "(nat \<times> link_output) list"

type_synonym 'a act = "(site, 'a) state"

definition HEARTBEAT_INTERVAL_MS_DEFAULT :: nat where "HEARTBEAT_INTERVAL_MS_DEFAULT = 10000"
definition HELLO_TIMEOUT_MS :: nat where "HELLO_TIMEOUT_MS = 10000"
definition COMMAND_TIMEOUT_MS_DEFAULT :: nat where "COMMAND_TIMEOUT_MS_DEFAULT = 15000"
definition CONSOLE_TAIL_DEFAULT :: nat where "CONSOLE_TAIL_DEFAULT = 100"
definition WIDGET_PUSH_DATA_MAX :: nat where "WIDGET_PUSH_DATA_MAX = 16 * 1024"

definition on_world :: "'a step \<Rightarrow> 'a act" where
  "on_world m = State (\<lambda>s. (result m (si_world s), s\<lparr>si_world := after m (si_world s)\<rparr>))"

definition say :: "nat \<Rightarrow> link_output \<Rightarrow> unit act" where
  "say i out = modify (\<lambda>s. s\<lparr>si_out := (i, out) # si_out s\<rparr>)"

definition on_socket :: "nat \<Rightarrow> (socket \<Rightarrow> socket) \<Rightarrow> unit act" where
  "on_socket i f = modify (\<lambda>s. s\<lparr>si_sockets := (si_sockets s)(i := map_option f (si_sockets s i))\<rparr>)"

definition on_session :: "nat \<Rightarrow> (session \<Rightarrow> session) \<Rightarrow> unit act" where
  "on_session i f = modify (\<lambda>s. s\<lparr>si_made := (si_made s)(i := map_option f (si_made s i))\<rparr>)"

definition with_session :: "nat \<Rightarrow> 'a \<Rightarrow> (session \<Rightarrow> 'a act) \<Rightarrow> 'a act" where
  "with_session i d f = do {
     found \<leftarrow> gets (\<lambda>s. si_made s i);
     case found of None \<Rightarrow> State_Monad.return d | Some se \<Rightarrow> f se
   }"

definition ready :: "site \<Rightarrow> nat \<Rightarrow> ready_state" where
  "ready s i = (case si_sockets s i of None \<Rightarrow> Rs_closed | Some so \<Rightarrow> so_ready so)"

definition update_row :: "ident \<Rightarrow> server_patch \<Rightarrow> unit act" where
  "update_row fid p = on_world (store_updateServer fid p)"

definition link_write :: "nat \<Rightarrow> orchestrator_frame \<Rightarrow> unit act" where
  "link_write i frame = do {
     rs \<leftarrow> gets (\<lambda>s. ready s i);
     if rs = Rs_open then say i (Out_frame frame) else skip
   }"

definition close_socket :: "nat \<Rightarrow> close_code \<Rightarrow> unit act" where
  "close_socket i code = do {
     rs \<leftarrow> gets (\<lambda>s. ready s i);
     if rs = Rs_open then do {
       on_socket i (\<lambda>so. so\<lparr>so_ready := Rs_closing\<rparr>);
       say i (Out_close (LINK_CLOSE_CODES code))
     } else skip
   }"

definition terminate_socket :: "nat \<Rightarrow> unit act" where
  "terminate_socket i = do {
     rs \<leftarrow> gets (\<lambda>s. ready s i);
     if rs = Rs_closed then skip
     else do {
       on_socket i (\<lambda>so. so\<lparr>so_ready := Rs_closing\<rparr>);
       say i Out_terminate
     }
   }"

subsection \<open>A session\<close>

definition silence_ms :: "link_config \<Rightarrow> int" where
  "silence_ms C = 2 * int (li_heartbeatIntervalMs C)"

definition armSilence :: "link_config \<Rightarrow> nat \<Rightarrow> unit act" where
  "armSilence C i = do {
     t \<leftarrow> on_world now;
     on_session i (\<lambda>se. se\<lparr>se_silence := Some (t + silence_ms C)\<rparr>)
   }"

definition seen :: "link_config \<Rightarrow> nat \<Rightarrow> unit act" where
  "seen C i = with_session i () (\<lambda>se.
     if se_gone se then skip
     else do {
       armSilence C i;
       t \<leftarrow> on_world now;
       if t - se_lastSeenWrittenAt se < LAST_SEEN_WRITE_INTERVAL_MS then skip
       else do {
         on_session i (\<lambda>se. se\<lparr>se_lastSeenWrittenAt := t\<rparr>);
         update_row (se_row se) [Srv_lastSeenAt (Some t)]
       }
     })"

text \<open>The silence timer fires.\<close>

definition onSilent :: "link_config \<Rightarrow> nat \<Rightarrow> unit act" where
  "onSilent C i = with_session i () (\<lambda>se. do {
     on_session i (\<lambda>se. se\<lparr>se_silence := None\<rparr>);
     (case se_match se of
        Some mid \<Rightarrow> if mid = '''' then skip
          else on_world (suspect (li_machine C) mid (''link silent for '' @ decimal (silence_ms C) @ '' ms''))
      | None \<Rightarrow> skip);
     terminate_socket i
   })"

definition ask :: "link_config \<Rightarrow> nat \<Rightarrow> string \<Rightarrow> orchestrator_frame \<Rightarrow> answer_kind \<Rightarrow> unit act" where
  "ask C i cid frame want = do {
     rs \<leftarrow> gets (\<lambda>s. ready s i);
     if rs \<noteq> Rs_open then say i (Out_failed cid Rf_closed)
     else with_session i () (\<lambda>se.
       if cid \<in> fst ` set (se_pending se) then say i (Out_failed cid Rf_in_flight)
       else do {
         t \<leftarrow> on_world now;
         on_session i (\<lambda>se. se\<lparr>se_pending :=
           se_pending se @ [(cid, want, t + int (li_commandTimeoutMs C))]\<rparr>);
         link_write i frame
       })
   }"

definition mintCorrelationId :: "nat \<Rightarrow> string act" where
  "mintCorrelationId i = do {
     on_session i (\<lambda>se. se\<lparr>se_correlation := Suc (se_correlation se)\<rparr>);
     with_session i '''' (\<lambda>se. State_Monad.return (''link-'' @ decimal_nat (se_correlation se)))
   }"

definition reaches_a_server :: "command_body \<Rightarrow> bool" where
  "reaches_a_server c \<longleftrightarrow> \<not> isSimCommand c \<and> c \<noteq> Cmd_reprovision"

definition channel_request :: "link_config \<Rightarrow> nat \<Rightarrow> request \<Rightarrow> unit act" where
  "channel_request C i rq =
    (case rq of
       Rq_send c \<Rightarrow>
         if \<not> reaches_a_server (cm_body c) then say i (Out_unsupported (cm_correlationId c))
         else ask C i (cm_correlationId c) (Of_command (Relayed c)) Ak_command_result
     | Rq_announce line \<Rightarrow> do {
         cid \<leftarrow> mintCorrelationId i;
         ask C i cid (Of_command (Relayed \<lparr>cm_correlationId = cid, cm_body = Cmd_announce line\<rparr>))
           Ak_command_result
       }
     | Rq_console lines \<Rightarrow> do {
         cid \<leftarrow> mintCorrelationId i;
         ask C i cid (Of_command (Ask_console cid
           (case lines of None \<Rightarrow> CONSOLE_TAIL_DEFAULT | Some n \<Rightarrow> n))) Ak_console
       }
     | Rq_player_command cid steamId64 verb \<Rightarrow>
         ask C i cid (Of_player_command cid steamId64 verb) Ak_player_command_result)"

definition cacheTail :: "nat \<Rightarrow> nat \<Rightarrow> string list \<Rightarrow> unit act" where
  "cacheTail i uptimeMs lines = do {
     t \<leftarrow> on_world now;
     on_session i (\<lambda>se. se\<lparr>se_tail := Some \<lparr>ct_at = t, ct_uptimeMs = uptimeMs, ct_lines = lines\<rparr>\<rparr>)
   }"

definition relayPush :: "link_config \<Rightarrow> nat \<Rightarrow> ident \<Rightarrow> string \<Rightarrow> widget_push \<Rightarrow> unit act" where
  "relayPush C i mid steamId64 push = with_session i () (\<lambda>se.
     if Some mid \<noteq> se_match se then skip
     else if length (wp_data push) > WIDGET_PUSH_DATA_MAX then skip
     else if \<not> li_widgets C then skip
     else say i (Out_push mid steamId64 push))"

definition drop_pending :: "string \<Rightarrow> session \<Rightarrow> session" where
  "drop_pending cid se = se\<lparr>se_pending := map_delete cid (se_pending se)\<rparr>"

text \<open>\<open>answer\<close>: \<open>True\<close> when the frame settled a request.\<close>

definition link_answer :: "nat \<Rightarrow> server_frame \<Rightarrow> bool act" where
  "link_answer i frame =
    (case answer_of frame of
       None \<Rightarrow> State_Monad.return False
     | Some (cid, kind) \<Rightarrow> do {
         (case frame of Fr_console _ uptimeMs lines \<Rightarrow> cacheTail i uptimeMs lines | _ \<Rightarrow> skip);
         with_session i False (\<lambda>se.
           (case map_of (se_pending se) cid of
              None \<Rightarrow> State_Monad.return False
            | Some (want, _) \<Rightarrow>
                if want \<noteq> kind then State_Monad.return False
                else do {
                  on_session i (drop_pending cid);
                  say i (Out_answer cid frame);
                  State_Monad.return True
                }))
       })"

text \<open>A request's deadline passes.\<close>

definition no_answer :: "nat \<Rightarrow> string \<Rightarrow> unit act" where
  "no_answer i cid = with_session i () (\<lambda>se. do {
     t \<leftarrow> on_world now;
     (case map_of (se_pending se) cid of
        None \<Rightarrow> skip
      | Some (_, by) \<Rightarrow>
          if by \<le> t then do {
            on_session i (drop_pending cid);
            say i (Out_failed cid Rf_no_answer)
          } else skip)
   })"

definition noteState :: "nat \<Rightarrow> string \<Rightarrow> string option \<Rightarrow> unit act" where
  "noteState i st mp = with_session i () (\<lambda>se.
     (let newState = (se_linkState se \<noteq> Some st);
          newMap = (mp \<noteq> None \<and> mp \<noteq> se_currentMap se);
          patch = (if newState then [Srv_linkState (Some st)] else []) @
                  (if newMap then [Srv_currentMap mp] else [])
      in do {
        on_session i (\<lambda>se. se\<lparr>se_linkState := Some st,
          se_currentMap := (if newMap then mp else se_currentMap se)\<rparr>);
        if patch = [] then skip else update_row (se_row se) patch
      }))"

subsection \<open>Events and their acks\<close>

text \<open>The contiguous top moves up as far as the window reaches.\<close>

function advance :: "nat \<Rightarrow> nat list \<Rightarrow> nat \<times> nat list" where
  "advance a win = (if Suc a \<in> set win then advance (Suc a) (removeAll (Suc a) win) else (a, win))"
  by pat_completeness auto
termination
  by (relation "measure (length \<circ> snd)") (auto simp: length_removeAll_less)

declare advance.simps [simp del]

definition take_seq :: "nat \<Rightarrow> session \<Rightarrow> session" where
  "take_seq n se =
    (let (a, win) = advance (se_acked se) (List.insert n (se_window se))
     in se\<lparr>se_acked := a, se_window := win\<rparr>)"

definition foreign_message :: "session \<Rightarrow> ident \<Rightarrow> string" where
  "foreign_message se mid =
    (case se_match se of
       Some held \<Rightarrow> ''names match '' @ mid @
         (if held = '''' then ''; this server holds no match'' else ''; this server holds '' @ held)
     | None \<Rightarrow> ''names match '' @ mid @ ''; this server holds no match'')"

text \<open>One event: \<open>None\<close> is the machine's exception, which leaves the batch at once.\<close>

definition ingest_one :: "env \<Rightarrow> nat \<Rightarrow> nat \<times> gameserver_event \<Rightarrow> ack option act" where
  "ingest_one e i sequenced = (let (n, ev) = sequenced in with_session i None (\<lambda>se.
     if n \<le> se_acked se \<or> n \<in> set (se_window se)
     then State_Monad.return (Some \<lparr>ak_seq = n, ak_status = In_duplicate, ak_message = None\<rparr>)
     else if Some (ge_matchId ev) \<noteq> se_match se then do {
       on_session i (take_seq n);
       State_Monad.return (Some \<lparr>ak_seq = n, ak_status = In_rejected,
         ak_message = Some (foreign_message se (ge_matchId ev))\<rparr>)
     }
     else do {
       status \<leftarrow> on_world (ingest e (se_ref se) ev);
       if status = In_threw then State_Monad.return None
       else do {
         on_session i (take_seq n);
         State_Monad.return (Some \<lparr>ak_seq = n, ak_status = status, ak_message = None\<rparr>)
       }
     }))"

fun ingest_events :: "env \<Rightarrow> nat \<Rightarrow> (nat \<times> gameserver_event) list \<Rightarrow> ack list option act" where
  "ingest_events e i [] = State_Monad.return (Some [])"
| "ingest_events e i (ev # evs) = do {
     first \<leftarrow> ingest_one e i ev;
     case first of
       None \<Rightarrow> State_Monad.return None
     | Some a \<Rightarrow> do {
         rest \<leftarrow> ingest_events e i evs;
         State_Monad.return (map_option (\<lambda>acks. a # acks) rest)
       }
   }"

text \<open>\<open>False\<close> when the batch was left by an exception.\<close>

definition ingestBatch :: "env \<Rightarrow> nat \<Rightarrow> (nat \<times> gameserver_event) list \<Rightarrow> bool act" where
  "ingestBatch e i evs = do {
     results \<leftarrow> ingest_events e i evs;
     case results of
       None \<Rightarrow> State_Monad.return False
     | Some acks \<Rightarrow> with_session i False (\<lambda>se. do {
         t \<leftarrow> on_world now;
         update_row (se_row se) [Srv_linkAckedSeq (se_acked se), Srv_lastSeenAt (Some t)];
         on_session i (\<lambda>se. se\<lparr>se_lastSeenWrittenAt := t\<rparr>);
         link_write i (Of_ack acks);
         State_Monad.return True
       })
   }"

subsection \<open>The frames of a session\<close>

definition touch_ref :: "link_config \<Rightarrow> nat \<Rightarrow> unit act" where
  "touch_ref C i = with_session i () (\<lambda>se. on_world (touch (li_machine C) (se_ref se)))"

definition link_handle :: "link_config \<Rightarrow> nat \<Rightarrow> server_frame \<Rightarrow> bool act" where
  "link_handle C i frame =
    (case frame of
       Fr_hello _ \<Rightarrow> do { close_socket i Cc_malformed; State_Monad.return True }
     | Fr_heartbeat st mp \<Rightarrow> do {
         noteState i st (Some mp);
         touch_ref C i;
         State_Monad.return True
       }
     | Fr_state st detail \<Rightarrow> do {
         (if detail = None \<or> detail = Some '''' then skip
          else on_session i (\<lambda>se. se\<lparr>se_lastDetail := detail\<rparr>));
         noteState i st None;
         touch_ref C i;
         State_Monad.return True
       }
     | Fr_events evs \<Rightarrow> ingestBatch (li_machine C) i evs
     | Fr_backup mid b \<Rightarrow> with_session i True (\<lambda>se.
         if Some mid \<noteq> se_match se then State_Monad.return True
         else do {
           _ \<leftarrow> on_world (backup (li_machine C) (se_ref se) b);
           State_Monad.return True
         })
     | Fr_console _ uptimeMs lines \<Rightarrow> do { cacheTail i uptimeMs lines; State_Monad.return True }
     | Fr_widget_push mid steamId64 push \<Rightarrow> do {
         relayPush C i mid steamId64 push;
         State_Monad.return True
       }
     | Fr_command_result _ _ _ \<Rightarrow> State_Monad.return True
     | Fr_player_command_result _ _ \<Rightarrow> State_Monad.return True)"

definition fail_pending :: "nat \<Rightarrow> session \<Rightarrow> (nat \<times> link_output) list" where
  "fail_pending i se = rev (map (\<lambda>p. (i, Out_failed (fst p) Rf_link_closed)) (se_pending se))"

definition session_closed :: "nat \<Rightarrow> unit act" where
  "session_closed i = with_session i () (\<lambda>se. do {
     modify (\<lambda>s. s\<lparr>si_out := fail_pending i se @ si_out s\<rparr>);
     on_session i (\<lambda>se. se\<lparr>se_gone := True, se_silence := None, se_pending := []\<rparr>);
     registered_as \<leftarrow> gets (\<lambda>s. si_sessions s (se_ref se));
     if registered_as = Some i then
       modify (\<lambda>s. s\<lparr>si_sessions := (si_sessions s)(se_ref se := None),
         si_links := (if si_links s (se_ref se) = Some i
           then (si_links s)(se_ref se := None) else si_links s)\<rparr>)
     else skip
   })"


subsection \<open>The greeting\<close>

definition TOKEN_SERVER_PREFIX :: string where "TOKEN_SERVER_PREFIX = ''ezis_''"

definition looksLikeToken :: "string \<Rightarrow> bool" where
  "looksLikeToken token \<longleftrightarrow> take (length TOKEN_SERVER_PREFIX) token = TOKEN_SERVER_PREFIX \<and>
     length token \<le> 128 \<and> \<not> list_ex white_space token"

text \<open>The open row a token opens and the token's identifier, or \<open>None\<close>.\<close>

definition resolveToken :: "env \<Rightarrow> string \<Rightarrow> store \<Rightarrow> (server_row \<times> ident) option" where
  "resolveToken e token s =
    (if \<not> looksLikeToken token then None
     else
       (case findServerTokenByHash (en_hashToken e token) s of
          None \<Rightarrow> None
        | Some record \<Rightarrow>
            if st_revokedAt record \<noteq> None then None
            else
              (case findServer (st_fleetServerId record) s of
                 None \<Rightarrow> None
               | Some row \<Rightarrow>
                   if s_releasedAt row \<noteq> None \<or> s_serverId row = None \<or> s_serverId row = Some ''''
                   then None else Some (row, st_id record))))"

definition row_ref :: "server_row \<Rightarrow> server_ref" where
  "row_ref row = (s_provider row, case s_serverId row of None \<Rightarrow> '''' | Some sid \<Rightarrow> sid)"

text \<open>\<open>greet\<close> up to its first write: the token is looked up, an older socket is replaced.\<close>

definition greet_lookup :: "link_config \<Rightarrow> nat \<Rightarrow> hello \<Rightarrow> unit act" where
  "greet_lookup C i h = do {
     found \<leftarrow> gets (\<lambda>s. resolveToken (li_machine C) (he_token h) (w_store (si_world s)));
     case found of
       None \<Rightarrow> close_socket i Cc_unauthorized
     | Some (row, tokenId) \<Rightarrow> do {
         rs \<leftarrow> gets (\<lambda>s. ready s i);
         if rs \<noteq> Rs_open then skip
         else do {
           older \<leftarrow> gets (\<lambda>s. si_sessions s (row_ref row));
           (case older of None \<Rightarrow> skip | Some j \<Rightarrow> close_socket j Cc_replaced);
           on_socket i (\<lambda>so. so\<lparr>so_greeting := Gr_found row tokenId h\<rparr>)
         }
       }
   }"

definition createSession :: "server_row \<Rightarrow> nat \<Rightarrow> string list \<Rightarrow> instant \<Rightarrow> session" where
  "createSession row acked installed t = \<lparr>se_ref = row_ref row, se_installed = installed,
     se_row = s_id row, se_match = s_matchId row, se_acked = acked, se_window = [],
     se_pending = [], se_tail = None, se_lastDetail = None, se_linkState = s_linkState row,
     se_currentMap = s_currentMap row, se_lastSeenWrittenAt = t, se_silence = None,
     se_gone = False, se_correlation = 0\<rparr>"

text \<open>The writes of the greeting, the session and the \<open>welcome\<close>.\<close>

definition greet_make :: "link_config \<Rightarrow> nat \<Rightarrow> server_row \<Rightarrow> ident \<Rightarrow> hello \<Rightarrow> unit act" where
  "greet_make C i row tokenId h = do {
     let acked = min (s_linkAckedSeq row) (he_lastSeq h);
     t \<leftarrow> on_world now;
     on_world (on_store_opt (touchServerToken tokenId t));
     update_row (s_id row) [Srv_currentMap (Some (he_map h)), Srv_linkState (Some (he_state h)),
       Srv_linkAckedSeq acked, Srv_lastSeenAt (Some t)];
     modify (\<lambda>s. s\<lparr>si_made := (si_made s)(i := Some (createSession row acked (he_plugins h) t))\<rparr>);
     armSilence C i;
     modify (\<lambda>s. s\<lparr>si_sessions := (si_sessions s)(row_ref row := Some i),
       si_links := (si_links s)(row_ref row := Some i)\<rparr>);
     link_write i (Of_welcome (row_ref row) (li_heartbeatIntervalMs C) acked);
     on_socket i (\<lambda>so. so\<lparr>so_greeting := Gr_made row h\<rparr>)
   }"

definition sendAssignment :: "link_config \<Rightarrow> nat \<Rightarrow> string list \<Rightarrow> unit act" where
  "sendAssignment C i plugins = with_session i () (\<lambda>se. do {
     assign \<leftarrow> on_world (assignment (li_machine C) (se_ref se) plugins);
     case assign of None \<Rightarrow> skip | Some a \<Rightarrow> link_write i (Of_assign a)
   })"

text \<open>The assignment, unless the server already holds the row's match; then the session is adopted.\<close>

definition greet_assign :: "link_config \<Rightarrow> nat \<Rightarrow> server_row \<Rightarrow> hello \<Rightarrow> unit act" where
  "greet_assign C i row h = do {
     (if s_matchId row \<noteq> None \<and> s_matchId row \<noteq> Some '''' \<and> he_matchId h \<noteq> s_matchId row
      then sendAssignment C i (he_plugins h)
      else on_world (touch (li_machine C) (row_ref row)));
     on_socket i (\<lambda>so. so\<lparr>so_greeting := Gr_none, so_adopted := True, so_helloBy := None\<rparr>)
   }"

subsection \<open>A socket\<close>

definition open_socket :: "link_config \<Rightarrow> unit act" where
  "open_socket C = do {
     t \<leftarrow> on_world now;
     modify (\<lambda>s. if si_closing s then s
       else s\<lparr>si_sockets := (si_sockets s)(si_next s := Some \<lparr>so_ready = Rs_open, so_chain = [],
            so_greeting = Gr_none, so_adopted = False,
            so_helloBy = Some (t + int (li_helloTimeoutMs C))\<rparr>),
          si_next := Suc (si_next s)\<rparr>)
   }"

definition push_chain :: "nat \<Rightarrow> bool \<times> server_frame \<Rightarrow> unit act" where
  "push_chain i entry = on_socket i (\<lambda>so. so\<lparr>so_chain := so_chain so @ [entry]\<rparr>)"

definition with_socket :: "nat \<Rightarrow> (socket \<Rightarrow> unit act) \<Rightarrow> unit act" where
  "with_socket i f = do {
     found \<leftarrow> gets (\<lambda>s. si_sockets s i);
     case found of None \<Rightarrow> skip | Some so \<Rightarrow> f so
   }"

text \<open>\<open>ws.on('message')\<close>. Messages still arrive while the close handshake runs.\<close>

definition on_message :: "link_config \<Rightarrow> nat \<Rightarrow> incoming \<Rightarrow> unit act" where
  "on_message C i raw = with_socket i (\<lambda>so.
     if so_ready so = Rs_closed then skip
     else
       (case raw of
          Not_json \<Rightarrow> close_socket i Cc_malformed
        | Other_protocol \<Rightarrow> close_socket i Cc_protocolMismatch
        | Not_a_frame \<Rightarrow> close_socket i Cc_malformed
        | Frame frame \<Rightarrow>
            if so_adopted so then do {
              seen C i;
              settled \<leftarrow> link_answer i frame;
              if settled then skip else push_chain i (True, frame)
            }
            else push_chain i (False, frame)))"

text \<open>A frame handled by the session; an exception closes the socket.\<close>

definition handle_or_close :: "link_config \<Rightarrow> nat \<Rightarrow> server_frame \<Rightarrow> unit act" where
  "handle_or_close C i frame = do {
     finished \<leftarrow> link_handle C i frame;
     if finished then skip else close_socket i Cc_internal
   }"

text \<open>A frame that arrived before the session did.\<close>

definition late_frame :: "link_config \<Rightarrow> nat \<Rightarrow> server_frame \<Rightarrow> unit act" where
  "late_frame C i frame = do {
     seen C i;
     settled \<leftarrow> link_answer i frame;
     if settled then skip else handle_or_close C i frame
   }"

text \<open>The next step of a socket's chain; none while a greeting is under way.\<close>

definition chain_step :: "link_config \<Rightarrow> nat \<Rightarrow> unit act" where
  "chain_step C i = with_socket i (\<lambda>so.
     (case so_greeting so of
        Gr_found row tokenId h \<Rightarrow> greet_make C i row tokenId h
      | Gr_made row h \<Rightarrow> greet_assign C i row h
      | Gr_none \<Rightarrow>
         (case so_chain so of
            [] \<Rightarrow> skip
          | (for_session, frame) # rest \<Rightarrow> do {
              on_socket i (\<lambda>so. so\<lparr>so_chain := rest\<rparr>);
              if for_session then handle_or_close C i frame
              else if so_adopted so then late_frame C i frame
              else
                (case frame of
                   Fr_hello h \<Rightarrow> greet_lookup C i h
                 | _ \<Rightarrow> close_socket i Cc_malformed)
            })))"

text \<open>\<open>ws.on('close')\<close>.\<close>

definition on_close :: "nat \<Rightarrow> unit act" where
  "on_close i = with_socket i (\<lambda>so.
     if so_ready so = Rs_closed then skip
     else do {
       on_socket i (\<lambda>so. so\<lparr>so_ready := Rs_closed, so_helloBy := None\<rparr>);
       if so_adopted so then session_closed i else skip
     })"

definition hello_deadline :: "nat \<Rightarrow> unit act" where
  "hello_deadline i = with_socket i (\<lambda>so. do {
     t \<leftarrow> on_world now;
     (case so_helloBy so of
        None \<Rightarrow> skip
      | Some by \<Rightarrow>
          if t < by then skip
          else do {
            on_socket i (\<lambda>so. so\<lparr>so_helloBy := None\<rparr>);
            if so_adopted so then skip else close_socket i Cc_helloTimeout
          })
   })"

definition silence_deadline :: "link_config \<Rightarrow> nat \<Rightarrow> unit act" where
  "silence_deadline C i = with_session i () (\<lambda>se. do {
     t \<leftarrow> on_world now;
     (case se_silence se of
        None \<Rightarrow> skip
      | Some by \<Rightarrow> if t < by then skip else onSilent C i)
   })"

subsection \<open>The doors of the link\<close>

definition link_rebind :: "server_ref \<Rightarrow> ident \<Rightarrow> ident option \<Rightarrow> unit act" where
  "link_rebind ref fid mid = do {
     found \<leftarrow> gets (\<lambda>s. si_sessions s ref);
     case found of
       None \<Rightarrow> skip
     | Some i \<Rightarrow> on_session i (\<lambda>se. se\<lparr>se_row := fid, se_match := mid\<rparr>)
   }"

definition link_assign :: "link_config \<Rightarrow> server_ref \<Rightarrow> unit act" where
  "link_assign C ref = do {
     found \<leftarrow> gets (\<lambda>s. si_sessions s ref);
     case found of
       None \<Rightarrow> skip
     | Some i \<Rightarrow> with_session i () (\<lambda>se. do {
         row \<leftarrow> gets (\<lambda>s. findServer (se_row se) (w_store (si_world s)));
         (case Option.bind row s_matchId of
            None \<Rightarrow> skip
          | Some mid \<Rightarrow> if mid = '''' then skip else sendAssignment C i (se_installed se))
       })
   }"

text \<open>What the machine and the fleet send down a server's channel.\<close>

datatype told = Tell_release string | Tell_drain | Tell_profile roster_entry | Tell_request request

definition link_tell :: "link_config \<Rightarrow> server_ref \<Rightarrow> told \<Rightarrow> unit act" where
  "link_tell C ref what = do {
     found \<leftarrow> gets (\<lambda>s. si_links s ref);
     case found of
       None \<Rightarrow> skip
     | Some i \<Rightarrow>
         (case what of
            Tell_release reason \<Rightarrow> link_write i (Of_release (take 256 reason))
          | Tell_drain \<Rightarrow> link_write i Of_drain
          | Tell_profile p \<Rightarrow> link_write i (Of_profile p)
          | Tell_request rq \<Rightarrow> channel_request C i rq)
   }"

fun upto :: "nat \<Rightarrow> nat list" where
  "upto 0 = []"
| "upto (Suc n) = upto n @ [n]"

definition link_close :: "unit act" where
  "link_close = do {
     modify (\<lambda>s. s\<lparr>si_closing := True\<rparr>);
     n \<leftarrow> gets si_next;
     for_each (\<lambda>i. close_socket i Cc_shuttingDown) (upto n)
   }"

text \<open>A new process: the store survives, the sockets and everything in memory do not.\<close>

definition reboot :: "link_config \<Rightarrow> unit act" where
  "reboot C = do {
     modify (\<lambda>s. s\<lparr>si_sockets := (\<lambda>_. None), si_made := (\<lambda>_. None), si_sessions := (\<lambda>_. None),
       si_links := (\<lambda>_. None), si_closing := False, si_out := []\<rparr>);
     on_world (restart (li_machine C))
   }"

subsection \<open>The site as a transition system\<close>

datatype site_op =
    At_machine operation
  | At_connect
  | At_message nat incoming
  | At_chain nat
  | At_close nat
  | At_hello_deadline nat
  | At_silence nat
  | At_no_answer nat string
  | At_rebind server_ref ident "ident option"
  | At_assign server_ref
  | At_tell server_ref told
  | At_shutdown
  | At_reboot

fun site_step :: "link_config \<Rightarrow> site_op \<Rightarrow> unit act" where
  "site_step C (At_machine op) = on_world (operate (li_machine C) op)"
| "site_step C At_connect = open_socket C"
| "site_step C (At_message i raw) = on_message C i raw"
| "site_step C (At_chain i) = chain_step C i"
| "site_step C (At_close i) = on_close i"
| "site_step C (At_hello_deadline i) = hello_deadline i"
| "site_step C (At_silence i) = silence_deadline C i"
| "site_step C (At_no_answer i cid) = no_answer i cid"
| "site_step C (At_rebind ref fid mid) = link_rebind ref fid mid"
| "site_step C (At_assign ref) = link_assign C ref"
| "site_step C (At_tell ref what) = link_tell C ref what"
| "site_step C At_shutdown = link_close"
| "site_step C At_reboot = reboot C"

definition initial_site :: "world \<Rightarrow> site" where
  "initial_site w = \<lparr>si_world = w, si_sockets = (\<lambda>_. None), si_made = (\<lambda>_. None),
     si_sessions = (\<lambda>_. None), si_links = (\<lambda>_. None), si_next = 0, si_closing = False, si_out = []\<rparr>"

definition site_run :: "link_config \<Rightarrow> site_op list \<Rightarrow> site \<Rightarrow> site" where
  "site_run C ops s = fold (\<lambda>op. after (site_step C op)) ops s"

lemma site_run_simps [simp]: "site_run C [] s = s"
  "site_run C (op # ops) s = site_run C ops (after (site_step C op) s)"
  by (simp_all add: site_run_def)

text \<open>The sites a process reaches that starts on the world \<open>w\<close>.\<close>

inductive site_reachable :: "link_config \<Rightarrow> world \<Rightarrow> site \<Rightarrow> bool" for C w where
  site_init: "site_reachable C w (initial_site w)"
| site_next: "site_reachable C w s \<Longrightarrow> site_reachable C w (after (site_step C op) s)"

lemma site_reachable_run: "site_reachable C w s \<Longrightarrow> site_reachable C w (site_run C ops s)"
  by (induction ops arbitrary: s) (auto intro: site_next)

end
