(* ===== verification/Link_Laws.thy ===== *)
theory Link_Laws
  imports Link
begin

text \<open>
  The laws of the server link: the acks of a batch against a reference that knows only a set of
  numbers, the invariant of the sockets and sessions along every run of the site, and the machine's
  own invariants carried over to the site.
\<close>

subsection \<open>The acks of a batch\<close>

text \<open>The reference: a set of numbers taken so far, and for each event of the batch in order one
  question whether its number is in it. It knows no window and no top.\<close>

definition taken :: "session \<Rightarrow> nat set" where
  "taken se = {n. n \<le> se_acked se} \<union> set (se_window se)"

fun reference_acks :: "env \<Rightarrow> session \<Rightarrow> nat set \<Rightarrow> (nat \<times> gameserver_event) list
  \<Rightarrow> (ack list option \<times> nat set) step" where
  "reference_acks e se T [] = State_Monad.return (Some [], T)"
| "reference_acks e se T ((n, ev) # evs) =
    (let go_on = (\<lambda>T' a. do {
           (rest, T'') \<leftarrow> reference_acks e se T' evs;
           State_Monad.return (map_option (\<lambda>acks. a # acks) rest, T'')
         })
     in if n \<in> T then go_on T \<lparr>ak_seq = n, ak_status = In_duplicate, ak_message = None\<rparr>
        else if Some (ge_matchId ev) \<noteq> se_match se
          then go_on (insert n T) \<lparr>ak_seq = n, ak_status = In_rejected,
            ak_message = Some (foreign_message se (ge_matchId ev))\<rparr>
        else do {
          status \<leftarrow> ingest e (se_ref se) ev;
          if status = In_threw then State_Monad.return (None, T)
          else go_on (insert n T) \<lparr>ak_seq = n, ak_status = status, ak_message = None\<rparr>
        })"

lemma run_on_world [simp]:
  "run_state (on_world m) s = (result m (si_world s), s\<lparr>si_world := after m (si_world s)\<rparr>)"
  by (simp add: on_world_def)

lemma run_on_session [simp]:
  "run_state (on_session i f) s =
     ((), s\<lparr>si_made := (si_made s)(i := map_option f (si_made s i))\<rparr>)"
  by (simp add: on_session_def)

lemma run_on_socket [simp]:
  "run_state (on_socket i f) s =
     ((), s\<lparr>si_sockets := (si_sockets s)(i := map_option f (si_sockets s i))\<rparr>)"
  by (simp add: on_socket_def)

lemma run_say [simp]: "run_state (say i out) s = ((), s\<lparr>si_out := (i, out) # si_out s\<rparr>)"
  by (simp add: say_def)

lemma run_with_session:
  "run_state (with_session i d f) s =
    (case si_made s i of None \<Rightarrow> (d, s) | Some se \<Rightarrow> run_state (f se) s)"
  by (simp add: with_session_def split: option.split)

lemma run_with_socket:
  "run_state (with_socket i f) s =
    (case si_sockets s i of None \<Rightarrow> ((), s) | Some so \<Rightarrow> run_state (f so) s)"
  by (simp add: with_socket_def split: option.split)

text \<open>The window holds only what lies above a gap, each number once.\<close>

definition window_ok :: "session \<Rightarrow> bool" where
  "window_ok se \<longleftrightarrow> distinct (se_window se) \<and> (\<forall>n \<in> set (se_window se). Suc (se_acked se) < n)"

lemma advance_spec:
  assumes "distinct win" "\<forall>n \<in> set win. a < n" and "advance a win = (a', win')"
  shows "{n. n \<le> a'} \<union> set win' = {n. n \<le> a} \<union> set win"
    and "distinct win'" and "\<forall>n \<in> set win'. Suc a' < n"
  using assms
proof (induction a win arbitrary: a' win' rule: advance.induct)
  case (1 a win)
  {
    case 1
    show ?case
    proof (cases "Suc a \<in> set win")
      case True
      with 1 have step: "advance (Suc a) (removeAll (Suc a) win) = (a', win')"
        by (simp add: advance.simps [of a])
      have "distinct (removeAll (Suc a) win)" "\<forall>n \<in> set (removeAll (Suc a) win). Suc a < n"
        using 1 by (auto simp: distinct_removeAll intro: Suc_lessI)
      from "1.IH"(1) [OF True this step] True show ?thesis by (auto simp: le_Suc_eq)
    next
      case False
      with 1 show ?thesis by (simp add: advance.simps [of a])
    qed
  next
    case 2
    show ?case
    proof (cases "Suc a \<in> set win")
      case True
      with 2 have step: "advance (Suc a) (removeAll (Suc a) win) = (a', win')"
        by (simp add: advance.simps [of a])
      have "distinct (removeAll (Suc a) win)" "\<forall>n \<in> set (removeAll (Suc a) win). Suc a < n"
        using 2 by (auto simp: distinct_removeAll intro: Suc_lessI)
      from "1.IH"(2) [OF True this step] show ?thesis .
    next
      case False
      with 2 show ?thesis by (simp add: advance.simps [of a])
    qed
  next
    case 3
    show ?case
    proof (cases "Suc a \<in> set win")
      case True
      with 3 have step: "advance (Suc a) (removeAll (Suc a) win) = (a', win')"
        by (simp add: advance.simps [of a])
      have "distinct (removeAll (Suc a) win)" "\<forall>n \<in> set (removeAll (Suc a) win). Suc a < n"
        using 3 by (auto simp: distinct_removeAll intro: Suc_lessI)
      from "1.IH"(3) [OF True this step] show ?thesis .
    next
      case False
      with 3 show ?thesis by (auto simp: advance.simps [of a]) (metis Suc_lessI)
    qed
  }
qed

lemma take_seq_spec:
  assumes "window_ok se" and "n \<notin> taken se"
  shows "taken (take_seq n se) = insert n (taken se)" and "window_ok (take_seq n se)"
proof -
  obtain a win where adv: "advance (se_acked se) (List.insert n (se_window se)) = (a, win)" by fastforce
  have "distinct (List.insert n (se_window se))" "\<forall>m \<in> set (List.insert n (se_window se)). se_acked se < m"
    using assms by (auto simp: window_ok_def taken_def)
  from advance_spec [OF this adv] adv show "taken (take_seq n se) = insert n (taken se)"
    and "window_ok (take_seq n se)"
    by (auto simp: take_seq_def taken_def window_ok_def)
qed

lemma take_seq_frame [simp]:
  "se_match (take_seq n se) = se_match se" "se_ref (take_seq n se) = se_ref se"
  "se_pending (take_seq n se) = se_pending se" "se_gone (take_seq n se) = se_gone se"
  "se_silence (take_seq n se) = se_silence se" "se_row (take_seq n se) = se_row se"
  by (simp_all add: take_seq_def split_beta Let_def)

lemma foreign_message_take [simp]: "foreign_message (take_seq n se) mid = foreign_message se mid"
  by (simp add: foreign_message_def)

lemma reference_acks_same:
  "se_match se' = se_match se \<Longrightarrow> se_ref se' = se_ref se \<Longrightarrow>
   reference_acks e se' T evs = reference_acks e se T evs"
proof (induction evs arbitrary: T)
  case (Cons p evs)
  then show ?case by (cases p) (simp add: foreign_message_def)
qed simp_all

text \<open>What a batch leaves of a session: everything but the numbers taken.\<close>

definition same_but_taken :: "session \<Rightarrow> session \<Rightarrow> bool" where
  "same_but_taken se se' \<longleftrightarrow> se_match se' = se_match se \<and> se_ref se' = se_ref se \<and>
     se_pending se' = se_pending se \<and> se_gone se' = se_gone se \<and> se_silence se' = se_silence se \<and>
     se_row se' = se_row se"

lemma same_but_taken_take [simp]: "same_but_taken (take_seq n se) se' = same_but_taken se se'"
  by (simp add: same_but_taken_def)

definition refines :: "env \<Rightarrow> nat \<Rightarrow> (nat \<times> gameserver_event) list \<Rightarrow> site \<Rightarrow> session \<Rightarrow> bool" where
  "refines e i evs s se \<longleftrightarrow> (\<exists>se' acks w.
     run_state (reference_acks e se (taken se) evs) (si_world s) = ((acks, taken se'), w) \<and>
     run_state (ingest_events e i evs) s = (acks, s\<lparr>si_world := w, si_made := (si_made s)(i := Some se')\<rparr>) \<and>
     window_ok se' \<and> same_but_taken se se')"

lemma refines_taken:
  assumes "refines e i evs (s\<lparr>si_world := w, si_made := (si_made s)(i := Some (take_seq n se))\<rparr>) (take_seq n se)"
    and "taken (take_seq n se) = insert n (taken se)"
  obtains se' acks w' where
    "run_state (reference_acks e se (insert n (taken se)) evs) w = ((acks, taken se'), w')"
    "run_state (ingest_events e i evs) (s\<lparr>si_world := w, si_made := (si_made s)(i := Some (take_seq n se))\<rparr>) =
      (acks, s\<lparr>si_world := w', si_made := (si_made s)(i := Some se')\<rparr>)"
    "window_ok se'" "same_but_taken se se'"
proof -
  have "reference_acks e (take_seq n se) T evs = reference_acks e se T evs" for T
    by (rule reference_acks_same) simp_all
  with assms that show thesis by (auto simp: refines_def)
qed

lemma ingest_events_reference: "si_made s i = Some se \<Longrightarrow> window_ok se \<Longrightarrow> refines e i evs s se"
proof (induction evs arbitrary: s se)
  case Nil
  then show ?case
    unfolding refines_def by (intro exI [of _ se]) (simp add: fun_upd_idem same_but_taken_def)
next
  case (Cons p evs)
  obtain n ev where p: "p = (n, ev)" by (cases p)
  have dup: "n \<le> se_acked se \<or> n \<in> set (se_window se) \<longleftrightarrow> n \<in> taken se" by (simp add: taken_def)
  note one = p ingest_one_def run_with_session Cons.prems(1) dup case_prod_beta
  show ?case
  proof (cases "n \<in> taken se")
    case True
    from Cons.IH [OF Cons.prems] obtain se' acks w where
      "run_state (reference_acks e se (taken se) evs) (si_world s) = ((acks, taken se'), w)"
      "run_state (ingest_events e i evs) s = (acks, s\<lparr>si_world := w, si_made := (si_made s)(i := Some se')\<rparr>)"
      "window_ok se'" "same_but_taken se se'" unfolding refines_def by blast
    with True show ?thesis unfolding refines_def
      by (intro exI [of _ se']
          exI [of _ "map_option (\<lambda>acks. \<lparr>ak_seq = n, ak_status = In_duplicate, ak_message = None\<rparr> # acks) acks"]
          exI [of _ w]) (simp add: one)
  next
    case False
    note took = take_seq_spec [OF Cons.prems(2) False]
    have IH: "refines e i evs (s\<lparr>si_world := w, si_made := (si_made s)(i := Some (take_seq n se))\<rparr>)
        (take_seq n se)" for w
      by (rule Cons.IH) (simp_all add: took)
    show ?thesis
    proof (cases "Some (ge_matchId ev) = se_match se")
      case own: True
      let ?st = "result (ingest e (se_ref se) ev) (si_world s)"
      show ?thesis
      proof (cases "?st = In_threw")
        case True
        with False own Cons.prems show ?thesis unfolding refines_def
          by (intro exI [of _ se] exI [of _ None] exI [of _ "after (ingest e (se_ref se) ev) (si_world s)"])
            (simp add: one fun_upd_idem same_but_taken_def)
      next
        case fine: False
        from refines_taken [OF IH took(1)] obtain se' acks w' where
          "run_state (reference_acks e se (insert n (taken se)) evs)
            (after (ingest e (se_ref se) ev) (si_world s)) = ((acks, taken se'), w')"
          "run_state (ingest_events e i evs) (s\<lparr>si_world := after (ingest e (se_ref se) ev) (si_world s),
            si_made := (si_made s)(i := Some (take_seq n se))\<rparr>) =
            (acks, s\<lparr>si_world := w', si_made := (si_made s)(i := Some se')\<rparr>)"
          "window_ok se'" "same_but_taken se se'" by blast
        with False own fine show ?thesis unfolding refines_def
          by (intro exI [of _ se']
              exI [of _ "map_option (\<lambda>acks. \<lparr>ak_seq = n, ak_status = ?st, ak_message = None\<rparr> # acks) acks"]
              exI [of _ w']) (simp add: one)
      qed
    next
      case foreign: False
      from refines_taken [OF IH [of "si_world s"] took(1)] obtain se' acks w' where
        "run_state (reference_acks e se (insert n (taken se)) evs) (si_world s) = ((acks, taken se'), w')"
        "run_state (ingest_events e i evs) (s\<lparr>si_world := si_world s,
          si_made := (si_made s)(i := Some (take_seq n se))\<rparr>) =
          (acks, s\<lparr>si_world := w', si_made := (si_made s)(i := Some se')\<rparr>)"
        "window_ok se'" "same_but_taken se se'" by blast
      with False foreign show ?thesis unfolding refines_def
        by (intro exI [of _ se'] exI [of _ "map_option (\<lambda>acks. \<lparr>ak_seq = n, ak_status = In_rejected,
              ak_message = Some (foreign_message se (ge_matchId ev))\<rparr> # acks) acks"]
            exI [of _ w']) (simp add: one)
    qed
  qed
qed

subsection \<open>The invariant of the sockets\<close>

text \<open>The request a written frame makes, and the request an outcome settles.\<close>

fun asked :: "link_output \<Rightarrow> string option" where
  "asked (Out_frame (Of_command (Relayed c))) = Some (cm_correlationId c)"
| "asked (Out_frame (Of_command (Ask_console cid _))) = Some cid"
| "asked (Out_frame (Of_player_command cid _ _)) = Some cid"
| "asked _ = None"

fun settled :: "link_output \<Rightarrow> string option" where
  "settled (Out_answer cid _) = Some cid"
| "settled (Out_failed cid Rf_no_answer) = Some cid"
| "settled (Out_failed cid Rf_link_closed) = Some cid"
| "settled _ = None"

definition count_of :: "(link_output \<Rightarrow> string option) \<Rightarrow> nat \<Rightarrow> string \<Rightarrow> (nat \<times> link_output) list \<Rightarrow> nat" where
  "count_of f i cid out = length (filter (\<lambda>p. fst p = i \<and> f (snd p) = Some cid) out)"

definition outstanding :: "session option \<Rightarrow> string \<Rightarrow> nat" where
  "outstanding found cid = (case found of None \<Rightarrow> 0
     | Some se \<Rightarrow> if cid \<in> fst ` set (se_pending se) then 1 else 0)"

definition balanced :: "site \<Rightarrow> bool" where
  "balanced s \<longleftrightarrow> (\<forall>i cid. count_of asked i cid (si_out s) =
     count_of settled i cid (si_out s) + outstanding (si_made s i) cid)"

definition session_ok :: "site \<Rightarrow> nat \<Rightarrow> session \<Rightarrow> bool" where
  "session_ok s i se \<longleftrightarrow> distinct (map fst (se_pending se)) \<and> window_ok se \<and>
     (se_gone se \<longrightarrow> se_pending se = [] \<and> se_silence se = None \<and> ready s i = Rs_closed \<and>
        si_sessions s (se_ref se) \<noteq> Some i) \<and>
     (\<not> se_gone se \<and> ready s i = Rs_open \<longrightarrow> se_silence se \<noteq> None)"

definition socket_ok :: "site \<Rightarrow> nat \<Rightarrow> socket \<Rightarrow> bool" where
  "socket_ok s i so \<longleftrightarrow> i < si_next s \<and> (so_adopted so \<longrightarrow> so_greeting so = Gr_none) \<and>
     (si_made s i \<noteq> None \<longleftrightarrow> so_adopted so \<or> (\<exists>row h. so_greeting so = Gr_made row h))"

text \<open>A socket that has closed after its session was adopted, or went with its process. Its number is not
  given again.\<close>

definition dead :: "nat \<Rightarrow> site \<Rightarrow> bool" where
  "dead i s \<longleftrightarrow> i < si_next s \<and>
     (si_sockets s i = None \<or> (\<exists>se. si_made s i = Some se \<and> se_gone se))"

definition site_ok :: "nat set \<Rightarrow> site \<Rightarrow> bool" where
  "site_ok D s \<longleftrightarrow> (\<forall>i se. si_made s i = Some se \<longrightarrow> session_ok s i se) \<and>
     (\<forall>i. si_sockets s i = None \<longrightarrow> si_made s i = None) \<and>
     (\<forall>i so. si_sockets s i = Some so \<longrightarrow> socket_ok s i so) \<and>
     (\<forall>r i. si_sessions s r = Some i \<longrightarrow> (\<exists>se. si_made s i = Some se \<and> se_ref se = r)) \<and>
     si_links s = si_sessions s \<and> balanced s \<and> (\<forall>i \<in> D. dead i s)"

lemmas site_defs = site_ok_def session_ok_def socket_ok_def ready_def dead_def

lemma count_of_simps [simp]:
  "count_of f i cid [] = 0"
  "count_of f i cid (p # out) = (if fst p = i \<and> f (snd p) = Some cid then 1 else 0) + count_of f i cid out"
  "count_of f i cid (out @ out') = count_of f i cid out + count_of f i cid out'"
  by (simp_all add: count_of_def)

text \<open>A session is replaced, with what was said meanwhile.\<close>

lemma site_ok_replace:
  assumes s: "site_ok D s" and some: "si_made s i = Some se" and ref: "se_ref se' = se_ref se"
    and ok: "session_ok s i se'" and gone: "se_gone se \<Longrightarrow> se_gone se'"
    and bal: "\<And>j cid. count_of asked j cid out = count_of settled j cid out +
      outstanding (if j = i then Some se' else si_made s j) cid"
  shows "site_ok D (s\<lparr>si_made := (si_made s)(i := Some se'), si_out := out\<rparr>)"
proof -
  let ?s = "s\<lparr>si_made := (si_made s)(i := Some se'), si_out := out\<rparr>"
  have "session_ok ?s j x = session_ok s j x" for j x by (simp add: session_ok_def ready_def)
  moreover have "socket_ok ?s j so = socket_ok s j so" for j so using some by (simp add: socket_ok_def)
  moreover have "\<exists>x. si_made ?s j = Some x \<and> se_ref x = r" if "\<exists>x. si_made s j = Some x \<and> se_ref x = r" for j r
    using that some ref by auto
  moreover have "balanced ?s" using bal by (simp add: balanced_def)
  moreover have "dead j ?s" if "dead j s" for j using that some gone by (auto simp: dead_def)
  ultimately show ?thesis using s some ok unfolding site_ok_def by auto
qed

lemma site_ok_balanced: "site_ok D s \<Longrightarrow> count_of asked j cid (si_out s) =
    count_of settled j cid (si_out s) + outstanding (si_made s j) cid"
  by (simp add: site_ok_def balanced_def)

lemma site_ok_session_ok: "site_ok D s \<Longrightarrow> si_made s i = Some se \<Longrightarrow> session_ok s i se"
  by (simp add: site_ok_def)

lemma site_ok_quietly:
  assumes s: "site_ok D s" and some: "si_made s i = Some se" and ref: "se_ref se' = se_ref se"
    and ok: "session_ok s i se'" and gone: "se_gone se \<Longrightarrow> se_gone se'"
    and pending: "se_pending se' = se_pending se"
  shows "site_ok D (s\<lparr>si_made := (si_made s)(i := Some se')\<rparr>)"
proof -
  have "site_ok D (s\<lparr>si_made := (si_made s)(i := Some se'), si_out := si_out s\<rparr>)"
    by (rule site_ok_replace [OF s some ref ok gone])
      (simp_all add: site_ok_balanced [OF s] some outstanding_def pending)
  then show ?thesis by simp
qed

lemma site_ok_world [simp]: "site_ok D (s\<lparr>si_world := w\<rparr>) = site_ok D s"
  by (simp add: site_defs balanced_def)

lemma site_ok_cong:
  "si_sockets s = si_sockets s' \<Longrightarrow> si_made s = si_made s' \<Longrightarrow> si_sessions s = si_sessions s' \<Longrightarrow>
   si_links s = si_links s' \<Longrightarrow> si_out s = si_out s' \<Longrightarrow> si_next s = si_next s' \<Longrightarrow> site_ok D s = site_ok D s'"
  by (simp add: site_defs balanced_def)

lemma keeps_on_world [triple_intros]: "keeps (site_ok D) (on_world m)"
  by (simp add: triple_def)

lemma keeps_update_row [triple_intros]: "keeps (site_ok D) (update_row fid p)"
  by (simp add: update_row_def keeps_on_world)

text \<open>An update of a session the invariant does not notice.\<close>

definition plain :: "(session \<Rightarrow> session) \<Rightarrow> bool" where
  "plain f \<longleftrightarrow> (\<forall>se. se_ref (f se) = se_ref se \<and> se_pending (f se) = se_pending se \<and>
     se_gone (f se) = se_gone se \<and> se_silence (f se) = se_silence se \<and>
     (window_ok se \<longrightarrow> window_ok (f se)))"

lemma site_ok_session:
  assumes "site_ok D s" and "plain f"
  shows "site_ok D (s\<lparr>si_made := (si_made s)(i := map_option f (si_made s i))\<rparr>)"
proof (cases "si_made s i")
  case None
  with assms show ?thesis by (simp add: fun_upd_idem)
next
  case (Some se)
  have "site_ok D (s\<lparr>si_made := (si_made s)(i := Some (f se))\<rparr>)"
    by (rule site_ok_quietly [OF assms(1) Some])
      (use site_ok_session_ok [OF assms(1) Some] assms(2) in \<open>auto simp: plain_def session_ok_def\<close>)
  with Some show ?thesis by simp
qed

lemma keeps_on_session: "plain f \<Longrightarrow> keeps (site_ok D) (on_session i f)"
  by (simp add: triple_def site_ok_session)

lemma keeps_with_session [triple_intros]:
  "(\<And>se. keeps P (f se)) \<Longrightarrow> keeps P (with_session i d f)"
  unfolding with_session_def by (intro triple_intros)

lemma keeps_with_socket [triple_intros]:
  "(\<And>so. keeps P (f so)) \<Longrightarrow> keeps P (with_socket i f)"
  unfolding with_socket_def by (intro triple_intros)

lemma site_ok_resocket:
  assumes s: "site_ok D s" and so: "si_sockets s i = Some so" and ok: "socket_ok s i so'"
    and se: "\<And>se. si_made s i = Some se \<Longrightarrow>
      (se_gone se \<longrightarrow> so_ready so' = Rs_closed) \<and> (\<not> se_gone se \<and> so_ready so' = Rs_open \<longrightarrow> se_silence se \<noteq> None)"
  shows "site_ok D (s\<lparr>si_sockets := (si_sockets s)(i := Some so')\<rparr>)"
proof -
  let ?s = "s\<lparr>si_sockets := (si_sockets s)(i := Some so')\<rparr>"
  have rdy: "ready ?s j = (if j = i then so_ready so' else ready s j)" for j by (simp add: ready_def)
  have "session_ok ?s j x" if "si_made s j = Some x" for j x
    using site_ok_session_ok [OF s that] se that
    by (cases "j = i") (auto simp: session_ok_def rdy)
  moreover have "socket_ok ?s j x = socket_ok s j x" for j x by (simp add: socket_ok_def)
  moreover have "balanced ?s = balanced s" by (simp add: balanced_def)
  moreover have "dead j ?s = dead j s" for j using so by (auto simp: dead_def)
  ultimately show ?thesis using s so ok unfolding site_ok_def by auto
qed

lemma site_ok_socket:
  assumes "site_ok D s" and "\<And>so. so_ready (f so) = so_ready so \<and> so_greeting (f so) = so_greeting so \<and>
    so_adopted (f so) = so_adopted so"
  shows "site_ok D (s\<lparr>si_sockets := (si_sockets s)(i := map_option f (si_sockets s i))\<rparr>)"
proof (cases "si_sockets s i")
  case None
  with assms(1) show ?thesis by (simp add: fun_upd_idem)
next
  case (Some so)
  moreover have "socket_ok s i so" using assms(1) Some by (simp add: site_ok_def)
  ultimately show ?thesis using assms site_ok_session_ok [OF assms(1), of i]
    by (auto simp: socket_ok_def session_ok_def ready_def intro!: site_ok_resocket [OF assms(1) Some])
qed

lemma keeps_on_socket:
  "(\<And>so. so_ready (f so) = so_ready so \<and> so_greeting (f so) = so_greeting so \<and>
     so_adopted (f so) = so_adopted so) \<Longrightarrow> keeps (site_ok D) (on_socket i f)"
  by (simp add: triple_def site_ok_socket)

lemma keeps_say: "asked out = None \<Longrightarrow> settled out = None \<Longrightarrow> keeps (site_ok D) (say i out)"
  by (simp add: triple_def site_defs balanced_def)

lemma keeps_write: "asked (Out_frame frame) = None \<Longrightarrow> keeps (site_ok D) (link_write i frame)"
  unfolding link_write_def by (intro triple_intros keeps_say) simp_all

text \<open>Leaving the open state.\<close>

lemma site_ok_leaving:
  assumes "site_ok D s" and "ready s i \<noteq> Rs_closed"
  shows "site_ok D (s\<lparr>si_sockets := (si_sockets s)(i := map_option (\<lambda>so. so\<lparr>so_ready := Rs_closing\<rparr>) (si_sockets s i))\<rparr>)"
proof -
  obtain so where so: "si_sockets s i = Some so" using assms(2) by (auto simp: ready_def split: option.splits)
  then have "socket_ok s i so" using assms(1) by (simp add: site_ok_def)
  with so assms(2) site_ok_session_ok [OF assms(1), of i] show ?thesis
    by (auto simp: socket_ok_def session_ok_def intro!: site_ok_resocket [OF assms(1) so])
qed

lemma site_ok_said:
  "site_ok D s \<Longrightarrow> asked out = None \<Longrightarrow> settled out = None \<Longrightarrow> site_ok D (s\<lparr>si_out := (i, out) # si_out s\<rparr>)"
  using tripleD [OF keeps_say [of out D i]] by simp

lemma keeps_close_socket [triple_intros]: "keeps (site_ok D) (close_socket i code)"
  using site_ok_said [OF site_ok_leaving, of D _ i "Out_close (LINK_CLOSE_CODES code)" i]
  by (simp add: close_socket_def triple_def)

lemma keeps_terminate [triple_intros]: "keeps (site_ok D) (terminate_socket i)"
  using site_ok_said [OF site_ok_leaving, of D _ i Out_terminate i]
  by (simp add: terminate_socket_def triple_def)

subsection \<open>The operations keep it\<close>

lemma site_ok_watched:
  assumes "site_ok D s" and "si_made s i = Some se" and "\<not> se_gone se"
  shows "site_ok D (s\<lparr>si_made := (si_made s)(i := Some (se\<lparr>se_silence := Some t\<rparr>))\<rparr>)"
  using site_ok_session_ok [OF assms(1,2)] assms(3)
  by (intro site_ok_quietly [OF assms(1,2)]) (auto simp: session_ok_def window_ok_def)

lemma keeps_seen [triple_intros]: "keeps (site_ok D) (seen C i)"
proof (rule tripleI)
  fix s assume s: "site_ok D s"
  show "site_ok D (after (seen C i) s)"
  proof (cases "si_made s i")
    case None
    with s show ?thesis by (simp add: seen_def run_with_session)
  next
    case (Some se)
    let ?t = "w_now (si_world s)"
    have armed: "site_ok D (s\<lparr>si_made := (si_made s)(i := Some (se\<lparr>se_silence := Some (?t + silence_ms C)\<rparr>))\<rparr>)"
      if "\<not> se_gone se" by (rule site_ok_watched [OF s Some that])
    have "plain (\<lambda>se. se\<lparr>se_lastSeenWrittenAt := ?t\<rparr>)" by (simp add: plain_def window_ok_def)
    from site_ok_session [OF armed this, of i] armed s Some show ?thesis
      by (simp add: seen_def run_with_session armSilence_def update_row_def)
  qed
qed

lemma site_ok_asked:
  assumes "site_ok D s" and "si_made s i = Some se" and "cid \<notin> fst ` set (se_pending se)"
    and "ready s i = Rs_open" and "asked (Out_frame frame) = Some cid"
  shows "site_ok D (s\<lparr>si_made := (si_made s)(i := Some (se\<lparr>se_pending := se_pending se @ [(cid, want, by)]\<rparr>)),
    si_out := (i, Out_frame frame) # si_out s\<rparr>)"
  using site_ok_session_ok [OF assms(1,2)] assms(3-5)
  by (intro site_ok_replace [OF assms(1,2)])
    (auto simp: session_ok_def window_ok_def outstanding_def site_ok_balanced [OF assms(1)] assms(2))

lemma keeps_ask: "asked (Out_frame frame) = Some cid \<Longrightarrow> keeps (site_ok D) (ask C i cid frame want)"
proof (rule tripleI)
  fix s assume frame: "asked (Out_frame frame) = Some cid" and s: "site_ok D s"
  have said: "site_ok D (s\<lparr>si_out := (i, Out_failed cid f) # si_out s\<rparr>)" if "f = Rf_closed \<or> f = Rf_in_flight" for f
    using tripleD [OF keeps_say [of "Out_failed cid f" D i] s] that by auto
  show "site_ok D (after (ask C i cid frame want) s)"
  proof (cases "si_made s i")
    case None
    with s said show ?thesis by (simp add: ask_def run_with_session)
  next
    case (Some se)
    have "ready (s\<lparr>si_made := m\<rparr>) i = ready s i" for m by (simp add: ready_def)
    with site_ok_asked [OF s Some _ _ frame] s said Some show ?thesis
      by (simp add: ask_def run_with_session link_write_def)
  qed
qed

lemma plain_updates [simp]:
  "plain (\<lambda>se. se\<lparr>se_correlation := a (se_correlation se)\<rparr>)" "plain (\<lambda>se. se\<lparr>se_tail := b\<rparr>)"
  "plain (\<lambda>se. se\<lparr>se_lastDetail := c\<rparr>)" "plain (\<lambda>se. se\<lparr>se_lastSeenWrittenAt := d\<rparr>)"
  "plain (\<lambda>se. se\<lparr>se_linkState := e, se_currentMap := f (se_currentMap se)\<rparr>)"
  "plain (\<lambda>se. se\<lparr>se_row := g, se_match := h\<rparr>)"
  by (simp_all add: plain_def window_ok_def)

lemma plain_noted [simp]: "plain (\<lambda>se. se\<lparr>se_linkState := e, se_currentMap := x\<rparr>)"
  by (simp add: plain_def window_ok_def)

lemma keeps_mintCorrelationId [triple_intros]: "keeps (site_ok D) (mintCorrelationId i)"
  unfolding mintCorrelationId_def by (intro triple_intros keeps_on_session) simp_all

lemma keeps_channel_request [triple_intros]: "keeps (site_ok D) (channel_request C i rq)"
  unfolding channel_request_def
  by (cases rq) (auto intro!: triple_intros keeps_say keeps_ask)

lemma keeps_cacheTail [triple_intros]: "keeps (site_ok D) (cacheTail i n lines)"
  unfolding cacheTail_def by (intro triple_intros keeps_on_session) simp

lemma keeps_relayPush [triple_intros]: "keeps (site_ok D) (relayPush C i mid p push)"
  unfolding relayPush_def by (intro triple_intros keeps_say) simp_all

lemma pending_dropped:
  "fst ` set (map_delete cid xs) = fst ` set xs - {cid}"
  "distinct (map fst xs) \<Longrightarrow> distinct (map fst (map_delete cid xs))"
  by (auto simp: map_delete_def distinct_map_filter)

lemma asked_key: "map_of xs k = Some v \<Longrightarrow> k \<in> fst ` set xs"
  by (metis map_of_eq_None_iff option.distinct(1))

lemma site_ok_settled:
  assumes "site_ok D s" and "si_made s i = Some se" and "map_of (se_pending se) cid = Some v"
    and "asked out = None" "settled out = Some cid"
  shows "site_ok D (s\<lparr>si_made := (si_made s)(i := Some (drop_pending cid se)), si_out := (i, out) # si_out s\<rparr>)"
  using site_ok_session_ok [OF assms(1,2)] asked_key [OF assms(3)] assms(4,5)
  by (intro site_ok_replace [OF assms(1,2)])
    (auto simp: session_ok_def window_ok_def outstanding_def drop_pending_def pending_dropped
      site_ok_balanced [OF assms(1)] assms(2))

lemma keeps_link_answer [triple_intros]: "keeps (site_ok D) (link_answer i frame)"
proof -
  have settle: "keeps (site_ok D) (with_session i False (\<lambda>se. case map_of (se_pending se) cid of
      None \<Rightarrow> State_Monad.return False
    | Some (want, _) \<Rightarrow> if want \<noteq> kind then State_Monad.return False
        else do { on_session i (drop_pending cid); say i (Out_answer cid frame); State_Monad.return True }))"
    for cid kind
    using site_ok_settled [of D _ i _ cid _ "Out_answer cid frame"]
    by (auto simp: triple_def run_with_session split: option.split prod.split)
  show ?thesis unfolding link_answer_def
    by (intro triple_intros settle) (auto intro!: triple_intros split: server_frame.split)
qed

lemma keeps_no_answer [triple_intros]: "keeps (site_ok D) (no_answer i cid)"
  using site_ok_settled [of D _ i _ cid _ "Out_failed cid Rf_no_answer"]
  by (auto simp: no_answer_def triple_def run_with_session split: option.split prod.split)

lemma keeps_noteState [triple_intros]: "keeps (site_ok D) (noteState i st mp)"
  unfolding noteState_def Let_def by (intro triple_intros keeps_on_session) simp

lemma keeps_ingest_events: "keeps (site_ok D) (ingest_events e i evs)"
proof (rule tripleI)
  fix s assume s: "site_ok D s"
  show "site_ok D (after (ingest_events e i evs) s)"
  proof (cases "si_made s i")
    case None
    have "after (ingest_events e i evs) s = s"
    proof (induction evs)
      case (Cons p evs)
      with None show ?case by (simp add: ingest_one_def run_with_session split_beta Let_def)
    qed simp
    with s show ?thesis by simp
  next
    case (Some se)
    have "window_ok se" using s Some by (simp add: site_ok_def session_ok_def)
    then obtain se' acks w where "after (ingest_events e i evs) s =
        s\<lparr>si_world := w, si_made := (si_made s)(i := Some se')\<rparr>" "window_ok se'" "same_but_taken se se'"
      using ingest_events_reference [OF Some, of e evs] unfolding refines_def by fastforce
    moreover from this(2,3) have "site_ok D (s\<lparr>si_made := (si_made s)(i := Some se')\<rparr>)"
      using site_ok_session_ok [OF s Some]
      by (intro site_ok_quietly [OF s Some]) (auto simp: same_but_taken_def session_ok_def)
    moreover have "site_ok D (s\<lparr>si_world := w, si_made := m\<rparr>) = site_ok D (s\<lparr>si_made := m\<rparr>)" for m
      by (simp add: site_defs balanced_def)
    ultimately show ?thesis by (simp only:)
  qed
qed

lemma keeps_ingestBatch [triple_intros]: "keeps (site_ok D) (ingestBatch e i evs)"
  unfolding ingestBatch_def
  by (intro triple_intros keeps_ingest_events keeps_on_session keeps_write) simp_all

lemma keeps_touch_ref [triple_intros]: "keeps (site_ok D) (touch_ref C i)"
  unfolding touch_ref_def by (intro triple_intros)

lemma keeps_link_handle [triple_intros]: "keeps (site_ok D) (link_handle C i frame)"
  unfolding link_handle_def
  by (cases frame) (auto intro!: triple_intros keeps_on_session)


subsection \<open>A closed session, a greeting\<close>

lemma fail_pending_counts:
  assumes "distinct (map fst (se_pending se))"
  shows "count_of asked j cid (fail_pending i se) = 0"
    and "count_of settled j cid (fail_pending i se) = (if j = i then outstanding (Some se) cid else 0)"
proof -
  have "distinct (map fst xs) \<Longrightarrow> length (filter (\<lambda>p. fst p = cid) xs) = (if cid \<in> fst ` set xs then 1 else 0)"
    for xs :: "(string \<times> answer_kind \<times> instant) list"
    by (induction xs) (auto simp: filter_empty_conv rev_image_eqI)
  from this [OF assms] show "count_of settled j cid (fail_pending i se) =
      (if j = i then outstanding (Some se) cid else 0)"
    by (auto simp: fail_pending_def count_of_def outstanding_def rev_map [symmetric] rev_filter [symmetric]
        filter_map comp_def)
  show "count_of asked j cid (fail_pending i se) = 0"
    by (simp add: fail_pending_def count_of_def filter_empty_conv)
qed

text \<open>A registration is dropped.\<close>

lemma site_ok_unregistered:
  assumes "site_ok D s"
  shows "site_ok D (s\<lparr>si_sessions := (si_sessions s)(r := None), si_links := (si_links s)(r := None)\<rparr>)"
  using assms unfolding site_ok_def
  by (auto simp: session_ok_def socket_ok_def ready_def balanced_def dead_def)

lemma site_ok_closed:
  assumes s: "site_ok D s" and closed: "ready s i = Rs_closed"
  shows "site_ok D (after (session_closed i) s)"
    and "si_made s i = Some se \<Longrightarrow> \<exists>se'. si_made (after (session_closed i) s) i = Some se' \<and> se_gone se'"
proof -
  have "site_ok D (after (session_closed i) s) \<and>
      (si_made s i = Some se \<longrightarrow> (\<exists>se'. si_made (after (session_closed i) s) i = Some se' \<and> se_gone se'))"
  proof (cases "si_made s i")
    case None
    with s show ?thesis by (simp add: session_closed_def run_with_session)
  next
    case (Some x)
    let ?x = "x\<lparr>se_gone := True, se_silence := None, se_pending := []\<rparr>"
    let ?out = "fail_pending i x @ si_out s"
    have x: "session_ok s i x" by (rule site_ok_session_ok [OF s Some])
    have links: "si_links s = si_sessions s" using s by (simp add: site_ok_def)
    note counts = fail_pending_counts [of x _ _ i] site_ok_balanced [OF s] Some
    show ?thesis
    proof (cases "si_sessions s (se_ref x) = Some i")
      case True
      let ?s = "s\<lparr>si_sessions := (si_sessions s)(se_ref x := None),
        si_links := (si_links s)(se_ref x := None)\<rparr>"
      have "site_ok D ?s" by (rule site_ok_unregistered [OF s])
      moreover have "session_ok ?s i ?x"
        using x closed by (auto simp: session_ok_def window_ok_def ready_def)
      ultimately have kept: "site_ok D (?s\<lparr>si_made := (si_made s)(i := Some ?x), si_out := ?out\<rparr>)"
        using site_ok_replace [of D ?s i x ?x ?out] Some x counts
        by (auto simp: session_ok_def outstanding_def)
      have order: "s\<lparr>si_out := p, si_made := m, si_sessions := a, si_links := b\<rparr> =
          s\<lparr>si_sessions := a, si_links := b, si_made := m, si_out := p\<rparr>" for p m a b by simp
      from kept True Some links show ?thesis
        by (simp add: session_closed_def run_with_session order)
    next
      case False
      have "session_ok s i ?x"
        using x closed False by (auto simp: session_ok_def window_ok_def)
      then have "site_ok D (s\<lparr>si_made := (si_made s)(i := Some ?x), si_out := ?out\<rparr>)"
        using site_ok_replace [of D s i x ?x ?out] s Some x counts
        by (auto simp: session_ok_def outstanding_def)
      moreover have order: "s\<lparr>si_out := p, si_made := m\<rparr> = s\<lparr>si_made := m, si_out := p\<rparr>" for m p by simp
      ultimately show ?thesis using False Some
        by (simp add: session_closed_def run_with_session order)
    qed
  qed
  then show "site_ok D (after (session_closed i) s)"
    and "si_made s i = Some se \<Longrightarrow> \<exists>se'. si_made (after (session_closed i) s) i = Some se' \<and> se_gone se'"
    by auto
qed

lemma keeps_on_close [triple_intros]: "keeps (site_ok D) (on_close i)"
proof (rule tripleI)
  fix s assume s: "site_ok D s"
  show "site_ok D (after (on_close i) s)"
  proof (cases "si_sockets s i")
    case None
    with s show ?thesis by (simp add: on_close_def run_with_socket)
  next
    case (Some so)
    let ?so = "so\<lparr>so_ready := Rs_closed, so_helloBy := None\<rparr>"
    let ?s = "s\<lparr>si_sockets := (si_sockets s)(i := Some ?so)\<rparr>"
    have "socket_ok s i so" using s Some by (simp add: site_ok_def)
    then have ok: "site_ok D ?s"
      by (intro site_ok_resocket [OF s Some]) (auto simp: socket_ok_def)
    have "ready ?s i = Rs_closed" by (simp add: ready_def)
    from site_ok_closed(1) [OF ok this] ok s Some show ?thesis
      by (simp add: on_close_def run_with_socket)
  qed
qed

text \<open>Only the ready state of the socket and the timer change when the silence ends.\<close>

lemma keeps_onSilent [triple_intros]: "keeps (site_ok D) (onSilent C i)"
proof (rule tripleI)
  fix s assume s: "site_ok D s"
  show "site_ok D (after (onSilent C i) s)"
  proof (cases "si_made s i")
    case None
    with s show ?thesis by (simp add: onSilent_def run_with_session)
  next
    case (Some se)
    let ?se = "se\<lparr>se_silence := None\<rparr>"
    have se: "session_ok s i se" by (rule site_ok_session_ok [OF s Some])
    obtain so where so: "si_sockets s i = Some so"
      using s Some by (cases "si_sockets s i") (auto simp: site_ok_def)
    let ?detail = "''link silent for '' @ decimal (silence_ms C) @ '' ms''"
    have "\<exists>w. after (onSilent C i) s =
        after (terminate_socket i) (s\<lparr>si_world := w, si_made := (si_made s)(i := Some ?se)\<rparr>)"
    proof (cases "se_match se = None \<or> se_match se = Some ''''")
      case True
      with Some show ?thesis
        by (intro exI [of _ "si_world s"]) (auto simp: onSilent_def run_with_session case_prod_beta)
    next
      case False
      then obtain mid where "se_match se = Some mid" "mid \<noteq> ''''" by auto
      have order: "s\<lparr>si_made := m, si_world := w\<rparr> = s\<lparr>si_world := w, si_made := m\<rparr>" for m w by simp
      from \<open>se_match se = Some mid\<close> \<open>mid \<noteq> ''''\<close> Some show ?thesis
        by (intro exI [of _ "after (suspect (li_machine C) mid ?detail) (si_world s)"])
          (simp add: onSilent_def run_with_session case_prod_beta order)
    qed
    then obtain w where after: "after (onSilent C i) s =
        after (terminate_socket i) (s\<lparr>si_world := w, si_made := (si_made s)(i := Some ?se)\<rparr>)" ..
    show ?thesis
    proof (cases "so_ready so = Rs_closed")
      case True
      then have "session_ok s i ?se" using se so by (auto simp: session_ok_def window_ok_def ready_def)
      then have "site_ok D (s\<lparr>si_made := (si_made s)(i := Some ?se)\<rparr>)"
        by (intro site_ok_quietly [OF s Some]) simp_all
      then have "site_ok D (s\<lparr>si_world := w, si_made := (si_made s)(i := Some ?se)\<rparr>)"
        by (simp add: site_defs balanced_def)
      with after show ?thesis using tripleD [OF keeps_terminate] by simp
    next
      case False
      let ?so = "so\<lparr>so_ready := Rs_closing\<rparr>"
      have "socket_ok s i so" using s so by (simp add: site_ok_def)
      then have s1: "site_ok D (s\<lparr>si_sockets := (si_sockets s)(i := Some ?so)\<rparr>)" (is "site_ok D ?s1")
        using se False so Some by (intro site_ok_resocket [OF s so]) (auto simp: socket_ok_def session_ok_def ready_def)
      have "session_ok ?s1 i ?se" using se False so by (auto simp: session_ok_def window_ok_def ready_def)
      then have "site_ok D (?s1\<lparr>si_made := (si_made s)(i := Some ?se)\<rparr>)"
        using site_ok_quietly [OF s1, of i se ?se] Some by simp
      from site_ok_said [OF this, of Out_terminate i] show ?thesis
        unfolding after using so False
        by (simp add: terminate_socket_def ready_def site_defs balanced_def)
    qed
  qed
qed


text \<open>A socket in a phase of its greeting.\<close>

definition greeting_at :: "nat set \<Rightarrow> nat \<Rightarrow> greeting \<Rightarrow> site \<Rightarrow> bool" where
  "greeting_at D i g s \<longleftrightarrow> site_ok D s \<and>
     (\<exists>so. si_sockets s i = Some so \<and> so_greeting so = g \<and> \<not> so_adopted so)"

lemma greeting_other:
  "keeps (site_ok D) m \<Longrightarrow> (\<And>s. si_sockets (after m s) = si_sockets s) \<Longrightarrow> keeps (greeting_at D i g) m"
  by (simp add: triple_def greeting_at_def)

lemma greeting_world: "keeps (greeting_at D i g) (on_world m)"
  by (rule greeting_other [OF keeps_on_world]) simp

lemma greeting_write: "asked (Out_frame f) = None \<Longrightarrow> keeps (greeting_at D i g) (link_write j f)"
  by (rule greeting_other [OF keeps_write]) (simp_all add: link_write_def)

lemma greeting_close: "keeps (greeting_at D i g) (close_socket j code)"
proof (rule tripleI)
  fix s assume s: "greeting_at D i g s"
  then have "site_ok D (after (close_socket j code) s)"
    using tripleD [OF keeps_close_socket] by (simp add: greeting_at_def)
  with s show "greeting_at D i g (after (close_socket j code) s)"
    by (auto simp: greeting_at_def close_socket_def)
qed

lemma keeps_greet_lookup: "triple (greeting_at D i Gr_none) (greet_lookup C i h) (\<lambda>_. site_ok D)"
proof -
  have weaken: "keeps (greeting_at D i Gr_none) m \<Longrightarrow> triple (greeting_at D i Gr_none) m (\<lambda>_. site_ok D)"
    for m :: "unit act"
    by (auto simp: triple_def greeting_at_def)
  have found: "triple (greeting_at D i Gr_none) (on_socket i (\<lambda>so. so\<lparr>so_greeting := Gr_found row t h\<rparr>))
      (\<lambda>_. site_ok D)" for row t
  proof (rule tripleI)
    fix s assume "greeting_at D i Gr_none s"
    then obtain so where s: "site_ok D s" and so: "si_sockets s i = Some so" "so_greeting so = Gr_none" "\<not> so_adopted so"
      by (auto simp: greeting_at_def)
    have "socket_ok s i so" using s so(1) by (simp add: site_ok_def)
    with so have "si_made s i = None" by (simp add: socket_ok_def)
    with s so \<open>socket_ok s i so\<close> show "site_ok D (after (on_socket i (\<lambda>so. so\<lparr>so_greeting := Gr_found row t h\<rparr>)) s)"
      by (simp, intro site_ok_resocket [OF s so(1)]) (auto simp: socket_ok_def)
  qed
  show ?thesis unfolding greet_lookup_def
    by (intro triple_intros weaken [OF greeting_close] weaken [OF keeps_skip] greeting_close keeps_gets found)
qed

lemma site_ok_made:
  assumes s: "site_ok D s" and so: "si_sockets s i = Some so" "so_greeting so = Gr_found row' t h'"
    and se: "se_pending se = []" "\<not> se_gone se" "se_silence se \<noteq> None" "window_ok se" "se_ref se = r"
  shows "site_ok D (s\<lparr>si_sockets := (si_sockets s)(i := Some (so\<lparr>so_greeting := Gr_made row h\<rparr>)),
    si_made := (si_made s)(i := Some se), si_sessions := (si_sessions s)(r := Some i),
    si_links := (si_links s)(r := Some i)\<rparr>)"
proof -
  let ?s = "s\<lparr>si_sockets := (si_sockets s)(i := Some (so\<lparr>so_greeting := Gr_made row h\<rparr>)),
    si_made := (si_made s)(i := Some se), si_sessions := (si_sessions s)(r := Some i),
    si_links := (si_links s)(r := Some i)\<rparr>"
  have sock: "socket_ok s i so" using s so(1) by (simp add: site_ok_def)
  with so(2) have none: "si_made s i = None" "\<not> so_adopted so" by (auto simp: socket_ok_def)
  have "session_ok ?s j x" if "si_made ?s j = Some x" for j x
  proof (cases "j = i")
    case True
    with that se show ?thesis by (simp add: session_ok_def)
  next
    case False
    with that have "session_ok s j x" using site_ok_session_ok [OF s] by simp
    with False show ?thesis by (auto simp: session_ok_def ready_def)
  qed
  moreover have "socket_ok ?s j x" if "si_sockets ?s j = Some x" for j x
    using that sock none s by (cases "j = i") (auto simp: socket_ok_def site_ok_def)
  moreover have "balanced ?s"
    using site_ok_balanced [OF s] none se(1) by (auto simp: balanced_def outstanding_def)
  moreover have "\<exists>x. si_made ?s j = Some x \<and> se_ref x = q" if "si_sessions ?s q = Some j" for q j
  proof (cases "q = r")
    case False
    with that have "si_sessions s q = Some j" by simp
    with s have "\<exists>x. si_made s j = Some x \<and> se_ref x = q" unfolding site_ok_def by blast
    with none show ?thesis by auto
  qed (use that se(5) in simp)
  moreover have "si_sockets ?s j = None \<Longrightarrow> si_made ?s j = None" for j
    using s by (auto simp: site_ok_def split: if_splits)
  moreover have "dead j ?s" if "dead j s" for j using that none so(1) by (auto simp: dead_def)
  ultimately show ?thesis using s unfolding site_ok_def by auto
qed

lemma window_ok_created: "window_ok (createSession row acked installed t)"
  by (simp add: window_ok_def createSession_def)

lemma keeps_greet_make: "triple (greeting_at D i (Gr_found row t h)) (greet_make C i row t h) (\<lambda>_. site_ok D)"
proof (rule tripleI)
  fix s assume "greeting_at D i (Gr_found row t h) s"
  then obtain so where s: "site_ok D s" and so: "si_sockets s i = Some so" "so_greeting so = Gr_found row t h"
    by (auto simp: greeting_at_def)
  let ?acked = "min (s_linkAckedSeq row) (he_lastSeq h)"
  let ?greets = "Out_frame (Of_welcome (row_ref row) (li_heartbeatIntervalMs C) ?acked)"
  let ?se = "\<lambda>at due. (createSession row ?acked (he_plugins h) at)\<lparr>se_silence := Some due\<rparr>"
  let ?s = "\<lambda>at due. s\<lparr>si_sockets := (si_sockets s)(i := Some (so\<lparr>so_greeting := Gr_made row h\<rparr>)),
    si_made := (si_made s)(i := Some (?se at due)), si_sessions := (si_sessions s)(row_ref row := Some i),
    si_links := (si_links s)(row_ref row := Some i)\<rparr>"
  have made: "site_ok D (?s at due)" for at due
    by (rule site_ok_made [OF s so]) (simp_all add: createSession_def window_ok_def)
  let ?s' = "after (greet_make C i row t h) s"
  obtain at due where after: "si_sockets ?s' = si_sockets (?s at due)" "si_made ?s' = si_made (?s at due)"
    "si_sessions ?s' = si_sessions (?s at due)" "si_links ?s' = si_links (?s at due)" "si_next ?s' = si_next s"
    "si_out ?s' = (if so_ready so = Rs_open then (i, ?greets) # si_out s else si_out s)"
    using so(1) by (simp add: greet_make_def Let_def update_row_def armSilence_def link_write_def ready_def)
  show "site_ok D ?s'"
  proof (cases "so_ready so = Rs_open")
    case True
    with after show ?thesis
      by (intro iffD1 [OF site_ok_cong site_ok_said [OF made [of due at], of ?greets i]]) simp_all
  next
    case False
    with after show ?thesis by (intro iffD1 [OF site_ok_cong made [of due at]]) simp_all
  qed
qed

lemma keeps_greet_assign: "triple (greeting_at D i (Gr_made row h)) (greet_assign C i row h) (\<lambda>_. site_ok D)"
proof -
  have adopt: "triple (greeting_at D i (Gr_made row h))
      (on_socket i (\<lambda>so. so\<lparr>so_greeting := Gr_none, so_adopted := True, so_helloBy := None\<rparr>)) (\<lambda>_. site_ok D)"
  proof (rule tripleI)
    fix s assume "greeting_at D i (Gr_made row h) s"
    then obtain so where s: "site_ok D s" and so: "si_sockets s i = Some so" "so_greeting so = Gr_made row h"
      by (auto simp: greeting_at_def)
    let ?so = "so\<lparr>so_greeting := Gr_none, so_adopted := True, so_helloBy := None\<rparr>"
    have "socket_ok s i so" using s so(1) by (simp add: site_ok_def)
    with so have "socket_ok s i ?so" by (auto simp: socket_ok_def)
    then have "site_ok D (s\<lparr>si_sockets := (si_sockets s)(i := Some ?so)\<rparr>)"
      by (rule site_ok_resocket [OF s so(1)])
        (use so site_ok_session_ok [OF s, of i] in \<open>auto simp: session_ok_def ready_def\<close>)
    with so show "site_ok D (after (on_socket i (\<lambda>so. so\<lparr>so_greeting := Gr_none, so_adopted := True,
        so_helloBy := None\<rparr>)) s)" by simp
  qed
  have send: "keeps (greeting_at D i (Gr_made row h)) (sendAssignment C i ps)" for ps
    unfolding sendAssignment_def by (intro triple_intros greeting_world greeting_write) simp
  show ?thesis unfolding greet_assign_def
    by (intro triple_bind [OF _ adopt] triple_if send greeting_world)
qed


subsection \<open>Every run of the site\<close>

lemma keeps_open_socket [triple_intros]: "keeps (site_ok D) (open_socket C)"
proof (rule tripleI)
  fix s assume s: "site_ok D s"
  show "site_ok D (after (open_socket C) s)"
  proof (cases "si_closing s")
    case True
    with s show ?thesis by (simp add: open_socket_def)
  next
    case False
    let ?i = "si_next s"
    let ?so = "\<lparr>so_ready = Rs_open, so_chain = [], so_greeting = Gr_none, so_adopted = False,
      so_helloBy = Some (w_now (si_world s) + int (li_helloTimeoutMs C))\<rparr>"
    let ?s = "s\<lparr>si_sockets := (si_sockets s)(?i := Some ?so), si_next := Suc ?i\<rparr>"
    have "si_sockets s ?i = None"
    proof (cases "si_sockets s ?i")
      case (Some so)
      with s have "socket_ok s ?i so" by (simp add: site_ok_def)
      then show ?thesis by (simp add: socket_ok_def)
    qed
    with s have none: "si_made s ?i = None" by (simp add: site_ok_def)
    have "session_ok ?s j x" if "si_made ?s j = Some x" for j x
      using that none site_ok_session_ok [OF s, of j x] by (cases "j = ?i") (simp_all add: session_ok_def ready_def)
    moreover have "socket_ok ?s j x" if "si_sockets ?s j = Some x" for j x
      using that none s by (cases "j = ?i") (auto simp: socket_ok_def site_ok_def less_Suc_eq)
    moreover have "balanced ?s = balanced s" by (simp add: balanced_def)
    moreover have "dead j ?s" if "dead j s" for j using that by (auto simp: dead_def)
    ultimately have "site_ok D ?s" using s unfolding site_ok_def by auto
    with False show ?thesis by (intro iffD1 [OF site_ok_cong \<open>site_ok D ?s\<close>]) (simp_all add: open_socket_def)
  qed
qed

lemma keeps_push_chain [triple_intros]: "keeps (site_ok D) (push_chain i entry)"
  unfolding push_chain_def by (rule keeps_on_socket) simp

lemma keeps_on_message [triple_intros]: "keeps (site_ok D) (on_message C i raw)"
  unfolding on_message_def by (cases raw) (auto intro!: triple_intros)

lemma keeps_handle_or_close [triple_intros]: "keeps (site_ok D) (handle_or_close C i frame)"
  unfolding handle_or_close_def by (intro triple_intros)

lemma keeps_late_frame [triple_intros]: "keeps (site_ok D) (late_frame C i frame)"
  unfolding late_frame_def by (intro triple_intros)

text \<open>The phase of the greeting decides which step the chain takes.\<close>

lemma keeps_chain_step [triple_intros]: "keeps (site_ok D) (chain_step C i)"
proof (rule tripleI)
  fix s assume s: "site_ok D s"
  show "site_ok D (after (chain_step C i) s)"
  proof (cases "si_sockets s i")
    case None
    with s show ?thesis by (simp add: chain_step_def run_with_socket)
  next
    case (Some so)
    have sock: "socket_ok s i so" using s Some by (simp add: site_ok_def)
    have at: "greeting_at D i (so_greeting so) s" if "\<not> so_adopted so"
      using s Some that by (simp add: greeting_at_def)
    show ?thesis
    proof (cases "so_greeting so")
      case (Gr_found row t h)
      then have "\<not> so_adopted so" using sock by (auto simp: socket_ok_def)
      with at Gr_found Some tripleD [OF keeps_greet_make] show ?thesis
        by (simp add: chain_step_def run_with_socket)
    next
      case (Gr_made row h)
      then have "\<not> so_adopted so" using sock by (auto simp: socket_ok_def)
      with at Gr_made Some tripleD [OF keeps_greet_assign] show ?thesis
        by (simp add: chain_step_def run_with_socket)
    next
      case Gr_none
      show ?thesis
      proof (cases "so_chain so")
        case Nil
        with Gr_none Some s show ?thesis by (simp add: chain_step_def run_with_socket)
      next
        case (Cons entry rest)
        obtain own frame where entry: "entry = (own, frame)" by (cases entry)
        let ?s = "s\<lparr>si_sockets := (si_sockets s)(i := Some (so\<lparr>so_chain := rest\<rparr>))\<rparr>"
        have popped: "site_ok D ?s"
          using site_ok_socket [OF s, of "\<lambda>so. so\<lparr>so_chain := rest\<rparr>" i] Some by simp

        have "greeting_at D i Gr_none ?s" if "\<not> so_adopted so"
          using popped Gr_none that by (simp add: greeting_at_def)
        with popped Some Gr_none Cons entry tripleD [OF keeps_greet_lookup] tripleD [OF keeps_handle_or_close]
          tripleD [OF keeps_late_frame] tripleD [OF keeps_close_socket]
        show ?thesis
          by (cases frame) (simp_all add: chain_step_def run_with_socket)
      qed
    qed
  qed
qed

lemma keeps_hello_deadline [triple_intros]: "keeps (site_ok D) (hello_deadline i)"
  unfolding hello_deadline_def by (intro triple_intros keeps_on_socket) simp

lemma keeps_silence_deadline [triple_intros]: "keeps (site_ok D) (silence_deadline C i)"
  unfolding silence_deadline_def by (intro triple_intros)

lemma keeps_link_rebind [triple_intros]: "keeps (site_ok D) (link_rebind ref fid mid)"
  unfolding link_rebind_def by (intro triple_intros keeps_on_session) simp

lemma keeps_sendAssignment [triple_intros]: "keeps (site_ok D) (sendAssignment C i ps)"
  unfolding sendAssignment_def by (intro triple_intros keeps_write) simp

lemma keeps_link_assign [triple_intros]: "keeps (site_ok D) (link_assign C ref)"
  unfolding link_assign_def by (intro triple_intros)

lemma keeps_link_tell [triple_intros]: "keeps (site_ok D) (link_tell C ref what)"
  unfolding link_tell_def by (cases what) (auto intro!: triple_intros keeps_write)

lemma keeps_link_close [triple_intros]: "keeps (site_ok D) link_close"
  unfolding link_close_def
  by (intro triple_intros triple_modify) (simp add: site_defs balanced_def)

lemma keeps_reboot [triple_intros]: "keeps (site_ok D) (reboot C)"
  unfolding reboot_def
  by (intro triple_intros triple_modify) (simp add: site_ok_def balanced_def outstanding_def dead_def)

lemma keeps_site_step: "keeps (site_ok D) (site_step C op)"
  by (cases op) (auto intro: triple_intros)

lemma site_always_ok: "site_reachable C w s \<Longrightarrow> site_ok {} s"
proof (induction rule: site_reachable.induct)
  case site_init
  show ?case by (simp add: initial_site_def site_ok_def balanced_def outstanding_def)
next
  case (site_next s op)
  then show ?case using tripleD [OF keeps_site_step] by blast
qed

lemma site_run_ok: "site_ok D s \<Longrightarrow> site_ok D (site_run C ops s)"
  using tripleD [OF keeps_site_step] by (induction ops arbitrary: s) auto

lemma dead_silent:
  assumes "site_ok D s" and "dead i s"
  shows "outstanding (si_made s i) cid = 0" and "si_sessions s r \<noteq> Some i" and "si_links s r \<noteq> Some i"
proof -
  consider "si_made s i = None" | se where "si_made s i = Some se" "se_gone se"
    using assms by (auto simp: dead_def site_ok_def)
  then have "outstanding (si_made s i) cid = 0 \<and> si_sessions s r \<noteq> Some i"
  proof cases
    case 1
    with assms(1) show ?thesis by (cases r) (force simp: site_ok_def outstanding_def)
  next
    case 2
    then have "session_ok s i se" using site_ok_session_ok assms(1) by blast
    moreover have "se_ref se = r" if "si_sessions s r = Some i"
    proof -
      have "\<exists>x. si_made s i = Some x \<and> se_ref x = r"
        using assms(1) that unfolding site_ok_def by blast
      with 2 show ?thesis by auto
    qed
    ultimately show ?thesis using 2 by (auto simp: session_ok_def outstanding_def)
  qed
  moreover have "si_links s = si_sessions s" using assms(1) by (simp add: site_ok_def)
  ultimately show "outstanding (si_made s i) cid = 0" and "si_sessions s r \<noteq> Some i" and "si_links s r \<noteq> Some i"
    by simp_all
qed

lemma closed_is_dead:
  assumes "site_ok D s" and "si_sockets s i = Some so" "so_adopted so" "so_ready so \<noteq> Rs_closed"
  shows "site_ok {i} (after (on_close i) s)"
proof -
  let ?s = "s\<lparr>si_sockets := (si_sockets s)(i := Some (so\<lparr>so_ready := Rs_closed, so_helloBy := None\<rparr>))\<rparr>"
  have sock: "socket_ok s i so" using assms(1,2) by (simp add: site_ok_def)
  then have ok: "site_ok D ?s"
    by (intro site_ok_resocket [OF assms(1,2)]) (auto simp: socket_ok_def)
  obtain se where "si_made ?s i = Some se" using sock assms(3) by (auto simp: socket_ok_def)
  from site_ok_closed(2) [OF ok _ this] obtain se' where
    "si_made (after (session_closed i) ?s) i = Some se'" "se_gone se'"
    by (auto simp: ready_def)
  moreover have "after (on_close i) s = after (session_closed i) ?s"
    using assms(2-4) by (simp add: on_close_def run_with_socket)
  moreover have "site_ok {} (after (on_close i) s)"
    using tripleD [OF keeps_on_close] assms(1) by (fastforce simp: site_ok_def)
  moreover have "i < si_next (after (on_close i) s)"
  proof -
    have "si_sockets (after (session_closed i) ?s) i \<noteq> None"
      by (auto simp: session_closed_def run_with_session split: option.split)
    with calculation(3,4) show ?thesis by (auto simp: site_ok_def socket_ok_def)
  qed
  ultimately show ?thesis by (auto simp: site_ok_def dead_def)
qed


subsection \<open>The machine keeps its laws under the link\<close>

lemma on_world_keeps: "keeps P m \<Longrightarrow> keeps (\<lambda>s. P (si_world s)) (on_world m)"
  by (simp add: triple_def)

lemma world_alone: "(\<And>s. si_world (after m s) = si_world s) \<Longrightarrow> keeps (\<lambda>s. P (si_world s)) m"
  by (simp add: triple_def)

lemma world_alone_on:
  "keeps (\<lambda>s. P (si_world s)) (on_session i f)" "keeps (\<lambda>s. P (si_world s)) (on_socket i g)"
  "keeps (\<lambda>s. P (si_world s)) (say i out)" "keeps (\<lambda>s. P (si_world s)) (link_write i frame)"
  "keeps (\<lambda>s. P (si_world s)) (close_socket i code)" "keeps (\<lambda>s. P (si_world s)) (terminate_socket i)"
  by (rule world_alone; simp add: link_write_def close_socket_def terminate_socket_def)+

context chain_invariant
begin

definition on_site :: "site \<Rightarrow> bool" where
  "on_site s \<longleftrightarrow> invs {} (si_world s)"

lemma on_site_world: "keeps (invs {}) m \<Longrightarrow> keeps on_site (on_world m)"
  unfolding on_site_def by (rule on_world_keeps)

lemmas on_site_alone = world_alone_on [of "invs {}", folded on_site_def]

lemma on_site_modify: "(\<And>s. si_world (f s) = si_world s) \<Longrightarrow> keeps on_site (modify f)"
  by (simp add: triple_def on_site_def)

lemma on_site_update: "keeps on_site (update_row fid p)"
  unfolding update_row_def by (rule on_site_world [OF keeps_updateServer])

lemma on_site_now: "keeps on_site (on_world now)"
  by (rule on_site_world [OF keeps_now])

lemmas on_site_base = on_site_alone on_site_update on_site_now keeps_with_session [of on_site]
  keeps_with_socket [of on_site] on_site_world [OF keeps_touch] on_site_world [OF keeps_suspect]
  on_site_world [OF keeps_assignment] on_site_world [OF keeps_backup] on_site_world [OF keeps_ingest]

lemma on_site_ingest_events: "keeps on_site (ingest_events e i evs)"
  by (induction evs) (auto simp: ingest_one_def intro!: triple_intros on_site_base)

lemma on_site_handle: "keeps on_site (link_handle C i frame)"
  unfolding link_handle_def
  by (cases frame)
    (auto simp: noteState_def touch_ref_def ingestBatch_def cacheTail_def relayPush_def Let_def
      intro!: triple_intros on_site_base on_site_ingest_events)

lemma on_site_seen: "keeps on_site (seen C i)"
  unfolding seen_def armSilence_def by (intro triple_intros on_site_base)

lemma on_site_answer: "keeps on_site (link_answer i frame)"
  unfolding link_answer_def cacheTail_def
  by (cases frame) (auto intro!: triple_intros on_site_base split: option.split prod.split)

lemma on_site_send: "keeps on_site (sendAssignment C i ps)"
  unfolding sendAssignment_def by (intro triple_intros on_site_base)

lemma same_tables_touch: "touchServerToken t at s = Some s' \<Longrightarrow> same_tables s s'"
  by (auto simp: touchServerToken_def same_tables_def split: option.splits)

lemma on_site_handle_or_close: "keeps on_site (handle_or_close C i frame)"
  unfolding handle_or_close_def by (intro triple_intros on_site_handle on_site_base)

lemma on_site_late: "keeps on_site (late_frame C i frame)"
  unfolding late_frame_def
  by (intro triple_intros on_site_seen on_site_answer on_site_handle_or_close)

lemma on_site_lookup: "keeps on_site (greet_lookup C i h)"
  unfolding greet_lookup_def by (intro triple_intros on_site_base)

lemma on_site_make: "keeps on_site (greet_make C i row t h)"
  unfolding greet_make_def armSilence_def Let_def
  by (intro triple_intros on_site_base on_site_modify on_site_world [OF keeps_elsewhere_opt] same_tables_touch)
    simp_all

lemma on_site_assign: "keeps on_site (greet_assign C i row h)"
  unfolding greet_assign_def by (intro triple_intros on_site_send on_site_base)

lemma on_site_chain: "keeps on_site (chain_step C i)"
  unfolding chain_step_def
proof (rule keeps_with_socket)
  fix so
  have first: "keeps on_site (case frame of Fr_hello h \<Rightarrow> greet_lookup C i h | _ \<Rightarrow> close_socket i Cc_malformed)"
    for frame
    by (cases frame) (auto intro: on_site_lookup on_site_alone)
  show "keeps on_site (case so_greeting so of
      Gr_none \<Rightarrow> (case so_chain so of [] \<Rightarrow> skip
        | (for_session, frame) # rest \<Rightarrow> do {
            on_socket i (\<lambda>so. so\<lparr>so_chain := rest\<rparr>);
            if for_session then handle_or_close C i frame
            else if so_adopted so then late_frame C i frame
            else (case frame of Fr_hello h \<Rightarrow> greet_lookup C i h | _ \<Rightarrow> close_socket i Cc_malformed)
          })
    | Gr_found row tokenId h \<Rightarrow> greet_make C i row tokenId h
    | Gr_made row h \<Rightarrow> greet_assign C i row h)"
    by (cases "so_greeting so"; cases "so_chain so")
      (auto intro!: keeps_skip on_site_make on_site_assign keeps_bind on_site_alone on_site_handle_or_close
        on_site_late first split: prod.split)
qed

lemma on_site_ask: "keeps on_site (ask C i cid frame want)"
  unfolding ask_def by (intro triple_intros on_site_base)

lemma on_site_request: "keeps on_site (channel_request C i rq)"
  unfolding channel_request_def mintCorrelationId_def
  by (cases rq) (auto intro!: triple_intros on_site_base on_site_ask)

lemma on_site_step: "keeps on_site (site_step C op)"
proof (cases op)
  case (At_message i raw)
  have "keeps on_site (on_message C i raw)"
    unfolding on_message_def push_chain_def
    by (cases raw) (auto intro!: triple_intros on_site_base on_site_seen on_site_answer)
  with At_message show ?thesis by simp
next
  case (At_tell ref what)
  have "keeps on_site (link_tell C ref what)"
    unfolding link_tell_def
    by (cases what) (auto intro!: triple_intros on_site_base on_site_request)
  with At_tell show ?thesis by simp
next
  case (At_close i)
  have "keeps on_site (session_closed i)"
    unfolding session_closed_def by (intro triple_intros on_site_base on_site_modify) simp_all
  then have "keeps on_site (on_close i)"
    unfolding on_close_def by (intro triple_intros on_site_base)
  with At_close show ?thesis by simp
next
  case At_connect
  have "keeps on_site (open_socket C)"
    unfolding open_socket_def by (intro triple_intros on_site_base on_site_modify) simp
  with At_connect show ?thesis by simp
next
  case At_shutdown
  have "keeps on_site link_close"
    unfolding link_close_def by (intro triple_intros on_site_base on_site_modify) simp
  with At_shutdown show ?thesis by simp
next
  case At_reboot
  have "keeps on_site (reboot C)"
    unfolding reboot_def by (intro triple_intros on_site_world [OF keeps_restart] on_site_modify) simp
  with At_reboot show ?thesis by simp
next
  case (At_silence i)
  have "keeps on_site (onSilent C i)"
    unfolding onSilent_def by (intro triple_intros on_site_base)
  then have "keeps on_site (silence_deadline C i)"
    unfolding silence_deadline_def by (intro triple_intros on_site_base)
  with At_silence show ?thesis by simp
qed (auto simp: hello_deadline_def no_answer_def link_rebind_def link_assign_def
    intro!: triple_intros on_site_base on_site_world [OF operate_keeps] on_site_chain on_site_send)

theorem site_keeps:
  assumes "I w" and "queue_ok w" and "site_reachable C w s"
  shows "I (si_world s)"
proof -
  have "on_site s"
    using assms(3)
  proof induction
    case site_init
    show ?case using assms(1,2) by (simp add: on_site_def invs_def initial_site_def)
  next
    case (site_next s op)
    then show ?case using tripleD [OF on_site_step] by blast
  qed
  then show ?thesis by (simp add: on_site_def invs_def)
qed

end

end
