(* ===== verification/Link_Properties.thy ===== *)
theory Link_Properties
  imports Link_Laws
begin

text \<open>
  The properties of the server link, and the three places where it loses track of a socket. The
  concrete site is one server of \<open>Sample_Run\<close> that dials with its token.
\<close>

subsection \<open>A server that dials\<close>

definition sample_link :: link_config where
  "sample_link = \<lparr>li_machine = sample_env, li_heartbeatIntervalMs = HEARTBEAT_INTERVAL_MS_DEFAULT,
     li_helloTimeoutMs = HELLO_TIMEOUT_MS, li_commandTimeoutMs = COMMAND_TIMEOUT_MS_DEFAULT,
     li_widgets = True\<rparr>"

definition sample_token :: server_token_row where
  "sample_token = \<lparr>st_id = ''t'', st_fleetServerId = ''f'', st_tokenHash = ''ezis_x'',
     st_createdAt = 0, st_lastUsedAt = None, st_revokedAt = None\<rparr>"

definition sample_linked :: world where
  "sample_linked = (sample_world Live [])
     \<lparr>w_store := (createMemoryMatchStore ''d'')
        \<lparr>matches := [sample_row Live], servers := [sample_server\<lparr>s_linkState := Some ''live''\<rparr>],
         serverTokens := [sample_token]\<rparr>\<rparr>"

definition sample_world_bare :: world where
  "sample_world_bare = sample_world Live []"

definition sample_hello :: server_frame where
  "sample_hello = Fr_hello \<lparr>he_token = ''ezis_x'', he_plugins = [], he_map = ''de_dust2'',
     he_state = ''idle'', he_matchId = Some ''m'', he_lastSeq = 0\<rparr>"

definition dials :: "nat \<Rightarrow> site_op list" where
  "dials i = [At_message i (Frame sample_hello), At_chain i, At_chain i, At_chain i]"

definition sample_site :: site where
  "sample_site = site_run sample_link (At_connect # dials 0) (initial_site sample_linked)"

lemma sample_site_reachable: "site_reachable sample_link sample_linked sample_site"
  unfolding sample_site_def by (rule site_reachable_run [OF site_init])

lemmas sample_link_defs = sample_link_def sample_token_def sample_linked_def sample_hello_def dials_def
  HEARTBEAT_INTERVAL_MS_DEFAULT_def HELLO_TIMEOUT_MS_def COMMAND_TIMEOUT_MS_DEFAULT_def

lemma sample_resolves:
  "resolveToken sample_env ''ezis_x'' (w_store sample_linked) =
     Some (sample_server\<lparr>s_linkState := Some ''live''\<rparr>, ''t'')"
  by (simp add: resolveToken_def looksLikeToken_def TOKEN_SERVER_PREFIX_def sample_linked_def
      sample_env_def sample_token_def findServerTokenByHash_def findServer_def sample_server_def white_space_def
      ledger_row_def)

lemmas link_step_defs = open_socket_def on_message_def push_chain_def chain_step_def greet_lookup_def
  greet_make_def greet_assign_def armSilence_def update_row_def link_write_def close_socket_def
  run_with_session run_with_socket on_world_def ready_def createSession_def row_ref_def

lemma sample_server_at [simp]: "s_matchId sample_server = Some ''m''" "s_provider sample_server = ''p''"
  "s_serverId sample_server = Some ''s1''" "s_id sample_server = ''f''" "s_currentMap sample_server = None"
  by (simp_all add: sample_server_def ledger_row_def sample_candidate_def)

text \<open>Each property below is applied at the site just reached.\<close>

lemma sample_site_session:
  obtains se so where "si_made sample_site 0 = Some se" "\<not> se_gone se" "se_match se = Some ''m''"
    "si_sockets sample_site 0 = Some so" "so_adopted so" "so_ready so = Rs_open"
    "ready sample_site 0 = Rs_open"
  using sample_resolves that
  by (simp add: sample_site_def dials_def sample_hello_def link_step_defs initial_site_def sample_link_def)

subsection \<open>What every reachable site keeps\<close>

text \<open>C7: The acks of a batch are those of a server that only remembers a set of numbers: an event
  whose number is in the set is a duplicate, any other is judged once and its number joins the set,
  and an exception leaves the batch with what was taken so far. The contiguous top and the window
  of the code are that set exactly, and the top is never behind it.\<close>

theorem acks_follow_a_set:
  assumes "site_reachable C w s" and "si_made s i = Some se"
  shows "\<exists>se' acks w'.
    run_state (reference_acks e se (taken se) evs) (si_world s) = ((acks, taken se'), w') \<and>
    run_state (ingest_events e i evs) s =
      (acks, s\<lparr>si_world := w', si_made := (si_made s)(i := Some se')\<rparr>) \<and>
    Suc (se_acked se') \<notin> taken se'"
proof -
  have "window_ok se"
    using site_ok_session_ok [OF site_always_ok [OF assms(1)] assms(2)] by (simp add: session_ok_def)
  from ingest_events_reference [OF assms(2) this] obtain se' acks w' where
    "run_state (reference_acks e se (taken se) evs) (si_world s) = ((acks, taken se'), w')"
    "run_state (ingest_events e i evs) s = (acks, s\<lparr>si_world := w', si_made := (si_made s)(i := Some se')\<rparr>)"
    and ok: "window_ok se'" unfolding refines_def by blast
  moreover have "Suc (se_acked se') \<notin> taken se'" using ok by (auto simp: window_ok_def taken_def)
  ultimately show ?thesis by blast
qed

theorem acks_follow_a_set_witness:
  "\<exists>se se' acks w'. si_made sample_site 0 = Some se \<and>
    run_state (reference_acks sample_env se (taken se) [(2, \<lparr>ge_matchId = ''m'', ge_seq = Some 2,
      ge_simulated = False, ge_body = Server_ready None\<rparr>)]) (si_world sample_site) =
      ((acks, taken se'), w')"
proof -
  obtain se where "si_made sample_site 0 = Some se" using sample_site_session by metis
  with acks_follow_a_set [OF sample_site_reachable this] show ?thesis by meson
qed

text \<open>C8: Every request written to a server's channel is settled once: at any moment the requests
  asked under a correlation id on a socket are those that were answered, timed out or failed with the
  socket, and at most one more, which is in flight.\<close>

theorem every_request_settles_once:
  assumes "site_reachable C w s"
  shows "count_of asked i cid (si_out s) =
      count_of settled i cid (si_out s) + outstanding (si_made s i) cid \<and>
    outstanding (si_made s i) cid \<le> 1"
  using site_ok_balanced [OF site_always_ok [OF assms]]
  by (simp_all add: outstanding_def split: option.split)

theorem every_request_settles_once_witness:
  "count_of asked 0 ''link-1'' (si_out (site_run sample_link
      [At_tell (''p'', ''s1'') (Tell_request (Rq_announce ''gg''))] sample_site)) =
   count_of settled 0 ''link-1'' (si_out (site_run sample_link
      [At_tell (''p'', ''s1'') (Tell_request (Rq_announce ''gg''))] sample_site)) +
   outstanding (si_made (site_run sample_link
      [At_tell (''p'', ''s1'') (Tell_request (Rq_announce ''gg''))] sample_site) 0) ''link-1''"
  by (rule conjunct1 [OF every_request_settles_once [OF site_reachable_run [OF sample_site_reachable]]])

text \<open>C9: Once the socket of an adopted session has closed, every request it ever made is settled,
  whatever happens afterwards, and no server is registered under it.\<close>

theorem closed_session_leaves_nothing:
  assumes "site_reachable C w s" and "si_sockets s i = Some so" and "so_adopted so"
    and "so_ready so \<noteq> Rs_closed" and "s' = site_run C ops (after (on_close i) s)"
  shows "count_of asked i cid (si_out s') = count_of settled i cid (si_out s') \<and>
    si_sessions s' r \<noteq> Some i \<and> si_links s' r \<noteq> Some i"
proof -
  have ok: "site_ok {i} s'"
    unfolding assms(5)
    by (rule site_run_ok [OF closed_is_dead [OF site_always_ok [OF assms(1)] assms(2-4)]])
  then have "dead i s'" by (simp add: site_ok_def)
  note dead_silent [OF ok this]
  with site_ok_balanced [OF ok] show ?thesis by simp
qed

theorem closed_session_leaves_nothing_witness:
  "si_sessions (site_run sample_link [At_connect] (after (on_close 0) sample_site)) (''p'', ''s1'') \<noteq> Some 0"
proof -
  obtain so where so: "si_sockets sample_site 0 = Some so" "so_adopted so" "so_ready so = Rs_open"
    using sample_site_session by metis
  then have "so_ready so \<noteq> Rs_closed" by simp
  from closed_session_leaves_nothing [OF sample_site_reachable so(1,2) this refl]
  show ?thesis by blast
qed



subsection \<open>Tokens and silence\<close>

text \<open>A first frame whose token opens no server (not a server token, unknown, revoked, or of a
  row that is released or has no server) gets the close code 4001 and nothing else: no session, no
  reply, nothing read into the store, no other socket disturbed.\<close>

theorem no_session_without_a_token:
  assumes "si_sockets s i = Some so" and "so_greeting so = Gr_none" and "\<not> so_adopted so"
    and "so_chain so = (False, Fr_hello h) # rest" and "so_ready so = Rs_open"
    and "resolveToken (li_machine C) (he_token h) (w_store (si_world s)) = None"
  shows "after (chain_step C i) s = s
    \<lparr>si_sockets := (si_sockets s)(i \<mapsto> so\<lparr>so_chain := rest, so_ready := Rs_closing\<rparr>),
     si_out := (i, Out_close 4001) # si_out s\<rparr>"
  using assms by (simp add: chain_step_def run_with_socket greet_lookup_def close_socket_def ready_def)

theorem no_session_without_a_token_witness:
  "let s = site_run sample_link [At_connect, At_message 0 (Frame sample_hello)] (initial_site sample_world_bare)
   in si_out (after (chain_step sample_link 0) s) = [(0, Out_close 4001)]"
proof -
  let ?s = "site_run sample_link [At_connect, At_message 0 (Frame sample_hello)] (initial_site sample_world_bare)"
  have "after (chain_step sample_link 0) ?s = ?s
    \<lparr>si_sockets := (si_sockets ?s)(0 \<mapsto> (the (si_sockets ?s 0))\<lparr>so_chain := [], so_ready := Rs_closing\<rparr>),
     si_out := (0, Out_close 4001) # si_out ?s\<rparr>"
    by (rule no_session_without_a_token)
      (simp_all add: sample_hello_def link_step_defs initial_site_def sample_link_def resolveToken_def
        findServerTokenByHash_def sample_world_bare_def sample_world_def createMemoryMatchStore_def)
  then show ?thesis
    by (simp add: Let_def sample_hello_def link_step_defs initial_site_def)
qed

text \<open>C11: A server that goes silent is noticed: every session whose socket is open has its silence
  deadline running, and when it passes the socket is terminated and the session's match is
  put to the machine as suspect.\<close>

theorem silent_server_is_noticed:
  assumes "site_reachable C w s" and "si_made s i = Some se" and "\<not> se_gone se"
    and "ready s i = Rs_open" and "se_match se = Some mid" and "mid \<noteq> ''''"
  shows "\<exists>n. let waited = after (operate (li_machine C) (Op_wait n)) (si_world s);
      s' = site_run C [At_machine (Op_wait n), At_silence i] s
    in ready s' i = Rs_closing \<and> si_out s' = (i, Out_terminate) # si_out s \<and>
      si_world s' = after (suspect (li_machine C) mid
        (''link silent for '' @ decimal (silence_ms C) @ '' ms'')) waited"
proof -
  obtain by_when where due: "se_silence se = Some by_when"
    using site_ok_session_ok [OF site_always_ok [OF assms(1)] assms(2)] assms(3,4)
    by (auto simp: session_ok_def)
  obtain so where so: "si_sockets s i = Some so" "so_ready so = Rs_open"
    using assms(4) by (auto simp: ready_def split: option.splits)
  show ?thesis
    by (rule exI [of _ "nat (by_when - w_now (si_world s))"])
      (use assms due so in \<open>simp add: Let_def silence_deadline_def onSilent_def terminate_socket_def
        run_with_session ready_def now_def not_less\<close>)
qed

theorem silent_server_is_noticed_witness:
  "\<exists>n. (0, Out_terminate) \<in> set (si_out (site_run sample_link
     [At_machine (Op_wait n), At_silence 0] sample_site))"
proof -
  obtain se where se: "si_made sample_site 0 = Some se" "\<not> se_gone se" "se_match se = Some ''m''"
    and rd: "ready sample_site 0 = Rs_open"
    using sample_site_session by metis
  have "''m'' \<noteq> ''''" by simp
  from silent_server_is_noticed [OF sample_site_reachable se(1,2) rd se(3) this] obtain n where
    "si_out (site_run sample_link [At_machine (Op_wait n), At_silence 0] sample_site) =
      (0, Out_terminate) # si_out sample_site" unfolding Let_def by blast
  then show ?thesis by (intro exI [of _ n]) (simp del: site_run_simps)
qed


subsection \<open>Where the link loses track\<close>

text \<open>The socket closes while its greeting waits for the store: \<open>session\<close> is not set yet, so \<open>closed\<close>
  is not called, and the greeting goes on to register a session on a dead socket.\<close>

lemma closed_while_greeting_is_registered:
  "let s = site_run sample_link [At_connect, At_message 0 (Frame sample_hello), At_chain 0, At_close 0,
       At_chain 0, At_chain 0] (initial_site sample_linked)
   in ready s 0 = Rs_closed \<and> si_sessions s (''p'', ''s1'') = Some 0 \<and> si_links s (''p'', ''s1'') = Some 0 \<and>
     map_option se_gone (si_made s 0) = Some False"
  using sample_resolves
  by (simp add: Let_def dials_def sample_hello_def link_step_defs initial_site_def sample_link_def
      on_close_def)

text \<open>Two sockets greet with one token at a time: each looks for an older session before the other
  has registered its own, and both stay open.\<close>

lemma two_sockets_of_one_server:
  "let s = site_run sample_link ([At_connect, At_connect, At_message 0 (Frame sample_hello),
       At_message 1 (Frame sample_hello), At_chain 0, At_chain 1] @
       [At_chain 0, At_chain 0, At_chain 1, At_chain 1]) (initial_site sample_linked)
   in ready s 0 = Rs_open \<and> ready s 1 = Rs_open \<and> map_option se_gone (si_made s 0) = Some False \<and>
     map_option se_gone (si_made s 1) = Some False \<and> si_sessions s (''p'', ''s1'') = Some 1"
  using sample_resolves
  by (simp add: Let_def sample_hello_def link_step_defs initial_site_def sample_link_def)

lemma touch_store [simp]: "w_store (after (touch e r) w) = w_store w" "w_now (after (touch e r) w) = w_now w"
  by (simp_all add: touch_def matchOf_def armHeartbeat_def runtimeOf_def setTimer_def on_runtime_def
    set_attribution_def now_def split: option.split)

text \<open>The session starts from the row as it was before the hello: a server that was live, reconnects
  idle and goes live again is idle in the ledger for good.\<close>

lemma stale_link_state:
  "map s_linkState (servers (w_store (si_world (site_run sample_link
     [At_message 0 (Frame (Fr_heartbeat ''live'' ''de_dust2'')), At_chain 0] sample_site)))) = [Some ''idle'']"
  using sample_resolves
  by (simp add: sample_site_def sample_hello_def dials_def link_step_defs initial_site_def sample_link_def
    seen_def link_answer_def link_handle_def noteState_def handle_or_close_def touch_ref_def touch_store
    on_store_opt_def store_updateServer_def touchServerToken_def updateServer_def on_store_def
    findServer_def sample_linked_def sample_token_def createMemoryMatchStore_def now_def
    LAST_SEEN_WRITE_INTERVAL_MS_def Let_def)


end
