(* ===== verification/Matchzy.thy ===== *)
theory Matchzy
  imports Match_Config
begin

text \<open>
  The translation of MatchZy's remote log into the vocabulary,
  \<open>apps/orchestrator/src/matchzy/translate.ts\<close>: one payload, what the match knows and what was
  seen before, to the facts, the new memory and why nothing came out.

  Payloads arrive as the schemas read them (\<open>Read\<close>), or as a name whose body no schema took
  (\<open>Unread\<close>). The texts of drops and notes are values of \<open>dropped\<close> and \<open>note\<close> that hold what
  the text is filled with. Every name of \<open>Object.prototype\<close> reads as a dropped event in the
  source's table too: \<open>INHERITED\<close>.
\<close>

subsection \<open>Payloads and facts\<close>

datatype match_team = Team_a | Team_b

record team_score =
  sc_A :: nat
  sc_B :: nat

definition scoreOf :: "nat \<Rightarrow> nat \<Rightarrow> team_score" where
  "scoreOf team1 team2 = \<lparr>sc_A = team1, sc_B = team2\<rparr>"

record mz_stats =
  zs_kills :: nat
  zs_deaths :: nat
  zs_assists :: nat
  zs_damage :: nat
  zs_flash_assists :: "nat option"
  zs_utility_damage :: "nat option"
  zs_enemies_flashed :: "nat option"
  zs_headshot_kills :: "nat option"
  zs_bomb_plants :: "nat option"
  zs_bomb_defuses :: "nat option"
  zs_mvp :: "nat option"
  zs_score :: "int option"

record mz_winner =
  mw_side :: "string option"
  mw_team :: "string option"

record mz_team =
  mt_score :: nat
  mt_players :: "(string \<times> string \<times> mz_stats) list"   \<comment> \<open>steamid, name\<close>

record mz_player =
  zp_steamid :: string
  zp_name :: string
  zp_team :: "string option"

datatype mz_event =
    Mz_going_live nat
  | Mz_round_started nat nat nat nat        \<comment> \<open>map_number, round_number, the two scores\<close>
  | Mz_round_end nat int "nat option" mz_winner mz_team mz_team   \<comment> \<open>reason, round_time\<close>
  | Mz_map_result nat mz_team mz_team
  | Mz_series_end nat nat
  | Mz_player_ready mz_player "string option" nat nat nat
      \<comment> \<open>team, the two ready counts, expected_total\<close>
  | Mz_player_unready mz_player "string option" nat nat nat
  | Mz_team_ready string nat nat nat        \<comment> \<open>ready_count, total_ready, expected_total\<close>
  | Mz_all_players_ready nat nat bool       \<comment> \<open>countdown_started\<close>
  | Mz_knife_round_started nat
  | Mz_knife_round_ended nat string
  | Mz_backup_loaded nat

fun event_name :: "mz_event \<Rightarrow> string" where
  "event_name (Mz_going_live _) = ''going_live''"
| "event_name (Mz_round_started _ _ _ _) = ''round_started''"
| "event_name (Mz_round_end _ _ _ _ _ _) = ''round_end''"
| "event_name (Mz_map_result _ _ _) = ''map_result''"
| "event_name (Mz_series_end _ _) = ''series_end''"
| "event_name (Mz_player_ready _ _ _ _ _) = ''player_ready''"
| "event_name (Mz_player_unready _ _ _ _ _) = ''player_unready''"
| "event_name (Mz_team_ready _ _ _ _) = ''team_ready''"
| "event_name (Mz_all_players_ready _ _ _) = ''all_players_ready''"
| "event_name (Mz_knife_round_started _) = ''knife_round_started''"
| "event_name (Mz_knife_round_ended _ _) = ''knife_round_ended''"
| "event_name (Mz_backup_loaded _) = ''backup_loaded''"

text \<open>The fields the server-level notes look at, where they have the right type.\<close>

record server_body =
  sb_db_type :: "string option"
  sb_db_ok :: bool
  sb_reason :: "string option"
  sb_db_error :: "string option"
  sb_plugin_version :: "string option"

datatype mz_payload = Nameless | Unread string server_body | Read int mz_event

datatype win_condition = Bomb_exploded | Bomb_defused | Elimination | Time_expired
  | Tower_held | Tower_captured | Other_condition

record mz_identity =
  id_steamId64 :: string
  id_name :: string
  id_team :: "match_team option"

record player_round =
  pr_player :: mz_identity
  pr_stats :: mz_stats

record tally =
  ta_ready :: team_score
  ta_expected :: nat

datatype fact =
    Going_live_fact nat string
  | Round_start nat nat team_score
  | Round_ended nat nat match_team team_side win_condition team_score "player_round list option" "nat option"
  | Map_end nat string team_score "match_team option"
  | Series_ended team_score "match_team option"
  | Player_ready mz_identity tally
  | Player_unready mz_identity tally
  | Team_ready match_team tally
  | All_ready team_score bool
  | Knife_start nat
  | Knife_end nat "match_team option"

record mz_fact =
  fa_matchId :: ident
  fa_source :: "string \<times> string"
  fa_body :: fact

subsection \<open>Context, memory, result\<close>

record mz_side =
  ms_name :: string
  ms_players :: "string list"

record mz_context =
  cx_matchId :: ident
  cx_source :: "string \<times> string"
  cx_serial :: int
  cx_maps :: "map_plan list"
  cx_teamA :: mz_side
  cx_teamB :: mz_side
  cx_readyFloor :: nat

record mz_state =
  mz_scores :: "nat \<Rightarrow> team_score option"
  mz_starts :: "nat \<Rightarrow> (nat \<times> team_score) option"
  mz_ready :: "string \<Rightarrow> string option"

definition initialMatchZyState :: mz_state where
  "initialMatchZyState = \<lparr>mz_scores = (\<lambda>_. None), mz_starts = (\<lambda>_. None), mz_ready = (\<lambda>_. None)\<rparr>"

datatype gate_because = By_config nat | By_roster nat

datatype dropped =
    Dr_no_name | Dr_listed string | Dr_inherited | Dr_unparsed | Dr_unknown
  | Dr_health string string "string option" | Dr_configured "string option" | Dr_cs2_update
  | Dr_server_level string
  | Dr_other_match int int
  | Dr_outside_plan nat
  | Dr_already_started nat team_score
  | Dr_no_steamid string
  | Dr_already_stands string bool
  | Dr_no_team string
  | Dr_under_floor match_team nat gate_because
  | Dr_already_through match_team
  | Dr_room_short string "(match_team \<times> gate_because) list"
  | Dr_already_all string
  | Dr_zero_score
  | Dr_no_side "string option"
  | Dr_restarted "string option" team_score
  | Dr_nobody_won nat team_score bool
  | Dr_already_reported nat team_score

datatype mz_note =
    Nt_database string "string option" | Nt_cs2_update
  | Nt_restarted nat team_score
  | Nt_by_schedule nat int int team_side
  | Nt_by_matchzy nat int int
  | Nt_knife_unreadable string

record mz_result =
  tr_events :: "mz_fact list"
  tr_state :: mz_state
  tr_name :: string
  tr_dropped :: "dropped option"
  tr_note :: "mz_note option"

subsection \<open>The names\<close>

definition MATCHZY_DROPPED_EVENTS :: "string list" where
  "MATCHZY_DROPPED_EVENTS = [''series_start'', ''map_picked'', ''map_vetoed'', ''side_picked'',
     ''halftime_started'', ''overtime_started'', ''backup_loaded'', ''player_connect'',
     ''player_disconnect'', ''side_swap'', ''match_paused'', ''match_unpaused'', ''pause_requested'',
     ''unpause_requested'', ''warmup_ended'', ''demo_recording_start'', ''demo_recording_stop'',
     ''demo_upload_ended'', ''demo_upload_start'', ''demo_upload_success'', ''demo_upload_fail'']"

text \<open>The members a plain object inherits: the table answers them as well.\<close>

definition INHERITED :: "string list" where
  "INHERITED = [''constructor'', ''hasOwnProperty'', ''isPrototypeOf'', ''propertyIsEnumerable'',
     ''toLocaleString'', ''toString'', ''valueOf'', ''__defineGetter__'', ''__defineSetter__'',
     ''__lookupGetter__'', ''__lookupSetter__'', ''__proto__'']"

definition MATCHZY_INTERNAL_EVENTS :: "string list" where
  "MATCHZY_INTERNAL_EVENTS = [''server_configured'', ''server_health'', ''test_event'',
     ''cs2_update_required'']"

definition MATCHZY_KNOWN_EVENTS :: "string list" where
  "MATCHZY_KNOWN_EVENTS = [''going_live'', ''round_started'', ''round_end'', ''map_result'',
     ''series_end'', ''player_ready'', ''player_unready'', ''team_ready'', ''all_players_ready'',
     ''knife_round_started'', ''knife_round_ended''] @ MATCHZY_INTERNAL_EVENTS @ MATCHZY_DROPPED_EVENTS"

subsection \<open>The rules\<close>

definition winConditionOf :: "int \<Rightarrow> win_condition" where
  "winConditionOf reason =
    (if reason = 1 then Bomb_exploded
     else if reason = 7 then Bomb_defused
     else if reason = 8 \<or> reason = 9 then Elimination
     else if reason = 12 then Time_expired
     else Other_condition)"

definition lower_char :: "char \<Rightarrow> char" where
  "lower_char c = (let n = (of_char c :: nat) in if 65 \<le> n \<and> n \<le> 90 then char_of (n + 32) else c)"

definition lower :: "string \<Rightarrow> string" where
  "lower s = map lower_char s"

definition or_empty :: "string option \<Rightarrow> string" where
  "or_empty s = (case s of None \<Rightarrow> '''' | Some t \<Rightarrow> t)"

definition sideOf :: "string option \<Rightarrow> team_side option" where
  "sideOf side =
    (let s = lower (trim (or_empty side))
     in if s \<in> {''ct'', ''3'', ''counterterrorist''} then Some Ct
        else if s \<in> {''t'', ''2'', ''terrorist''} then Some Terrorist
        else None)"

datatype no_winner = Nobody_draw | Nobody_none

definition noWinnerOf :: "string option \<Rightarrow> no_winner option" where
  "noWinnerOf side =
    (let s = trim (or_empty side)
     in if s = ''1'' then Some Nobody_draw else if s = ''0'' then Some Nobody_none else None)"

definition GAME_COMMENCING_REASON :: int where "GAME_COMMENCING_REASON = 16"

definition teamOf :: "string option \<Rightarrow> match_team option" where
  "teamOf team =
    (let s = lower (trim (or_empty team))
     in if s = ''team1'' then Some Team_a else if s = ''team2'' then Some Team_b else None)"

fun flip :: "team_side \<Rightarrow> team_side" where
  "flip Ct = Terrorist"
| "flip Terrorist = Ct"

definition scheduledSide :: "team_side \<Rightarrow> nat \<Rightarrow> nat \<Rightarrow> nat \<Rightarrow> team_side" where
  "scheduledSide start roundNumber regulation overtime =
    (if 2 * roundNumber \<le> regulation then start
     else if roundNumber \<le> regulation then flip start
     else
       (let into = roundNumber - regulation - 1;
            period = into div overtime;
            inPeriod = into mod overtime;
            side = flip start;
            side = (if period mod 2 = 1 then flip side else side)
        in if 2 * inPeriod \<ge> overtime then flip side else side))"

definition side_of :: "mz_context \<Rightarrow> match_team \<Rightarrow> mz_side" where
  "side_of cx team = (case team of Team_a \<Rightarrow> cx_teamA cx | Team_b \<Rightarrow> cx_teamB cx)"

definition gateOf :: "mz_context \<Rightarrow> match_team \<Rightarrow> nat \<times> gate_because" where
  "gateOf cx team =
    (let rostered = length (ms_players (side_of cx team));
         asked = (if cx_readyFloor cx > 0 then cx_readyFloor cx else rostered);
         floor = (if rostered > 0 then min asked rostered else asked)
     in (floor, if cx_readyFloor cx > 0 \<and> cx_readyFloor cx \<le> floor then By_config floor
                else By_roster floor))"

definition playerTeamOf :: "mz_context \<Rightarrow> string \<Rightarrow> string option \<Rightarrow> match_team option" where
  "playerTeamOf cx steamId64 label =
    (if steamId64 \<in> set (ms_players (cx_teamA cx)) then Some Team_a
     else if steamId64 \<in> set (ms_players (cx_teamB cx)) then Some Team_b
     else
       (case teamOf label of
          Some slot \<Rightarrow> Some slot
        | None \<Rightarrow>
            (let name = trim (or_empty label);
                 a = (name = ms_name (cx_teamA cx));
                 b = (name = ms_name (cx_teamB cx))
             in if name = '''' then None
                else if a \<and> \<not> b then Some Team_a
                else if b \<and> \<not> a then Some Team_b
                else None)))"

definition is_steamId64 :: "string \<Rightarrow> bool" where
  "is_steamId64 s \<longleftrightarrow> length s = 17 \<and> list_all digit_char s"

definition playerOf :: "mz_context \<Rightarrow> mz_player \<Rightarrow> string option \<Rightarrow> mz_identity option" where
  "playerOf cx p label =
    (if \<not> is_steamId64 (zp_steamid p) then None
     else if zp_name p = '''' then None
     else Some \<lparr>id_steamId64 = zp_steamid p, id_name = zp_name p,
       id_team = playerTeamOf cx (zp_steamid p) (case label of Some l \<Rightarrow> Some l | None \<Rightarrow> zp_team p)\<rparr>)"

definition team_summaries :: "match_team \<Rightarrow> mz_team \<Rightarrow> player_round list" where
  "team_summaries team t =
     map (\<lambda>(sid, name, s). \<lparr>pr_player = \<lparr>id_steamId64 = sid, id_name = name, id_team = Some team\<rparr>,
        pr_stats = s\<rparr>)
       (filter (\<lambda>(sid, name, _). is_steamId64 sid \<and> name \<noteq> '''') (mt_players t))"

definition summaries :: "mz_team \<Rightarrow> mz_team \<Rightarrow> player_round list option" where
  "summaries team1 team2 =
    (let players = team_summaries Team_a team1 @ team_summaries Team_b team2
     in if players \<noteq> [] then Some players else None)"

definition internalNoteOf :: "string \<Rightarrow> server_body \<Rightarrow> dropped \<times> mz_note option" where
  "internalNoteOf name body =
    (if name = ''server_health'' then
       (let type = (case sb_db_type body of Some t \<Rightarrow> t | None \<Rightarrow> ''unknown'');
            why = (case sb_reason body of Some w \<Rightarrow> w | None \<Rightarrow> ''unstated'');
            failing = (if sb_db_ok body then None
              else Some (case sb_db_error body of Some err \<Rightarrow> err | None \<Rightarrow> ''no detail''))
        in (Dr_health why type failing,
            if sb_db_ok body \<and> type = ''sqlite'' then None else Some (Nt_database type failing)))
     else if name = ''server_configured'' then (Dr_configured (sb_plugin_version body), None)
     else if name = ''cs2_update_required'' then (Dr_cs2_update, Some Nt_cs2_update)
     else (Dr_server_level name, None))"

subsection \<open>The branches\<close>

record translate_options =
  to_regulationRounds :: nat
  to_overtimeRounds :: nat

definition drop_event :: "mz_state \<Rightarrow> string \<Rightarrow> dropped \<Rightarrow> mz_result" where
  "drop_event st name why = \<lparr>tr_events = [], tr_state = st, tr_name = name, tr_dropped = Some why,
     tr_note = None\<rparr>"

definition told_fact :: "mz_context \<Rightarrow> string \<Rightarrow> fact \<Rightarrow> mz_state \<Rightarrow> mz_result" where
  "told_fact cx name body st =
     \<lparr>tr_events = [\<lparr>fa_matchId = cx_matchId cx, fa_source = cx_source cx, fa_body = body\<rparr>],
      tr_state = st, tr_name = name, tr_dropped = None, tr_note = None\<rparr>"

definition mapAt :: "mz_context \<Rightarrow> nat \<Rightarrow> map_plan option" where
  "mapAt cx index = (if index < length (cx_maps cx) then Some (cx_maps cx ! index) else None)"

definition rewind :: "nat \<Rightarrow> mz_state \<Rightarrow> mz_state" where
  "rewind mapNumber st = st\<lparr>mz_starts := (mz_starts st)(mapNumber := None),
     mz_scores := (mz_scores st)(mapNumber := None)\<rparr>"

definition on_going_live :: "mz_context \<Rightarrow> mz_state \<Rightarrow> nat \<Rightarrow> mz_result" where
  "on_going_live cx st n =
    (case mapAt cx n of
       None \<Rightarrow> drop_event st ''going_live'' (Dr_outside_plan n)
     | Some plan \<Rightarrow> told_fact cx ''going_live'' (Going_live_fact (n + 1) (mp_map plan))
         (st\<lparr>mz_ready := (\<lambda>_. None)\<rparr>))"

definition on_round_started :: "mz_context \<Rightarrow> mz_state \<Rightarrow> nat \<Rightarrow> nat \<Rightarrow> team_score \<Rightarrow> mz_result" where
  "on_round_started cx st n roundNumber score =
    (case mapAt cx n of
       None \<Rightarrow> drop_event st ''round_started'' (Dr_outside_plan n)
     | Some _ \<Rightarrow>
         if mz_starts st (n + 1) = Some (roundNumber, score)
         then drop_event st ''round_started'' (Dr_already_started roundNumber score)
         else told_fact cx ''round_started'' (Round_start (n + 1) roundNumber score)
           (st\<lparr>mz_scores := (case mz_starts st (n + 1) of
                Some _ \<Rightarrow> mz_scores st | None \<Rightarrow> (mz_scores st)(n + 1 \<mapsto> score)),
              mz_starts := (mz_starts st)(n + 1 \<mapsto> (roundNumber, score))\<rparr>))"

definition stands :: "string \<Rightarrow> string" where
  "stands steamId64 = ''p:'' @ steamId64"

definition team_key :: "match_team \<Rightarrow> string" where
  "team_key team = (case team of Team_a \<Rightarrow> ''team_a'' | Team_b \<Rightarrow> ''team_b'')"

definition on_player_ready ::
  "mz_context \<Rightarrow> mz_state \<Rightarrow> bool \<Rightarrow> mz_player \<Rightarrow> string option \<Rightarrow> tally \<Rightarrow> mz_result" where
  "on_player_ready cx st is_ready p label tally =
    (let name = (if is_ready then ''player_ready'' else ''player_unready'');
         word = (if is_ready then ''ready'' else ''unready'')
     in case playerOf cx p label of
          None \<Rightarrow> drop_event st name (Dr_no_steamid (zp_name p))
        | Some player \<Rightarrow>
            if mz_ready st (stands (id_steamId64 player)) = Some word
            then drop_event st name (Dr_already_stands (id_name player) is_ready)
            else told_fact cx name
              (if is_ready then Player_ready player tally else Player_unready player tally)
              (st\<lparr>mz_ready :=
                 (let ready = (mz_ready st)(stands (id_steamId64 player) \<mapsto> word)
                  in if is_ready then ready
                     else (let ready = ready(''all'' \<mapsto> '''')
                           in case id_team player of None \<Rightarrow> ready
                              | Some team \<Rightarrow> ready(team_key team \<mapsto> '''')))\<rparr>))"

definition on_team_ready :: "mz_context \<Rightarrow> mz_state \<Rightarrow> string \<Rightarrow> nat \<Rightarrow> nat \<Rightarrow> nat \<Rightarrow> mz_result" where
  "on_team_ready cx st label ready_count total_ready expected =
    (case teamOf (Some label) of
       None \<Rightarrow> drop_event st ''team_ready'' (Dr_no_team label)
     | Some team \<Rightarrow>
         (let (floor, because) = gateOf cx team;
              other = total_ready - ready_count;
              tally = \<lparr>ta_ready = (case team of Team_a \<Rightarrow> scoreOf ready_count other
                         | Team_b \<Rightarrow> scoreOf other ready_count), ta_expected = expected\<rparr>
          in if floor > 0 \<and> ready_count < floor
             then drop_event st ''team_ready'' (Dr_under_floor team ready_count because)
             else if mz_ready st (team_key team) = Some ''through''
             then drop_event st ''team_ready'' (Dr_already_through team)
             else told_fact cx ''team_ready'' (Team_ready team tally)
               (st\<lparr>mz_ready := (mz_ready st)(team_key team \<mapsto> ''through'')\<rparr>)))"

definition team_count :: "team_score \<Rightarrow> match_team \<Rightarrow> nat" where
  "team_count score team = (case team of Team_a \<Rightarrow> sc_A score | Team_b \<Rightarrow> sc_B score)"

definition on_all_players_ready :: "mz_context \<Rightarrow> mz_state \<Rightarrow> team_score \<Rightarrow> bool \<Rightarrow> mz_result" where
  "on_all_players_ready cx st ready countdown =
    (let said = decimal_nat (sc_A ready) @ ''/'' @ decimal_nat (sc_B ready) @
           (if countdown then '' counting down'' else '''');
         short = filter (\<lambda>team. fst (gateOf cx team) > 0 \<and> team_count ready team < fst (gateOf cx team))
           [Team_a, Team_b]
     in if short \<noteq> [] then drop_event st ''all_players_ready''
          (Dr_room_short said (map (\<lambda>team. (team, snd (gateOf cx team))) short))
        else if mz_ready st ''all'' = Some said
        then drop_event st ''all_players_ready'' (Dr_already_all said)
        else told_fact cx ''all_players_ready'' (All_ready ready countdown)
          (st\<lparr>mz_ready := (mz_ready st)(''all'' \<mapsto> said)\<rparr>))"

definition on_knife_round_started :: "mz_context \<Rightarrow> mz_state \<Rightarrow> nat \<Rightarrow> mz_result" where
  "on_knife_round_started cx st n =
    (case mapAt cx n of
       None \<Rightarrow> drop_event st ''knife_round_started'' (Dr_outside_plan n)
     | Some _ \<Rightarrow> told_fact cx ''knife_round_started'' (Knife_start (n + 1)) st)"

definition on_knife_round_ended :: "mz_context \<Rightarrow> mz_state \<Rightarrow> nat \<Rightarrow> string \<Rightarrow> mz_result" where
  "on_knife_round_ended cx st n winner =
    (case mapAt cx n of
       None \<Rightarrow> drop_event st ''knife_round_ended'' (Dr_outside_plan n)
     | Some _ \<Rightarrow> (told_fact cx ''knife_round_ended'' (Knife_end (n + 1) (teamOf (Some winner))) st)
         \<lparr>tr_note := (case teamOf (Some winner) of None \<Rightarrow> Some (Nt_knife_unreadable winner) | Some _ \<Rightarrow> None)\<rparr>)"

text \<open>Who won the round, and the note when the score did not say so.\<close>

definition round_winner ::
  "translate_options \<Rightarrow> map_plan \<Rightarrow> team_score \<Rightarrow> team_score \<Rightarrow> team_side \<Rightarrow> string option
     \<Rightarrow> match_team \<times> mz_note option" where
  "round_winner opts plan previous score side named =
    (let rose1 = int (sc_A score) - int (sc_A previous);
         rose2 = int (sc_B score) - int (sc_B previous);
         roundNumber = sc_A score + sc_B score
     in if rose1 = 1 \<and> rose2 = 0 then (Team_a, None)
        else if rose2 = 1 \<and> rose1 = 0 then (Team_b, None)
        else
          (case mp_sides plan of
             Starts start \<Rightarrow>
               (if scheduledSide start roundNumber (to_regulationRounds opts) (to_overtimeRounds opts) = side
                then Team_a else Team_b,
                Some (Nt_by_schedule roundNumber rose1 rose2 side))
           | Knife \<Rightarrow>
               (case teamOf named of Some team \<Rightarrow> team
                | None \<Rightarrow> if sc_A score \<ge> sc_B score then Team_a else Team_b,
                Some (Nt_by_matchzy roundNumber rose1 rose2))))"

definition on_round_end ::
  "translate_options \<Rightarrow> mz_context \<Rightarrow> mz_state \<Rightarrow> nat \<Rightarrow> int \<Rightarrow> nat option \<Rightarrow> mz_winner \<Rightarrow> mz_team \<Rightarrow> mz_team
     \<Rightarrow> mz_result" where
  "on_round_end opts cx st n reason round_time winner team1 team2 =
    (case mapAt cx n of
       None \<Rightarrow> drop_event st ''round_end'' (Dr_outside_plan n)
     | Some plan \<Rightarrow>
         (let mapNumber = n + 1;
              score = scoreOf (mt_score team1) (mt_score team2);
              roundNumber = sc_A score + sc_B score
          in if roundNumber = 0 then drop_event st ''round_end'' Dr_zero_score
             else
               (case sideOf (mw_side winner) of
                  None \<Rightarrow>
                    (case noWinnerOf (mw_side winner) of
                       None \<Rightarrow> drop_event st ''round_end'' (Dr_no_side (mw_side winner))
                     | Some nobody \<Rightarrow>
                         if reason = GAME_COMMENCING_REASON then
                           (drop_event st ''round_end'' (Dr_restarted (mw_side winner) score))
                             \<lparr>tr_note := Some (Nt_restarted mapNumber score)\<rparr>
                         else drop_event st ''round_end''
                           (Dr_nobody_won roundNumber score (nobody = Nobody_draw)))
                | Some side \<Rightarrow>
                    (let previous = (case mz_scores st mapNumber of Some p \<Rightarrow> p | None \<Rightarrow> scoreOf 0 0)
                     in if score = previous
                        then drop_event st ''round_end'' (Dr_already_reported roundNumber score)
                        else
                          (let (team, said) = round_winner opts plan previous score side (mw_team winner)
                           in (told_fact cx ''round_end''
                                (Round_ended mapNumber roundNumber team side (winConditionOf reason) score
                                  (summaries team1 team2)
                                  (case round_time of Some t \<Rightarrow> if t > 0 then Some t else None | None \<Rightarrow> None))
                                (st\<lparr>mz_scores := (mz_scores st)(mapNumber \<mapsto> score)\<rparr>))
                              \<lparr>tr_note := said\<rparr>)))))"

definition score_winner :: "team_score \<Rightarrow> match_team option" where
  "score_winner score =
    (if sc_A score = sc_B score then None
     else if sc_A score > sc_B score then Some Team_a else Some Team_b)"

definition on_map_result :: "mz_context \<Rightarrow> mz_state \<Rightarrow> nat \<Rightarrow> mz_team \<Rightarrow> mz_team \<Rightarrow> mz_result" where
  "on_map_result cx st n team1 team2 =
    (case mapAt cx n of
       None \<Rightarrow> drop_event st ''map_result'' (Dr_outside_plan n)
     | Some plan \<Rightarrow>
         (let score = scoreOf (mt_score team1) (mt_score team2)
          in told_fact cx ''map_result'' (Map_end (n + 1) (mp_map plan) score (score_winner score)) st))"

definition on_series_end :: "mz_context \<Rightarrow> mz_state \<Rightarrow> nat \<Rightarrow> nat \<Rightarrow> mz_result" where
  "on_series_end cx st team1 team2 =
    (let score = scoreOf team1 team2
     in told_fact cx ''series_end'' (Series_ended score (score_winner score)) st)"

subsection \<open>One payload\<close>

definition translate_event ::
  "translate_options \<Rightarrow> mz_context \<Rightarrow> mz_state \<Rightarrow> mz_event \<Rightarrow> mz_result" where
  "translate_event opts cx st event =
    (case event of
       Mz_going_live n \<Rightarrow> on_going_live cx st n
     | Mz_round_started n roundNumber s1 s2 \<Rightarrow> on_round_started cx st n roundNumber (scoreOf s1 s2)
     | Mz_player_ready p label c1 c2 expected \<Rightarrow>
         on_player_ready cx st True p label \<lparr>ta_ready = scoreOf c1 c2, ta_expected = expected\<rparr>
     | Mz_player_unready p label c1 c2 expected \<Rightarrow>
         on_player_ready cx st False p label \<lparr>ta_ready = scoreOf c1 c2, ta_expected = expected\<rparr>
     | Mz_team_ready label ready_count total_ready expected \<Rightarrow> on_team_ready cx st label ready_count total_ready expected
     | Mz_all_players_ready c1 c2 countdown \<Rightarrow> on_all_players_ready cx st (scoreOf c1 c2) countdown
     | Mz_knife_round_started n \<Rightarrow> on_knife_round_started cx st n
     | Mz_knife_round_ended n winner \<Rightarrow> on_knife_round_ended cx st n winner
     | Mz_round_end n reason round_time winner team1 team2 \<Rightarrow>
         on_round_end opts cx st n reason round_time winner team1 team2
     | Mz_map_result n team1 team2 \<Rightarrow> on_map_result cx st n team1 team2
     | Mz_series_end s1 s2 \<Rightarrow> on_series_end cx st s1 s2
     | Mz_backup_loaded n \<Rightarrow> (drop_event st ''backup_loaded'' (Dr_listed ''backup_loaded''))
         \<lparr>tr_state := rewind (n + 1) st\<rparr>)"

definition translateMatchZyEvent ::
  "mz_payload \<Rightarrow> mz_context \<Rightarrow> mz_state \<Rightarrow> translate_options \<Rightarrow> mz_result" where
  "translateMatchZyEvent payload cx st opts =
    (case payload of
       Nameless \<Rightarrow> drop_event st ''?'' Dr_no_name
     | Unread name body \<Rightarrow>
         if name = ''?'' then drop_event st name Dr_no_name
         else if name \<in> set MATCHZY_DROPPED_EVENTS then drop_event st name (Dr_listed name)
         else if name \<in> set INHERITED then drop_event st name Dr_inherited
         else if name \<in> set MATCHZY_INTERNAL_EVENTS then
           (drop_event st name (fst (internalNoteOf name body)))
             \<lparr>tr_note := snd (internalNoteOf name body)\<rparr>
         else if name \<in> set MATCHZY_KNOWN_EVENTS then drop_event st name Dr_unparsed
         else drop_event st name Dr_unknown
     | Read matchid event \<Rightarrow>
         if matchid \<noteq> cx_serial cx then
           drop_event st (event_name event)
             (case event of Mz_backup_loaded _ \<Rightarrow> Dr_listed ''backup_loaded''
              | _ \<Rightarrow> Dr_other_match matchid (cx_serial cx))
         else translate_event opts cx st event)"

fun translate_all ::
  "translate_options \<Rightarrow> mz_context \<Rightarrow> mz_state \<Rightarrow> mz_payload list \<Rightarrow> mz_fact list \<times> mz_state" where
  "translate_all opts cx st [] = ([], st)"
| "translate_all opts cx st (p # ps) =
    (let r = translateMatchZyEvent p cx st opts;
         (facts, final) = translate_all opts cx (tr_state r) ps
     in (tr_events r @ facts, final))"

end
