(* ===== verification/Matchzy_Laws.thy ===== *)
theory Matchzy_Laws
  imports Matchzy
begin

text \<open>
  What the translation of MatchZy's log promises: facts the plan and the score back, a ready gate
  that only says edges, rounds told once with the winner the score names, and a ready floor that
  is MatchZy's own.
\<close>

subsection \<open>Every fact is backed\<close>

definition on_plan :: "mz_context \<Rightarrow> nat \<Rightarrow> bool" where
  "on_plan cx mapNumber \<longleftrightarrow> 0 < mapNumber \<and> mapNumber \<le> length (cx_maps cx)"

definition known_player :: "mz_identity \<Rightarrow> bool" where
  "known_player p \<longleftrightarrow> is_steamId64 (id_steamId64 p) \<and> id_name p \<noteq> ''''"

fun fact_ok :: "mz_context \<Rightarrow> fact \<Rightarrow> bool" where
  "fact_ok cx (Going_live_fact n m) = (on_plan cx n \<and> m = mp_map (cx_maps cx ! (n - 1)))"
| "fact_ok cx (Round_start n _ _) = on_plan cx n"
| "fact_ok cx (Round_ended n r _ _ _ score players ms) =
    (on_plan cx n \<and> r = sc_A score + sc_B score \<and> 0 < r \<and> ms \<noteq> Some 0 \<and>
     (\<forall>ps. players = Some ps \<longrightarrow> ps \<noteq> [] \<and> list_all (\<lambda>p. known_player (pr_player p)) ps))"
| "fact_ok cx (Map_end n m score w) =
    (on_plan cx n \<and> m = mp_map (cx_maps cx ! (n - 1)) \<and> w = score_winner score)"
| "fact_ok cx (Series_ended score w) = (w = score_winner score)"
| "fact_ok cx (Player_ready p _) = known_player p"
| "fact_ok cx (Player_unready p _) = known_player p"
| "fact_ok cx (Team_ready t tally) = (fst (gateOf cx t) \<le> team_count (ta_ready tally) t)"
| "fact_ok cx (All_ready ready _) = (\<forall>t. fst (gateOf cx t) \<le> team_count ready t)"
| "fact_ok cx (Knife_start n) = on_plan cx n"
| "fact_ok cx (Knife_end n _) = on_plan cx n"

definition result_ok :: "mz_context \<Rightarrow> mz_result \<Rightarrow> bool" where
  "result_ok cx r \<longleftrightarrow> (tr_events r = [] \<longleftrightarrow> tr_dropped r \<noteq> None) \<and> length (tr_events r) \<le> 1 \<and>
     list_all (\<lambda>f. fa_matchId f = cx_matchId cx \<and> fa_source f = cx_source cx \<and> fact_ok cx (fa_body f))
       (tr_events r)"

lemma result_ok_drop [simp]: "result_ok cx (drop_event st name why)"
  by (simp add: result_ok_def drop_event_def)

lemma result_ok_noted [simp]:
  "result_ok cx (r\<lparr>tr_note := x\<rparr>) = result_ok cx r" "result_ok cx (r\<lparr>tr_state := st\<rparr>) = result_ok cx r"
  by (simp_all add: result_ok_def)

lemma result_ok_told [simp]: "result_ok cx (told_fact cx name body st) = fact_ok cx body"
  by (simp add: result_ok_def told_fact_def)

lemma mapAt_plan: "mapAt cx n = Some plan \<Longrightarrow> on_plan cx (n + 1) \<and> plan = cx_maps cx ! n"
  by (auto simp: mapAt_def on_plan_def split: if_splits)

lemma playerOf_known: "playerOf cx p label = Some q \<Longrightarrow> known_player q"
  by (auto simp: playerOf_def known_player_def split: if_splits)

lemma summaries_known: "summaries t1 t2 = Some ps \<Longrightarrow> ps \<noteq> [] \<and> list_all (\<lambda>p. known_player (pr_player p)) ps"
  by (auto simp: summaries_def Let_def team_summaries_def list_all_iff known_player_def split: if_splits)

lemmas branch_defs = on_going_live_def on_round_started_def on_knife_round_started_def
  on_knife_round_ended_def on_map_result_def on_series_end_def Let_def

lemma result_ok_round_end: "result_ok cx (on_round_end opts cx st n reason rt w t1 t2)"
  using mapAt_plan [of cx n] summaries_known [of t1 t2]
  by (auto simp: on_round_end_def Let_def case_prod_beta scoreOf_def split: option.splits)

lemma team_count_scoreOf [simp]: "team_count (scoreOf a b) t = (case t of Team_a \<Rightarrow> a | Team_b \<Rightarrow> b)"
  by (simp add: team_count_def scoreOf_def split: match_team.split)

lemma result_ok_team_ready: "result_ok cx (on_team_ready cx st label c total_ready expected)"
  by (auto simp: on_team_ready_def Let_def case_prod_beta split: option.split match_team.split)

lemma result_ok_all_ready: "result_ok cx (on_all_players_ready cx st ready cd)"
proof -
  have "\<forall>t. fst (gateOf cx t) \<le> team_count ready t"
    if "\<not> (0 < fst (gateOf cx Team_a) \<and> team_count ready Team_a < fst (gateOf cx Team_a))"
      "\<not> (0 < fst (gateOf cx Team_b) \<and> team_count ready Team_b < fst (gateOf cx Team_b))"
  proof
    fix t show "fst (gateOf cx t) \<le> team_count ready t" using that by (cases t) auto
  qed
  then show ?thesis by (auto simp: on_all_players_ready_def Let_def)
qed

lemma result_ok_player: "result_ok cx (on_player_ready cx st b p label tally)"
  using playerOf_known [of cx p label] by (auto simp: on_player_ready_def Let_def split: option.split)

lemma result_ok_event: "result_ok cx (translate_event opts cx st event)"
  using mapAt_plan
  by (cases event)
    (auto simp: translate_event_def branch_defs result_ok_round_end result_ok_team_ready
      result_ok_all_ready result_ok_player split: option.split)

lemma result_ok_payload: "result_ok cx (translateMatchZyEvent payload cx st opts)"
  by (cases payload) (simp_all add: translateMatchZyEvent_def result_ok_event)

lemma translate_all_ok:
  "list_all (\<lambda>f. fa_matchId f = cx_matchId cx \<and> fa_source f = cx_source cx \<and> fact_ok cx (fa_body f))
     (fst (translate_all opts cx st ps))"
proof (induction ps arbitrary: st)
  case (Cons p ps)
  then show ?case using result_ok_payload [of cx p st opts]
    by (simp add: Let_def case_prod_beta result_ok_def)
qed simp

subsection \<open>The ready gate says edges\<close>

text \<open>A reader of the log: who stands where, which teams are through, what the room last was.
  \<open>None\<close> when a fact repeats what the log already says.\<close>

record gate =
  ga_through :: "match_team set"
  ga_stand :: "string \<Rightarrow> bool option"
  ga_room :: "(team_score \<times> bool) option"

definition empty_gate :: gate where
  "empty_gate = \<lparr>ga_through = {}, ga_stand = (\<lambda>_. None), ga_room = None\<rparr>"

fun read_gate :: "gate \<Rightarrow> fact \<Rightarrow> gate option" where
  "read_gate g (Going_live_fact _ _) = Some empty_gate"
| "read_gate g (Player_ready p _) =
    (if ga_stand g (id_steamId64 p) = Some True then None
     else Some (g\<lparr>ga_stand := (ga_stand g)(id_steamId64 p \<mapsto> True)\<rparr>))"
| "read_gate g (Player_unready p _) =
    (if ga_stand g (id_steamId64 p) = Some False then None
     else Some \<lparr>ga_through = ga_through g - {t. id_team p = Some t},
       ga_stand = (ga_stand g)(id_steamId64 p \<mapsto> False), ga_room = None\<rparr>)"
| "read_gate g (Team_ready t _) =
    (if t \<in> ga_through g then None else Some (g\<lparr>ga_through := insert t (ga_through g)\<rparr>))"
| "read_gate g (All_ready ready cd) =
    (if ga_room g = Some (ready, cd) then None else Some (g\<lparr>ga_room := Some (ready, cd)\<rparr>))"
| "read_gate g _ = Some g"

fun read_log :: "gate \<Rightarrow> mz_fact list \<Rightarrow> gate option" where
  "read_log g [] = Some g"
| "read_log g (f # fs) = Option.bind (read_gate g (fa_body f)) (\<lambda>g'. read_log g' fs)"

lemma read_log_append: "read_log g (fs @ gs) = Option.bind (read_log g fs) (\<lambda>g'. read_log g' gs)"
  by (induction fs arbitrary: g) simp_all

definition room_said :: "team_score \<Rightarrow> bool \<Rightarrow> string" where
  "room_said ready countdown = decimal_nat (sc_A ready) @ ''/'' @ decimal_nat (sc_B ready) @
     (if countdown then '' counting down'' else '''')"

text \<open>The door's memory knows at least what the reader knows.\<close>

definition remembers :: "gate \<Rightarrow> mz_state \<Rightarrow> bool" where
  "remembers g st \<longleftrightarrow>
     (\<forall>t \<in> ga_through g. mz_ready st (team_key t) = Some ''through'') \<and>
     (\<forall>p b. ga_stand g p = Some b \<longrightarrow> mz_ready st (stands p) = Some (if b then ''ready'' else ''unready'')) \<and>
     (\<forall>ready cd. ga_room g = Some (ready, cd) \<longrightarrow> mz_ready st ''all'' = Some (room_said ready cd))"

lemma gate_keys_apart [simp]:
  "stands p \<noteq> team_key t" "stands p \<noteq> ''all''" "team_key t \<noteq> ''all''" "team_key t \<noteq> stands p"
  "''all'' \<noteq> stands p" "''all'' \<noteq> team_key t" "stands p = stands q \<longleftrightarrow> p = q" "team_key t = team_key u \<longleftrightarrow> t = u"
  by (cases t; cases u; simp add: stands_def team_key_def)+

definition reads_on :: "gate \<Rightarrow> mz_result \<Rightarrow> bool" where
  "reads_on g r \<longleftrightarrow> (\<exists>g'. read_log g (tr_events r) = Some g' \<and> remembers g' (tr_state r))"

lemma reads_on_drop [simp]: "reads_on g (drop_event st name why) = remembers g st"
  by (simp add: reads_on_def drop_event_def)

lemma reads_on_told [simp]: "reads_on g (told_fact cx name body st) \<longleftrightarrow>
    (\<exists>g'. read_gate g body = Some g' \<and> remembers g' st)"
  by (auto simp: reads_on_def told_fact_def)

lemma reads_on_note [simp]: "reads_on g (r\<lparr>tr_note := x\<rparr>) = reads_on g r"
  by (simp add: reads_on_def)

lemma reads_on_memory [simp]: "reads_on g ((drop_event st name why)\<lparr>tr_state := st'\<rparr>) = remembers g st'"
  by (simp add: reads_on_def drop_event_def)

lemma remembers_empty [simp]: "remembers empty_gate st"
  by (simp add: remembers_def empty_gate_def)

lemma remembers_elsewhere [simp]:
  "remembers g (st\<lparr>mz_scores := x\<rparr>) = remembers g st" "remembers g (st\<lparr>mz_starts := y\<rparr>) = remembers g st"
  by (simp_all add: remembers_def)

lemma remembers_player:
  assumes "remembers g st" shows "reads_on g (on_player_ready cx st b p label tally)"
proof (cases "playerOf cx p label")
  case None
  with assms show ?thesis by (simp add: on_player_ready_def Let_def)
next
  case (Some q)
  have "ga_stand g (id_steamId64 q) \<noteq> Some b"
    if "mz_ready st (stands (id_steamId64 q)) \<noteq> Some (if b then ''ready'' else ''unready'')"
    using assms that unfolding remembers_def by blast
  with assms Some show ?thesis
    by (cases b; cases "id_team q")
      (auto simp: on_player_ready_def Let_def remembers_def)
qed

lemma remembers_team:
  assumes "remembers g st" shows "reads_on g (on_team_ready cx st label c total_ready expected)"
  using assms
  by (auto simp: on_team_ready_def Let_def case_prod_beta remembers_def split: option.split)

lemma remembers_room:
  assumes "remembers g st" shows "reads_on g (on_all_players_ready cx st ready cd)"
  using assms
  by (auto simp: on_all_players_ready_def Let_def remembers_def room_said_def)

lemma remembers_round_end:
  assumes "remembers g st" shows "reads_on g (on_round_end opts cx st n reason rt w t1 t2)"
  using assms
  by (auto simp: on_round_end_def Let_def case_prod_beta split: option.split)

lemma remembers_payload:
  assumes "remembers g st" shows "reads_on g (translateMatchZyEvent payload cx st opts)"
proof (cases payload)
  case (Read mid event)
  have "reads_on g (translate_event opts cx st event)"
    using assms
    by (cases event)
      (auto simp: translate_event_def branch_defs remembers_player remembers_team remembers_room
        remembers_round_end rewind_def split: option.split)
  with assms Read show ?thesis by (simp add: translateMatchZyEvent_def)
qed (use assms in \<open>simp_all add: translateMatchZyEvent_def\<close>)

lemma translate_all_reads:
  "remembers g st \<Longrightarrow> read_log g (fst (translate_all opts cx st ps)) \<noteq> None"
proof (induction ps arbitrary: g st)
  case (Cons p ps)
  from remembers_payload [OF Cons.prems, of p cx opts] obtain g' where
    "read_log g (tr_events (translateMatchZyEvent p cx st opts)) = Some g'"
    "remembers g' (tr_state (translateMatchZyEvent p cx st opts))"
    by (auto simp: reads_on_def)
  with Cons.IH show ?case by (simp add: Let_def case_prod_beta read_log_append)
qed simp


subsection \<open>Each round is told once\<close>

text \<open>A recording of map \<open>n\<close> (counted from 0) from the score \<open>s\<close> on: each round of \<open>ws\<close> starts at
  least once at the score it is played at, ends at least once at the next, with the side that won,
  and what MatchZy names as winner, reason and stats is arbitrary. Starts and ends are repeated at
  will, and anything that is not about the rounds of this map comes in between. \<open>Fresh\<close> is a map not
  begun, or just restored.\<close>

datatype phase = Fresh | Between | Playing

definition bump :: "match_team \<Rightarrow> team_score \<Rightarrow> team_score" where
  "bump t s = (case t of Team_a \<Rightarrow> s\<lparr>sc_A := Suc (sc_A s)\<rparr> | Team_b \<Rightarrow> s\<lparr>sc_B := Suc (sc_B s)\<rparr>)"

definition next_round :: "team_score \<Rightarrow> nat" where
  "next_round s = sc_A s + sc_B s + 1"

fun about_rounds :: "nat \<Rightarrow> mz_event \<Rightarrow> bool" where
  "about_rounds n (Mz_round_started m _ _ _) = (m = n)"
| "about_rounds n (Mz_round_end m _ _ _ _ _) = (m = n)"
| "about_rounds n (Mz_backup_loaded m) = (m = n)"
| "about_rounds n _ = False"

fun quiet :: "mz_context \<Rightarrow> nat \<Rightarrow> mz_payload \<Rightarrow> bool" where
  "quiet cx n (Read mid e) = (mid = cx_serial cx \<longrightarrow> \<not> about_rounds n e)"
| "quiet cx n _ = True"

definition starts_at :: "mz_context \<Rightarrow> nat \<Rightarrow> team_score \<Rightarrow> mz_payload" where
  "starts_at cx n s = Read (cx_serial cx) (Mz_round_started n (next_round s) (sc_A s) (sc_B s))"

fun ends_at :: "mz_context \<Rightarrow> nat \<Rightarrow> team_score \<Rightarrow> mz_payload \<Rightarrow> bool" where
  "ends_at cx n s (Read mid (Mz_round_end m _ _ _ t1 t2)) =
     (mid = cx_serial cx \<and> m = n \<and> mt_score t1 = sc_A s \<and> mt_score t2 = sc_B s)"
| "ends_at cx n s _ = False"

fun won_by :: "team_side \<Rightarrow> mz_payload \<Rightarrow> bool" where
  "won_by side (Read _ (Mz_round_end _ _ _ w _ _)) = (sideOf (mw_side w) = Some side)"
| "won_by side _ = False"

inductive recording ::
  "mz_context \<Rightarrow> nat \<Rightarrow> phase \<Rightarrow> team_score \<Rightarrow> (match_team \<times> team_side) list \<Rightarrow> mz_payload list \<Rightarrow> bool"
  for cx n where
  rec_nil: "recording cx n ph s [] []"
| rec_noise: "quiet cx n p \<Longrightarrow> recording cx n ph s ws ps \<Longrightarrow> recording cx n ph s ws (p # ps)"
| rec_start: "recording cx n Playing s (w # ws) ps \<Longrightarrow> recording cx n ph s (w # ws) (starts_at cx n s # ps)"
| rec_end: "ends_at cx n (bump t s) p \<Longrightarrow> won_by side p \<Longrightarrow> recording cx n Between (bump t s) ws ps \<Longrightarrow>
    recording cx n Playing s ((t, side) # ws) (p # ps)"
| rec_again: "ph \<noteq> Fresh \<Longrightarrow> ends_at cx n s p \<Longrightarrow> recording cx n ph s ws ps \<Longrightarrow>
    recording cx n ph s ws (p # ps)"

text \<open>What the log says of a map's rounds: number, winner once it has ended, score.\<close>

type_synonym round_line = "nat \<times> (match_team \<times> team_side) option \<times> team_score"

fun round_line :: "nat \<Rightarrow> fact \<Rightarrow> round_line list" where
  "round_line n (Round_start m r s) = (if m = n + 1 then [(r, None, s)] else [])"
| "round_line n (Round_ended m r t side _ s _ _) = (if m = n + 1 then [(r, Some (t, side), s)] else [])"
| "round_line n _ = []"

definition rounds_told :: "nat \<Rightarrow> mz_fact list \<Rightarrow> round_line list" where
  "rounds_told n fs = concat (map (round_line n \<circ> fa_body) fs)"

fun rounds_of :: "phase \<Rightarrow> team_score \<Rightarrow> (match_team \<times> team_side) list \<Rightarrow> round_line list" where
  "rounds_of ph s [] = []"
| "rounds_of ph s ((t, side) # ws) =
    (if ph = Playing then [] else [(next_round s, None, s)]) @
    (next_round s, Some (t, side), bump t s) # rounds_of Between (bump t s) ws"

fun follows :: "nat \<Rightarrow> phase \<Rightarrow> team_score \<Rightarrow> mz_state \<Rightarrow> bool" where
  "follows n Fresh s st = (mz_starts st (n + 1) = None)"
| "follows n Between s st = (mz_scores st (n + 1) = Some s \<and>
     (\<exists>r s'. mz_starts st (n + 1) = Some (r, s') \<and> s' \<noteq> s))"
| "follows n Playing s st = (mz_scores st (n + 1) = Some s \<and> mz_starts st (n + 1) = Some (next_round s, s))"

lemma scoreOf_parts [simp]: "scoreOf (sc_A s) (sc_B s) = s" "sc_A (scoreOf a b) = a" "sc_B (scoreOf a b) = b"
  by (simp_all add: scoreOf_def)

lemma bump_simps [simp]: "bump t s \<noteq> s" "s \<noteq> bump t s" "sc_A (bump t s) + sc_B (bump t s) = next_round s"
  by (cases t; cases s; simp add: bump_def next_round_def)+

lemma round_winner_bump: "fst (round_winner opts plan s (bump t s) side named) = t"
  by (cases t) (simp_all add: round_winner_def bump_def Let_def)

definition same_rounds :: "nat \<Rightarrow> mz_state \<Rightarrow> mz_result \<Rightarrow> bool" where
  "same_rounds n st r \<longleftrightarrow> rounds_told n (tr_events r) = [] \<and>
     mz_scores (tr_state r) (n + 1) = mz_scores st (n + 1) \<and>
     mz_starts (tr_state r) (n + 1) = mz_starts st (n + 1)"

lemma same_rounds_simps [simp]:
  "same_rounds n st (drop_event st name why)"
  "same_rounds n st (r\<lparr>tr_note := x\<rparr>) = same_rounds n st r"
  "same_rounds n st (told_fact cx name body st') \<longleftrightarrow> round_line n body = [] \<and>
     mz_scores st' (n + 1) = mz_scores st (n + 1) \<and> mz_starts st' (n + 1) = mz_starts st (n + 1)"
  by (simp_all add: same_rounds_def drop_event_def told_fact_def rounds_told_def)

lemma quiet_event: "\<not> about_rounds n e \<Longrightarrow> same_rounds n st (translate_event opts cx st e)"
  by (cases e)
    (auto simp: translate_event_def branch_defs on_player_ready_def on_team_ready_def
      on_all_players_ready_def on_round_end_def case_prod_beta split: option.split,
     simp add: same_rounds_def rewind_def drop_event_def rounds_told_def)

lemma quiet_payload: "quiet cx n p \<Longrightarrow> same_rounds n st (translateMatchZyEvent p cx st opts)"
  by (cases p) (auto simp: translateMatchZyEvent_def quiet_event)

lemma follows_same: "same_rounds n st r \<Longrightarrow> follows n ph s (tr_state r) = follows n ph s st"
  by (cases ph) (simp_all add: same_rounds_def)

lemma ends_atE:
  assumes "ends_at cx n s p"
  obtains reason rt w t1 t2 where
    "p = Read (cx_serial cx) (Mz_round_end n reason rt w t1 t2)" "mt_score t1 = sc_A s" "mt_score t2 = sc_B s"
  using assms by (cases "(cx, n, s, p)" rule: ends_at.cases) auto

lemma again_dropped:
  assumes "ends_at cx n s p" and "mz_scores st (n + 1) = Some s"
  shows "same_rounds n st (translateMatchZyEvent p cx st opts)"
  using assms
  by (auto elim!: ends_atE simp: translateMatchZyEvent_def translate_event_def on_round_end_def Let_def
      split: option.split)

lemma started_step:
  assumes "n < length (cx_maps cx)" and "follows n ph s st"
    and r_def: "r = translateMatchZyEvent (starts_at cx n s) cx st opts"
  shows "rounds_told n (tr_events r) = (if ph = Playing then [] else [(next_round s, None, s)])"
    and "follows n Playing s (tr_state r)"
  using assms
  by (cases ph; auto simp: starts_at_def translateMatchZyEvent_def translate_event_def on_round_started_def
      mapAt_def told_fact_def drop_event_def rounds_told_def)+

lemma ended_step:
  assumes "n < length (cx_maps cx)" and "follows n Playing s st" and "ends_at cx n (bump t s) p"
    and "won_by side p"
    and r_def: "r = translateMatchZyEvent p cx st opts"
  shows "rounds_told n (tr_events r) = [(next_round s, Some (t, side), bump t s)]"
    and "follows n Between (bump t s) (tr_state r)"
proof -
  obtain reason rt w t1 t2 where p: "p = Read (cx_serial cx) (Mz_round_end n reason rt w t1 t2)"
    and sc: "mt_score t1 = sc_A (bump t s)" "mt_score t2 = sc_B (bump t s)"
    using assms(3) by (rule ends_atE)
  have side: "sideOf (mw_side w) = Some side" using assms(4) p by simp
  have pos: "sc_A (bump t s) + sc_B (bump t s) = Suc (sc_A s + sc_B s)"
    by (simp add: next_round_def)
  have nz: "(sc_A (bump t s) = 0 \<and> sc_B (bump t s) = 0) = False"
    by (cases t) (simp_all add: bump_def)
  note facts = p sc side pos nz assms(1,2) r_def translateMatchZyEvent_def translate_event_def
    on_round_end_def mapAt_def Let_def case_prod_beta told_fact_def rounds_told_def round_winner_bump
  show "rounds_told n (tr_events r) = [(next_round s, Some (t, side), bump t s)]"
    using assms(2) by (simp add: facts)
  show "follows n Between (bump t s) (tr_state r)"
    using assms(2) by (simp add: facts)
qed

lemma rounds_told_append [simp]: "rounds_told n (fs @ gs) = rounds_told n fs @ rounds_told n gs"
  by (simp add: rounds_told_def)

lemma translate_all_rounds:
  "recording cx n ph s ws ps \<Longrightarrow> n < length (cx_maps cx) \<Longrightarrow> follows n ph s st \<Longrightarrow>
   rounds_told n (fst (translate_all opts cx st ps)) = rounds_of ph s ws"
proof (induction arbitrary: st rule: recording.induct)
  case (rec_nil ph s)
  then show ?case by (simp add: rounds_told_def)
next
  case (rec_noise p ph s ws ps)
  note same = quiet_payload [OF rec_noise.hyps(1), of st opts]
  with rec_noise show ?case
    by (simp add: Let_def case_prod_beta follows_same [OF same]) (simp add: same_rounds_def)
next
  case (rec_start s w ws ps ph)
  note step = started_step [OF rec_start.prems refl, of opts]
  obtain t side where "w = (t, side)" by (cases w)
  with rec_start.IH [OF rec_start.prems(1) step(2)] step(1) show ?case
    by (simp add: Let_def case_prod_beta)
next
  case (rec_end t s p side ws ps)
  note step = ended_step [OF rec_end.prems rec_end.hyps(1,2) refl, of opts]
  from rec_end.IH [OF rec_end.prems(1) step(2)] step(1) show ?case
    by (simp add: Let_def case_prod_beta)
next
  case (rec_again ph s p ws ps)
  have "mz_scores st (n + 1) = Some s"
    using rec_again.hyps(1) rec_again.prems(2) by (cases ph) auto
  note same = again_dropped [OF rec_again.hyps(2) this, of opts]
  with rec_again show ?case
    by (simp add: Let_def case_prod_beta follows_same [OF same]) (simp add: same_rounds_def)
qed

end
