(* ===== verification/Matchzy_Door.thy ===== *)
theory Matchzy_Door
  imports Matchzy_Laws Link_Laws
begin

text \<open>
  The door MatchZy posts to, \<open>apps/orchestrator/src/matchzy/door.ts\<close>: the server by its token, the match
  it holds, the translation with what is remembered of the match, and the machine's own \<open>ingest\<close>.
  A body arrives parsed, with its length; \<open>None\<close> is one that is not JSON.
\<close>

subsection \<open>From the request\<close>

definition MATCHZY_PAYLOAD_MAX :: nat where "MATCHZY_PAYLOAD_MAX = 256 * 1024"

record door_config =
  dc_machine :: env
  dc_translate :: "translate_options option"     \<comment> \<open>overrides, both fields\<close>

record door =
  do_world :: world
  do_states :: "ident \<Rightarrow> mz_state option"

record door_request =
  dr_token :: "string option"
  dr_length :: nat
  dr_body :: "mz_payload option"

datatype refusal = No_server_token | Too_large | Unknown_token | Holds_no_match | Match_is_over | Not_json_body

fun refusal_status :: "refusal \<Rightarrow> nat" where
  "refusal_status No_server_token = 401"
| "refusal_status Too_large = 413"
| "refusal_status Unknown_token = 401"
| "refusal_status Holds_no_match = 409"
| "refusal_status Match_is_over = 409"
| "refusal_status Not_json_body = 400"

text \<open>\<open>Door_threw\<close> is the rejected promise, when the machine threw.\<close>

datatype door_answer = Door_refused refusal | Door_dropped dropped
  | Door_accepted "ingest_status list" | Door_threw

definition readyFloorOf :: "env \<Rightarrow> match_row \<Rightarrow> nat" where
  "readyFloorOf e row = (case manifestOf e row of
     Some m \<Rightarrow> rg_minPlayersToReady (matchZyReadyGate (m_request row) m)
   | None \<Rightarrow> 0)"

definition context_of :: "env \<Rightarrow> match_row \<Rightarrow> server_ref \<Rightarrow> mz_context" where
  "context_of e row source =
    \<lparr>cx_matchId = m_id row, cx_source = source,
     cx_serial = int (matchzySerial (en_sha256Head e) (m_id row)),
     cx_maps = mr_maps (m_request row),
     cx_teamA = \<lparr>ms_name = mr_nameA (m_request row), ms_players = map re_steamId64 (mr_teamA (m_request row))\<rparr>,
     cx_teamB = \<lparr>ms_name = mr_nameB (m_request row), ms_players = map re_steamId64 (mr_teamB (m_request row))\<rparr>,
     cx_readyFloor = readyFloorOf e row\<rparr>"

definition options_of :: "door_config \<Rightarrow> match_row \<Rightarrow> translate_options" where
  "options_of C row =
    (case dc_translate C of Some o' \<Rightarrow> o'
     | None \<Rightarrow>
         (case mr_rules (m_request row) of
            None \<Rightarrow> \<lparr>to_regulationRounds = 24, to_overtimeRounds = 6\<rparr>
          | Some ru \<Rightarrow> \<lparr>to_regulationRounds = ru_regulationRounds ru,
              to_overtimeRounds = ru_overtimeMaxRounds ru\<rparr>))"

subsection \<open>To the machine\<close>

fun event_body_of :: "fact \<Rightarrow> event_body" where
  "event_body_of (Going_live_fact n _) = Going_live n None None"
| "event_body_of (Round_ended _ r _ _ _ _ _ _) = Round_end r"
| "event_body_of (Series_ended _ _) = Series_end None"
| "event_body_of (Round_start _ _ _) = Other_event ''round_start''"
| "event_body_of (Map_end _ _ _ _) = Other_event ''map_end''"
| "event_body_of (Player_ready _ _) = Other_event ''player_ready''"
| "event_body_of (Player_unready _ _) = Other_event ''player_unready''"
| "event_body_of (Team_ready _ _) = Other_event ''team_ready''"
| "event_body_of (All_ready _ _) = Other_event ''all_ready''"
| "event_body_of (Knife_start _) = Other_event ''knife_start''"
| "event_body_of (Knife_end _ _) = Other_event ''knife_end''"

text \<open>The translated events carry no \<open>seq\<close>.\<close>

definition to_gameserver_event :: "mz_fact \<Rightarrow> gameserver_event" where
  "to_gameserver_event f = \<lparr>ge_matchId = fa_matchId f, ge_seq = None, ge_simulated = False,
     ge_body = event_body_of (fa_body f)\<rparr>"

definition door_world :: "'a step \<Rightarrow> (door, 'a) state" where
  "door_world m = State (\<lambda>d. (result m (do_world d), d\<lparr>do_world := after m (do_world d)\<rparr>))"

definition remember :: "ident \<Rightarrow> mz_state option \<Rightarrow> (door, unit) state" where
  "remember mid st = modify (\<lambda>d. d\<lparr>do_states := (do_states d)(mid := st)\<rparr>)"

fun deliver_facts :: "env \<Rightarrow> ident \<Rightarrow> server_ref \<Rightarrow> mz_fact list \<Rightarrow> (door, ingest_status list option) state" where
  "deliver_facts e mid source [] = State_Monad.return (Some [])"
| "deliver_facts e mid source (f # fs) = do {
     status \<leftarrow> door_world (ingest e source (to_gameserver_event f));
     if status = In_threw then State_Monad.return None
     else do {
       (case fa_body f of Series_ended _ _ \<Rightarrow> remember mid None | _ \<Rightarrow> skip);
       rest \<leftarrow> deliver_facts e mid source fs;
       State_Monad.return (map_option (\<lambda>statuses. status # statuses) rest)
     }
   }"

text \<open>The open server that presents the token and holds a match.\<close>

definition door_server :: "env \<Rightarrow> door_request \<Rightarrow> store \<Rightarrow> refusal + (server_row \<times> ident)" where
  "door_server e rq s =
    (case map_option trim (dr_token rq) of
       None \<Rightarrow> Inl No_server_token
     | Some token \<Rightarrow>
         if \<not> looksLikeToken token then Inl No_server_token
         else if dr_length rq > MATCHZY_PAYLOAD_MAX then Inl Too_large
         else
           (case findServerTokenByHash (en_hashToken e token) s of
              None \<Rightarrow> Inl Unknown_token
            | Some record \<Rightarrow>
                if st_revokedAt record \<noteq> None then Inl Unknown_token
                else
                  (case findServer (st_fleetServerId record) s of
                     None \<Rightarrow> Inl Holds_no_match
                   | Some server \<Rightarrow>
                       if s_releasedAt server \<noteq> None \<or> s_serverId server = None \<or> s_serverId server = Some ''''
                       then Inl Holds_no_match
                       else
                         (case s_matchId server of
                            None \<Rightarrow> Inl Holds_no_match
                          | Some mid \<Rightarrow> if mid = '''' then Inl Holds_no_match else Inr (server, mid)))))"

definition door_handle :: "door_config \<Rightarrow> door_request \<Rightarrow> (door, door_answer) state" where
  "door_handle C rq = do {
     s \<leftarrow> gets (\<lambda>d. w_store (do_world d));
     case door_server (dc_machine C) rq s of
       Inl why \<Rightarrow> State_Monad.return (Door_refused why)
     | Inr (server, mid) \<Rightarrow>
         (case findMatch mid s of
            None \<Rightarrow> do { remember mid None; State_Monad.return (Door_refused Match_is_over) }
          | Some row \<Rightarrow>
              if isTerminalMatchState (m_state row)
              then do { remember mid None; State_Monad.return (Door_refused Match_is_over) }
              else
                (case dr_body rq of
                   None \<Rightarrow> State_Monad.return (Door_refused Not_json_body)
                 | Some payload \<Rightarrow> do {
                     known \<leftarrow> gets (\<lambda>d. do_states d (m_id row));
                     let r = translateMatchZyEvent payload (context_of (dc_machine C) row (row_ref server))
                       (case known of Some st \<Rightarrow> st | None \<Rightarrow> initialMatchZyState) (options_of C row);
                     remember (m_id row) (Some (tr_state r));
                     (case tr_dropped r of
                        Some why \<Rightarrow> State_Monad.return (Door_dropped why)
                      | None \<Rightarrow> do {
                          statuses \<leftarrow> deliver_facts (dc_machine C) (m_id row) (row_ref server) (tr_events r);
                          State_Monad.return (case statuses of None \<Rightarrow> Door_threw | Some ss \<Rightarrow> Door_accepted ss)
                        })
                   }))
   }"

subsection \<open>The door beside the machine's other doors\<close>

datatype door_op = At_post door_request | At_operation operation

fun door_step :: "door_config \<Rightarrow> door_op \<Rightarrow> (door, unit) state" where
  "door_step C (At_post rq) = do { _ \<leftarrow> door_handle C rq; skip }"
| "door_step C (At_operation op) = door_world (operate (dc_machine C) op)"

definition door_run :: "door_config \<Rightarrow> door_op list \<Rightarrow> door \<Rightarrow> door" where
  "door_run C ops d = fold (\<lambda>op. after (door_step C op)) ops d"

lemma door_run_simps [simp]: "door_run C [] d = d"
  "door_run C (op # ops) d = door_run C ops (after (door_step C op) d)"
  by (simp_all add: door_run_def)

lemma run_door_world [simp]:
  "run_state (door_world m) d = (result m (do_world d), d\<lparr>do_world := after m (do_world d)\<rparr>)"
  by (simp add: door_world_def)

lemma run_remember [simp]:
  "run_state (remember mid st) d = ((), d\<lparr>do_states := (do_states d)(mid := st)\<rparr>)"
  by (simp add: remember_def)

context chain_invariant
begin

definition at_door :: "door \<Rightarrow> bool" where
  "at_door d \<longleftrightarrow> invs {} (do_world d)"

lemma at_door_world: "keeps (invs {}) m \<Longrightarrow> keeps at_door (door_world m)"
  by (simp add: triple_def at_door_def)

lemma at_door_remember: "keeps at_door (remember mid st)"
  by (simp add: triple_def at_door_def)

lemma at_door_deliver: "keeps at_door (deliver_facts e mid source fs)"
  by (induction fs)
    (auto intro!: triple_intros at_door_remember at_door_world [OF keeps_ingest] split: fact.split)

lemma at_door_handle: "keeps at_door (door_handle C rq)"
  unfolding door_handle_def Let_def
  by (intro triple_intros at_door_remember at_door_deliver)

lemma at_door_step: "keeps at_door (door_step C op)"
  by (cases op) (auto intro!: triple_intros at_door_handle at_door_world [OF operate_keeps])

theorem door_keeps:
  assumes "I (do_world d)" and "queue_ok (do_world d)"
  shows "I (do_world (door_run C ops d))"
proof -
  have "at_door d \<Longrightarrow> at_door (door_run C ops d)" for d
    by (induction ops arbitrary: d) (auto dest: tripleD [OF at_door_step])
  with assms show ?thesis by (simp add: at_door_def invs_def)
qed

end

end
