(* ===== verification/Matchzy_Properties.thy ===== *)
theory Matchzy_Properties
  imports Matchzy_Door
begin

text \<open>
  The properties of the MatchZy translation and of its door, and what MatchZy's retries do to the log.
\<close>

subsection \<open>The translation\<close>

text \<open>C14: Whatever MatchZy sends, every fact that comes out names the match and the server it is about
  and is well formed: map numbers lie in the plan and carry the plan's map, a round's number is the
  sum of its score and positive, a map's and a series' winner is the one the score names and a tie
  has none, every player named has a SteamID64 and a name, and a team or the room called ready has
  reached the floor of the match's own config.\<close>

theorem facts_are_backed:
  "list_all (\<lambda>f. fa_matchId f = cx_matchId cx \<and> fa_source f = cx_source cx \<and> fact_ok cx (fa_body f))
     (fst (translate_all opts cx st ps))"
  by (rule translate_all_ok)

text \<open>C13: The ready gate in the log is made of edges, whatever is repeated: a reader who keeps who is
  ready, which teams are through and what the room last was never meets a fact that says again
  what already holds.\<close>

theorem the_gate_says_edges:
  "read_log empty_gate (fst (translate_all opts cx initialMatchZyState ps)) \<noteq> None"
  by (rule translate_all_reads) simp

definition sample_context :: mz_context where
  "sample_context = \<lparr>cx_matchId = ''m'', cx_source = (''p'', ''s1''), cx_serial = 7,
     cx_maps = [\<lparr>mp_map = ''de_dust2'', mp_sides = Knife\<rparr>],
     cx_teamA = \<lparr>ms_name = ''A'', ms_players = [''1'']\<rparr>,
     cx_teamB = \<lparr>ms_name = ''B'', ms_players = [''2'']\<rparr>, cx_readyFloor = 1\<rparr>"

definition sample_options :: translate_options where
  "sample_options = \<lparr>to_regulationRounds = 24, to_overtimeRounds = 6\<rparr>"

definition sample_end :: "nat \<Rightarrow> nat \<Rightarrow> string \<Rightarrow> mz_payload" where
  "sample_end a b side = Read 7 (Mz_round_end 0 9 None \<lparr>mw_side = Some side, mw_team = Some ''team1''\<rparr>
     \<lparr>mt_score = a, mt_players = []\<rparr> \<lparr>mt_score = b, mt_players = []\<rparr>)"

definition sample_recording :: "mz_payload list" where
  "sample_recording = [Nameless, starts_at sample_context 0 (scoreOf 0 0), starts_at sample_context 0 (scoreOf 0 0),
     sample_end 0 1 ''2'', sample_end 0 1 ''3'', starts_at sample_context 0 (scoreOf 0 1), sample_end 1 1 ''3'']"

lemma sample_recording:
  "recording sample_context 0 Fresh (scoreOf 0 0) [(Team_b, Terrorist), (Team_a, Ct)] sample_recording"
proof -
  let ?cx = sample_context
  note sides = sideOf_def or_empty_def trim_def white_space_def lower_def lower_char_def
  have b: "bump Team_b (scoreOf 0 0) = scoreOf 0 1" "bump Team_a (scoreOf 0 1) = scoreOf 1 1"
    by (simp_all add: bump_def scoreOf_def)
  note won_b = rec_end [where t = Team_b and s = "scoreOf 0 0", unfolded b]
  note won_a = rec_end [where t = Team_a and s = "scoreOf 0 1", unfolded b]
  have p1: "recording ?cx 0 Playing (scoreOf 0 1) [(Team_a, Ct)] [sample_end 1 1 ''3'']"
    by (rule won_a [OF _ _ rec_nil]) (simp_all add: sample_end_def sides sample_context_def)
  have p2: "recording ?cx 0 Between (scoreOf 0 1) [(Team_a, Ct)]
      [sample_end 0 1 ''3'', starts_at ?cx 0 (scoreOf 0 1), sample_end 1 1 ''3'']"
    by (rule rec_again [OF _ _ rec_start [OF p1]]) (simp_all add: sample_end_def sample_context_def)
  have "recording ?cx 0 Playing (scoreOf 0 0) [(Team_b, Terrorist), (Team_a, Ct)]
      [sample_end 0 1 ''2'', sample_end 0 1 ''3'', starts_at ?cx 0 (scoreOf 0 1), sample_end 1 1 ''3'']"
    by (rule won_b [OF _ _ p2]) (simp_all add: sample_end_def sides sample_context_def)
  from rec_noise [OF _ rec_start [OF rec_start [OF this]]] show ?thesis
    unfolding sample_recording_def by simp
qed

text \<open>C12: Every round of a map is told once, in order, with its number, the score and the team whose
  score rose, however often MatchZy repeats the start and the end of a round, whomever it names as
  the winner, whatever comes in between, and also when the map is taken up again from a
  restored backup.\<close>

theorem each_round_is_told_once:
  assumes "recording cx n Fresh score rounds ps" and "n < length (cx_maps cx)"
    and "mz_starts st (n + 1) = None"
  shows "rounds_told n (fst (translate_all opts cx st ps)) = rounds_of Fresh score rounds"
  by (rule translate_all_rounds [OF assms(1,2)]) (use assms(3) in simp)

theorem each_round_is_told_once_witness:
  "rounds_told 0 (fst (translate_all sample_options sample_context initialMatchZyState sample_recording)) =
     [(1, None, scoreOf 0 0), (1, Some (Team_b, Terrorist), scoreOf 0 1),
      (2, None, scoreOf 0 1), (2, Some (Team_a, Ct), scoreOf 1 1)]"
proof -
  have "rounds_told 0 (fst (translate_all sample_options sample_context initialMatchZyState sample_recording)) =
      rounds_of Fresh (scoreOf 0 0) [(Team_b, Terrorist), (Team_a, Ct)]"
    by (rule each_round_is_told_once [OF sample_recording])
      (simp_all add: sample_context_def initialMatchZyState_def)
  then show ?thesis by (simp add: bump_def next_round_def scoreOf_def)
qed

text \<open>A POST that is sent again is a fact again: nothing here or behind it has a number to know it by.\<close>

lemma retried_post_is_told_twice:
  "map (ge_seq \<circ> to_gameserver_event) (fst (translate_all sample_options sample_context initialMatchZyState
     [Read 7 (Mz_knife_round_ended 0 ''team1''), Read 7 (Mz_knife_round_ended 0 ''team1'')])) = [None, None]"
  by (simp add: translateMatchZyEvent_def translate_event_def on_knife_round_ended_def sample_context_def
      mapAt_def told_fact_def to_gameserver_event_def)

subsection \<open>The door\<close>






text \<open>The laws of the machine hold behind the door, whatever is posted between its other operations.\<close>

theorem machine_laws_hold_behind_the_door:
  assumes "reachable e w" and "do_world d = w"
  shows "log_numbered (w_store (do_world (door_run C ops d))) \<and> story_told (w_store (do_world (door_run C ops d))) \<and>
    delivered_once (do_world (door_run C ops d)) \<and> deadlines_open (do_world (door_run C ops d)) \<and>
    servers_accounted (do_world (door_run C ops d)) \<and>
    past_kept (w_store w) (w_store (do_world (door_run C ops d)))"
proof -
  have q: "queue_ok (do_world d)" using reachable_queue_ok [OF assms(1)] assms(2) by simp
  have kept: "past_kept (w_store w) (w_store (do_world d))"
    using assms(2) by (simp add: past_kept_def row_lasts_def split: option.split)
  show ?thesis
    using numbering.door_keeps [OF _ q] single_end.door_keeps [OF _ q] outbox.door_keeps [OF _ q]
      quiet_ends.door_keeps [OF _ q] ledger.door_keeps [OF _ q] history.door_keeps [OF kept q] assms
      numbering.reachable_keeps(1) [OF _ assms(1)] single_end.reachable_keeps(1) [OF _ assms(1)]
      outbox.reachable_keeps(1) [OF _ assms(1)] quiet_ends.reachable_keeps(1) [OF _ assms(1)]
      ledger.reachable_keeps(1) [OF _ assms(1)]
    by (simp add: log_numbered_def story_told_def delivered_once_def deadlines_open_def armed_def
        servers_accounted_def)
qed

end
