(* ===== verification/Budget.thy ===== *)
theory Budget
  imports Sample_Run "HOL-Library.Multiset"
begin

text \<open>
  Budgets, \<open>apps/orchestrator/src/budget/service.ts\<close>: the month of an instant, what a ledger row
  has cost, what a key has used, the wall at the door (\<open>check\<close>) and the warnings said once per
  ceiling, fraction and month (\<open>announceFor\<close>, with the marks of \<open>keys/memory-store.ts\<close>).

  \<^item> \<open>Date\<close>'s UTC calendar follows ECMA-262: \<open>DayFromYear\<close> and the month lengths; a year is
    found by going up from an estimate that is never too late.
  \<^item> A ratio is compared with 0.8 and 0.95 exactly, by cross multiplication. The source divides
    doubles; on whole numbers below \<open>2 ^ 26\<close> the comparison is the same.
\<close>

subsection \<open>The UTC month\<close>

definition msPerDay :: int where "msPerDay = 86400000"

definition DayFromYear :: "int \<Rightarrow> int" where
  "DayFromYear y = 365 * (y - 1970) + (y - 1969) div 4 - (y - 1901) div 100 + (y - 1601) div 400"

lemma DayFromYear_step: "DayFromYear y + 364 \<le> DayFromYear (y + 1)"
proof -
  have "(y - 1969) div 4 \<le> (y + 1 - 1969) div 4" by (rule zdiv_mono1) simp_all
  moreover have "(y + 1 - 1901) div 100 \<le> (y - 1901) div 100 + 1"
    using zdiv_mono1 [of "y + 1 - 1901" "y - 1901 + 100" 100] by simp
  moreover have "(y - 1601) div 400 \<le> (y + 1 - 1601) div 400" by (rule zdiv_mono1) simp_all
  ultimately show ?thesis by (simp add: DayFromYear_def algebra_simps)
qed

text \<open>The last year that starts on or before a day, looked for from year \<open>y\<close> on.\<close>

function year_from :: "int \<Rightarrow> int \<Rightarrow> int" where
  "year_from d y = (if DayFromYear (y + 1) \<le> d then year_from d (y + 1) else y)"
  by auto
termination
proof (relation "measure (\<lambda>(d, y). nat (d - DayFromYear y))")
  fix d y :: int
  assume "DayFromYear (y + 1) \<le> d"
  with DayFromYear_step [of y] show "((d, y + 1), d, y) \<in> measure (\<lambda>(d, y). nat (d - DayFromYear y))"
    by simp
qed simp

declare year_from.simps [simp del]

definition YearFromDay :: "int \<Rightarrow> int" where
  "YearFromDay d = year_from d (1970 + (if d \<ge> 0 then d div 366 else d div 365 - 1))"

definition leap :: "int \<Rightarrow> bool" where
  "leap y \<longleftrightarrow> DayFromYear (y + 1) - DayFromYear y = 366"

definition month_starts :: "int \<Rightarrow> int list" where
  "month_starts y = (let l = (if leap y then 1 else 0) in
     [0, 31, 59 + l, 90 + l, 120 + l, 151 + l, 181 + l, 212 + l, 243 + l, 273 + l, 304 + l, 334 + l])"

definition monthStart :: "instant \<Rightarrow> instant" where
  "monthStart at = (let d = at div msPerDay; y = YearFromDay d
     in msPerDay * (DayFromYear y + last (filter (\<lambda>s. DayFromYear y + s \<le> d) (month_starts y))))"

subsection \<open>What a row costs, what a key used\<close>

definition accruedCents :: "server_row \<Rightarrow> instant \<Rightarrow> nat" where
  "accruedCents row asOf =
    (let until = (case s_releasedAt row of None \<Rightarrow> asOf | Some at \<Rightarrow> at);
         elapsedMs = max 0 (until - s_allocatedAt row)
     in nat ((int (s_costHourlyCents row) * elapsedMs) div 3600000))"

record budget_usage =
  bu_concurrentServers :: nat
  bu_monthCents :: nat
  bu_monthStartedAt :: instant

definition budget_usage_of :: "ident \<Rightarrow> instant \<Rightarrow> store \<Rightarrow> budget_usage" where
  "budget_usage_of keyId at s =
    (let since = monthStart at; rows = listKeyLedgerSince keyId since s
     in \<lparr>bu_concurrentServers = length (filter (\<lambda>r. s_releasedAt r = None) rows),
         bu_monthCents = sum_list (map (\<lambda>r. accruedCents r at) rows),
         bu_monthStartedAt = since\<rparr>)"

record budget_limits =
  bl_maxConcurrentServers :: nat
  bl_maxServerLifetimeMinutes :: nat
  bl_monthlyCents :: nat

subsection \<open>The wall\<close>

definition projectedCents :: "nat \<Rightarrow> nat \<Rightarrow> nat" where
  "projectedCents hourlyCents ttlMinutes = (hourlyCents * ttlMinutes + 59) div 60"

definition check :: "budget_limits \<Rightarrow> ident \<Rightarrow> match_request \<Rightarrow> nat \<Rightarrow> instant \<Rightarrow> store \<Rightarrow> api_error option"
where
  "check limits keyId r hourlyCents at s =
    (let current = budget_usage_of keyId at s in
     if bu_concurrentServers current + 1 > bl_maxConcurrentServers limits
     then Some (refuse_field Budget_exceeded ''maxConcurrentServers'')
     else if mr_ttlMinutes r > bl_maxServerLifetimeMinutes limits
     then Some (refuse_field Budget_exceeded ''maxServerLifetimeMinutes'')
     else
       (let projected = projectedCents hourlyCents (mr_ttlMinutes r) in
        if projected > 0 \<and> bu_monthCents current + projected > bl_monthlyCents limits
        then Some (refuse_field Budget_exceeded ''monthlyCents'')
        else None))"

subsection \<open>The warnings\<close>

text \<open>The fractions 0.8 and 0.95, as \<open>4/5\<close> and \<open>19/20\<close>.\<close>

definition BUDGET_THRESHOLD_FRACTIONS :: "(nat \<times> nat) list" where
  "BUDGET_THRESHOLD_FRACTIONS = [(4, 5), (19, 20)]"

record notice =
  no_keyId :: ident
  no_limit :: budget_limit
  no_fraction :: "nat \<times> nat"
  no_monthStartedAt :: instant

definition markBudgetNotice :: "notice \<Rightarrow> notice list \<Rightarrow> bool \<times> notice list" where
  "markBudgetNotice n marks = (if n \<in> set marks then (False, marks) else (True, marks @ [n]))"

text \<open>A moved ceiling clears the key's marks.\<close>

definition clearBudgetNotices :: "ident \<Rightarrow> notice list \<Rightarrow> notice list" where
  "clearBudgetNotices keyId marks = filter (\<lambda>n. no_keyId n \<noteq> keyId) marks"

definition ratios :: "budget_limits \<Rightarrow> budget_usage \<Rightarrow> (budget_limit \<times> nat \<times> nat) list" where
  "ratios l u =
     (if bl_maxConcurrentServers l > 0
      then [(Limit_concurrent, bu_concurrentServers u, bl_maxConcurrentServers l)] else []) @
     (if bl_monthlyCents l > 0 then [(Limit_monthly, bu_monthCents u, bl_monthlyCents l)] else [])"

definition reaches :: "nat \<times> nat \<Rightarrow> nat \<times> nat \<Rightarrow> bool" where
  "reaches used fraction \<longleftrightarrow> fst fraction * snd used \<le> fst used * snd fraction"

definition notices_due :: "ident \<Rightarrow> budget_limits \<Rightarrow> budget_usage \<Rightarrow> notice list" where
  "notices_due keyId l u =
     concat (map (\<lambda>(limit, used, ceiling).
       map (\<lambda>f. \<lparr>no_keyId = keyId, no_limit = limit, no_fraction = f,
                 no_monthStartedAt = bu_monthStartedAt u\<rparr>)
         (filter (reaches (used, ceiling)) BUDGET_THRESHOLD_FRACTIONS)) (ratios l u))"

text \<open>Marking the notices one after the other: those that were new are said.\<close>

fun mark_all :: "notice list \<Rightarrow> notice list \<Rightarrow> notice list \<times> notice list" where
  "mark_all [] marks = ([], marks)"
| "mark_all (n # ns) marks =
    (case markBudgetNotice n marks of (first, marks1) \<Rightarrow>
      (case mark_all ns marks1 of (said, marks2) \<Rightarrow> (if first then n # said else said, marks2)))"

text \<open>\<open>announceFor\<close>: the facts emitted, one per crossed notice and open match of the key, and the
  marks afterwards.\<close>

definition announceFor ::
  "ident \<Rightarrow> budget_limits \<Rightarrow> instant \<Rightarrow> store \<Rightarrow> notice list \<Rightarrow> (ident \<times> payload) list \<times> notice list" where
  "announceFor keyId l at s marks =
    (case mark_all (notices_due keyId l (budget_usage_of keyId at s)) marks of (crossed, marks2) \<Rightarrow>
      (concat (map (\<lambda>n. map (\<lambda>m. (m_id m,
           Fleet_budget_threshold (no_limit n) (no_fraction n = (19, 20))))
         (listOpenMatches (Some keyId) s)) crossed), marks2))"

text \<open>\<open>announce\<close>: a key that is gone or revoked says nothing. \<open>sweep\<close>: the keys with an open row.\<close>

definition announce ::
  "(ident \<Rightarrow> (budget_limits \<times> bool) option) \<Rightarrow> ident \<Rightarrow> instant \<Rightarrow> store \<Rightarrow> notice list
     \<Rightarrow> (ident \<times> payload) list \<times> notice list" where
  "announce keys keyId at s marks =
    (case keys keyId of
       None \<Rightarrow> ([], marks)
     | Some (l, revoked) \<Rightarrow> if revoked then ([], marks) else announceFor keyId l at s marks)"

fun announce_all ::
  "(ident \<Rightarrow> (budget_limits \<times> bool) option) \<Rightarrow> ident list \<Rightarrow> instant \<Rightarrow> store \<Rightarrow> notice list
     \<Rightarrow> (ident \<times> payload) list \<times> notice list" where
  "announce_all keys [] at s marks = ([], marks)"
| "announce_all keys (k # ks) at s marks =
    (case announce keys k at s marks of (said, marks1) \<Rightarrow>
      (case announce_all keys ks at s marks1 of (more_said, marks2) \<Rightarrow> (said @ more_said, marks2)))"

definition sweep ::
  "(ident \<Rightarrow> (budget_limits \<times> bool) option) \<Rightarrow> instant \<Rightarrow> store \<Rightarrow> notice list
     \<Rightarrow> (ident \<times> payload) list \<times> notice list" where
  "sweep keys at s marks =
     announce_all keys (rev (remdups (rev (map s_keyId (listOpenServers None s))))) at s marks"

subsection \<open>The calendar is a calendar\<close>

lemma year_from_bounds:
  "DayFromYear y \<le> d \<Longrightarrow> DayFromYear (year_from d y) \<le> d \<and> d < DayFromYear (year_from d y + 1)"
proof (induction d y rule: year_from.induct)
  case (1 d y)
  then show ?case by (cases "DayFromYear (y + 1) \<le> d") (simp_all add: year_from.simps [of d y])
qed

lemma div_bounds: "k > 0 \<Longrightarrow> k * (x div k) \<le> x \<and> x < k * (x div k) + k" for x k :: int
  using pos_mod_bound [of k x] pos_mod_sign [of k x] mult_div_mod_eq [of k x] by linarith

lemma estimate_early: "DayFromYear (1970 + (if d \<ge> 0 then d div 366 else d div 365 - 1)) \<le> d"
proof (cases "d \<ge> 0")
  case True
  define n where "n = d div 366"
  have n: "0 \<le> n" "366 * n \<le> d" using True div_bounds [of 366 d] by (simp_all add: n_def)
  have "(n + 1) div 4 + (n + 369) div 400 \<le> n + (n + 69) div 100"
  proof (cases "n \<le> 30")
    case True
    with n have "(n + 369) div 400 = 0" by simp
    with n div_bounds [of 4 "n + 1"] show ?thesis by simp
  next
    case False
    with div_bounds [of 4 "n + 1"] div_bounds [of 400 "n + 369"] div_bounds [of 100 "n + 69"]
    show ?thesis by linarith
  qed
  with n True show ?thesis by (simp add: DayFromYear_def flip: n_def) (simp add: add.commute)
next
  case False
  define n where "n = d div 365 - 1"
  have n: "n < 0" "365 * (n + 1) \<le> d" using False div_bounds [of 365 d] by (simp_all add: n_def)
  have "(n + 1) div 4 - (n + 69) div 100 + (n + 369) div 400 \<le> 365"
    using n div_bounds [of 4 "n + 1"] div_bounds [of 400 "n + 369"] div_bounds [of 100 "n + 69"]
    by linarith
  with n False show ?thesis by (simp add: DayFromYear_def flip: n_def)
qed

lemma YearFromDay_bounds: "DayFromYear (YearFromDay d) \<le> d \<and> d < DayFromYear (YearFromDay d + 1)"
  unfolding YearFromDay_def by (rule year_from_bounds [OF estimate_early])

lemma div_succ:
  fixes x k :: int
  assumes "k > 0"
  shows "(x + 1) div k = x div k + of_bool (k dvd x + 1)"
proof (cases "k dvd x + 1")
  case True
  then obtain q where "x + 1 = k * q" ..
  moreover from this have "x = k * (q - 1) + (k - 1)" by (simp add: algebra_simps)
  then have "x div k = q - 1" by (rule int_div_pos_eq) (use assms in simp_all)
  ultimately show ?thesis using assms True by simp
next
  case False
  have "x mod k \<noteq> k - 1"
  proof
    assume "x mod k = k - 1"
    with mult_div_mod_eq [of k x] have "x + 1 = k * (x div k + 1)" by (simp add: algebra_simps)
    with False show False by simp
  qed
  then have "x + 1 = k * (x div k) + (x mod k + 1)" "0 \<le> x mod k + 1" "x mod k + 1 < k"
    using assms pos_mod_bound [of k x] pos_mod_sign [of k x] mult_div_mod_eq [of k x] by linarith+
  then have "(x + 1) div k = x div k" by (rule int_div_pos_eq)
  with False show ?thesis by simp
qed

text \<open>The Gregorian rule: a leap day every fourth year, not every hundredth, but every four hundredth.\<close>

lemma DayFromYear_Suc:
  "DayFromYear (y + 1) = DayFromYear y + 365 + of_bool (4 dvd y - 1968)
     - of_bool (100 dvd y - 1900) + of_bool (400 dvd y - 1600)"
proof -
  have "(y + 1 - 1969) div 4 = (y - 1969) div 4 + of_bool (4 dvd y - 1968)"
    using div_succ [of 4 "y - 1969"] by (simp add: algebra_simps)
  moreover have "(y + 1 - 1901) div 100 = (y - 1901) div 100 + of_bool (100 dvd y - 1900)"
    using div_succ [of 100 "y - 1901"] by (simp add: algebra_simps)
  moreover have "(y + 1 - 1601) div 400 = (y - 1601) div 400 + of_bool (400 dvd y - 1600)"
    using div_succ [of 400 "y - 1601"] by (simp add: algebra_simps)
  ultimately show ?thesis unfolding DayFromYear_def by (simp only: algebra_simps)
qed

lemma DayFromYear_length: "DayFromYear (y + 1) - DayFromYear y \<in> {365, 366}"
proof -
  have "4 dvd y - 1968" if "100 dvd y - 1900"
    using dvd_add [OF dvd_trans [of 4 100, OF _ that], of "- 68"] by simp
  moreover have "100 dvd y - 1900" if "400 dvd y - 1600"
    using dvd_add [OF dvd_trans [of 100 400, OF _ that], of "- 300"] by simp
  ultimately show ?thesis unfolding DayFromYear_Suc of_bool_def
    by (simp only: split: if_splits) (simp, blast)
qed

text \<open>The last element of a list that passes a threshold.\<close>

lemma sorted_last: "sorted xs \<Longrightarrow> xs \<noteq> [] \<Longrightarrow> \<forall>x \<in> set xs. x \<le> last xs"
  by (induction xs) auto

lemma last_le:
  fixes xs :: "int list"
  assumes "sorted xs" and "x0 \<in> set xs" and "b + x0 \<le> d"
  shows "let m = last (filter (\<lambda>s. b + s \<le> d) xs) in m \<in> set xs \<and> b + m \<le> d \<and>
    (\<forall>x \<in> set xs. b + x \<le> d \<longrightarrow> x \<le> m)"
proof -
  let ?ys = "filter (\<lambda>s. b + s \<le> d) xs"
  have ne: "?ys \<noteq> []" using assms(2,3) by (auto simp: filter_empty_conv)
  then have "last ?ys \<in> set ?ys" by (rule last_in_set)
  then have "last ?ys \<in> set xs \<and> b + last ?ys \<le> d" by (simp only: set_filter mem_Collect_eq)
  moreover have "sorted ?ys" using assms(1) by (rule sorted_wrt_filter)
  then have "\<forall>x \<in> set ?ys. x \<le> last ?ys" using ne by (rule sorted_last)
  ultimately show ?thesis by (auto simp: Let_def)
qed

lemma DayFromYear_mono: "y < z \<Longrightarrow> DayFromYear (y + 1) \<le> DayFromYear z"
proof (induction "nat (z - y)" arbitrary: z)
  case (Suc n)
  show ?case
  proof (cases "z = y + 1")
    case False
    with Suc.prems Suc.hyps(2) have "DayFromYear (y + 1) \<le> DayFromYear (z - 1)"
      by (intro Suc.hyps(1)) simp_all
    with DayFromYear_step [of "z - 1"] show ?thesis by simp
  qed simp
qed simp

lemma YearFromDay_unique:
  "DayFromYear y \<le> d \<Longrightarrow> d < DayFromYear (y + 1) \<Longrightarrow> YearFromDay d = y"
  using YearFromDay_bounds [of d] DayFromYear_mono [of y "YearFromDay d"]
    DayFromYear_mono [of "YearFromDay d" y]
  by (rule_tac linorder_cases [of y "YearFromDay d"]) linarith+

lemma next_month:
  "m \<in> set (month_starts y) \<Longrightarrow> m + 31 = (if leap y then 366 else 365) \<or>
    (\<exists>x \<in> set (month_starts y). m < x \<and> x \<le> m + 31)"
  unfolding month_starts_def Let_def list.set bex_simps insert_iff
  by (cases "leap y"; elim disjE; simp)

text \<open>The start of the month of a day, as the last of the year's twelve.\<close>

lemma month_of_day:
  fixes d :: int
  defines "y \<equiv> YearFromDay d"
  defines "m \<equiv> last (filter (\<lambda>s. DayFromYear y + s \<le> d) (month_starts y))"
  shows "m \<in> set (month_starts y)" "DayFromYear y + m \<le> d" "d < DayFromYear y + m + 31"
    "\<forall>x \<in> set (month_starts y). DayFromYear y + x \<le> d \<longrightarrow> x \<le> m"
proof -
  have "DayFromYear y \<le> d" and upper: "d < DayFromYear (y + 1)"
    unfolding y_def using YearFromDay_bounds by auto
  then show m: "m \<in> set (month_starts y)" "DayFromYear y + m \<le> d"
    "\<forall>x \<in> set (month_starts y). DayFromYear y + x \<le> d \<longrightarrow> x \<le> m"
    using last_le [of "month_starts y" 0 "DayFromYear y" d]
    by (simp_all add: m_def Let_def month_starts_def)
  have "d < DayFromYear y + (if leap y then 366 else 365)"
    using upper DayFromYear_length [of y] by (auto simp: leap_def)
  moreover have "m + 31 = (if leap y then 366 else 365) \<or>
      (\<exists>x \<in> set (month_starts y). m < x \<and> x \<le> m + 31)"
    using m(1) by (rule next_month)
  ultimately show "d < DayFromYear y + m + 31" using m(3) by (auto split: if_splits)
qed

text \<open>The budget's month: it starts at or before the instant and less than 31 days before it, and
  every instant between its start and the given one has the same month start, so the count is
  started over at most once a month and never inside it.\<close>

theorem monthStart_is_the_month:
  "monthStart at \<le> at \<and> at < monthStart at + 31 * msPerDay \<and>
   (\<forall>t. monthStart at \<le> t \<and> t \<le> at \<longrightarrow> monthStart t = monthStart at)"
proof -
  let ?d = "at div msPerDay"
  let ?y = "YearFromDay ?d"
  let ?m = "last (filter (\<lambda>s. DayFromYear ?y + s \<le> ?d) (month_starts ?y))"
  have start: "monthStart at = msPerDay * (DayFromYear ?y + ?m)"
    by (simp add: monthStart_def Let_def)
  note md = month_of_day [of ?d]
  have at: "msPerDay * ?d \<le> at" "at < msPerDay * ?d + msPerDay"
    using div_bounds [of msPerDay at] by (simp_all add: msPerDay_def)
  have "msPerDay * (DayFromYear ?y + ?m) \<le> msPerDay * ?d"
    using md(2) by (simp add: msPerDay_def)
  moreover have "msPerDay * (?d + 1) \<le> msPerDay * (DayFromYear ?y + ?m + 31)"
    using md(3) by (simp add: msPerDay_def)
  ultimately have bounds: "monthStart at \<le> at" "at < monthStart at + 31 * msPerDay"
    using at by (simp_all add: start algebra_simps)
  have "monthStart t = monthStart at" if t: "monthStart at \<le> t" "t \<le> at" for t
  proof -
    let ?e = "t div msPerDay"
    have e: "DayFromYear ?y + ?m \<le> ?e" "?e \<le> ?d"
      using t start zdiv_mono1 [of "msPerDay * (DayFromYear ?y + ?m)" t msPerDay]
        zdiv_mono1 [of t at msPerDay] by (simp_all add: msPerDay_def)
    have "0 \<le> ?m" using md(1) by (auto simp: month_starts_def Let_def split: if_splits)
    with e YearFromDay_bounds [of ?d] have y: "YearFromDay ?e = ?y"
      by (intro YearFromDay_unique) linarith+
    let ?n = "last (filter (\<lambda>s. DayFromYear ?y + s \<le> ?e) (month_starts ?y))"
    note me = month_of_day [of ?e, unfolded y]
    have "?m \<le> ?n" using me(4) md(1) e(1) by simp
    moreover have "?n \<le> ?m" using md(4) me(1,2) e(2) by simp
    ultimately show ?thesis by (simp add: monthStart_def [of t] y start Let_def)
  qed
  with bounds show ?thesis by blast
qed

theorem monthStart_is_the_month_witness:
  "monthStart 1772323200000 = 1772323200000 \<and> monthStart 1772323199999 = 1769904000000 \<and>
   monthStart 1770000000000 = monthStart 1772323199999"
proof -
  have "monthStart 1772323200000 = 1772323200000" by code_simp
  moreover have feb: "monthStart 1772323199999 = 1769904000000" by code_simp
  moreover have "monthStart 1770000000000 = monthStart 1772323199999"
    using monthStart_is_the_month [of 1772323199999] by (simp add: feb)
  ultimately show ?thesis by blast
qed

subsection \<open>The meter\<close>









text \<open>A refusal names the ceiling it met, and the first one in the order concurrency, lifetime,
  money; it is never about anything else.\<close>

theorem the_refusal_names_the_ceiling:
  "check limits k r hourly at s =
    (if bl_maxConcurrentServers limits \<le> bu_concurrentServers (budget_usage_of k at s)
     then Some (refuse_field Budget_exceeded ''maxConcurrentServers'')
     else if bl_maxServerLifetimeMinutes limits < mr_ttlMinutes r
     then Some (refuse_field Budget_exceeded ''maxServerLifetimeMinutes'')
     else if 0 < hourly * mr_ttlMinutes r \<and>
       60 * bl_monthlyCents limits
         < 60 * bu_monthCents (budget_usage_of k at s) + hourly * mr_ttlMinutes r
     then Some (refuse_field Budget_exceeded ''monthlyCents'') else None)"
proof -
  have "(x + 59) div 60 > 0 \<longleftrightarrow> 0 < x" for x :: nat by (cases "x = 0") (simp_all add: div_greater_zero_iff)
  moreover have "m + (x + 59) div 60 > l \<longleftrightarrow> 60 * l < 60 * m + x" for m l x :: nat by linarith
  ultimately show ?thesis
    by (simp add: check_def Let_def projectedCents_def not_less_eq_eq less_Suc_eq_le)
qed

text \<open>A row open across midnight on the first is charged whole to the new month.\<close>

lemma carried_row_charges_its_past:
  "bu_monthCents (budget_usage_of ''k'' 1772323200000
     (insertServer (sample_server\<lparr>s_keyId := ''k'', s_costHourlyCents := 100,
        s_allocatedAt := 1772323200000 - 7200000, s_releasedAt := None\<rparr>)
       (createMemoryMatchStore ''d''))) = 200 \<and>
   monthStart 1772323200000 = 1772323200000"
  by code_simp

subsection \<open>The warnings are said once\<close>

lemma mark_all_said:
  "mark_all ns marks = (said, marks2) \<Longrightarrow>
    marks2 = marks @ said \<and> distinct said \<and> set said \<inter> set marks = {} \<and> set said \<subseteq> set ns \<and>
    set ns \<subseteq> set marks2"
proof (induction ns arbitrary: marks said)
  case (Cons n ns)
  then show ?case
    by (fastforce simp: markBudgetNotice_def split: prod.splits if_splits)
qed simp

lemma mark_all_again: "set ns \<subseteq> set marks \<Longrightarrow> mark_all ns marks = ([], marks)"
  by (induction ns) (simp_all add: markBudgetNotice_def)

lemma announceFor_marks:
  "announceFor k l at s marks = (said, marks2) \<Longrightarrow>
    set marks \<subseteq> set marks2 \<and> set (notices_due k l (budget_usage_of k at s)) \<subseteq> set marks2"
  using mark_all_said by (fastforce simp: announceFor_def split: prod.splits)

lemma announce_marks: "announce keys k at s marks = (said, marks2) \<Longrightarrow> set marks \<subseteq> set marks2"
  using announceFor_marks by (fastforce simp: announce_def split: option.splits if_splits)

lemma announceFor_again:
  "set (notices_due k l (budget_usage_of k at s)) \<subseteq> set marks \<Longrightarrow>
    announceFor k l at s marks = ([], marks)"
  by (simp add: announceFor_def mark_all_again)

lemma announce_twice:
  "announce keys k at s marks = (said, marks2) \<Longrightarrow> set marks2 \<subseteq> set marks3 \<Longrightarrow>
    announce keys k at s marks3 = ([], marks3)"
  using announceFor_marks by (fastforce simp: announce_def intro!: announceFor_again
      split: option.splits if_splits)

lemma announce_all_marks:
  "announce_all keys ks at s marks = (said, marks2) \<Longrightarrow> set marks \<subseteq> set marks2"
  by (induction ks arbitrary: marks said)
    (use announce_marks in \<open>fastforce split: prod.splits\<close>)+

lemma announce_all_again:
  "announce_all keys ks at s marks = (said, marks2) \<Longrightarrow> set marks2 \<subseteq> set marks3 \<Longrightarrow>
    announce_all keys ks at s marks3 = ([], marks3)"
proof (induction ks arbitrary: marks said)
  case (Cons k ks)
  then obtain said1 marks1 said2 where
    one: "announce keys k at s marks = (said1, marks1)" and
    rest: "announce_all keys ks at s marks1 = (said2, marks2)"
    by (auto split: prod.splits)
  have "announce keys k at s marks3 = ([], marks3)"
    using announce_twice [OF one] announce_all_marks [OF rest] Cons.prems(2) by blast
  with Cons.IH [OF rest Cons.prems(2)] show ?case by simp
qed simp

text \<open>A warning is said once: what one key's announcement says is new to the marks and says no
  crossing twice, every crossing due is marked afterwards, and as long as those marks are kept a
  later pass over the same usage, on the same keys, says nothing and marks nothing.\<close>

theorem a_crossing_is_said_once:
  assumes "sweep keys at s marks = (said, marks2)" and "set marks2 \<subseteq> set marks3"
  shows "sweep keys at s marks3 = ([], marks3) \<and> set marks \<subseteq> set marks2"
  using assms announce_all_again announce_all_marks unfolding sweep_def by blast

theorem a_crossing_is_said_once_witness:
  "let keys = (\<lambda>k. Some (\<lparr>bl_maxConcurrentServers = 1, bl_maxServerLifetimeMinutes = 60,
         bl_monthlyCents = 0\<rparr>, False));
       s = insertServer sample_server ((createMemoryMatchStore ''d'')
        \<lparr>matches := [sample_row Live\<lparr>m_deployment := ''d''\<rparr>]\<rparr>);
       first = sweep keys 0 s [] in
   length (fst first) = 2 \<and> sweep keys 0 s (snd first) = ([], snd first)"
proof -
  define keys where "keys = (\<lambda>k :: ident. Some (\<lparr>bl_maxConcurrentServers = 1,
    bl_maxServerLifetimeMinutes = 60, bl_monthlyCents = 0\<rparr>, False))"
  define s where "s = insertServer sample_server ((createMemoryMatchStore ''d'')
    \<lparr>matches := [sample_row Live\<lparr>m_deployment := ''d''\<rparr>]\<rparr>)"
  have "length (fst (sweep keys 0 s [])) = 2" unfolding keys_def s_def by code_simp
  moreover have "sweep keys 0 s (snd (sweep keys 0 s [])) = ([], snd (sweep keys 0 s []))"
    using a_crossing_is_said_once [of keys 0 s "[]" "fst (sweep keys 0 s [])"
        "snd (sweep keys 0 s [])" "snd (sweep keys 0 s [])"] by simp
  ultimately show ?thesis by (simp add: Let_def keys_def s_def)
qed

end
