(* ===== verification/Keys.thy ===== *)
theory Keys
  imports Budget
begin

text \<open>
  API keys: the tokens (\<open>apps/orchestrator/src/tokens.ts\<close>), the scope patch
  (\<open>packages/match-api/src/resources/keys.ts\<close>), the table of keys
  (\<open>apps/orchestrator/src/keys/store.ts\<close>, \<open>memory-store.ts\<close>), the service over it
  (\<open>keys/service.ts\<close>) and the dev bootstrap key (\<open>keys/bootstrap.ts\<close>).

  The random bytes, the identifiers and SHA-256 belong to Node, and \<open>z.url\<close> to zod: they are fields of
  \<open>keys_env\<close>, the n-th draw being a function of n. The touch of \<open>authenticate\<close> is not awaited there; on
  the table in memory it is done before the answer, as here.
\<close>

subsection \<open>Tokens\<close>

datatype token_kind = Tok_apiKey | Tok_server | Tok_node | Tok_enrolment | Tok_player

fun TOKEN_KINDS :: "token_kind \<Rightarrow> string" where
  "TOKEN_KINDS Tok_apiKey = ''ezik''"
| "TOKEN_KINDS Tok_server = ''ezis''"
| "TOKEN_KINDS Tok_node = ''ezin''"
| "TOKEN_KINDS Tok_enrolment = ''ezie''"
| "TOKEN_KINDS Tok_player = ''ezip''"

definition TOKEN_PREFIXES :: "string list" where
  "TOKEN_PREFIXES = map (\<lambda>k. TOKEN_KINDS k @ ''_'')
     [Tok_apiKey, Tok_server, Tok_node, Tok_enrolment, Tok_player]"

definition API_KEY_PREFIX_LENGTH :: nat where "API_KEY_PREFIX_LENGTH = 12"

text \<open>The bytes drawn are given in base64url.\<close>

definition mintToken :: "token_kind \<Rightarrow> string \<Rightarrow> string" where
  "mintToken kind random = TOKEN_KINDS kind @ ''_'' @ random"

definition looksLikeToken :: "token_kind \<Rightarrow> string \<Rightarrow> bool" where
  "looksLikeToken kind token \<longleftrightarrow>
     take (length (TOKEN_KINDS kind @ ''_'')) token = TOKEN_KINDS kind @ ''_'' \<and> length token \<le> 128 \<and>
     \<not> list_ex white_space token"

definition apiKeyPrefix :: "string \<Rightarrow> string" where
  "apiKeyPrefix secret = take API_KEY_PREFIX_LENGTH secret"

subsection \<open>The requests\<close>

definition MATCH_API_SCOPES :: "api_scope list" where
  "MATCH_API_SCOPES = [Scope_matches, Scope_fleet, Scope_admin, Scope_simulation]"

record webhook_secret =
  ws_id :: string
  ws_secret :: string

record fleet_webhook =
  fw_url :: string
  fw_secretId :: string

record key_create_request =
  kc_name :: string
  kc_scopes :: "api_scope list"
  kc_budget :: budget_limits
  kc_webhookSecrets :: "webhook_secret list"
  kc_fleetWebhook :: "fleet_webhook option"

record budget_patch =
  bp_maxConcurrentServers :: "nat option"
  bp_maxServerLifetimeMinutes :: "nat option"
  bp_monthlyCents :: "nat option"

record scopes_patch =
  sp_add :: "api_scope list option"
  sp_remove :: "api_scope list option"

record keys_env =
  kv_random :: "nat \<Rightarrow> string"
  kv_uuid :: "nat \<Rightarrow> ident"
  kv_hash :: "string \<Rightarrow> string"
  kv_url :: "string \<Rightarrow> bool"

definition between :: "nat \<Rightarrow> nat \<Rightarrow> 'a list \<Rightarrow> bool" where
  "between lo hi xs \<longleftrightarrow> lo \<le> length xs \<and> length xs \<le> hi"

text \<open>\<open>nullable()\<close>, \<open>nullish()\<close> and \<open>partial()\<close>.\<close>

fun absent_or :: "('a \<Rightarrow> bool) \<Rightarrow> 'a option \<Rightarrow> bool" where
  "absent_or P None = True"
| "absent_or P (Some x) = P x"

definition matchApiScopesSchema :: "api_scope list \<Rightarrow> bool" where
  "matchApiScopesSchema scopes \<longleftrightarrow> scopes \<noteq> [] \<and> distinct scopes"

text \<open>The three ceilings are \<open>nonnegative\<close>, which their type says; a lifetime is positive.\<close>

definition budgetLimitsSchema :: "budget_limits \<Rightarrow> bool" where
  "budgetLimitsSchema b \<longleftrightarrow> 0 < bl_maxServerLifetimeMinutes b"

definition webhookSecretRegistrationSchema :: "webhook_secret \<Rightarrow> bool" where
  "webhookSecretRegistrationSchema s \<longleftrightarrow> between 1 64 (ws_id s) \<and> between 32 256 (ws_secret s)"

definition webhookSecretsRequestSchema :: "webhook_secret list \<Rightarrow> bool" where
  "webhookSecretsRequestSchema ss \<longleftrightarrow> list_all webhookSecretRegistrationSchema ss \<and> between 1 8 ss \<and>
     distinct (map ws_id ss)"

definition fleetWebhookSchema :: "keys_env \<Rightarrow> fleet_webhook \<Rightarrow> bool" where
  "fleetWebhookSchema e f \<longleftrightarrow> kv_url e (fw_url f) \<and> length (fw_url f) \<le> 2048 \<and> between 1 64 (fw_secretId f)"

definition fleetWebhookRequestSchema :: "keys_env \<Rightarrow> fleet_webhook option \<Rightarrow> bool" where
  "fleetWebhookRequestSchema e f \<longleftrightarrow> absent_or (fleetWebhookSchema e) f"

definition apiKeyCreateRequestSchema :: "keys_env \<Rightarrow> key_create_request \<Rightarrow> bool" where
  "apiKeyCreateRequestSchema e r \<longleftrightarrow> between 1 64 (kc_name r) \<and> matchApiScopesSchema (kc_scopes r) \<and>
     budgetLimitsSchema (kc_budget r) \<and> list_all webhookSecretRegistrationSchema (kc_webhookSecrets r) \<and>
     length (kc_webhookSecrets r) \<le> 8 \<and> absent_or (fleetWebhookSchema e) (kc_fleetWebhook r)"

definition budgetPatchRequestSchema :: "budget_patch \<Rightarrow> bool" where
  "budgetPatchRequestSchema p \<longleftrightarrow> absent_or ((<) 0) (bp_maxServerLifetimeMinutes p) \<and>
     \<not> (bp_maxConcurrentServers p = None \<and> bp_maxServerLifetimeMinutes p = None \<and> bp_monthlyCents p = None)"

definition listed_in :: "'a list option \<Rightarrow> 'a list" where
  "listed_in xs = (case xs of None \<Rightarrow> [] | Some ys \<Rightarrow> ys)"

definition scopesPatchRequestSchema :: "scopes_patch \<Rightarrow> bool" where
  "scopesPatchRequestSchema p \<longleftrightarrow>
     length (listed_in (sp_add p)) \<le> length MATCH_API_SCOPES \<and>
     length (listed_in (sp_remove p)) \<le> length MATCH_API_SCOPES \<and>
     length (listed_in (sp_add p)) + length (listed_in (sp_remove p)) > 0 \<and>
     \<not> list_ex (\<lambda>s. s \<in> set (listed_in (sp_remove p))) (listed_in (sp_add p))"

definition applyScopesPatch :: "api_scope list \<Rightarrow> scopes_patch \<Rightarrow> api_scope list" where
  "applyScopesPatch held p =
     filter (\<lambda>s. s \<in> (set held \<union> set (listed_in (sp_add p))) - set (listed_in (sp_remove p))) MATCH_API_SCOPES"

subsection \<open>The table of keys, in memory\<close>

record api_key =
  apk_id :: ident
  apk_name :: string
  apk_prefix :: string
  apk_scopes :: "api_scope list"
  apk_budget :: budget_limits
  apk_webhookSecretIds :: "string list"
  apk_fleetWebhook :: "fleet_webhook option"
  apk_createdAt :: instant
  apk_lastUsedAt :: "instant option"
  apk_revokedAt :: "instant option"

record key_row =
  kr_key :: api_key
  kr_secretHash :: string
  kr_webhookSecrets :: "(string \<times> string) list"

record key_input =
  ki_id :: ident
  ki_name :: string
  ki_prefix :: string
  ki_secretHash :: string
  ki_scopes :: "api_scope list"
  ki_budget :: budget_limits
  ki_webhookSecrets :: "webhook_secret list"
  ki_fleetWebhook :: "fleet_webhook option"
  ki_createdAt :: instant

record key_table =
  kt_rows :: "key_row list"
  kt_notices :: "notice list"

definition kr_id :: "key_row \<Rightarrow> ident" where "kr_id r = apk_id (kr_key r)"

definition revoked :: "key_row \<Rightarrow> bool" where "revoked r \<longleftrightarrow> apk_revokedAt (kr_key r) \<noteq> None"

definition view_row :: "key_row \<Rightarrow> key_row" where
  "view_row r = r\<lparr>kr_key := (kr_key r)\<lparr>apk_webhookSecretIds := map fst (kr_webhookSecrets r)\<rparr>\<rparr>"

text \<open>\<open>new Map(secrets.map(s => [s.id, s.secret]))\<close>: an id that repeats keeps its last secret.\<close>

definition secret_map :: "webhook_secret list \<Rightarrow> (string \<times> string) list" where
  "secret_map ss = foldl (\<lambda>m s. map_set (ws_id s) (ws_secret s) m) [] ss"

definition byId :: "ident \<Rightarrow> key_table \<Rightarrow> key_row option" where
  "byId i t = find (\<lambda>r. kr_id r = i) (kt_rows t)"

definition row_of_input :: "key_input \<Rightarrow> key_row" where
  "row_of_input i = \<lparr>
     kr_key = \<lparr>apk_id = ki_id i, apk_name = ki_name i, apk_prefix = ki_prefix i, apk_scopes = ki_scopes i,
               apk_budget = ki_budget i, apk_webhookSecretIds = map ws_id (ki_webhookSecrets i),
               apk_fleetWebhook = ki_fleetWebhook i, apk_createdAt = ki_createdAt i,
               apk_lastUsedAt = None, apk_revokedAt = None\<rparr>,
     kr_secretHash = ki_secretHash i,
     kr_webhookSecrets = secret_map (ki_webhookSecrets i)\<rparr>"

text \<open>\<open>Inl\<close> is the \<open>KeyNameTakenError\<close>.\<close>

definition insertKey :: "key_input \<Rightarrow> key_table \<Rightarrow> (string + key_row) \<times> key_table" where
  "insertKey i t =
    (if list_ex (\<lambda>r. apk_name (kr_key r) = ki_name i \<and> apk_revokedAt (kr_key r) = None) (kt_rows t)
     then (Inl (ki_name i), t)
     else (Inr (view_row (row_of_input i)), t\<lparr>kt_rows := kt_rows t @ [row_of_input i]\<rparr>))"

definition findKeyById :: "ident \<Rightarrow> key_table \<Rightarrow> key_row option" where
  "findKeyById i t = map_option view_row (byId i t)"

definition findBySecretHash :: "string \<Rightarrow> key_table \<Rightarrow> key_row option" where
  "findBySecretHash h t = map_option view_row (find (\<lambda>r. kr_secretHash r = h) (kt_rows t))"

definition listKeys :: "key_table \<Rightarrow> key_row list" where
  "listKeys t = map view_row (rev (kt_rows t))"

text \<open>What the writes share: the first row with the id, changed in place, and its view.\<close>

definition on_row :: "ident \<Rightarrow> (key_row \<Rightarrow> key_row) \<Rightarrow> key_table \<Rightarrow> key_row option \<times> key_table" where
  "on_row i f t =
    (case byId i t of
       None \<Rightarrow> (None, t)
     | Some r \<Rightarrow> (Some (view_row (f r)), t\<lparr>kt_rows := update_first (\<lambda>r. kr_id r = i) f (kt_rows t)\<rparr>))"

definition with_key :: "(api_key \<Rightarrow> api_key) \<Rightarrow> key_row \<Rightarrow> key_row" where
  "with_key f r = r\<lparr>kr_key := f (kr_key r)\<rparr>"

definition set_revoked :: "instant \<Rightarrow> key_row \<Rightarrow> key_row" where
  "set_revoked at = with_key (\<lambda>k. k\<lparr>apk_revokedAt :=
     (case apk_revokedAt k of None \<Rightarrow> Some at | Some first \<Rightarrow> Some first)\<rparr>)"

definition revokeKey :: "ident \<Rightarrow> instant \<Rightarrow> key_table \<Rightarrow> key_row option \<times> key_table" where
  "revokeKey i at t = on_row i (set_revoked at) t"

definition storeFleetWebhook :: "ident \<Rightarrow> fleet_webhook option \<Rightarrow> key_table \<Rightarrow> key_row option \<times> key_table" where
  "storeFleetWebhook i f t = on_row i (with_key (\<lambda>k. k\<lparr>apk_fleetWebhook := f\<rparr>)) t"

definition replaceWebhookSecrets ::
  "ident \<Rightarrow> webhook_secret list \<Rightarrow> key_table \<Rightarrow> key_row option \<times> key_table" where
  "replaceWebhookSecrets i ss t = on_row i (\<lambda>r. r\<lparr>kr_webhookSecrets := secret_map ss\<rparr>) t"

definition set_secret :: "string \<Rightarrow> string \<Rightarrow> key_row \<Rightarrow> key_row" where
  "set_secret prefix h r = with_key (\<lambda>k. k\<lparr>apk_prefix := prefix\<rparr>) (r\<lparr>kr_secretHash := h\<rparr>)"

definition rotateSecret :: "ident \<Rightarrow> string \<Rightarrow> string \<Rightarrow> key_table \<Rightarrow> key_row option \<times> key_table" where
  "rotateSecret i prefix h t = on_row i (set_secret prefix h) t"

definition storeScopes :: "ident \<Rightarrow> api_scope list \<Rightarrow> key_table \<Rightarrow> key_row option \<times> key_table" where
  "storeScopes i scopes t = on_row i (with_key (\<lambda>k. k\<lparr>apk_scopes := scopes\<rparr>)) t"

definition patch_budget :: "budget_patch \<Rightarrow> budget_limits \<Rightarrow> budget_limits" where
  "patch_budget p b =
    \<lparr>bl_maxConcurrentServers = (case bp_maxConcurrentServers p of None \<Rightarrow> bl_maxConcurrentServers b | Some n \<Rightarrow> n),
     bl_maxServerLifetimeMinutes =
       (case bp_maxServerLifetimeMinutes p of None \<Rightarrow> bl_maxServerLifetimeMinutes b | Some n \<Rightarrow> n),
     bl_monthlyCents = (case bp_monthlyCents p of None \<Rightarrow> bl_monthlyCents b | Some n \<Rightarrow> n)\<rparr>"

definition storeBudget :: "ident \<Rightarrow> budget_patch \<Rightarrow> key_table \<Rightarrow> key_row option \<times> key_table" where
  "storeBudget i p t =
    (case on_row i (with_key (\<lambda>k. k\<lparr>apk_budget := patch_budget p (apk_budget k)\<rparr>)) t of
       (None, t') \<Rightarrow> (None, t')
     | (Some r, t') \<Rightarrow> (Some r, t'\<lparr>kt_notices := clearBudgetNotices i (kt_notices t')\<rparr>))"

definition set_used :: "instant \<Rightarrow> key_row \<Rightarrow> key_row" where
  "set_used at = with_key (\<lambda>k.
     if (case apk_lastUsedAt k of None \<Rightarrow> True | Some prev \<Rightarrow> prev < at) then k\<lparr>apk_lastUsedAt := Some at\<rparr> else k)"

definition touchKey :: "ident \<Rightarrow> instant \<Rightarrow> key_table \<Rightarrow> key_table" where
  "touchKey i at t = snd (on_row i (set_used at) t)"

subsection \<open>The service\<close>

definition KEY_TOUCH_INTERVAL_MS :: int where "KEY_TOUCH_INTERVAL_MS = 60000"

text \<open>The table, when each key was last touched by this process, and how many secrets and identifiers
  were drawn.\<close>

record keys =
  ks_table :: key_table
  ks_touched :: "(ident \<times> instant) list"
  ks_drawn :: nat
  ks_uuids :: nat

definition no_keys :: keys where
  "no_keys = \<lparr>ks_table = \<lparr>kt_rows = [], kt_notices = []\<rparr>, ks_touched = [], ks_drawn = 0, ks_uuids = 0\<rparr>"

definition drawn_secret :: "keys_env \<Rightarrow> nat \<Rightarrow> string" where
  "drawn_secret e n = mintToken Tok_apiKey (kv_random e n)"

definition touch_key :: "instant \<Rightarrow> ident \<Rightarrow> keys \<Rightarrow> keys" where
  "touch_key at i k =
    (if (case map_of (ks_touched k) i of None \<Rightarrow> False | Some prev \<Rightarrow> at - prev < KEY_TOUCH_INTERVAL_MS)
     then k
     else k\<lparr>ks_touched := map_set i at (ks_touched k), ks_table := touchKey i at (ks_table k)\<rparr>)"

definition insert_key ::
  "keys_env \<Rightarrow> instant \<Rightarrow> string \<Rightarrow> key_create_request \<Rightarrow> keys \<Rightarrow> (api_error + api_key \<times> string) \<times> keys" where
  "insert_key e at secret r k =
    (if \<not> apiKeyCreateRequestSchema e r then (Inl (refuse Validation_failed), k)
     else
       (case insertKey \<lparr>ki_id = kv_uuid e (ks_uuids k), ki_name = kc_name r, ki_prefix = apiKeyPrefix secret,
             ki_secretHash = kv_hash e secret, ki_scopes = kc_scopes r, ki_budget = kc_budget r,
             ki_webhookSecrets = kc_webhookSecrets r, ki_fleetWebhook = kc_fleetWebhook r,
             ki_createdAt = at\<rparr> (ks_table k) of
          (Inl _, _) \<Rightarrow> (Inl (refuse Conflict), k\<lparr>ks_uuids := ks_uuids k + 1\<rparr>)
        | (Inr row, t) \<Rightarrow> (Inr (kr_key row, secret), k\<lparr>ks_uuids := ks_uuids k + 1, ks_table := t\<rparr>)))"

definition mint_key ::
  "keys_env \<Rightarrow> instant \<Rightarrow> key_create_request \<Rightarrow> keys \<Rightarrow> (api_error + api_key \<times> string) \<times> keys" where
  "mint_key e at r k = insert_key e at (drawn_secret e (ks_drawn k)) r (k\<lparr>ks_drawn := ks_drawn k + 1\<rparr>)"

text \<open>The answer's flag is \<open>created\<close>.\<close>

definition adopt_key ::
  "keys_env \<Rightarrow> instant \<Rightarrow> string \<Rightarrow> key_create_request \<Rightarrow> keys \<Rightarrow> (api_error + api_key \<times> bool) \<times> keys" where
  "adopt_key e at secret r k =
    (let fresh = (case insert_key e at secret r k of
                    (Inl err, k') \<Rightarrow> (Inl err, k') | (Inr (key, _), k') \<Rightarrow> (Inr (key, True), k'))
     in (case findBySecretHash (kv_hash e secret) (ks_table k) of
           None \<Rightarrow> fresh
         | Some row \<Rightarrow> if apk_revokedAt (kr_key row) = None then (Inr (kr_key row, False), k) else fresh))"

definition authenticate ::
  "keys_env \<Rightarrow> instant \<Rightarrow> string option \<Rightarrow> keys \<Rightarrow> (api_error + key_row) \<times> keys" where
  "authenticate e at bearer k =
    (case bearer of
       None \<Rightarrow> (Inl (refuse Unauthorized), k)
     | Some token \<Rightarrow>
         if token = [] \<or> \<not> looksLikeToken Tok_apiKey token then (Inl (refuse Unauthorized), k)
         else (case findBySecretHash (kv_hash e token) (ks_table k) of
                 None \<Rightarrow> (Inl (refuse Unauthorized), k)
               | Some row \<Rightarrow>
                   if apk_revokedAt (kr_key row) \<noteq> None then (Inl (refuse Unauthorized), k)
                   else (Inr row, touch_key at (kr_id row) k)))"

definition list_keys :: "keys \<Rightarrow> api_key list" where
  "list_keys k = map kr_key (listKeys (ks_table k))"

text \<open>\<open>if (!record) throw notFound(id); return record.key\<close>.\<close>

definition answer_row ::
  "key_row option \<times> key_table \<Rightarrow> keys \<Rightarrow> (api_error + api_key) \<times> keys" where
  "answer_row rt k =
    (case rt of (None, t) \<Rightarrow> (Inl (refuse Not_found), k\<lparr>ks_table := t\<rparr>)
     | (Some row, t) \<Rightarrow> (Inr (kr_key row), k\<lparr>ks_table := t\<rparr>))"

definition revoke :: "instant \<Rightarrow> ident \<Rightarrow> keys \<Rightarrow> (api_error + api_key) \<times> keys" where
  "revoke at i k = answer_row (revokeKey i at (ks_table k)) k"

definition rotateKey :: "keys_env \<Rightarrow> ident \<Rightarrow> keys \<Rightarrow> (api_error + api_key \<times> string) \<times> keys" where
  "rotateKey e i k =
    (case findKeyById i (ks_table k) of
       None \<Rightarrow> (Inl (refuse Not_found), k)
     | Some existing \<Rightarrow>
         if apk_revokedAt (kr_key existing) \<noteq> None then (Inl (refuse Invalid_state), k)
         else
           (let secret = drawn_secret e (ks_drawn k); k1 = k\<lparr>ks_drawn := ks_drawn k + 1\<rparr>
            in (case rotateSecret i (apiKeyPrefix secret) (kv_hash e secret) (ks_table k1) of
                  (None, t) \<Rightarrow> (Inl (refuse Not_found), k1\<lparr>ks_table := t\<rparr>)
                | (Some row, t) \<Rightarrow>
                    (Inr (kr_key row, secret),
                     k1\<lparr>ks_table := t, ks_touched := map_delete i (ks_touched k1)\<rparr>))))"

definition setScopes :: "ident \<Rightarrow> scopes_patch \<Rightarrow> keys \<Rightarrow> (api_error + api_key) \<times> keys" where
  "setScopes i p k =
    (if \<not> scopesPatchRequestSchema p then (Inl (refuse Validation_failed), k)
     else (case findKeyById i (ks_table k) of
             None \<Rightarrow> (Inl (refuse Not_found), k)
           | Some existing \<Rightarrow>
               if apk_revokedAt (kr_key existing) \<noteq> None then (Inl (refuse Invalid_state), k)
               else (let scopes = applyScopesPatch (apk_scopes (kr_key existing)) p
                     in if scopes = [] then (Inl (refuse Validation_failed), k)
                        else answer_row (storeScopes i scopes (ks_table k)) k)))"

definition setBudget :: "ident \<Rightarrow> budget_patch \<Rightarrow> keys \<Rightarrow> (api_error + api_key) \<times> keys" where
  "setBudget i p k =
    (if \<not> budgetPatchRequestSchema p then (Inl (refuse Validation_failed), k)
     else answer_row (storeBudget i p (ks_table k)) k)"

definition setWebhookSecrets :: "ident \<Rightarrow> webhook_secret list \<Rightarrow> keys \<Rightarrow> (api_error + api_key) \<times> keys" where
  "setWebhookSecrets i ss k =
    (if \<not> webhookSecretsRequestSchema ss then (Inl (refuse Validation_failed), k)
     else answer_row (replaceWebhookSecrets i ss (ks_table k)) k)"

definition setFleetWebhook ::
  "keys_env \<Rightarrow> ident \<Rightarrow> fleet_webhook option \<Rightarrow> keys \<Rightarrow> (api_error + api_key) \<times> keys" where
  "setFleetWebhook e i f k =
    (case findKeyById i (ks_table k) of
       None \<Rightarrow> (Inl (refuse Not_found), k)
     | Some existing \<Rightarrow>
         if \<not> fleetWebhookRequestSchema e f then (Inl (refuse Validation_failed), k)
         else if (case f of None \<Rightarrow> False | Some w \<Rightarrow> fw_secretId w \<notin> set (map fst (kr_webhookSecrets existing)))
         then (Inl (refuse Validation_failed), k)
         else answer_row (storeFleetWebhook i f (ks_table k)) k)"

definition get_key :: "ident \<Rightarrow> keys \<Rightarrow> key_row option" where
  "get_key i k = findKeyById i (ks_table k)"

subsection \<open>The dev bootstrap key\<close>

definition BOOTSTRAP_KEY_NAME :: string where "BOOTSTRAP_KEY_NAME = ''bootstrap''"

definition BOOTSTRAP_KEY_SCOPES :: "api_scope list" where
  "BOOTSTRAP_KEY_SCOPES = [Scope_matches, Scope_fleet, Scope_admin]"

definition BOOTSTRAP_KEY_BUDGET :: budget_limits where
  "BOOTSTRAP_KEY_BUDGET =
     \<lparr>bl_maxConcurrentServers = 4, bl_maxServerLifetimeMinutes = 240, bl_monthlyCents = 0\<rparr>"

definition bootstrapKeyRequest :: "string \<Rightarrow> key_create_request" where
  "bootstrapKeyRequest name = \<lparr>kc_name = name, kc_scopes = BOOTSTRAP_KEY_SCOPES, kc_budget = BOOTSTRAP_KEY_BUDGET,
     kc_webhookSecrets = [], kc_fleetWebhook = None\<rparr>"

datatype bootstrap_error = Refused_in_production | Key_error api_error

record bootstrap_outcome =
  bo_key :: api_key
  bo_created :: bool
  bo_revoked :: "ident option"

text \<open>The stale key is found in \<open>keys.list()\<close>, newest first; the answer of \<open>keys.revoke\<close> is not read,
  and its \<open>not_found\<close> would be thrown.\<close>

definition replace_stale ::
  "keys_env \<Rightarrow> instant \<Rightarrow> string \<Rightarrow> string \<Rightarrow> keys \<Rightarrow> (bootstrap_error + bootstrap_outcome) \<times> keys" where
  "replace_stale e at name secret k =
    (let stale = find (\<lambda>key. apk_name key = name \<and> apk_revokedAt key = None) (list_keys k);
         done_with = (case stale of
             None \<Rightarrow> (Inr (), k)
           | Some key \<Rightarrow> (case revoke at (apk_id key) k of (Inl err, k') \<Rightarrow> (Inl err, k') | (Inr _, k') \<Rightarrow> (Inr (), k')))
     in (case done_with of
           (Inl err, k1) \<Rightarrow> (Inl (Key_error err), k1)
         | (Inr _, k1) \<Rightarrow>
             (case adopt_key e at secret (bootstrapKeyRequest name) k1 of
                (Inl err, k2) \<Rightarrow> (Inl (Key_error err), k2)
              | (Inr (key, created), k2) \<Rightarrow>
                  (Inr \<lparr>bo_key = key, bo_created = created, bo_revoked = map_option apk_id stale\<rparr>, k2))))"

definition ensureBootstrapKey ::
  "keys_env \<Rightarrow> instant \<Rightarrow> bool \<Rightarrow> string option \<Rightarrow> string \<Rightarrow> keys \<Rightarrow> (bootstrap_error + bootstrap_outcome) \<times> keys"
where
  "ensureBootstrapKey e at production name0 secret k =
    (let name = (case name0 of None \<Rightarrow> BOOTSTRAP_KEY_NAME | Some n \<Rightarrow> n) in
     if production then (Inl Refused_in_production, k)
     else (case adopt_key e at secret (bootstrapKeyRequest name) k of
             (Inr (key, created), k1) \<Rightarrow> (Inr \<lparr>bo_key = key, bo_created = created, bo_revoked = None\<rparr>, k1)
           | (Inl err, k1) \<Rightarrow>
               if ae_code err \<noteq> Conflict then (Inl (Key_error err), k1)
               else replace_stale e at name secret k1))"

end
