(* ===== verification/Keys_Laws.thy ===== *)
theory Keys_Laws
  imports Keys
begin

text \<open>
  The laws of the key service.

  \<^item> A run is a list of timed calls, each giving an answer; \<open>table_changes\<close> says that a call leaves the
    rows, appends one, or changes one row in one of the listed ways, so that an invariant of the rows
    is proved against these (locale \<open>rows_kept\<close>).
  \<^item> \<open>access\<close> reads off the rows what a secret opens. It follows an abstract table written from the
    calls and their answers alone.
  \<^item> The rows stay on the contract, a revoked row stays as it was revoked, and the last use only moves on.
\<close>

subsection \<open>Calls and answers\<close>

datatype key_op = Op_mint key_create_request | Op_adopt string key_create_request | Op_auth "string option"
  | Op_revoke ident | Op_rotate ident | Op_scopes ident scopes_patch | Op_budget ident budget_patch
  | Op_secrets ident "webhook_secret list" | Op_fleet ident "fleet_webhook option"

datatype key_answer = Ans_refused api_error | Ans_key api_key | Ans_secret api_key string
  | Ans_adopted api_key bool | Ans_opened key_row

definition answered :: "('a \<Rightarrow> key_answer) \<Rightarrow> (api_error + 'a) \<times> keys \<Rightarrow> key_answer \<times> keys" where
  "answered f r = (case r of (Inl err, k) \<Rightarrow> (Ans_refused err, k) | (Inr a, k) \<Rightarrow> (f a, k))"

fun key_step :: "keys_env \<Rightarrow> instant \<Rightarrow> key_op \<Rightarrow> keys \<Rightarrow> key_answer \<times> keys" where
  "key_step e at (Op_mint r) k = answered (\<lambda>(key, s). Ans_secret key s) (mint_key e at r k)"
| "key_step e at (Op_adopt s r) k = answered (\<lambda>(key, c). Ans_adopted key c) (adopt_key e at s r k)"
| "key_step e at (Op_auth b) k = answered Ans_opened (authenticate e at b k)"
| "key_step e at (Op_revoke i) k = answered Ans_key (revoke at i k)"
| "key_step e at (Op_rotate i) k = answered (\<lambda>(key, s). Ans_secret key s) (rotateKey e i k)"
| "key_step e at (Op_scopes i p) k = answered Ans_key (setScopes i p k)"
| "key_step e at (Op_budget i p) k = answered Ans_key (setBudget i p k)"
| "key_step e at (Op_secrets i ss) k = answered Ans_key (setWebhookSecrets i ss k)"
| "key_step e at (Op_fleet i f) k = answered Ans_key (setFleetWebhook e i f k)"

fun key_run :: "keys_env \<Rightarrow> (instant \<times> key_op) list \<Rightarrow> keys \<Rightarrow> (key_op \<times> key_answer) list \<times> keys" where
  "key_run e [] k = ([], k)"
| "key_run e ((at, op) # ops) k =
    (case key_step e at op k of (a, k1) \<Rightarrow>
      (case key_run e ops k1 of (hist, k2) \<Rightarrow> ((op, a) # hist, k2)))"

subsection \<open>What a call does to the rows\<close>

text \<open>The ways one row changes. \<open>n\<close> and \<open>n'\<close> are the numbers of secrets drawn before and after the call.\<close>

inductive row_change :: "keys_env \<Rightarrow> nat \<Rightarrow> nat \<Rightarrow> key_op \<Rightarrow> key_row \<Rightarrow> key_row \<Rightarrow> bool" for e n n' op r where
  ended: "op = Op_revoke (kr_id r) \<Longrightarrow> row_change e n n' op r (set_revoked at r)"
| used: "row_change e n n' op r (set_used at r)"
| resecret: "op = Op_rotate (kr_id r) \<Longrightarrow> \<not> revoked r \<Longrightarrow> n < n' \<Longrightarrow>
    row_change e n n' op r (set_secret (apiKeyPrefix (drawn_secret e n)) (kv_hash e (drawn_secret e n)) r)"
| rescoped: "\<not> revoked r \<Longrightarrow> scopes \<noteq> [] \<Longrightarrow> distinct scopes \<Longrightarrow>
    row_change e n n' op r (with_key (\<lambda>k. k\<lparr>apk_scopes := scopes\<rparr>) r)"
| budgeted: "budgetPatchRequestSchema p \<Longrightarrow>
    row_change e n n' op r (with_key (\<lambda>k. k\<lparr>apk_budget := patch_budget p (apk_budget k)\<rparr>) r)"
| hooked: "absent_or (fleetWebhookSchema e) f \<Longrightarrow>
    row_change e n n' op r (with_key (\<lambda>k. k\<lparr>apk_fleetWebhook := f\<rparr>) r)"
| signed: "webhookSecretsRequestSchema ss \<Longrightarrow> row_change e n n' op r (r\<lparr>kr_webhookSecrets := secret_map ss\<rparr>)"

text \<open>The row a mint or an adoption writes.\<close>

definition new_row :: "keys_env \<Rightarrow> instant \<Rightarrow> ident \<Rightarrow> string \<Rightarrow> key_create_request \<Rightarrow> key_row" where
  "new_row e at i secret r = row_of_input \<lparr>ki_id = i, ki_name = kc_name r, ki_prefix = apiKeyPrefix secret,
     ki_secretHash = kv_hash e secret, ki_scopes = kc_scopes r, ki_budget = kc_budget r,
     ki_webhookSecrets = kc_webhookSecrets r, ki_fleetWebhook = kc_fleetWebhook r, ki_createdAt = at\<rparr>"

definition live_name :: "string \<Rightarrow> key_row list \<Rightarrow> bool" where
  "live_name n rows \<longleftrightarrow> (\<exists>r \<in> set rows. apk_name (kr_key r) = n \<and> \<not> revoked r)"

text \<open>The secret of an appended row is the next draw, or given by an adoption that found no live key.\<close>

inductive secret_given :: "keys_env \<Rightarrow> nat \<Rightarrow> nat \<Rightarrow> key_op \<Rightarrow> key_row list \<Rightarrow> string \<Rightarrow> bool"
  for e n n' op rows where
  minted: "op = Op_mint r \<Longrightarrow> n < n' \<Longrightarrow> secret_given e n n' op rows (drawn_secret e n)"
| adopted: "op = Op_adopt secret r \<Longrightarrow>
    (\<And>row. find (\<lambda>r. kr_secretHash r = kv_hash e secret) rows = Some row \<Longrightarrow> revoked row) \<Longrightarrow>
    secret_given e n n' op rows secret"

abbreviation rows_of :: "keys \<Rightarrow> key_row list" where "rows_of k \<equiv> kt_rows (ks_table k)"

inductive table_changes :: "keys_env \<Rightarrow> keys \<Rightarrow> key_op \<Rightarrow> keys \<Rightarrow> bool" for e k op k' where
  same: "rows_of k' = rows_of k \<Longrightarrow> table_changes e k op k'"
| appended: "apiKeyCreateRequestSchema e r \<Longrightarrow> \<not> live_name (kc_name r) (rows_of k) \<Longrightarrow>
    secret_given e (ks_drawn k) (ks_drawn k') op (rows_of k) secret \<Longrightarrow> ks_uuids k' = Suc (ks_uuids k) \<Longrightarrow>
    rows_of k' = rows_of k @ [new_row e at (kv_uuid e (ks_uuids k)) secret r] \<Longrightarrow> table_changes e k op k'"
| changed: "find (\<lambda>r. kr_id r = i) (rows_of k) = Some r \<Longrightarrow>
    row_change e (ks_drawn k) (ks_drawn k') op r (f r) \<Longrightarrow>
    rows_of k' = update_first (\<lambda>r. kr_id r = i) f (rows_of k) \<Longrightarrow> table_changes e k op k'"

lemma on_row_cases:
  assumes "on_row i f t = (x, t')"
  obtains (missing) "byId i t = None" "x = None" "t' = t"
  | (found) r where "byId i t = Some r" "x = Some (view_row (f r))"
      "kt_rows t' = update_first (\<lambda>r. kr_id r = i) f (kt_rows t)" "kt_notices t' = kt_notices t"
  using assms by (auto simp: on_row_def split: option.splits)

lemma view_row_simps [simp]:
  "kr_id (view_row r) = kr_id r" "apk_revokedAt (kr_key (view_row r)) = apk_revokedAt (kr_key r)"
  "kr_secretHash (view_row r) = kr_secretHash r" "kr_webhookSecrets (view_row r) = kr_webhookSecrets r"
  "apk_scopes (kr_key (view_row r)) = apk_scopes (kr_key r)" "revoked (view_row r) = revoked r"
  "apk_id (kr_key (view_row r)) = kr_id r" "apk_name (kr_key (view_row r)) = apk_name (kr_key r)"
  by (simp_all add: view_row_def kr_id_def revoked_def)

lemma answer_on_row:
  assumes "answer_row (on_row i f (ks_table k)) k = (a, k')"
    and "\<And>r. byId i (ks_table k) = Some r \<Longrightarrow> row_change e (ks_drawn k) (ks_drawn k) op r (f r)"
  shows "table_changes e k op k' \<and> ks_drawn k' = ks_drawn k \<and> ks_uuids k' = ks_uuids k"
proof (cases "byId i (ks_table k)")
  case None
  with assms(1) have "k' = k" by (auto simp: answer_row_def on_row_def)
  then show ?thesis by (simp add: table_changes.same)
next
  case (Some r)
  with assms(1) have "k' = k\<lparr>ks_table := (ks_table k)\<lparr>kt_rows := update_first (\<lambda>r. kr_id r = i) f (rows_of k)\<rparr>\<rparr>"
    by (auto simp: answer_row_def on_row_def)
  with Some assms(2) [OF Some] show ?thesis
    by (auto simp: byId_def intro: table_changes.changed)
qed

lemma insert_changes:
  assumes "insert_key e at secret r k = (a, k')"
    and "secret_given e n (ks_drawn k) op (rows_of k) secret" "n \<le> ks_drawn k"
    and "rows_of k0 = rows_of k" "ks_uuids k0 = ks_uuids k" "ks_drawn k0 = n"
  shows "table_changes e k0 op k' \<and> ks_drawn k' = ks_drawn k \<and> ks_uuids k \<le> ks_uuids k' \<and> ks_uuids k' \<le> Suc (ks_uuids k)"
proof -
  consider (off) "\<not> apiKeyCreateRequestSchema e r" "k' = k"
    | (taken) "k' = k\<lparr>ks_uuids := ks_uuids k + 1\<rparr>"
    | (written) "apiKeyCreateRequestSchema e r" "\<not> live_name (kc_name r) (rows_of k)"
        "k' = k\<lparr>ks_uuids := ks_uuids k + 1, ks_table := (ks_table k)\<lparr>kt_rows :=
           rows_of k @ [new_row e at (kv_uuid e (ks_uuids k)) secret r]\<rparr>\<rparr>"
  proof (cases "apiKeyCreateRequestSchema e r")
    case False
    with assms(1) off show ?thesis by (simp add: insert_key_def)
  next
    case ok: True
    show ?thesis
    proof (cases "live_name (kc_name r) (rows_of k)")
      case True
      then have "list_ex (\<lambda>x. apk_name (kr_key x) = kc_name r \<and> apk_revokedAt (kr_key x) = None) (rows_of k)"
        by (auto simp: live_name_def revoked_def list_ex_iff)
      with assms(1) ok taken show ?thesis by (simp add: insert_key_def insertKey_def)
    next
      case False
      then have "\<not> list_ex (\<lambda>x. apk_name (kr_key x) = kc_name r \<and> apk_revokedAt (kr_key x) = None) (rows_of k)"
        by (auto simp: live_name_def revoked_def list_ex_iff)
      with assms(1) ok False written show ?thesis by (simp add: insert_key_def insertKey_def new_row_def)
    qed
  qed
  then show ?thesis
  proof cases
    case written
    from written(3) have eqs: "rows_of k' = rows_of k @ [new_row e at (kv_uuid e (ks_uuids k)) secret r]"
      "ks_uuids k' = Suc (ks_uuids k)" "ks_drawn k' = ks_drawn k" by simp_all
    have "table_changes e k0 op k'"
      by (rule table_changes.appended [where secret = secret and r = r and at = at])
        (simp_all only: eqs assms written(1,2) not_False_eq_True)
    with eqs show ?thesis by simp
  qed (simp_all add: assms table_changes.same)
qed

lemma scopes_patched: "distinct (applyScopesPatch held p)"
  by (simp add: applyScopesPatch_def MATCH_API_SCOPES_def)

lemma found_by_id: "findKeyById i t = Some x \<Longrightarrow> \<exists>r. byId i t = Some r \<and> x = view_row r"
  by (auto simp: findKeyById_def)

lemma budget_changes:
  assumes "answer_row (storeBudget i p (ks_table k)) k = (a, k')" "budgetPatchRequestSchema p"
  shows "table_changes e k op k' \<and> ks_drawn k' = ks_drawn k \<and> ks_uuids k' = ks_uuids k"
proof (cases "byId i (ks_table k)")
  case None
  with assms(1) have "k' = k" by (auto simp: answer_row_def storeBudget_def on_row_def)
  then show ?thesis by (simp add: table_changes.same)
next
  case (Some r)
  let ?f = "with_key (\<lambda>k. k\<lparr>apk_budget := patch_budget p (apk_budget k)\<rparr>)"
  have "rows_of k' = update_first (\<lambda>r. kr_id r = i) ?f (rows_of k)"
    "ks_drawn k' = ks_drawn k" "ks_uuids k' = ks_uuids k"
    using assms(1) Some by (auto simp: answer_row_def storeBudget_def on_row_def)
  with Some row_change.budgeted [OF assms(2), of e "ks_drawn k" "ks_drawn k'" op r] show ?thesis
    by (auto simp: byId_def intro: table_changes.changed [where f = ?f])
qed

lemma authenticate_cases:
  assumes "authenticate e at b k = (a, k')"
  obtains (refused) "a = Inl (refuse Unauthorized)" "k' = k"
  | (opened) token r where "b = Some token" "looksLikeToken Tok_apiKey token"
      "find (\<lambda>r. kr_secretHash r = kv_hash e token) (rows_of k) = Some r" "\<not> revoked r"
      "a = Inr (view_row r)" "k' = touch_key at (kr_id r) k"
proof (cases b)
  case None
  with assms refused show thesis by (simp add: authenticate_def)
next
  case (Some token)
  show thesis
  proof (cases "looksLikeToken Tok_apiKey token \<and> token \<noteq> []")
    case False
    with Some assms refused show thesis by (simp add: authenticate_def split: if_splits)
  next
    case shaped: True
    show thesis
    proof (cases "find (\<lambda>r. kr_secretHash r = kv_hash e token) (rows_of k)")
      case None
      with Some shaped assms refused show thesis by (simp add: authenticate_def findBySecretHash_def)
    next
      case found: (Some r)
      show thesis
      proof (cases "revoked r")
        case True
        with Some shaped found assms refused show thesis
          by (simp add: authenticate_def findBySecretHash_def revoked_def)
      next
        case False
        with Some shaped found assms opened [of token r] show thesis
          by (simp add: authenticate_def findBySecretHash_def revoked_def)
      qed
    qed
  qed
qed

lemma touch_changes:
  "table_changes e k op (touch_key at i k)"
proof (cases "rows_of (touch_key at i k) = rows_of k")
  case False
  then obtain r where found: "find (\<lambda>x. kr_id x = i) (rows_of k) = Some r"
    and "rows_of (touch_key at i k) = update_first (\<lambda>x. kr_id x = i) (set_used at) (rows_of k)"
    by (auto simp: touch_key_def touchKey_def on_row_def byId_def split: option.splits if_splits)
  then show ?thesis
    by (intro table_changes.changed [where f = "set_used at" and i = i] row_change.used) auto
qed (rule table_changes.same)

lemma touch_counts [simp]:
  "ks_drawn (touch_key at i k) = ks_drawn k" "ks_uuids (touch_key at i k) = ks_uuids k"
  by (simp_all add: touch_key_def)

lemma adopt_cases:
  assumes "adopt_key e at secret r k = (a, k')"
  obtains (kept) row where "find (\<lambda>r. kr_secretHash r = kv_hash e secret) (rows_of k) = Some row" "\<not> revoked row"
      "a = Inr (kr_key (view_row row), False)" "k' = k"
  | (inserted) b where "insert_key e at secret r k = (b, k')"
      "\<And>row. find (\<lambda>r. kr_secretHash r = kv_hash e secret) (rows_of k) = Some row \<Longrightarrow> revoked row"
      "a = (case b of Inl err \<Rightarrow> Inl err | Inr (key, _) \<Rightarrow> Inr (key, True))"
proof (cases "find (\<lambda>r. kr_secretHash r = kv_hash e secret) (rows_of k)")
  case None
  with assms inserted show thesis
    by (auto simp: adopt_key_def findBySecretHash_def split: prod.splits sum.splits)
next
  case (Some row)
  show thesis
  proof (cases "revoked row")
    case True
    with Some assms inserted show thesis
      by (auto simp: adopt_key_def findBySecretHash_def revoked_def split: prod.splits sum.splits)
  next
    case False
    with Some assms kept show thesis
      by (simp add: adopt_key_def findBySecretHash_def revoked_def)
  qed
qed

lemma rotate_cases:
  assumes "rotateKey e i k = (a, k')"
  obtains (refused) err where "a = Inl err" "k' = k"
  | (rotated) r where "find (\<lambda>r. kr_id r = i) (rows_of k) = Some r" "\<not> revoked r"
      "a = Inr (kr_key (view_row (set_secret (apiKeyPrefix (drawn_secret e (ks_drawn k)))
         (kv_hash e (drawn_secret e (ks_drawn k))) r)), drawn_secret e (ks_drawn k))"
      "ks_drawn k' = Suc (ks_drawn k)" "ks_uuids k' = ks_uuids k"
      "rows_of k' = update_first (\<lambda>r. kr_id r = i) (set_secret (apiKeyPrefix (drawn_secret e (ks_drawn k)))
         (kv_hash e (drawn_secret e (ks_drawn k)))) (rows_of k)"
      "ks_touched k' = map_delete i (ks_touched k)"
proof (cases "find (\<lambda>r. kr_id r = i) (rows_of k)")
  case None
  with assms show thesis
    by (intro refused [of "refuse Not_found"]) (auto simp: rotateKey_def findKeyById_def byId_def)
next
  case (Some r)
  show thesis
  proof (cases "revoked r")
    case True
    with Some assms show thesis
      by (intro refused [of "refuse Invalid_state"]) (auto simp: rotateKey_def findKeyById_def byId_def revoked_def)
  next
    case False
    with Some assms show thesis
      by (intro rotated [of r])
        (simp_all add: rotateKey_def findKeyById_def byId_def revoked_def rotateSecret_def on_row_def
          Let_def split_beta, auto)
  qed
qed

lemma answeredD: "answered f r = (a, k') \<Longrightarrow> \<exists>x. r = (x, k')"
  by (cases r) (auto simp: answered_def split: sum.splits)

lemma step_changes:
  assumes "key_step e at op k = (a, k')"
  shows "table_changes e k op k' \<and> ks_drawn k \<le> ks_drawn k' \<and> ks_drawn k' \<le> Suc (ks_drawn k) \<and>
    ks_uuids k \<le> ks_uuids k' \<and> ks_uuids k' \<le> Suc (ks_uuids k)"
proof (cases op)
  case (Op_mint r)
  from answeredD [OF assms [unfolded Op_mint key_step.simps]] obtain x
    where "insert_key e at (drawn_secret e (ks_drawn k)) r (k\<lparr>ks_drawn := ks_drawn k + 1\<rparr>) = (x, k')"
    unfolding mint_key_def by blast
  moreover have "secret_given e (ks_drawn k) (Suc (ks_drawn k)) op (rows_of k) (drawn_secret e (ks_drawn k))"
    by (rule secret_given.minted [OF Op_mint]) simp
  ultimately have "table_changes e k op k' \<and> ks_drawn k' = ks_drawn (k\<lparr>ks_drawn := ks_drawn k + 1\<rparr>) \<and>
    ks_uuids (k\<lparr>ks_drawn := ks_drawn k + 1\<rparr>) \<le> ks_uuids k' \<and>
    ks_uuids k' \<le> Suc (ks_uuids (k\<lparr>ks_drawn := ks_drawn k + 1\<rparr>))"
    by (intro insert_changes [where n = "ks_drawn k"]) simp_all
  then show ?thesis by simp
next
  case (Op_adopt s r)
  from answeredD [OF assms [unfolded Op_adopt key_step.simps]] obtain x where "adopt_key e at s r k = (x, k')" by blast
  then show ?thesis
  proof (cases rule: adopt_cases)
    case kept then show ?thesis by (simp add: table_changes.same)
  next
    case (inserted b)
    have "secret_given e (ks_drawn k) (ks_drawn k) op (rows_of k) s"
      using inserted(2) Op_adopt by (blast intro: secret_given.adopted)
    from insert_changes [OF inserted(1) this] show ?thesis by simp
  qed
next
  case (Op_auth b)
  from answeredD [OF assms [unfolded Op_auth key_step.simps]] obtain x where "authenticate e at b k = (x, k')" by blast
  then show ?thesis
    by (cases rule: authenticate_cases) (simp_all add: table_changes.same touch_changes)
next
  case (Op_revoke i)
  from answeredD [OF assms [unfolded Op_revoke key_step.simps]] obtain x where "revoke at i k = (x, k')" by blast
  then have "table_changes e k op k' \<and> ks_drawn k' = ks_drawn k \<and> ks_uuids k' = ks_uuids k"
    unfolding revoke_def revokeKey_def
    by (rule answer_on_row) (auto simp: Op_revoke byId_def dest!: find_SomeD intro!: row_change.ended)
  then show ?thesis by simp
next
  case (Op_rotate i)
  from answeredD [OF assms [unfolded Op_rotate key_step.simps]] obtain x where "rotateKey e i k = (x, k')" by blast
  then show ?thesis
  proof (cases rule: rotate_cases)
    case refused then show ?thesis by (simp add: table_changes.same)
  next
    case (rotated r)
    have "table_changes e k op k'"
      by (rule table_changes.changed [OF rotated(1) _ rotated(6)])
        (use find_SomeD [OF rotated(1)] in \<open>simp add: Op_rotate rotated(2,4) row_change.resecret\<close>)
    with rotated show ?thesis by simp
  qed
next
  case (Op_scopes i p)
  from answeredD [OF assms [unfolded Op_scopes key_step.simps]] obtain x where "setScopes i p k = (x, k')" by blast
  then consider "k' = k"
    | r where "byId i (ks_table k) = Some r" "\<not> revoked r" "applyScopesPatch (apk_scopes (kr_key r)) p \<noteq> []"
      "answer_row (storeScopes i (applyScopesPatch (apk_scopes (kr_key r)) p) (ks_table k)) k = (x, k')"
    by (auto simp: setScopes_def Let_def revoked_def dest!: found_by_id split: if_splits option.splits)
  then show ?thesis
  proof cases
    case 1 then show ?thesis by (simp add: table_changes.same)
  next
    case (2 r)
    then have "table_changes e k op k' \<and> ks_drawn k' = ks_drawn k \<and> ks_uuids k' = ks_uuids k"
      by (intro answer_on_row [OF 2(4) [unfolded storeScopes_def]])
        (auto intro: row_change.rescoped scopes_patched)
    then show ?thesis by simp
  qed
next
  case (Op_budget i p)
  from answeredD [OF assms [unfolded Op_budget key_step.simps]] obtain x where "setBudget i p k = (x, k')" by blast
  then consider "k' = k" | "answer_row (storeBudget i p (ks_table k)) k = (x, k')" "budgetPatchRequestSchema p"
    by (auto simp: setBudget_def split: if_splits)
  then show ?thesis
  proof cases
    case 2 from budget_changes [OF this, of e op] show ?thesis by simp
  qed (simp add: table_changes.same)
next
  case (Op_secrets i ss)
  from answeredD [OF assms [unfolded Op_secrets key_step.simps]] obtain x where "setWebhookSecrets i ss k = (x, k')" by blast
  then consider "k' = k" | "webhookSecretsRequestSchema ss"
      "answer_row (on_row i (\<lambda>r. r\<lparr>kr_webhookSecrets := secret_map ss\<rparr>) (ks_table k)) k = (x, k')"
    by (auto simp: setWebhookSecrets_def replaceWebhookSecrets_def split: if_splits)
  then show ?thesis
  proof cases
    case 1 then show ?thesis by (simp add: table_changes.same)
  next
    case 2
    from answer_on_row [OF 2(2) row_change.signed [OF 2(1)]] show ?thesis by simp
  qed
next
  case (Op_fleet i f)
  from answeredD [OF assms [unfolded Op_fleet key_step.simps]] obtain x where "setFleetWebhook e i f k = (x, k')" by blast
  then consider "k' = k" | "absent_or (fleetWebhookSchema e) f"
      "answer_row (on_row i (with_key (\<lambda>k. k\<lparr>apk_fleetWebhook := f\<rparr>)) (ks_table k)) k = (x, k')"
    by (auto simp: setFleetWebhook_def storeFleetWebhook_def fleetWebhookRequestSchema_def
        split: if_splits option.splits)
  then show ?thesis
  proof cases
    case 1 then show ?thesis by (simp add: table_changes.same)
  next
    case 2
    from answer_on_row [OF 2(2) row_change.hooked [OF 2(1)]] show ?thesis by simp
  qed
qed

subsection \<open>Invariants of the rows\<close>

lemma row_change_id: "row_change e n n' op r r' \<Longrightarrow> kr_id r' = kr_id r"
  by (cases rule: row_change.cases)
    (auto simp: kr_id_def set_revoked_def set_used_def set_secret_def with_key_def)

lemma run_counts:
  "key_run e ops k = (hist, k') \<Longrightarrow>
     ks_drawn k' \<le> ks_drawn k + length ops \<and> ks_uuids k' \<le> ks_uuids k + length ops"
proof (induction ops arbitrary: k hist)
  case (Cons p ops)
  obtain at op where p: "p = (at, op)" by force
  obtain a k1 where s: "key_step e at op k = (a, k1)" by force
  obtain h where r: "key_run e ops k1 = (h, k')" using Cons.prems by (auto simp: p s split: prod.splits)
  from Cons.IH [OF r] step_changes [OF s] show ?case by simp
qed simp

text \<open>An invariant of the rows: kept by an appended row and by every change of one row. The first two
  arguments are the numbers of secrets and of identifiers drawn; \<open>ok\<close> restricts the calls.\<close>

locale rows_kept =
  fixes e :: keys_env and ok :: "key_op \<Rightarrow> bool" and I :: "nat \<Rightarrow> nat \<Rightarrow> key_row list \<Rightarrow> bool"
  assumes counted: "I d u rows \<Longrightarrow> d \<le> d' \<Longrightarrow> u \<le> u' \<Longrightarrow> I d' u' rows"
    and grown: "I d u rows \<Longrightarrow> ok op \<Longrightarrow> apiKeyCreateRequestSchema e r \<Longrightarrow> \<not> live_name (kc_name r) rows \<Longrightarrow>
      secret_given e d d' op rows secret \<Longrightarrow> d \<le> d' \<Longrightarrow>
      I d' (Suc u) (rows @ [new_row e at (kv_uuid e u) secret r])"
    and patched: "I d u rows \<Longrightarrow> ok op \<Longrightarrow> find (\<lambda>r. kr_id r = i) rows = Some x \<Longrightarrow>
      row_change e d d' op x (f x) \<Longrightarrow> d \<le> d' \<Longrightarrow> I d' u (update_first (\<lambda>r. kr_id r = i) f rows)"
begin

definition holds_in :: "keys \<Rightarrow> bool" where "holds_in k \<longleftrightarrow> I (ks_drawn k) (ks_uuids k) (rows_of k)"

lemma step_kept:
  assumes "holds_in k" "ok op" "key_step e at op k = (a, k')"
  shows "holds_in k'"
proof -
  from step_changes [OF assms(3)] have t: "table_changes e k op k'" and d: "ks_drawn k \<le> ks_drawn k'"
    and u: "ks_uuids k \<le> ks_uuids k'" by auto
  from t show ?thesis
  proof cases
    case same with assms(1) d u show ?thesis by (auto simp: holds_in_def intro: counted)
  next
    case (appended r secret at)
    from grown [OF assms(1) [unfolded holds_in_def] assms(2) appended(1-3) d] appended(4,5)
    show ?thesis by (simp add: holds_in_def)
  next
    case (changed i r f)
    from patched [where f = f, OF assms(1) [unfolded holds_in_def] assms(2) changed(1,2) d] changed(3) u
    show ?thesis by (auto simp: holds_in_def intro: counted)
  qed
qed

lemma run_kept:
  "holds_in k \<Longrightarrow> list_all (\<lambda>(at, op). ok op) ops \<Longrightarrow> key_run e ops k = (hist, k') \<Longrightarrow> holds_in k'"
proof (induction ops arbitrary: k hist)
  case (Cons p ops)
  obtain at op where p: "p = (at, op)" by force
  obtain a k1 where s: "key_step e at op k = (a, k1)" by force
  obtain h where r: "key_run e ops k1 = (h, k')" using Cons.prems by (auto simp: p s split: prod.splits)
  with Cons.IH [OF _ _ r] step_kept [OF Cons.prems(1) _ s] Cons.prems(2) show ?case by (simp add: p)
qed simp

end

subsection \<open>Every row can be served\<close>

text \<open>The schema of the answer: \<open>apiKeySchema\<close>. Its uuid and its timestamps are so by type here.\<close>

definition apiKeySchema :: "keys_env \<Rightarrow> api_key \<Rightarrow> bool" where
  "apiKeySchema e k \<longleftrightarrow> between 1 64 (apk_name k) \<and> between 4 12 (apk_prefix k) \<and>
     matchApiScopesSchema (apk_scopes k) \<and> budgetLimitsSchema (apk_budget k) \<and>
     list_all (\<lambda>i. i \<noteq> []) (apk_webhookSecretIds k) \<and> absent_or (fleetWebhookSchema e) (apk_fleetWebhook k)"

definition live_names :: "key_row list \<Rightarrow> string list" where
  "live_names rows = map (\<lambda>r. apk_name (kr_key r)) (filter (\<lambda>r. \<not> revoked r) rows)"

definition servable :: "keys_env \<Rightarrow> key_row list \<Rightarrow> bool" where
  "servable e rows \<longleftrightarrow> list_all (\<lambda>r. apiKeySchema e (kr_key (view_row r))) rows \<and> distinct (live_names rows)"

text \<open>The secret given to an adoption is long enough for the prefix: the configuration asks more of it.\<close>

definition given_long :: "key_op \<Rightarrow> bool" where
  "given_long op = (case op of Op_adopt s _ \<Rightarrow> 4 \<le> length s | _ \<Rightarrow> True)"

lemma secret_map_ids: "set (map fst (secret_map ss)) \<subseteq> set (map ws_id ss)"
proof -
  have "fst ` set (foldl (\<lambda>m s. map_set (ws_id s) (ws_secret s) m) m0 ss) \<subseteq> fst ` set m0 \<union> ws_id ` set ss" for m0
  proof (induction ss arbitrary: m0)
    case (Cons s ss)
    have "fst ` set (map_set (ws_id s) (ws_secret s) m0) \<subseteq> insert (ws_id s) (fst ` set m0)"
      by (induction m0) auto
    with Cons [of "map_set (ws_id s) (ws_secret s) m0"] show ?case by auto
  qed simp
  from this [of "[]"] show ?thesis by (simp add: secret_map_def)
qed

lemma drawn_long: "4 \<le> length (drawn_secret e n)"
  by (simp add: drawn_secret_def mintToken_def)

lemma prefix_fits: "4 \<le> length s \<Longrightarrow> between 4 12 (apiKeyPrefix s)"
  by (simp add: between_def apiKeyPrefix_def API_KEY_PREFIX_LENGTH_def)

lemma new_row_servable:
  assumes "apiKeyCreateRequestSchema e q" "4 \<le> length secret"
  shows "apiKeySchema e (kr_key (view_row (new_row e at i secret q)))"
proof -
  have "list_all (\<lambda>i. i \<noteq> []) (map fst (secret_map (kc_webhookSecrets q)))"
    using assms(1) secret_map_ids [of "kc_webhookSecrets q"]
    by (fastforce simp: apiKeyCreateRequestSchema_def list_all_iff webhookSecretRegistrationSchema_def between_def)
  with assms show ?thesis
    by (simp add: apiKeySchema_def apiKeyCreateRequestSchema_def view_row_def new_row_def row_of_input_def prefix_fits)
qed

lemma change_servable:
  assumes "row_change e n n' op r r'" "apiKeySchema e (kr_key (view_row r))"
  shows "apiKeySchema e (kr_key (view_row r'))"
  using assms(1)
proof cases
  case (signed ss)
  then have "list_all (\<lambda>i. i \<noteq> []) (map fst (secret_map ss))"
    using secret_map_ids [of ss]
    by (fastforce simp: webhookSecretsRequestSchema_def list_all_iff webhookSecretRegistrationSchema_def between_def)
  with signed assms(2) show ?thesis by (simp add: apiKeySchema_def view_row_def)
qed (use assms(2) in \<open>auto simp: apiKeySchema_def view_row_def set_revoked_def set_used_def set_secret_def
    with_key_def prefix_fits drawn_long matchApiScopesSchema_def budgetLimitsSchema_def patch_budget_def
    budgetPatchRequestSchema_def split: option.splits\<close>)

lemma change_name: "row_change e n n' op r r' \<Longrightarrow>
    apk_name (kr_key r') = apk_name (kr_key r) \<and> (revoked r \<longrightarrow> revoked r')"
  by (cases rule: row_change.cases)
    (auto simp: set_revoked_def set_used_def set_secret_def with_key_def revoked_def split: option.splits)

lemma update_first_split:
  "find P rows = Some x \<Longrightarrow> \<exists>xs ys. rows = xs @ x # ys \<and> P x \<and> (\<forall>y \<in> set xs. \<not> P y) \<and>
     (\<forall>f. update_first P f rows = xs @ f x # ys)"
proof (induction rows)
  case (Cons r rows)
  show ?case
  proof (cases "P r")
    case True with Cons.prems show ?thesis by (intro exI [of _ "[]"] exI [of _ rows]) auto
  next
    case False
    with Cons obtain xs ys where "rows = xs @ x # ys" "P x" "\<forall>y \<in> set xs. \<not> P y"
      "\<forall>f. update_first P f rows = xs @ f x # ys" by auto
    with False show ?thesis by (intro exI [of _ "r # xs"] exI [of _ ys]) auto
  qed
qed simp

interpretation contract: rows_kept e given_long "\<lambda>d u. servable e" for e
proof (unfold_locales, goal_cases)
  case (2 d u rows op q d' secret at)
  from 2(5) 2(2) have "4 \<le> length secret"
    by cases (auto simp: given_long_def drawn_long)
  with 2 show ?case
    by (auto simp: servable_def new_row_servable live_names_def live_name_def)
      (auto simp: new_row_def row_of_input_def)
next
  case (3 d u rows op i x d' f)
  from update_first_split [OF 3(3)] obtain xs ys where s: "rows = xs @ x # ys"
    and u: "update_first (\<lambda>r. kr_id r = i) f rows = xs @ f x # ys" by blast
  from 3(1) s u change_servable [OF 3(4)] change_name [OF 3(4)] show ?case
    by (auto simp: servable_def live_names_def split: if_splits)
qed

lemma no_keys_contract [simp]: "contract.holds_in e no_keys"
  by (simp add: contract.holds_in_def servable_def no_keys_def live_names_def)

subsection \<open>What a secret opens\<close>

text \<open>\<open>given\<close> holds the secrets an adoption may carry. Up to \<open>n\<close> draws the generator repeats nothing and
  gives no secret of \<open>given\<close>, and no two of all these secrets have one hash.\<close>

definition collision_free :: "keys_env \<Rightarrow> nat \<Rightarrow> string set \<Rightarrow> bool" where
  "collision_free e n given \<longleftrightarrow>
     inj_on (kv_hash e) (given \<union> drawn_secret e ` {..<n}) \<and> inj_on (drawn_secret e) {..<n} \<and>
     given \<inter> drawn_secret e ` {..<n} = {} \<and> inj_on (kv_uuid e) {..<n}"

definition adopts_from :: "string set \<Rightarrow> key_op \<Rightarrow> bool" where
  "adopts_from given op = (case op of Op_adopt s _ \<Rightarrow> s \<in> given | _ \<Rightarrow> True)"

definition hashed :: "string \<Rightarrow> key_row list \<Rightarrow> key_row list" where
  "hashed h rows = filter (\<lambda>r. kr_secretHash r = h) rows"

text \<open>The first row with a hash is the one found. Should it be live, it is the only one with that hash.\<close>

definition first_or_only :: "key_row list \<Rightarrow> bool" where
  "first_or_only rows \<longleftrightarrow> (\<forall>h. case hashed h rows of [] \<Rightarrow> True | r # rs \<Rightarrow> revoked r \<or> rs = [])"

definition hashes_known :: "keys_env \<Rightarrow> string set \<Rightarrow> nat \<Rightarrow> key_row list \<Rightarrow> bool" where
  "hashes_known e given d rows \<longleftrightarrow> kr_secretHash ` set rows \<subseteq> kv_hash e ` (given \<union> drawn_secret e ` {..<d})"

definition ids_known :: "keys_env \<Rightarrow> nat \<Rightarrow> key_row list \<Rightarrow> bool" where
  "ids_known e u rows \<longleftrightarrow> distinct (map kr_id rows) \<and> kr_id ` set rows \<subseteq> kv_uuid e ` {..<u}"

definition well_keyed :: "keys_env \<Rightarrow> string set \<Rightarrow> nat \<Rightarrow> nat \<Rightarrow> nat \<Rightarrow> key_row list \<Rightarrow> bool" where
  "well_keyed e given n d u rows \<longleftrightarrow> (collision_free e n given \<and> d \<le> n \<and> u \<le> n \<longrightarrow>
     ids_known e u rows \<and> hashes_known e given d rows \<and> first_or_only rows)"

lemma hashed_simps [simp]:
  "hashed h [] = []" "hashed h (xs @ ys) = hashed h xs @ hashed h ys"
  "hashed h (x # xs) = (if kr_secretHash x = h then x # hashed h xs else hashed h xs)"
  by (simp_all add: hashed_def)

lemma find_hashed: "find (\<lambda>r. kr_secretHash r = h) rows = (case hashed h rows of [] \<Rightarrow> None | r # rs \<Rightarrow> Some r)"
  by (induction rows) auto

lemma hashed_fresh: "h \<notin> kr_secretHash ` set rows \<Longrightarrow> hashed h rows = []"
  by (auto simp: hashed_def filter_empty_conv)

lemma drawn_is_fresh:
  assumes "collision_free e n given" "hashes_known e given d rows" "d < n"
  shows "kv_hash e (drawn_secret e d) \<notin> kr_secretHash ` set rows"
proof
  assume "kv_hash e (drawn_secret e d) \<in> kr_secretHash ` set rows"
  with assms(2) obtain s where s: "s \<in> given \<union> drawn_secret e ` {..<d}" "kv_hash e (drawn_secret e d) = kv_hash e s"
    unfolding hashes_known_def by blast
  then have "s \<in> given \<union> drawn_secret e ` {..<n}" using assms(3) by auto
  moreover have "drawn_secret e d \<in> given \<union> drawn_secret e ` {..<n}" using assms(3) by auto
  ultimately have "drawn_secret e d = s"
    using assms(1) s(2) unfolding collision_free_def by (blast dest: inj_onD)
  moreover have "drawn_secret e d \<notin> given" using assms(1,3) by (auto simp: collision_free_def)
  ultimately obtain m where "m < d" "drawn_secret e d = drawn_secret e m" using s(1) by auto
  with assms(1,3) show False
    by (auto simp: collision_free_def dest: inj_onD [of _ _ d m])
qed

text \<open>Which changes touch the columns the lookup reads.\<close>

lemma change_columns:
  assumes "row_change e n n' op r r'"
  shows "kr_id r' = kr_id r \<and>
    (kr_secretHash r' = kr_secretHash r \<and> (revoked r' = revoked r \<or> op = Op_revoke (kr_id r) \<and> revoked r') \<or>
     op = Op_rotate (kr_id r) \<and> \<not> revoked r \<and> \<not> revoked r' \<and> n < n' \<and>
     kr_secretHash r' = kv_hash e (drawn_secret e n))"
  using assms
  by cases (auto simp: set_revoked_def set_used_def set_secret_def with_key_def revoked_def kr_id_def
      split: option.splits)

lemma new_row_columns [simp]:
  "kr_id (new_row e at i secret q) = i" "kr_secretHash (new_row e at i secret q) = kv_hash e secret"
  "\<not> revoked (new_row e at i secret q)"
  by (simp_all add: new_row_def row_of_input_def kr_id_def revoked_def)

lemma first_or_only_append:
  assumes "first_or_only rows" "\<not> revoked x"
    and "\<And>r rs. hashed (kr_secretHash x) rows = r # rs \<Longrightarrow> revoked r"
  shows "first_or_only (rows @ [x])"
  unfolding first_or_only_def
proof
  fix h
  from assms(1) have "case hashed h rows of [] \<Rightarrow> True | r # rs \<Rightarrow> revoked r \<or> rs = []"
    by (simp add: first_or_only_def)
  with assms(3) show "case hashed h (rows @ [x]) of [] \<Rightarrow> True | r # rs \<Rightarrow> revoked r \<or> rs = []"
    by (auto split: list.splits)
qed

lemma first_or_only_replace:
  assumes "first_or_only (xs @ x # ys)"
    and "kr_secretHash x' = kr_secretHash x \<and> (revoked x \<longrightarrow> revoked x') \<or>
      \<not> revoked x \<and> hashed (kr_secretHash x') (xs @ ys) = []"
  shows "first_or_only (xs @ x' # ys)"
  unfolding first_or_only_def
proof
  fix h
  from assms(1) have old: "case hashed h (xs @ x # ys) of [] \<Rightarrow> True | r # rs \<Rightarrow> revoked r \<or> rs = []"
    unfolding first_or_only_def by blast
  from assms(2) show "case hashed h (xs @ x' # ys) of [] \<Rightarrow> True | r # rs \<Rightarrow> revoked r \<or> rs = []"
  proof
    assume "kr_secretHash x' = kr_secretHash x \<and> (revoked x \<longrightarrow> revoked x')"
    with old show ?thesis by (auto split: list.splits if_splits simp: Cons_eq_append_conv append_eq_Cons_conv)
  next
    assume "\<not> revoked x \<and> hashed (kr_secretHash x') (xs @ ys) = []"
    with old show ?thesis by (cases "hashed h xs") (auto split: list.splits if_splits)
  qed
qed

lemma hashes_mono: "hashes_known e given d rows \<Longrightarrow> d \<le> d' \<Longrightarrow> hashes_known e given d' rows"
proof -
  assume "hashes_known e given d rows" "d \<le> d'"
  moreover from \<open>d \<le> d'\<close> have "given \<union> drawn_secret e ` {..<d} \<subseteq> given \<union> drawn_secret e ` {..<d'}" by auto
  ultimately show ?thesis unfolding hashes_known_def by (blast dest: image_mono)
qed

lemma ids_mono: "ids_known e u rows \<Longrightarrow> u \<le> u' \<Longrightarrow> ids_known e u' rows"
  unfolding ids_known_def by (meson image_mono lessThan_subset_iff order_trans)

lemma uuid_is_fresh:
  assumes "collision_free e n given" "ids_known e u rows" "u < n"
  shows "kv_uuid e u \<notin> kr_id ` set rows"
proof
  assume "kv_uuid e u \<in> kr_id ` set rows"
  with assms(2) obtain m where "m < u" "kv_uuid e u = kv_uuid e m" by (auto simp: ids_known_def)
  with assms(1,3) show False by (auto simp: collision_free_def dest: inj_onD [of _ _ u m])
qed

lemma appended_keyed:
  assumes "collision_free e n given" "ids_known e u rows" "hashes_known e given d rows" "first_or_only rows"
    and "adopts_from given op" "secret_given e d d' op rows secret" "d \<le> d'" "d' \<le> n" "u < n"
  shows "ids_known e (Suc u) (rows @ [new_row e at (kv_uuid e u) secret q]) \<and>
    hashes_known e given d' (rows @ [new_row e at (kv_uuid e u) secret q]) \<and>
    first_or_only (rows @ [new_row e at (kv_uuid e u) secret q])"
proof (intro conjI)
  show "ids_known e (Suc u) (rows @ [new_row e at (kv_uuid e u) secret q])"
    using ids_mono [OF assms(2), of "Suc u"] uuid_is_fresh [OF assms(1,2,9)] by (auto simp: ids_known_def)
  from assms(6) have "kv_hash e secret \<in> kv_hash e ` (given \<union> drawn_secret e ` {..<d'})"
    by cases (use assms(5) in \<open>auto simp: adopts_from_def\<close>)
  with hashes_mono [OF assms(3,7)]
  show "hashes_known e given d' (rows @ [new_row e at (kv_uuid e u) secret q])"
    by (auto simp: hashes_known_def)
  show "first_or_only (rows @ [new_row e at (kv_uuid e u) secret q])"
  proof (rule first_or_only_append [OF assms(4)], simp)
    fix r rs assume "hashed (kr_secretHash (new_row e at (kv_uuid e u) secret q)) rows = r # rs"
    then have found: "hashed (kv_hash e secret) rows = r # rs" by simp
    from assms(6) show "revoked r"
    proof cases
      case (minted q)
      with assms(8) drawn_is_fresh [OF assms(1,3)] found hashed_fresh show ?thesis by fastforce
    next
      case (adopted q) with found show ?thesis by (simp add: find_hashed)
    qed
  qed
qed

lemma changed_keyed:
  assumes "collision_free e n given" "ids_known e u rows" "hashes_known e given d rows" "first_or_only rows"
    and "find (\<lambda>r. kr_id r = i) rows = Some x" "row_change e d d' op x (f x)" "d \<le> d'" "d' \<le> n"
  shows "ids_known e u (update_first (\<lambda>r. kr_id r = i) f rows) \<and>
    hashes_known e given d' (update_first (\<lambda>r. kr_id r = i) f rows) \<and>
    first_or_only (update_first (\<lambda>r. kr_id r = i) f rows)"
proof -
  from update_first_split [OF assms(5)] obtain xs ys where s: "rows = xs @ x # ys"
    and up: "update_first (\<lambda>r. kr_id r = i) f rows = xs @ f x # ys" by blast
  note c = change_columns [OF assms(6)]
  have "ids_known e u (xs @ f x # ys)" using assms(2) c by (auto simp: ids_known_def s)
  moreover have known: "hashes_known e given d' (xs @ f x # ys)"
    using hashes_mono [OF assms(3,7)] c by (auto simp: hashes_known_def s)
  moreover have "first_or_only (xs @ f x # ys)"
  proof (rule first_or_only_replace)
    show "first_or_only (xs @ x # ys)" using assms(4) s by simp
    from c show "kr_secretHash (f x) = kr_secretHash x \<and> (revoked x \<longrightarrow> revoked (f x)) \<or>
      \<not> revoked x \<and> hashed (kr_secretHash (f x)) (xs @ ys) = []"
    proof (elim conjE disjE)
      assume "\<not> revoked x" "d < d'" "kr_secretHash (f x) = kv_hash e (drawn_secret e d)"
      moreover have "kv_hash e (drawn_secret e d) \<notin> kr_secretHash ` set rows"
        by (rule drawn_is_fresh [OF assms(1,3)]) (use \<open>d < d'\<close> assms(8) in simp)
      ultimately show ?thesis
        using hashed_fresh [of "kv_hash e (drawn_secret e d)" xs] hashed_fresh [of "kv_hash e (drawn_secret e d)" ys]
        by (auto simp: s)
    qed auto
  qed
  ultimately show ?thesis by (simp add: up)
qed

interpretation keyed: rows_kept e "adopts_from given" "well_keyed e given n" for e given n
proof (unfold_locales, goal_cases)
  case (1 d u rows d' u')
  then show ?case by (auto simp: well_keyed_def intro: ids_mono hashes_mono)
next
  case (2 d u rows op q d' secret at)
  show ?case
    unfolding well_keyed_def
  proof (intro impI, elim conjE)
    assume "collision_free e n given" "d' \<le> n" "Suc u \<le> n"
    with 2 appended_keyed [of e n given u rows d op d' secret at q]
    show "ids_known e (Suc u) (rows @ [new_row e at (kv_uuid e u) secret q]) \<and>
      hashes_known e given d' (rows @ [new_row e at (kv_uuid e u) secret q]) \<and>
      first_or_only (rows @ [new_row e at (kv_uuid e u) secret q])"
      by (simp add: well_keyed_def)
  qed
next
  case (3 d u rows op i x d' f)
  then show ?case
    using changed_keyed [of e n given u rows d i x d' op f] by (simp add: well_keyed_def)
qed

lemma no_keys_keyed [simp]: "keyed.holds_in e given n no_keys"
  by (simp add: keyed.holds_in_def well_keyed_def no_keys_def ids_known_def hashes_known_def first_or_only_def)

subsection \<open>The table the answers tell\<close>

datatype access = Opens ident | Burnt

definition access :: "keys_env \<Rightarrow> keys \<Rightarrow> string \<Rightarrow> access option" where
  "access e k s = map_option (\<lambda>r. if revoked r then Burnt else Opens (kr_id r))
     (find (\<lambda>r. kr_secretHash r = kv_hash e s) (rows_of k))"

text \<open>What one call and its answer tell: a minted secret opens its key; an adopted one opens the key made
  for it unless it was burnt; revoking a key burns its secret, rotating it forgets the old secret.\<close>

fun told :: "key_op \<Rightarrow> key_answer \<Rightarrow> (string \<Rightarrow> access option) \<Rightarrow> string \<Rightarrow> access option" where
  "told (Op_mint _) (Ans_secret key secret) T s = (if s = secret then Some (Opens (apk_id key)) else T s)"
| "told (Op_adopt secret _) (Ans_adopted key created) T s =
    (if s = secret \<and> created \<and> T s = None then Some (Opens (apk_id key)) else T s)"
| "told (Op_revoke i) (Ans_key _) T s = (if T s = Some (Opens i) then Some Burnt else T s)"
| "told (Op_rotate i) (Ans_secret _ secret) T s =
    (if s = secret then Some (Opens i) else if T s = Some (Opens i) then None else T s)"
| "told _ _ T s = T s"

fun all_told :: "(key_op \<times> key_answer) list \<Rightarrow> (string \<Rightarrow> access option) \<Rightarrow> string \<Rightarrow> access option" where
  "all_told [] T = T"
| "all_told ((op, a) # hist) T = all_told hist (told op a T)"

lemma access_cong: "T s = T' s \<Longrightarrow> told op a T s = told op a T' s"
  by (cases op; cases a) auto

text \<open>Calls that neither make, revoke nor rotate a key leave what secrets open.\<close>

definition plain_op :: "key_op \<Rightarrow> bool" where
  "plain_op op = (case op of Op_mint _ \<Rightarrow> False | Op_adopt _ _ \<Rightarrow> False | Op_revoke _ \<Rightarrow> False | Op_rotate _ \<Rightarrow> False | _ \<Rightarrow> True)"

lemma told_plain: "plain_op op \<Longrightarrow> told op a T s = T s"
  by (cases op) (auto simp: plain_op_def)

lemma find_map_columns:
  "map (\<lambda>r. (kr_id r, kr_secretHash r, revoked r)) rows' = map (\<lambda>r. (kr_id r, kr_secretHash r, revoked r)) rows \<Longrightarrow>
   map_option (\<lambda>r. (kr_id r, revoked r)) (find (\<lambda>r. kr_secretHash r = h) rows') =
   map_option (\<lambda>r. (kr_id r, revoked r)) (find (\<lambda>r. kr_secretHash r = h) rows)"
proof (induction rows arbitrary: rows')
  case (Cons r rows)
  then obtain r' rest where r: "rows' = r' # rest" by (cases rows') auto
  from Cons.prems have "map (\<lambda>r. (kr_id r, kr_secretHash r, revoked r)) rest = map (\<lambda>r. (kr_id r, kr_secretHash r, revoked r)) rows"
    and "kr_id r' = kr_id r" "kr_secretHash r' = kr_secretHash r" "revoked r' = revoked r" by (simp_all add: r)
  with Cons.IH [of rest] show ?case by (simp add: r)
qed simp

lemma access_columns:
  "access e k s = map_option (\<lambda>(i, dead). if dead then Burnt else Opens i)
     (map_option (\<lambda>r. (kr_id r, revoked r)) (find (\<lambda>r. kr_secretHash r = kv_hash e s) (rows_of k)))"
  by (simp add: access_def option.map_comp o_def)

lemma plain_access:
  assumes "table_changes e k op k'" "plain_op op"
  shows "access e k' s = access e k s"
proof -
  from assms(1) have "map (\<lambda>r. (kr_id r, kr_secretHash r, revoked r)) (rows_of k') =
      map (\<lambda>r. (kr_id r, kr_secretHash r, revoked r)) (rows_of k)"
  proof cases
    case (appended q secret at)
    from appended(3) assms(2) show ?thesis by cases (auto simp: plain_op_def)
  next
    case (changed i r f)
    from update_first_split [OF changed(1)] change_columns [OF changed(2)] assms(2) changed(3)
    show ?thesis by (auto simp: plain_op_def)
  qed simp
  from find_map_columns [OF this] show ?thesis by (simp add: access_columns)
qed

lemma access_appended:
  "rows_of k' = rows_of k @ [new_row e at i secret q] \<Longrightarrow>
   access e k' s = (if access e k s = None \<and> kv_hash e s = kv_hash e secret then Some (Opens i) else access e k s)"
  by (cases "find (\<lambda>r. kr_secretHash r = kv_hash e s) (rows_of k)")
    (simp_all add: access_def find_append)

abbreviation secrets :: "keys_env \<Rightarrow> nat \<Rightarrow> string set \<Rightarrow> string set" where
  "secrets e n given \<equiv> given \<union> drawn_secret e ` {..<n}"

lemma hash_eq:
  "collision_free e n given \<Longrightarrow> s \<in> secrets e n given \<Longrightarrow> s' \<in> secrets e n given \<Longrightarrow>
     kv_hash e s = kv_hash e s' \<longleftrightarrow> s = s'"
  unfolding collision_free_def by (blast dest: inj_onD)

lemma insert_key_answer:
  assumes "insert_key e at secret r k = (x, k')"
  obtains (failed) err where "x = Inl err" "rows_of k' = rows_of k"
  | (made) key where "x = Inr (key, secret)" "apk_id key = kv_uuid e (ks_uuids k)"
      "rows_of k' = rows_of k @ [new_row e at (kv_uuid e (ks_uuids k)) secret r]"
proof (cases "apiKeyCreateRequestSchema e r")
  case False
  with assms failed show thesis by (auto simp: insert_key_def)
next
  case ok: True
  show thesis
  proof (cases "live_name (kc_name r) (rows_of k)")
    case True
    then have "list_ex (\<lambda>x. apk_name (kr_key x) = kc_name r \<and> apk_revokedAt (kr_key x) = None) (rows_of k)"
      by (auto simp: live_name_def revoked_def list_ex_iff)
    with assms ok failed show thesis by (auto simp: insert_key_def insertKey_def)
  next
    case False
    then have "\<not> list_ex (\<lambda>x. apk_name (kr_key x) = kc_name r \<and> apk_revokedAt (kr_key x) = None) (rows_of k)"
      by (auto simp: live_name_def revoked_def list_ex_iff)
    moreover define row where "row = new_row e at (kv_uuid e (ks_uuids k)) secret r"
    ultimately have "x = Inr (kr_key (view_row row), secret)" "rows_of k' = rows_of k @ [row]"
      using assms ok by (auto simp: insert_key_def insertKey_def new_row_def)
    with made [of "kr_key (view_row row)"] show thesis by (simp add: row_def)
  qed
qed

lemma insert_counts: "insert_key e at secret r k = (x, k') \<Longrightarrow> ks_drawn k' = ks_drawn k"
  by (auto simp: insert_key_def split: if_splits prod.splits sum.splits)

lemma access_none: "access e k s = None \<longleftrightarrow> kv_hash e s \<notin> kr_secretHash ` set (rows_of k)"
  by (auto simp: access_def find_None_iff image_iff)

text \<open>Of a row in its place: what the secrets open before and after it changes.\<close>

lemma access_opens:
  assumes "access e k s = Some (Opens i)"
  obtains r where "find (\<lambda>r. kr_secretHash r = kv_hash e s) (rows_of k) = Some r" "kr_id r = i" "\<not> revoked r"
  using assms by (auto simp: access_def split: if_splits)

lemma access_revoked:
  assumes "distinct (map kr_id (rows_of k))"
    and "rows_of k' = update_first (\<lambda>r. kr_id r = i) (set_revoked at) (rows_of k)"
  shows "access e k' s = (if access e k s = Some (Opens i) then Some Burnt else access e k s)"
proof -
  have revoke [simp]: "kr_id (set_revoked at r) = kr_id r" "kr_secretHash (set_revoked at r) = kr_secretHash r"
    "revoked (set_revoked at r)" for r
    by (auto simp: set_revoked_def with_key_def kr_id_def revoked_def split: option.splits)
  have "map_option (\<lambda>r. if revoked r then Burnt else Opens (kr_id r))
      (find (\<lambda>r. kr_secretHash r = h) (update_first (\<lambda>r. kr_id r = i) (set_revoked at) rows)) =
    (case find (\<lambda>r. kr_secretHash r = h) rows of None \<Rightarrow> None
     | Some r \<Rightarrow> Some (if revoked r \<or> kr_id r = i then Burnt else Opens (kr_id r)))"
    if "distinct (map kr_id rows)" for rows h
    using that
  proof (induction rows)
    case (Cons r rows)
    show ?case
    proof (cases "kr_id r = i")
      case True
      with Cons.prems have "\<forall>r' \<in> set rows. kr_id r' \<noteq> i" by (auto simp: image_iff)
      with True show ?thesis by (auto split: option.splits dest: find_SomeD)
    next
      case False with Cons show ?thesis by (auto split: option.splits)
    qed
  qed simp
  from this [OF assms(1)] show ?thesis
    by (auto simp: access_def assms(2) split: option.splits)
qed

lemma access_rotated:
  assumes "find (\<lambda>r. kr_id r = i) (rows_of k) = Some x" "\<not> revoked x"
    and "rows_of k' = update_first (\<lambda>r. kr_id r = i) (set_secret p h) (rows_of k)"
    and "distinct (map kr_id (rows_of k))" "first_or_only (rows_of k)" "h \<notin> kr_secretHash ` set (rows_of k)"
  shows "access e k' s = (if kv_hash e s = h then Some (Opens i)
     else if access e k s = Some (Opens i) then None else access e k s)"
proof -
  from update_first_split [OF assms(1)] obtain xs ys where s: "rows_of k = xs @ x # ys" and i: "kr_id x = i"
    and up: "rows_of k' = xs @ set_secret p h x # ys" using assms(3) by auto
  have new: "kr_id (set_secret p h x) = i" "kr_secretHash (set_secret p h x) = h" "\<not> revoked (set_secret p h x)"
    using assms(2) i by (auto simp: set_secret_def with_key_def kr_id_def revoked_def)
  have others: "\<And>r. r \<in> set xs \<Longrightarrow> kr_id r \<noteq> i" "\<And>r. r \<in> set ys \<Longrightarrow> kr_id r \<noteq> i"
    using assms(4) i by (force simp: s image_iff)+
  have unused: "hashed h xs = []" "hashed h ys = []"
    using assms(6) by (auto simp: s intro!: hashed_fresh)
  let ?g = "kv_hash e s"
  have acc: "access e k0 s = (case hashed ?g (rows_of k0) of [] \<Rightarrow> None
      | r # rs \<Rightarrow> Some (if revoked r then Burnt else Opens (kr_id r)))" for k0
    by (simp add: access_def find_hashed split: list.splits)
  show ?thesis
  proof (cases "hashed ?g xs")
    case Nil
    from assms(5) have "case hashed (kr_secretHash x) (rows_of k) of [] \<Rightarrow> True | r # rs \<Rightarrow> revoked r \<or> rs = []"
      by (auto simp: first_or_only_def)
    with Nil assms(2) have "kr_secretHash x = ?g \<Longrightarrow> hashed ?g ys = []" by (simp add: s)
    moreover have "r \<in> set (hashed ?g ys) \<Longrightarrow> kr_id r \<noteq> i" for r using others(2) by (simp add: hashed_def)
    ultimately show ?thesis
      using Nil new unused i assms(2) by (auto simp: acc s up split: list.splits)
  next
    case (Cons r rs)
    then have "r \<in> set xs" by (auto simp: hashed_def filter_eq_Cons_iff)
    moreover have "?g \<noteq> h" using Cons unused by auto
    ultimately show ?thesis using Cons others(1) [of r] by (auto simp: acc s up)
  qed
qed

lemma told_step:
  assumes c: "collision_free e n given" and h: "keyed.holds_in e given n k" and ok: "adopts_from given op"
    and step: "key_step e at op k = (a, k')" and n: "ks_drawn k' \<le> n" "ks_uuids k' \<le> n"
    and s: "s \<in> secrets e n given"
  shows "access e k' s = told op a (access e k) s"
proof (cases "plain_op op")
  case True
  with step_changes [OF step] plain_access [of e k op k'] told_plain show ?thesis by simp
next
  case False
  from step_changes [OF step] n have le: "ks_drawn k \<le> n" "ks_uuids k \<le> n" by auto
  with h c have ids: "distinct (map kr_id (rows_of k))" and known: "hashes_known e given (ks_drawn k) (rows_of k)"
    and first: "first_or_only (rows_of k)" by (simp_all add: keyed.holds_in_def well_keyed_def ids_known_def)
  show ?thesis
  proof (cases op)
    case (Op_mint r)
    let ?k = "k\<lparr>ks_drawn := ks_drawn k + 1\<rparr>"
    from Op_mint step obtain x where ins: "insert_key e at (drawn_secret e (ks_drawn k)) r ?k = (x, k')"
      and a: "answered (\<lambda>(key, s). Ans_secret key s) (x, k') = (a, k')"
      by (auto simp: mint_key_def answered_def split: prod.splits sum.splits)
    from ins show ?thesis
    proof (cases rule: insert_key_answer)
      case (failed err) with a show ?thesis by (auto simp: Op_mint answered_def access_def)
    next
      case (made key)
      have "ks_drawn k < n" using insert_counts [OF ins] n(1) by simp
      with drawn_is_fresh [OF c known] have "access e k (drawn_secret e (ks_drawn k)) = None"
        by (simp add: access_none)
      moreover have "drawn_secret e (ks_drawn k) \<in> secrets e n given" using \<open>ks_drawn k < n\<close> by simp
      ultimately show ?thesis
        using made a access_appended [of k' k e at "kv_uuid e (ks_uuids k)"] hash_eq [OF c s]
        by (auto simp: Op_mint answered_def)
    qed
  next
    case (Op_adopt secret r)
    with ok have given: "secret \<in> given" by (simp add: adopts_from_def)
    from Op_adopt step obtain x where ad: "adopt_key e at secret r k = (x, k')"
      and a: "answered (\<lambda>(key, c). Ans_adopted key c) (x, k') = (a, k')"
      by (auto simp: answered_def split: prod.splits sum.splits)
    from ad show ?thesis
    proof (cases rule: adopt_cases)
      case kept with a show ?thesis by (auto simp: Op_adopt answered_def)
    next
      case (inserted b)
      from inserted(1) show ?thesis
      proof (cases rule: insert_key_answer)
        case (failed err) with a inserted(3) show ?thesis by (auto simp: Op_adopt answered_def access_def)
      next
        case (made key)
        with a inserted(3) access_appended [of k' k e at "kv_uuid e (ks_uuids k)"] hash_eq [OF c s] given
        show ?thesis by (auto simp: Op_adopt answered_def)
      qed
    qed
  next
    case (Op_revoke i)
    show ?thesis
    proof (cases "byId i (ks_table k)")
      case None
      with step have "k' = k" "a = Ans_refused (refuse Not_found)"
        by (auto simp: Op_revoke revoke_def revokeKey_def on_row_def answer_row_def answered_def)
      then show ?thesis by (simp add: Op_revoke)
    next
      case (Some r)
      with step have "rows_of k' = update_first (\<lambda>r. kr_id r = i) (set_revoked at) (rows_of k)"
        "\<exists>key. a = Ans_key key"
        by (auto simp: Op_revoke revoke_def revokeKey_def on_row_def answer_row_def answered_def)
      with access_revoked [OF ids this(1)] show ?thesis by (auto simp: Op_revoke)
    qed
  next
    case (Op_rotate i)
    from Op_rotate step obtain x where ro: "rotateKey e i k = (x, k')"
      and a: "answered (\<lambda>(key, s). Ans_secret key s) (x, k') = (a, k')"
      by (auto simp: answered_def split: prod.splits sum.splits)
    from ro show ?thesis
    proof (cases rule: rotate_cases)
      case (refused err) with a show ?thesis by (auto simp: Op_rotate answered_def)
    next
      case (rotated r)
      with n have "ks_drawn k < n" by simp
      then have d: "drawn_secret e (ks_drawn k) \<in> secrets e n given" by simp
      from access_rotated [OF rotated(1,2,6) ids first drawn_is_fresh [OF c known \<open>ks_drawn k < n\<close>]]
        hash_eq [OF c s d]
      have "access e k' s = (if s = drawn_secret e (ks_drawn k) then Some (Opens i)
        else if access e k s = Some (Opens i) then None else access e k s)" by simp
      moreover from rotated(3) a have "\<exists>key. a = Ans_secret key (drawn_secret e (ks_drawn k))"
        by (auto simp: answered_def)
      ultimately show ?thesis by (auto simp: Op_rotate)
    qed
  qed (use False in \<open>simp_all add: plain_op_def\<close>)
qed

lemma told_run:
  assumes "collision_free e n given" "s \<in> secrets e n given"
  shows "keyed.holds_in e given n k \<Longrightarrow> list_all (\<lambda>(at, op). adopts_from given op) ops \<Longrightarrow>
    key_run e ops k = (hist, k') \<Longrightarrow> ks_drawn k + length ops \<le> n \<Longrightarrow> ks_uuids k + length ops \<le> n \<Longrightarrow>
    T s = access e k s \<Longrightarrow> access e k' s = all_told hist T s"
proof (induction ops arbitrary: k hist T)
  case (Cons p ops)
  obtain at op where p: "p = (at, op)" by force
  obtain a k1 where step: "key_step e at op k = (a, k1)" by force
  obtain h where run: "key_run e ops k1 = (h, k')" and hist: "hist = (op, a) # h"
    using Cons.prems(3) by (auto simp: p step split: prod.splits)
  from Cons.prems(2) have ok: "adopts_from given op" "list_all (\<lambda>(at, op). adopts_from given op) ops"
    by (simp_all add: p)
  from step_changes [OF step] Cons.prems(4,5)
  have n: "ks_drawn k1 + length ops \<le> n" "ks_uuids k1 + length ops \<le> n" by auto
  then have "access e k1 s = told op a (access e k) s"
    using told_step [OF assms(1) Cons.prems(1) ok(1) step _ _ assms(2)] by simp
  with access_cong [of T s "access e k" op a] Cons.prems(6) have "told op a T s = access e k1 s" by simp
  from Cons.IH [where T = "told op a T", OF keyed.step_kept [OF Cons.prems(1) ok(1) step] ok(2) run n this] show ?case
    by (simp add: hist)
qed simp

lemma authenticate_access:
  "(\<exists>row k'. authenticate e at (Some s) k = (Inr row, k') \<and> kr_id row = i) \<longleftrightarrow>
     looksLikeToken Tok_apiKey s \<and> access e k s = Some (Opens i)"
proof -
  have "looksLikeToken Tok_apiKey s \<Longrightarrow> s \<noteq> []" by (auto simp: looksLikeToken_def)
  then show ?thesis
    by (cases "find (\<lambda>r. kr_secretHash r = kv_hash e s) (rows_of k)")
      (auto simp: authenticate_def access_def findBySecretHash_def revoked_def)
qed

subsection \<open>A revoked key stays as it was revoked\<close>

definition buried :: "ident \<Rightarrow> instant \<Rightarrow> string \<Rightarrow> api_scope list \<Rightarrow> key_row list \<Rightarrow> bool" where
  "buried i t h scopes rows \<longleftrightarrow> (\<exists>r. find (\<lambda>r. kr_id r = i) rows = Some r \<and> apk_revokedAt (kr_key r) = Some t \<and>
     kr_secretHash r = h \<and> apk_scopes (kr_key r) = scopes)"

lemma change_buried:
  assumes "row_change e n n' op r r'" "apk_revokedAt (kr_key r) = Some t"
  shows "apk_revokedAt (kr_key r') = Some t \<and> kr_secretHash r' = kr_secretHash r \<and>
    apk_scopes (kr_key r') = apk_scopes (kr_key r)"
  using assms
  by cases (auto simp: set_revoked_def set_used_def set_secret_def with_key_def revoked_def)

interpretation grave: rows_kept e "\<lambda>_. True" "\<lambda>d u. buried i t h scopes" for e i t h scopes
proof (unfold_locales, goal_cases)
  case (2 d u rows op q d' secret at) then show ?case by (auto simp: buried_def find_append)
next
  case (3 d u rows op j x d' f)
  from update_first_split [OF 3(3)] obtain xs ys where s: "rows = xs @ x # ys" and j: "kr_id x = j"
    and up: "update_first (\<lambda>r. kr_id r = j) f rows = xs @ f x # ys" by blast
  from 3(1) have "buried i t h scopes (xs @ f x # ys)"
    using row_change_id [OF 3(4)] change_buried [OF 3(4)]
    by (auto simp: buried_def s find_append split: option.splits if_splits)
  then show ?case by (simp add: up)
qed

lemma opened_is_live:
  assumes "keyed.holds_in e given n k" "collision_free e n given" "ks_drawn k \<le> n" "ks_uuids k \<le> n"
    and "key_step e at op k = (Ans_opened row, k')"
  shows "\<not> buried (kr_id row) t h scopes (rows_of k)"
proof -
  from assms(1-4) have ids: "distinct (map kr_id (rows_of k))"
    by (simp add: keyed.holds_in_def well_keyed_def ids_known_def)
  from assms(5) obtain b where "authenticate e at b k = (Inr row, k')"
    by (cases op) (auto simp: answered_def split: prod.splits sum.splits)
  then show ?thesis
  proof (cases rule: authenticate_cases)
    case (opened token r)
    then have "find (\<lambda>x. kr_id x = kr_id r) (rows_of k) = Some r"
      using find_unique [OF ids] find_SomeD [OF opened(3)] by simp
    with opened show ?thesis by (simp add: buried_def revoked_def)
  qed simp
qed

text \<open>The last use of a key only moves on.\<close>

interpretation last_use: rows_kept e "\<lambda>_. True"
  "\<lambda>d u rows. \<exists>r. find (\<lambda>r. kr_id r = i) rows = Some r \<and> (\<exists>t \<ge> t0. apk_lastUsedAt (kr_key r) = Some t)" for e i t0
proof (unfold_locales, goal_cases)
  case (2 d u rows op q d' secret at) then show ?case by (auto simp: find_append)
next
  case (3 d u rows op j x d' f)
  from update_first_split [OF 3(3)] obtain xs ys where s: "rows = xs @ x # ys" and j: "kr_id x = j"
    and up: "update_first (\<lambda>r. kr_id r = j) f rows = xs @ f x # ys" by blast
  have "\<exists>t \<ge> t0. apk_lastUsedAt (kr_key (f x)) = Some t" if "\<exists>t \<ge> t0. apk_lastUsedAt (kr_key x) = Some t"
    using 3(4) that
    by cases (auto simp: set_revoked_def set_used_def set_secret_def with_key_def)
  with 3(1) row_change_id [OF 3(4)] have "\<exists>r. find (\<lambda>r. kr_id r = i) (xs @ f x # ys) = Some r \<and>
      (\<exists>t \<ge> t0. apk_lastUsedAt (kr_key r) = Some t)"
    by (auto simp: s find_append split: option.splits if_splits)
  then show ?case by (simp add: up)
qed simp

subsection \<open>One insertion\<close>

lemma insert_key_fresh_name:
  assumes "apiKeyCreateRequestSchema e r" "\<not> live_name (kc_name r) (rows_of k)"
  shows "insert_key e at secret r k = (Inr (kr_key (view_row (new_row e at (kv_uuid e (ks_uuids k)) secret r)), secret),
    k\<lparr>ks_uuids := ks_uuids k + 1, ks_table := (ks_table k)\<lparr>kt_rows :=
      rows_of k @ [new_row e at (kv_uuid e (ks_uuids k)) secret r]\<rparr>\<rparr>)"
proof -
  from assms(2) have "\<not> list_ex (\<lambda>x. apk_name (kr_key x) = kc_name r \<and> apk_revokedAt (kr_key x) = None) (rows_of k)"
    by (auto simp: live_name_def revoked_def list_ex_iff)
  with assms(1) show ?thesis by (simp add: insert_key_def insertKey_def new_row_def)
qed

lemma insert_key_taken_name:
  assumes "apiKeyCreateRequestSchema e r" "live_name (kc_name r) (rows_of k)"
  shows "insert_key e at secret r k = (Inl (refuse Conflict), k\<lparr>ks_uuids := ks_uuids k + 1\<rparr>)"
proof -
  from assms(2) have "list_ex (\<lambda>x. apk_name (kr_key x) = kc_name r \<and> apk_revokedAt (kr_key x) = None) (rows_of k)"
    by (auto simp: live_name_def revoked_def list_ex_iff)
  with assms(1) show ?thesis by (simp add: insert_key_def insertKey_def)
qed

lemma adopt_unknown:
  assumes "access e k secret = None"
  shows "adopt_key e at secret r k =
    (case insert_key e at secret r k of (Inl err, k') \<Rightarrow> (Inl err, k') | (Inr (key, _), k') \<Rightarrow> (Inr (key, True), k'))"
  using assms by (simp add: adopt_key_def access_def findBySecretHash_def)

lemma adopt_known:
  assumes "find (\<lambda>r. kr_secretHash r = kv_hash e secret) (rows_of k) = Some row" "\<not> revoked row"
  shows "adopt_key e at secret r k = (Inr (kr_key (view_row row), False), k)"
  using assms by (simp add: adopt_key_def findBySecretHash_def revoked_def)

end
