(* ===== verification/Keys_Properties.thy ===== *)
theory Keys_Properties
  imports Keys_Laws
begin

text \<open>
  What the key service promises, over every sequence of calls from an empty table: the listing always
  parses, a bearer opens what the answers told, a revoked key is never opened or changed again, and the
  dev bootstrap key is the one the environment names.
\<close>

subsection \<open>The listing and the bearers\<close>

text \<open>Whatever the calls, \<open>GET /v1/keys\<close> can answer: every listed key parses as the contract's
  \<open>apiKeySchema\<close>, and no two live keys carry one name. (A service that wrote a name of 71 characters had
  broken the listing of every caller for good.)\<close>

theorem every_key_can_be_listed:
  assumes "key_run e ops no_keys = (hist, k)" "list_all (\<lambda>(at, op). given_long op) ops"
  shows "list_all (apiKeySchema e) (list_keys k) \<and>
    distinct (map apk_name (filter (\<lambda>key. apk_revokedAt key = None) (list_keys k)))"
proof -
  have "contract.holds_in e k" by (rule contract.run_kept [OF no_keys_contract assms(2,1)])
  then have "servable e (rows_of k)" by (simp add: contract.holds_in_def)
  moreover have "map apk_name (filter (\<lambda>key. apk_revokedAt key = None) (list_keys k)) = rev (live_names (rows_of k))"
    by (simp add: list_keys_def listKeys_def live_names_def filter_map o_def revoked_def rev_map rev_filter)
  ultimately show ?thesis
    by (auto simp: servable_def list_keys_def listKeys_def list_all_iff)
qed


subsection \<open>A revoked key\<close>

lemma opened_never_buried:
  assumes "collision_free e n given" "buried i t h scopes (rows_of k)"
    and "keyed.holds_in e given n k" "list_all (\<lambda>(at, op). adopts_from given op) ops"
    and "key_run e ops k = (hist, k')" "ks_drawn k + length ops \<le> n" "ks_uuids k + length ops \<le> n"
  shows "(op, Ans_opened row) \<in> set hist \<Longrightarrow> kr_id row \<noteq> i"
  using assms(2-)
proof (induction ops arbitrary: k hist)
  case (Cons p ops)
  obtain at op1 where p: "p = (at, op1)" by force
  obtain a k1 where step: "key_step e at op1 k = (a, k1)" by force
  obtain h1 where run: "key_run e ops k1 = (h1, k')" and hist: "hist = (op1, a) # h1"
    using Cons.prems(5) by (auto simp: p step split: prod.splits)
  from Cons.prems(4) have ok: "adopts_from given op1" "list_all (\<lambda>(at, op). adopts_from given op) ops"
    by (simp_all add: p)
  from step_changes [OF step] Cons.prems(6,7)
  have n: "ks_drawn k1 + length ops \<le> n" "ks_uuids k1 + length ops \<le> n" "ks_drawn k \<le> n" "ks_uuids k \<le> n" by auto
  have b1: "buried i t h scopes (rows_of k1)"
    using grave.step_kept [OF _ _ step] Cons.prems(2) by (simp add: grave.holds_in_def)
  show ?case
  proof (cases "(op, Ans_opened row) \<in> set h1")
    case True
    from Cons.IH [OF this b1 keyed.step_kept [OF Cons.prems(3) ok(1) step] ok(2) run n(1,2)] show ?thesis .
  next
    case False
    with Cons.prems(1) have "a = Ans_opened row" by (simp add: hist)
    with opened_is_live [OF Cons.prems(3) assms(1) n(3,4)] step Cons.prems(2) show ?thesis by blast
  qed
qed simp

text \<open>C26: Revoking ends a key for good. Whatever is called afterwards, the key keeps the moment it was revoked,
  its secret's hash and its scopes, and no bearer is ever answered with it.\<close>

theorem revoked_for_good:
  assumes "collision_free e (length ops + length later) given"
    and "list_all (\<lambda>(at, op). adopts_from given op) (ops @ later)"
    and "key_run e ops no_keys = (hist, k)" "key_run e later k = (hist', k')"
    and "byId i (ks_table k) = Some r" "apk_revokedAt (kr_key r) = Some t"
  shows "(\<exists>r'. byId i (ks_table k') = Some r' \<and> apk_revokedAt (kr_key r') = Some t \<and>
      kr_secretHash r' = kr_secretHash r \<and> apk_scopes (kr_key r') = apk_scopes (kr_key r)) \<and>
    (\<nexists>op row. (op, Ans_opened row) \<in> set hist' \<and> kr_id row = i)"
proof
  have b: "buried i t (kr_secretHash r) (apk_scopes (kr_key r)) (rows_of k)"
    using assms(5,6) by (simp add: buried_def byId_def)
  then have "grave.holds_in i t (kr_secretHash r) (apk_scopes (kr_key r)) k'"
    using grave.run_kept [OF _ _ assms(4)] by (simp add: grave.holds_in_def list_all_iff case_prod_beta)
  then show "\<exists>r'. byId i (ks_table k') = Some r' \<and> apk_revokedAt (kr_key r') = Some t \<and>
      kr_secretHash r' = kr_secretHash r \<and> apk_scopes (kr_key r') = apk_scopes (kr_key r)"
    by (auto simp: grave.holds_in_def buried_def byId_def)
  from assms(2) have ok: "list_all (\<lambda>(at, op). adopts_from given op) ops" "list_all (\<lambda>(at, op). adopts_from given op) later"
    by simp_all
  from run_counts [OF assms(3)] have n: "ks_drawn k + length later \<le> length ops + length later"
    "ks_uuids k + length later \<le> length ops + length later" by (simp_all add: no_keys_def)
  have "keyed.holds_in e given (length ops + length later) k"
    by (rule keyed.run_kept [OF no_keys_keyed ok(1) assms(3)])
  from opened_never_buried [OF assms(1) b this ok(2) assms(4) n]
  show "\<nexists>op row. (op, Ans_opened row) \<in> set hist' \<and> kr_id row = i" by blast
qed

subsection \<open>The bootstrap key\<close>

lemma bootstrap_request_ok: "between 1 64 name \<Longrightarrow> apiKeyCreateRequestSchema e (bootstrapKeyRequest name)"
  by (simp add: apiKeyCreateRequestSchema_def bootstrapKeyRequest_def matchApiScopesSchema_def
      BOOTSTRAP_KEY_SCOPES_def budgetLimitsSchema_def BOOTSTRAP_KEY_BUDGET_def)

text \<open>Once the name is free and the secret unknown, the adoption makes the key, and the next finds it.\<close>

lemma adopt_then_known:
  assumes "access e k secret = None" "between 1 64 name" "\<not> live_name name (rows_of k)"
  obtains row k' where "adopt_key e at secret (bootstrapKeyRequest name) k = (Inr (kr_key (view_row row), True), k')"
    "rows_of k' = rows_of k @ [row]" "\<not> revoked row" "kr_secretHash row = kv_hash e secret"
    "apk_name (kr_key row) = name" "find (\<lambda>r. kr_secretHash r = kv_hash e secret) (rows_of k') = Some row"
proof -
  let ?r = "bootstrapKeyRequest name"
  let ?row = "new_row e at (kv_uuid e (ks_uuids k)) secret ?r"
  have name: "kc_name ?r = name" by (simp add: bootstrapKeyRequest_def)
  from assms(1) have "find (\<lambda>r. kr_secretHash r = kv_hash e secret) (rows_of k) = None" by (simp add: access_def)
  moreover from insert_key_fresh_name [OF bootstrap_request_ok [OF assms(2)]] assms(3) name
  have "insert_key e at secret ?r k = (Inr (kr_key (view_row ?row), secret),
    k\<lparr>ks_uuids := ks_uuids k + 1, ks_table := (ks_table k)\<lparr>kt_rows := rows_of k @ [?row]\<rparr>\<rparr>)" by simp
  moreover have "apk_name (kr_key ?row) = name" by (simp add: new_row_def row_of_input_def name)
  ultimately show thesis
    by (intro that [of ?row "k\<lparr>ks_uuids := ks_uuids k + 1, ks_table := (ks_table k)\<lparr>kt_rows := rows_of k @ [?row]\<rparr>\<rparr>"])
      (simp_all add: adopt_unknown [OF assms(1)] find_append)
qed

lemma live_name_revoked:
  assumes "distinct (live_names rows)" "find (\<lambda>r. kr_id r = i) rows = Some x"
    and "\<not> revoked x" "apk_name (kr_key x) = name"
  shows "\<not> live_name name (update_first (\<lambda>r. kr_id r = i) (set_revoked at) rows)"
proof -
  from update_first_split [OF assms(2)] obtain xs ys where s: "rows = xs @ x # ys"
    and up: "update_first (\<lambda>r. kr_id r = i) (set_revoked at) rows = xs @ set_revoked at x # ys" by blast
  have "revoked (set_revoked at x)"
    by (auto simp: set_revoked_def with_key_def revoked_def split: option.splits)
  moreover from assms(1,3,4) have "\<forall>r \<in> set xs \<union> set ys. apk_name (kr_key r) = name \<longrightarrow> revoked r"
    by (auto simp: live_names_def s image_iff)
  ultimately show ?thesis by (auto simp: live_name_def up)
qed

lemma revoke_by_id:
  assumes "find (\<lambda>r. kr_id r = i) (rows_of k) = Some x"
  shows "revoke at i k = (Inr (kr_key (view_row (set_revoked at x))),
    k\<lparr>ks_table := (ks_table k)\<lparr>kt_rows := update_first (\<lambda>r. kr_id r = i) (set_revoked at) (rows_of k)\<rparr>\<rparr>)"
  using assms by (simp add: revoke_def revokeKey_def on_row_def byId_def answer_row_def)

lemma stale_key:
  assumes "live_name name (rows_of k)" "distinct (map kr_id (rows_of k))"
  obtains x where "find (\<lambda>key. apk_name key = name \<and> apk_revokedAt key = None) (list_keys k) = Some (kr_key (view_row x))"
    "find (\<lambda>r. kr_id r = kr_id x) (rows_of k) = Some x" "\<not> revoked x" "apk_name (kr_key x) = name"
proof -
  obtain key where key: "find (\<lambda>key. apk_name key = name \<and> apk_revokedAt key = None) (list_keys k) = Some key"
  proof (cases "find (\<lambda>key. apk_name key = name \<and> apk_revokedAt key = None) (list_keys k)")
    case None
    with assms(1) show thesis
      by (auto simp: find_None_iff list_keys_def listKeys_def live_name_def revoked_def)
  qed (use that in blast)
  from find_SomeD [OF this] obtain x where x: "x \<in> set (rows_of k)" "key = kr_key (view_row x)"
    "apk_name key = name" "apk_revokedAt key = None"
    by (auto simp: list_keys_def listKeys_def)
  with key that [of x] find_unique [OF assms(2) x(1)] show thesis by (simp add: revoked_def)
qed

lemma only_live:
  assumes "distinct (live_names (rows_of k))" "row \<in> set (rows_of k)" "\<not> revoked row" "apk_name (kr_key row) = name"
  shows "filter (\<lambda>key. apk_name key = name \<and> apk_revokedAt key = None) (list_keys k) = [kr_key (view_row row)]"
proof -
  from assms(2) obtain xs ys where s: "rows_of k = xs @ row # ys" by (auto simp: in_set_conv_decomp)
  from assms(1,3,4) have "\<forall>r \<in> set xs \<union> set ys. apk_name (kr_key r) = name \<longrightarrow> revoked r"
    by (auto simp: live_names_def s image_iff)
  then have "filter (\<lambda>r. apk_name (kr_key (view_row r)) = name \<and> apk_revokedAt (kr_key (view_row r)) = None) zs = []"
    if "zs = rev xs \<or> zs = rev ys" for zs
    using that by (auto simp: filter_empty_conv revoked_def)
  with assms(3,4) show ?thesis
    by (simp add: list_keys_def listKeys_def s filter_map o_def revoked_def)
qed

lemma revoked_unknown:
  assumes "access e k secret = None"
    and "rows_of k' = update_first (\<lambda>r. kr_id r = i) (set_revoked at) (rows_of k)"
  shows "access e k' secret = None"
proof -
  have "map kr_secretHash (rows_of k') = map kr_secretHash (rows_of k)"
    by (simp add: assms(2) map_update_first set_revoked_def with_key_def)
  then have "kr_secretHash ` set (rows_of k') = kr_secretHash ` set (rows_of k)" by (metis set_map)
  with assms(1) show ?thesis by (simp add: access_none)
qed

text \<open>The three ways \<open>ensureBootstrapKey\<close> goes: the key is there, it is made, or a stale one makes room.\<close>

definition bootstrapped ::
  "keys_env \<Rightarrow> string option \<Rightarrow> string \<Rightarrow> bootstrap_outcome \<Rightarrow> keys \<Rightarrow> bool" where
  "bootstrapped e nm secret out k \<longleftrightarrow>
     access e k secret = Some (Opens (apk_id (bo_key out))) \<and>
     (\<forall>at. ensureBootstrapKey e at False nm secret k = (Inr \<lparr>bo_key = bo_key out, bo_created = False, bo_revoked = None\<rparr>, k)) \<and>
     (bo_created out \<longrightarrow> filter (\<lambda>key. apk_name key = (case nm of None \<Rightarrow> BOOTSTRAP_KEY_NAME | Some n \<Rightarrow> n) \<and>
        apk_revokedAt key = None) (list_keys k) = [bo_key out])"

lemma known_is_bootstrapped:
  assumes "find (\<lambda>r. kr_secretHash r = kv_hash e secret) (rows_of k) = Some row" "\<not> revoked row"
    and "bo_key out = kr_key (view_row row)"
    and "bo_created out \<Longrightarrow> distinct (live_names (rows_of k)) \<and>
      apk_name (kr_key row) = (case nm of None \<Rightarrow> BOOTSTRAP_KEY_NAME | Some n \<Rightarrow> n)"
  shows "bootstrapped e nm secret out k"
proof -
  from assms(1,2) have "access e k secret = Some (Opens (kr_id row))" by (simp add: access_def)
  moreover have "ensureBootstrapKey e at False nm secret k =
      (Inr \<lparr>bo_key = kr_key (view_row row), bo_created = False, bo_revoked = None\<rparr>, k)" for at
    by (simp add: ensureBootstrapKey_def adopt_known [OF assms(1,2)])
  moreover have "row \<in> set (rows_of k)" using find_SomeD [OF assms(1)] by simp
  ultimately show ?thesis
    using assms(2-4) only_live [of k row] by (simp add: bootstrapped_def)
qed

lemma live_names_snoc:
  "distinct (live_names rows) \<Longrightarrow> \<not> live_name (apk_name (kr_key row)) rows \<Longrightarrow> distinct (live_names (rows @ [row]))"
  by (auto simp: live_names_def live_name_def)

lemma live_names_revoked: "distinct (live_names rows) \<Longrightarrow>
    distinct (live_names (update_first (\<lambda>r. kr_id r = i) (set_revoked at) rows))"
proof (cases "find (\<lambda>r. kr_id r = i) rows")
  case (Some x)
  moreover have "revoked (set_revoked at x)"
    by (auto simp: set_revoked_def with_key_def revoked_def split: option.splits)
  moreover assume "distinct (live_names rows)"
  ultimately show ?thesis
    using update_first_split [OF Some] by (auto simp: live_names_def split: if_splits)
qed (simp add: update_first_absent)

text \<open>At boot the dev key is ensured: if the given secret is not one of a key since revoked, the call
  succeeds; the secret then opens the key answered; the same call on the next boot writes nothing and
  answers the same key; and when a key was made it is the only live key with its name, whatever key held
  the name before.\<close>

theorem the_bootstrap_key_is_the_environments:
  assumes "collision_free e (length ops) given" "list_all (\<lambda>(at, op). adopts_from given op) ops"
    and "list_all (\<lambda>(at, op). given_long op) ops" "key_run e ops no_keys = (hist, k)"
    and "between 1 64 (case nm of None \<Rightarrow> BOOTSTRAP_KEY_NAME | Some n \<Rightarrow> n)" "access e k secret \<noteq> Some Burnt"
  shows "\<exists>out k'. ensureBootstrapKey e at False nm secret k = (Inr out, k') \<and> bootstrapped e nm secret out k'"
proof -
  let ?name = "case nm of None \<Rightarrow> BOOTSTRAP_KEY_NAME | Some n \<Rightarrow> n"
  let ?r = "bootstrapKeyRequest ?name"
  have "keyed.holds_in e given (length ops) k" by (rule keyed.run_kept [OF no_keys_keyed assms(2,4)])
  with run_counts [OF assms(4)] assms(1) have ids: "distinct (map kr_id (rows_of k))"
    by (simp add: keyed.holds_in_def well_keyed_def ids_known_def no_keys_def)
  have "contract.holds_in e k" by (rule contract.run_kept [OF no_keys_contract assms(3,4)])
  then have names: "distinct (live_names (rows_of k))" by (simp add: contract.holds_in_def servable_def)
  consider (known) i where "access e k secret = Some (Opens i)" | (free) "access e k secret = None" "\<not> live_name ?name (rows_of k)"
    | (taken) "access e k secret = None" "live_name ?name (rows_of k)"
    using assms(6) by (cases "access e k secret") (auto, metis access.exhaust)
  then show ?thesis
  proof cases
    case (known i)
    then obtain r where r: "find (\<lambda>r. kr_secretHash r = kv_hash e secret) (rows_of k) = Some r" "\<not> revoked r"
      by (rule access_opens)
    have "ensureBootstrapKey e at False nm secret k =
        (Inr \<lparr>bo_key = kr_key (view_row r), bo_created = False, bo_revoked = None\<rparr>, k)"
      by (simp add: ensureBootstrapKey_def adopt_known [OF r])
    with known_is_bootstrapped [OF r] show ?thesis by fastforce
  next
    case free
    obtain row k' where
      row: "adopt_key e at secret ?r k = (Inr (kr_key (view_row row), True), k')" "rows_of k' = rows_of k @ [row]"
        "\<not> revoked row" "kr_secretHash row = kv_hash e secret" "apk_name (kr_key row) = ?name"
        "find (\<lambda>r. kr_secretHash r = kv_hash e secret) (rows_of k') = Some row"
      by (rule adopt_then_known [OF free(1) assms(5) free(2)]) (rule that)
    then have "ensureBootstrapKey e at False nm secret k =
        (Inr \<lparr>bo_key = kr_key (view_row row), bo_created = True, bo_revoked = None\<rparr>, k')"
      by (simp add: ensureBootstrapKey_def)
    moreover have "bootstrapped e nm secret \<lparr>bo_key = kr_key (view_row row), bo_created = True, bo_revoked = None\<rparr> k'"
      by (rule known_is_bootstrapped [OF row(6,3)]) (simp_all add: row(2,5) live_names_snoc [OF names] free(2))
    ultimately show ?thesis by blast
  next
    case taken
    let ?k1 = "k\<lparr>ks_uuids := ks_uuids k + 1\<rparr>"
    from insert_key_taken_name [OF bootstrap_request_ok [OF assms(5)], where k = k] taken
    have first: "adopt_key e at secret ?r k = (Inl (refuse Conflict), ?k1)"
      by (simp add: adopt_unknown bootstrapKeyRequest_def)
    obtain x where x: "find (\<lambda>key. apk_name key = ?name \<and> apk_revokedAt key = None) (list_keys ?k1) = Some (kr_key (view_row x))"
      "find (\<lambda>r. kr_id r = kr_id x) (rows_of ?k1) = Some x" "\<not> revoked x" "apk_name (kr_key x) = ?name"
      by (rule stale_key [of ?name ?k1]) (use taken ids in auto)
    let ?k2 = "?k1\<lparr>ks_table := (ks_table ?k1)\<lparr>kt_rows :=
      update_first (\<lambda>r. kr_id r = kr_id x) (set_revoked at) (rows_of ?k1)\<rparr>\<rparr>"
    have rows2: "rows_of ?k2 = update_first (\<lambda>r. kr_id r = kr_id x) (set_revoked at) (rows_of k)" by simp
    have unknown: "access e ?k2 secret = None" by (rule revoked_unknown [OF taken(1) rows2])
    have unnamed: "\<not> live_name ?name (rows_of ?k2)"
      using live_name_revoked [OF names] x(2-4) by simp
    obtain row k' where
      row: "adopt_key e at secret ?r ?k2 = (Inr (kr_key (view_row row), True), k')" "rows_of k' = rows_of ?k2 @ [row]"
        "\<not> revoked row" "kr_secretHash row = kv_hash e secret" "apk_name (kr_key row) = ?name"
        "find (\<lambda>r. kr_secretHash r = kv_hash e secret) (rows_of k') = Some row"
      by (rule adopt_then_known [OF unknown assms(5) unnamed]) (rule that)
    have distinct: "distinct (live_names (rows_of k'))"
      using unnamed live_names_snoc [OF live_names_revoked [OF names], of row "kr_id x" at]
      unfolding row(2,5) rows2 by blast
    let ?out = "\<lparr>bo_key = kr_key (view_row row), bo_created = True, bo_revoked = Some (kr_id x)\<rparr>"
    have "ensureBootstrapKey e at False nm secret k = (Inr ?out, k')"
      using first x(1) row(1) revoke_by_id [OF x(2), of at]
      by (simp add: ensureBootstrapKey_def refuse_def replace_stale_def)
    moreover have "bootstrapped e nm secret ?out k'"
      by (rule known_is_bootstrapped [OF row(6,3)]) (simp_all add: distinct row(5))
    ultimately show ?thesis by blast
  qed
qed

subsection \<open>A sample service\<close>

definition sample_keys_env :: keys_env where
  "sample_keys_env = \<lparr>kv_random = (\<lambda>n. replicate n (CHR ''r'')), kv_uuid = (\<lambda>n. replicate n (CHR ''i'')),
     kv_hash = (\<lambda>s. s), kv_url = (\<lambda>_. True)\<rparr>"

definition sample_key_request :: key_create_request where
  "sample_key_request = \<lparr>kc_name = ''platform'', kc_scopes = [Scope_matches],
     kc_budget = \<lparr>bl_maxConcurrentServers = 2, bl_maxServerLifetimeMinutes = 60, bl_monthlyCents = 500\<rparr>,
     kc_webhookSecrets = [\<lparr>ws_id = ''whsec'', ws_secret = replicate 32 (CHR ''s'')\<rparr>], kc_fleetWebhook = None\<rparr>"

text \<open>The secret an environment might name, and a few calls: a key minted, used and rotated, its name taken.\<close>

definition sample_given :: string where "sample_given = ''ezik_dev''"

definition sample_calls :: "(instant \<times> key_op) list" where
  "sample_calls = [(0, Op_mint sample_key_request), (5, Op_auth (Some ''ezik_'')), (9, Op_rotate []),
     (10, Op_mint sample_key_request), (11, Op_auth (Some ''ezik_''))]"

definition sample_keys :: keys where "sample_keys = snd (key_run sample_keys_env sample_calls no_keys)"

lemma sample_secret_apart: "replicate n (CHR ''r'') \<noteq> ''dev''" "''dev'' \<noteq> replicate n (CHR ''r'')"
  by (cases n; simp)+

lemma sample_free: "n \<le> 12 \<Longrightarrow> collision_free sample_keys_env n {sample_given}"
  by (auto simp: collision_free_def sample_keys_env_def inj_on_def drawn_secret_def mintToken_def sample_given_def sample_secret_apart)

lemma sample_calls_run:
  "key_run sample_keys_env sample_calls no_keys = (fst (key_run sample_keys_env sample_calls no_keys), sample_keys)"
  by (simp add: sample_keys_def)

lemma sample_calls_ok:
  "list_all (\<lambda>(at, op). given_long op) sample_calls" "list_all (\<lambda>(at, op). adopts_from {sample_given} op) sample_calls"
  by (simp_all add: sample_calls_def given_long_def adopts_from_def)

theorem every_key_can_be_listed_witness:
  "list_all (apiKeySchema sample_keys_env) (list_keys sample_keys) \<and> length (list_keys sample_keys) = 1"
proof
  show "list_all (apiKeySchema sample_keys_env) (list_keys sample_keys)"
    using every_key_can_be_listed [OF sample_calls_run sample_calls_ok(1)] by blast
  show "length (list_keys sample_keys) = 1" by code_simp
qed


definition sample_ended :: "(instant \<times> key_op) list" where
  "sample_ended = [(0, Op_mint sample_key_request), (3, Op_revoke [])]"

definition sample_after :: "(instant \<times> key_op) list" where
  "sample_after = [(5, Op_auth (Some ''ezik_'')), (6, Op_rotate []), (7, Op_revoke []),
     (8, Op_adopt sample_given sample_key_request)]"

theorem revoked_for_good_witness:
  "let k = snd (key_run sample_keys_env sample_ended no_keys); after = key_run sample_keys_env sample_after k
   in (\<exists>r'. byId [] (ks_table (snd after)) = Some r' \<and> apk_revokedAt (kr_key r') = Some 3) \<and>
      (\<nexists>op row. (op, Ans_opened row) \<in> set (fst after) \<and> kr_id row = [])"
proof -
  let ?k = "snd (key_run sample_keys_env sample_ended no_keys)"
  have free: "collision_free sample_keys_env (length sample_ended + length sample_after) {sample_given}"
    by (rule sample_free) (simp add: sample_ended_def sample_after_def)
  have ok: "list_all (\<lambda>(at, op). adopts_from {sample_given} op) (sample_ended @ sample_after)"
    by (simp add: sample_ended_def sample_after_def adopts_from_def)
  have "map_option (\<lambda>r. apk_revokedAt (kr_key r)) (byId [] (ks_table ?k)) = Some (Some 3)" by code_simp
  then obtain r where "byId [] (ks_table ?k) = Some r" "apk_revokedAt (kr_key r) = Some 3" by auto
  from revoked_for_good [OF free ok _ _ this, where hist' = "fst (key_run sample_keys_env sample_after ?k)"
      and k' = "snd (key_run sample_keys_env sample_after ?k)"] show ?thesis
    by (simp add: Let_def) (metis prod.collapse)
qed

theorem the_bootstrap_key_is_the_environments_witness:
  "\<exists>out k'. ensureBootstrapKey sample_keys_env 20 False (Some ''platform'') sample_given sample_keys = (Inr out, k') \<and>
     bootstrapped sample_keys_env (Some ''platform'') sample_given out k'"
proof -
  have free: "collision_free sample_keys_env (length sample_calls) {sample_given}"
    by (rule sample_free) (simp add: sample_calls_def)
  have "access sample_keys_env sample_keys sample_given \<noteq> Some Burnt" by code_simp
  with the_bootstrap_key_is_the_environments [OF free sample_calls_ok(2,1) sample_calls_run] show ?thesis
    by (simp add: between_def)
qed

end
