(* ===== verification/Gslt_Pool.thy ===== *)
theory Gslt_Pool
  imports Store_Laws
begin

text \<open>
  The pool of Steam game server accounts, \<open>apps/orchestrator/src/gslt/pool.ts\<close>: one login token per
  account, leased to a ledger row. Every operation runs on the pool's one chain (\<open>serial\<close>), so an
  operation is one computation of the state monad over \<open>pool\<close>.

  \<^item> Steam's Web API is an argument (\<open>steam\<close>): it answers from the calls made so far, \<open>Inl\<close> is a
    rejection. \<open>ge_steam = None\<close> is a deployment without a Steam key.
  \<^item> The locale \<open>pool_invariant\<close> states what a predicate on the table has to survive, \<open>pool_keeps\<close>
    that it then holds along every run. It is interpreted for "one lease per server" and for
    "one row per account".
\<close>

subsection \<open>State\<close>

record steam_account =
  sg_steamId :: string
  sg_appId :: nat
  sg_loginToken :: string
  sg_memo :: string
  sg_expired :: bool

datatype steam_call = Create_account | Reset_login_token string | List_accounts

record steam =
  sw_create :: "steam_call list \<Rightarrow> string \<Rightarrow> string + steam_account"
  sw_reset :: "steam_call list \<Rightarrow> string \<Rightarrow> string + string"
  sw_list :: "steam_call list \<Rightarrow> string + steam_account list"

record pool_env =
  ge_steam :: "steam option"
  ge_max :: nat
  ge_deployment :: "string option"
  ge_uuid :: "nat \<Rightarrow> ident"

record pool =
  p_store :: store
  p_now :: instant
  p_fresh :: nat
  p_calls :: "steam_call list"
  p_warnedDry :: bool
  p_warnedNoSteam :: bool

type_synonym 'a pool_step = "(pool, 'a) state"

definition DEFAULT_POOL_MAX :: nat where "DEFAULT_POOL_MAX = 16"

definition GSLT_MEMO_PREFIX :: string where "GSLT_MEMO_PREFIX = ''ezpug-iron''"

definition pool_memo :: "pool_env \<Rightarrow> string" where
  "pool_memo g = trim (GSLT_MEMO_PREFIX @ '' '' @
     (case ge_deployment g of None \<Rightarrow> ''dev'' | Some d \<Rightarrow> d))"

subsection \<open>Primitives\<close>

definition steam_says :: "steam_call \<Rightarrow> (steam_call list \<Rightarrow> 'a) \<Rightarrow> 'a pool_step" where
  "steam_says c answer = do {
     h \<leftarrow> gets p_calls;
     modify (\<lambda>p. p\<lparr>p_calls := c # h\<rparr>);
     State_Monad.return (answer h)
   }"

definition gslt_rows :: "gslt_row list pool_step" where
  "gslt_rows = gets (\<lambda>p. listGsltTokens (p_store p))"

definition insert_gslt :: "gslt_row \<Rightarrow> unit pool_step" where
  "insert_gslt row = modify (\<lambda>p. p\<lparr>p_store := insertGsltToken row (p_store p)\<rparr>)"

text \<open>Every row patched was read in the same operation and rows are never removed, so the store's
  throw on an unknown id is not reached.\<close>

definition patch_gslt :: "ident \<Rightarrow> (gslt_row \<Rightarrow> gslt_row) \<Rightarrow> unit pool_step" where
  "patch_gslt i f = modify (\<lambda>p. p\<lparr>p_store :=
     (case updateGsltToken i f (p_store p) of None \<Rightarrow> p_store p | Some s \<Rightarrow> s)\<rparr>)"

definition pool_uuid :: "pool_env \<Rightarrow> ident pool_step" where
  "pool_uuid g = do {
     n \<leftarrow> gets p_fresh;
     modify (\<lambda>p. p\<lparr>p_fresh := Suc n\<rparr>);
     State_Monad.return (ge_uuid g n)
   }"

text \<open>The lease written onto the ledger row; a row that is not there is only warned about.\<close>

definition link_row :: "ident \<Rightarrow> ident option \<Rightarrow> unit pool_step" where
  "link_row f token = modify (\<lambda>p. p\<lparr>p_store :=
     (case updateServer f [Srv_gsltTokenId token] (p_store p) of
        None \<Rightarrow> p_store p | Some s \<Rightarrow> s)\<rparr>)"

subsection \<open>Leasing\<close>

text \<open>\<open>Inl\<close> is a rejected \<open>createAccount\<close>, which is never tried again.\<close>

definition mint :: "pool_env \<Rightarrow> ident \<Rightarrow> (string + gslt_row option) pool_step" where
  "mint g f =
    (case ge_steam g of
       None \<Rightarrow> do {
         modify (\<lambda>p. p\<lparr>p_warnedNoSteam := True\<rparr>);
         State_Monad.return (Inr None)
       }
     | Some steam \<Rightarrow> do {
         rows \<leftarrow> gslt_rows;
         if length rows \<ge> ge_max g then do {
           modify (\<lambda>p. p\<lparr>p_warnedDry := True\<rparr>);
           State_Monad.return (Inr None)
         }
         else do {
           created \<leftarrow> steam_says Create_account (\<lambda>h. sw_create steam h (pool_memo g));
           case created of
             Inl err \<Rightarrow> State_Monad.return (Inl err)
           | Inr account \<Rightarrow> do {
               i \<leftarrow> pool_uuid g;
               t \<leftarrow> gets p_now;
               let row = \<lparr>g_id = i, g_steamId = sg_steamId account, g_appId = sg_appId account,
                 g_loginToken = sg_loginToken account,
                 g_memo = (if sg_memo account = '''' then pool_memo g else sg_memo account),
                 g_leasedBy = Some f, g_leasedAt = Some t, g_lastResetAt = None,
                 g_createdAt = t, g_deletedAt = None\<rparr>;
               insert_gslt row;
               State_Monad.return (Inr (Some row))
             }
         }
       })"

definition lease :: "pool_env \<Rightarrow> ident \<Rightarrow> (string + string option) pool_step" where
  "lease g f = do {
     held \<leftarrow> gets (\<lambda>p. findGsltTokenByLease f (p_store p));
     case held of
       Some row \<Rightarrow> State_Monad.return (Inr (Some (g_loginToken row)))
     | None \<Rightarrow> do {
         t \<leftarrow> gets p_now;
         claimed \<leftarrow> gets (\<lambda>p. claimFreeGsltToken f t (p_store p));
         minted \<leftarrow> (case claimed of
            Some (row, s) \<Rightarrow> do {
              modify (\<lambda>p. p\<lparr>p_store := s\<rparr>);
              State_Monad.return (Inr (Some row))
            }
          | None \<Rightarrow> mint g f);
         case minted of
           Inl err \<Rightarrow> State_Monad.return (Inl err)
         | Inr None \<Rightarrow> State_Monad.return (Inr None)
         | Inr (Some row) \<Rightarrow> do {
             modify (\<lambda>p. p\<lparr>p_warnedDry := False\<rparr>);
             link_row f (Some (g_id row));
             State_Monad.return (Inr (Some (g_loginToken row)))
           }
       }
   }"

subsection \<open>Releasing\<close>

definition free_row :: "pool_env \<Rightarrow> gslt_row \<Rightarrow> bool \<Rightarrow> unit pool_step" where
  "free_row g row lost = do {
     t \<leftarrow> gets p_now;
     reset \<leftarrow> (case ge_steam g of
        None \<Rightarrow> State_Monad.return None
      | Some steam \<Rightarrow>
          if lost then do {
            answer \<leftarrow> steam_says (Reset_login_token (g_steamId row))
              (\<lambda>h. sw_reset steam h (g_steamId row));
            State_Monad.return (case answer of Inl _ \<Rightarrow> None | Inr token \<Rightarrow> Some token)
          }
          else State_Monad.return None);
     patch_gslt (g_id row) (\<lambda>r. r\<lparr>g_leasedBy := None, g_leasedAt := g_leasedAt row,
       g_loginToken := (case reset of None \<Rightarrow> g_loginToken row | Some token \<Rightarrow> token),
       g_lastResetAt := (case reset of None \<Rightarrow> g_lastResetAt row | Some _ \<Rightarrow> Some t)\<rparr>)
   }"

definition release :: "pool_env \<Rightarrow> ident \<Rightarrow> bool \<Rightarrow> unit pool_step" where
  "release g f lost = do {
     held \<leftarrow> gets (\<lambda>p. findGsltTokenByLease f (p_store p));
     case held of
       None \<Rightarrow> skip
     | Some row \<Rightarrow> do { free_row g row lost; link_row f None }
   }"

record pool_stats =
  po_total :: nat
  po_inUse :: nat

definition stats :: "store \<Rightarrow> pool_stats" where
  "stats s = \<lparr>po_total = length (listGsltTokens s),
     po_inUse = length (filter (\<lambda>r. g_leasedBy r \<noteq> None) (listGsltTokens s))\<rparr>"

subsection \<open>The sweep\<close>

text \<open>One row held against Steam's account list.\<close>

definition hold_against :: "pool_env \<Rightarrow> steam \<Rightarrow> steam_account list \<Rightarrow> gslt_row \<Rightarrow> unit pool_step"
where
  "hold_against g steam accounts row = do {
     t \<leftarrow> gets p_now;
     case find (\<lambda>a. sg_steamId a = g_steamId row) (rev accounts) of
       None \<Rightarrow> patch_gslt (g_id row) (\<lambda>r. r\<lparr>g_deletedAt := Some t\<rparr>)
     | Some account \<Rightarrow>
         if sg_expired account \<and> g_leasedBy row = None then do {
           answer \<leftarrow> steam_says (Reset_login_token (g_steamId row))
             (\<lambda>h. sw_reset steam h (g_steamId row));
           case answer of
             Inl _ \<Rightarrow> skip
           | Inr token \<Rightarrow> patch_gslt (g_id row)
               (\<lambda>r. r\<lparr>g_loginToken := token, g_lastResetAt := Some t\<rparr>)
         }
         else if sg_loginToken account \<noteq> g_loginToken row \<and> g_leasedBy row = None then
           patch_gslt (g_id row) (\<lambda>r. r\<lparr>g_loginToken := sg_loginToken account\<rparr>)
         else skip
   }"

definition adopt :: "pool_env \<Rightarrow> steam_account \<Rightarrow> unit pool_step" where
  "adopt g account =
    (if sg_memo account \<noteq> pool_memo g then skip
     else do {
       known \<leftarrow> gets (\<lambda>p. findGsltTokenBySteamId (sg_steamId account) (p_store p));
       case known of
         Some _ \<Rightarrow> skip
       | None \<Rightarrow> do {
           i \<leftarrow> pool_uuid g;
           t \<leftarrow> gets p_now;
           insert_gslt \<lparr>g_id = i, g_steamId = sg_steamId account, g_appId = sg_appId account,
             g_loginToken = sg_loginToken account, g_memo = sg_memo account, g_leasedBy = None,
             g_leasedAt = None, g_lastResetAt = None, g_createdAt = t, g_deletedAt = None\<rparr>
         }
     })"

definition sweep_pool :: "pool_env \<Rightarrow> unit pool_step" where
  "sweep_pool g = do {
     leaked \<leftarrow> gets (\<lambda>p. listLeakedGsltLeases (p_store p));
     for_each (\<lambda>row. free_row g row True) leaked;
     case ge_steam g of
       None \<Rightarrow> skip
     | Some steam \<Rightarrow> do {
         listed \<leftarrow> steam_says List_accounts (sw_list steam);
         case listed of
           Inl _ \<Rightarrow> skip
         | Inr accounts \<Rightarrow> do {
             rows \<leftarrow> gslt_rows;
             for_each (hold_against g steam accounts) rows;
             for_each (adopt g) accounts
           }
       }
   }"

subsection \<open>Runs of the pool\<close>

text \<open>What happens to the pool: its three operations, time passing, and the rest of the orchestrator
  writing the ledger.\<close>

datatype pool_operation =
    Pool_lease ident
  | Pool_release ident bool
  | Pool_sweep
  | Pool_wait nat
  | Pool_ledger "server_row list"

fun pool_operate :: "pool_env \<Rightarrow> pool_operation \<Rightarrow> unit pool_step" where
  "pool_operate g (Pool_lease f) = do { _ \<leftarrow> lease g f; skip }"
| "pool_operate g (Pool_release f lost) = release g f lost"
| "pool_operate g Pool_sweep = sweep_pool g"
| "pool_operate g (Pool_wait n) = modify (\<lambda>p. p\<lparr>p_now := p_now p + int n\<rparr>)"
| "pool_operate g (Pool_ledger rows) = modify (\<lambda>p. p\<lparr>p_store := (p_store p)\<lparr>servers := rows\<rparr>\<rparr>)"

definition pool_run :: "pool_env \<Rightarrow> pool_operation list \<Rightarrow> pool \<Rightarrow> pool" where
  "pool_run g ops p = after (for_each (pool_operate g) ops) p"

definition empty_pool :: "string \<Rightarrow> instant \<Rightarrow> pool" where
  "empty_pool d t = \<lparr>p_store = createMemoryMatchStore d, p_now = t, p_fresh = 0, p_calls = [],
     p_warnedDry = False, p_warnedNoSteam = False\<rparr>"

subsection \<open>The operations as effects on the table\<close>

abbreviation tokens :: "pool \<Rightarrow> gslt_row list" where
  "tokens p \<equiv> gsltTokens (p_store p)"

definition holds :: "ident \<Rightarrow> gslt_row \<Rightarrow> bool" where
  "holds f r \<longleftrightarrow> g_deletedAt r = None \<and> g_leasedBy r = Some f"

lemma find_lease: "findGsltTokenByLease f s = find (holds f) (gsltTokens s)"
  by (simp add: findGsltTokenByLease_def holds_def [abs_def])

lemma not_held: "find (holds f) rows = None \<Longrightarrow> r \<in> set rows \<Longrightarrow> \<not> holds f r"
  by (rule find_NoneD)

lemma run_patch_gslt [simp]:
  "run_state (patch_gslt i f) p =
    ((), p\<lparr>p_store := (p_store p)\<lparr>gsltTokens := update_first (\<lambda>r. g_id r = i) f (tokens p)\<rparr>\<rparr>)"
  by (auto simp: patch_gslt_def updateGsltToken_def update_first_absent split: option.splits)

lemma run_link_row:
  "run_state (link_row f token) p = ((), p\<lparr>p_store := (p_store p)\<lparr>servers :=
     update_first (\<lambda>r. s_id r = f) (apply_server_patch [Srv_gsltTokenId token]) (servers (p_store p))\<rparr>\<rparr>)"
  by (auto simp: link_row_def updateServer_def findServer_def update_first_absent split: option.splits)

lemma run_steam_says [simp]:
  "run_state (steam_says c answer) p = (answer (p_calls p), p\<lparr>p_calls := c # p_calls p\<rparr>)"
  by (simp add: steam_says_def)

lemma run_pool_uuid [simp]:
  "run_state (pool_uuid g) p = (ge_uuid g (p_fresh p), p\<lparr>p_fresh := Suc (p_fresh p)\<rparr>)"
  by (simp add: pool_uuid_def)

lemma run_insert_gslt [simp]:
  "run_state (insert_gslt row) p =
    ((), p\<lparr>p_store := (p_store p)\<lparr>gsltTokens := tokens p @ [row]\<rparr>\<rparr>)"
  by (simp add: insert_gslt_def insertGsltToken_def)

lemma run_gslt_rows [simp]: "run_state gslt_rows p = (listGsltTokens (p_store p), p)"
  by (simp add: gslt_rows_def)

lemma claim_effect:
  "claimFreeGsltToken f t s = Some (row, s') \<Longrightarrow> \<exists>old \<in> set (gsltTokens s). free_gslt old \<and>
     row = old\<lparr>g_leasedBy := Some f, g_leasedAt := Some t\<rparr> \<and>
     s' = s\<lparr>gsltTokens := update_first (\<lambda>r. r = old) (\<lambda>_. row) (gsltTokens s)\<rparr>"
proof -
  assume claim: "claimFreeGsltToken f t s = Some (row, s')"
  then obtain old rest where old: "sort_key idle_since (filter free_gslt (gsltTokens s)) = old # rest"
    by (auto simp: claimFreeGsltToken_def split: list.splits)
  then have "old \<in> set (filter free_gslt (gsltTokens s))"
    by (metis list.set_intros(1) set_sort)
  with claim old show ?thesis by (auto simp: claimFreeGsltToken_def Let_def)
qed

text \<open>A patch that gives no lease away and brings no row back.\<close>

definition calm :: "(gslt_row \<Rightarrow> gslt_row) \<Rightarrow> bool" where
  "calm p \<longleftrightarrow> (\<forall>r. g_id (p r) = g_id r \<and> g_steamId (p r) = g_steamId r \<and>
     (g_leasedBy (p r) = None \<or> g_leasedBy (p r) = g_leasedBy r) \<and>
     (g_deletedAt (p r) = None \<longrightarrow> g_deletedAt r = None))"

text \<open>What Steam has said so far: the accounts of its lists, and every account it named.\<close>

fun listed :: "steam \<Rightarrow> steam_call list \<Rightarrow> steam_account \<Rightarrow> bool" where
  "listed s [] a = False"
| "listed s (c # h) a = (listed s h a \<or>
     (c = List_accounts \<and> (case sw_list s h of Inl _ \<Rightarrow> False | Inr accounts \<Rightarrow> a \<in> set accounts)))"

fun steam_named :: "steam \<Rightarrow> string \<Rightarrow> steam_call list \<Rightarrow> string \<Rightarrow> bool" where
  "steam_named s m [] i = False"
| "steam_named s m (c # h) i = (steam_named s m h i \<or>
     (case c of
        Create_account \<Rightarrow> (case sw_create s h m of Inl _ \<Rightarrow> False | Inr a \<Rightarrow> sg_steamId a = i)
      | List_accounts \<Rightarrow>
          (case sw_list s h of Inl _ \<Rightarrow> False | Inr accounts \<Rightarrow> i \<in> sg_steamId ` set accounts)
      | Reset_login_token _ \<Rightarrow> False))"

lemma listed_named: "listed s h a \<Longrightarrow> steam_named s m h (sg_steamId a)"
  by (induction h) (auto split: sum.splits)

subsection \<open>What an invariant of the table has to survive\<close>

locale pool_invariant =
  fixes g :: pool_env
    and I :: "steam_call list \<Rightarrow> nat \<Rightarrow> gslt_row list \<Rightarrow> bool"
  assumes called: "I h n rows \<Longrightarrow> I (c # h) n rows"
    and claimed: "I h n rows \<Longrightarrow> find (holds f) rows = None \<Longrightarrow> old \<in> set rows \<Longrightarrow> free_gslt old \<Longrightarrow>
      I h n (update_first (\<lambda>r. r = old) (\<lambda>_. old\<lparr>g_leasedBy := Some f, g_leasedAt := Some t\<rparr>) rows)"
    and patched: "I h n rows \<Longrightarrow> calm p \<Longrightarrow> I h n (update_first (\<lambda>r. g_id r = i) p rows)"
    and minted: "I h n rows \<Longrightarrow> find (holds f) rows = None \<Longrightarrow> ge_steam g = Some steam \<Longrightarrow>
      sw_create steam h (pool_memo g) = Inr a \<Longrightarrow> g_leasedBy row = Some f \<Longrightarrow>
      g_id row = ge_uuid g n \<Longrightarrow> g_steamId row = sg_steamId a \<Longrightarrow>
      I (Create_account # h) (Suc n) (rows @ [row])"
    and adopted: "I h n rows \<Longrightarrow> ge_steam g = Some steam \<Longrightarrow> listed steam h a \<Longrightarrow>
      \<forall>r \<in> set rows. g_steamId r \<noteq> sg_steamId a \<Longrightarrow> g_leasedBy row = None \<Longrightarrow>
      g_id row = ge_uuid g n \<Longrightarrow> g_steamId row = sg_steamId a \<Longrightarrow> I h (Suc n) (rows @ [row])"
begin

definition inv :: "pool \<Rightarrow> bool" where
  "inv p \<longleftrightarrow> I (p_calls p) (p_fresh p) (tokens p)"

lemma keeps_patch: "calm f \<Longrightarrow> keeps inv (patch_gslt i f)"
  by (rule tripleI) (simp add: inv_def patched)

lemma keeps_says: "keeps inv (steam_says c answer)"
  by (rule tripleI) (simp add: inv_def called)

lemma keeps_link: "keeps inv (link_row f token)"
  by (rule tripleI) (simp add: inv_def run_link_row)

lemma keeps_free_row: "keeps inv (free_row g row lost)"
  unfolding free_row_def
  by (intro triple_intros keeps_says keeps_patch) (simp_all add: calm_def)

lemma keeps_release: "keeps inv (release g f lost)"
  unfolding release_def by (intro triple_intros keeps_free_row keeps_link)

lemma keeps_hold_against: "keeps inv (hold_against g steam accounts row)"
  unfolding hold_against_def
  by (intro triple_intros keeps_says keeps_patch) (simp_all add: calm_def)

text \<open>A mint runs under "no live row is leased to \<open>f\<close>".\<close>

lemma keeps_mint:
  "triple (\<lambda>p. inv p \<and> find (holds f) (tokens p) = None) (mint g f) (\<lambda>_. inv)"
proof (rule tripleI)
  fix p
  assume "inv p \<and> find (holds f) (tokens p) = None"
  then have p: "I (p_calls p) (p_fresh p) (tokens p)" "find (holds f) (tokens p) = None"
    by (simp_all add: inv_def)
  show "inv (after (mint g f) p)"
  proof (cases "ge_steam g")
    case None
    then show ?thesis by (simp add: mint_def inv_def p)
  next
    case (Some steam)
    with p show ?thesis
      by (auto simp: mint_def inv_def Let_def called intro: minted split: sum.split)
  qed
qed

lemma keeps_lease: "keeps inv (lease g f)"
proof (rule tripleI)
  fix p
  assume inv: "inv p"
  let ?claim = "claimFreeGsltToken f (p_now p) (p_store p)"
  show "inv (after (lease g f) p)"
  proof (cases "find (holds f) (tokens p)")
    case (Some row)
    with inv show ?thesis by (simp add: lease_def find_lease)
  next
    case none: None
    show ?thesis
    proof (cases ?claim)
      case None
      have "inv (after (mint g f) p)" using tripleD [OF keeps_mint] inv none by blast
      with None none show ?thesis
        by (auto simp: lease_def find_lease inv_def run_link_row split: sum.split option.split prod.split)
    next
      case (Some rs)
      then obtain row s where rs: "?claim = Some (row, s)" by (cases rs) simp
      with claim_effect [OF rs] inv none claimed show ?thesis
        by (auto simp: lease_def find_lease inv_def run_link_row)
    qed
  qed
qed

lemma keeps_adopt:
  "ge_steam g = Some steam \<Longrightarrow>
   keeps (\<lambda>p. inv p \<and> listed steam (p_calls p) a) (adopt g a)"
  by (rule tripleI) (auto simp: adopt_def inv_def findGsltTokenBySteamId_def find_None_iff
      intro!: adopted split: option.split)

definition told :: "steam \<Rightarrow> steam_account list \<Rightarrow> pool \<Rightarrow> bool" where
  "told steam accounts p \<longleftrightarrow> inv p \<and> (\<forall>a \<in> set accounts. listed steam (p_calls p) a)"

lemma told_hold_against: "keeps (told steam accounts) (hold_against g steam' accounts' row)"
proof (rule tripleI)
  fix p
  assume "told steam accounts p"
  then have "inv (after (hold_against g steam' accounts' row) p)"
    and "\<forall>a \<in> set accounts. listed steam (p_calls p) a"
    using tripleD [OF keeps_hold_against] by (auto simp: told_def)
  then show "told steam accounts (after (hold_against g steam' accounts' row) p)"
    by (auto simp: told_def hold_against_def split: option.split sum.split)
qed

lemma told_adopt:
  assumes "ge_steam g = Some steam" and "a \<in> set accounts"
  shows "keeps (told steam accounts) (adopt g a)"
proof (rule tripleI)
  fix p
  assume "told steam accounts p"
  then have "inv (after (adopt g a) p)" and "\<forall>a \<in> set accounts. listed steam (p_calls p) a"
    using tripleD [OF keeps_adopt [OF assms(1)], of p a] assms(2) by (auto simp: told_def)
  moreover have "p_calls (after (adopt g a) p) = p_calls p"
    by (simp add: adopt_def split: option.split)
  ultimately show "told steam accounts (after (adopt g a) p)" by (simp add: told_def)
qed

lemma told_adopt_all:
  assumes "ge_steam g = Some steam"
  shows "set xs \<subseteq> set accounts \<Longrightarrow> keeps (told steam accounts) (for_each (adopt g) xs)"
proof (induction xs)
  case (Cons x xs)
  then have "keeps (told steam accounts) (adopt g x)" by (intro told_adopt [OF assms]) simp
  with Cons show ?case by (simp add: keeps_bind)
qed (simp add: keeps_skip)

lemma keeps_sweep: "keeps inv (sweep_pool g)"
proof (rule tripleI)
  fix p
  assume inv: "inv p"
  let ?free = "for_each (\<lambda>row. free_row g row True) (listLeakedGsltLeases (p_store p))"
  let ?q = "after ?free p"
  have q: "inv ?q"
    by (rule tripleD [OF keeps_for_each [OF keeps_free_row]]) (rule inv)
  show "inv (after (sweep_pool g) p)"
  proof (cases "ge_steam g")
    case None
    with q show ?thesis by (simp add: sweep_pool_def case_prod_beta)
  next
    case (Some steam)
    let ?r = "?q\<lparr>p_calls := List_accounts # p_calls ?q\<rparr>"
    show ?thesis
    proof (cases "sw_list steam (p_calls ?q)")
      case (Inl err)
      with Some q show ?thesis by (simp add: sweep_pool_def case_prod_beta inv_def called)
    next
      case (Inr accounts)
      then have "told steam accounts ?r" using q by (simp add: told_def inv_def called)
      then have "told steam accounts
          (after (for_each (hold_against g steam accounts) (listGsltTokens (p_store ?r))) ?r)"
        by (rule tripleD [OF keeps_for_each [OF told_hold_against]])
      then have "told steam accounts (after (for_each (adopt g) accounts)
          (after (for_each (hold_against g steam accounts) (listGsltTokens (p_store ?r))) ?r))"
        by (rule tripleD [OF told_adopt_all [OF Some order_refl]])
      with Some Inr show ?thesis
        by (simp add: sweep_pool_def case_prod_beta told_def)
    qed
  qed
qed

lemma keeps_operate: "keeps inv (pool_operate g op)"
proof (cases op)
  case (Pool_lease f)
  then show ?thesis by (simp, intro triple_intros keeps_lease)
next
  case (Pool_wait n)
  then show ?thesis by (auto simp: inv_def intro!: tripleI)
next
  case (Pool_ledger rows)
  then show ?thesis by (auto simp: inv_def intro!: tripleI)
qed (simp_all add: keeps_release keeps_sweep)

lemma pool_keeps:
  assumes "I [] 0 []"
  shows "inv (pool_run g ops (empty_pool d t))"
  unfolding pool_run_def
  by (rule tripleD [OF keeps_for_each [OF keeps_operate]])
    (simp add: inv_def empty_pool_def createMemoryMatchStore_def assms)

end

subsection \<open>One lease per server, one row per account\<close>

definition one_lease :: "gslt_row list \<Rightarrow> bool" where
  "one_lease rows \<longleftrightarrow> (\<forall>f. length (filter (holds f) rows) \<le> 1)"

lemma count_update_le:
  "(\<And>x. P (u x) \<Longrightarrow> P x) \<Longrightarrow> length (filter P (update_first Q u xs)) \<le> length (filter P xs)"
  by (induction xs) auto

lemma count_update_le_Suc: "length (filter P (update_first Q u xs)) \<le> Suc (length (filter P xs))"
  by (induction xs) auto

lemma count_none: "find P xs = None \<Longrightarrow> length (filter P xs) = 0"
  by (auto simp: find_None_iff filter_empty_conv)

lemma calm_holds: "calm p \<Longrightarrow> holds f (p r) \<Longrightarrow> holds f r"
  unfolding calm_def holds_def by (metis option.distinct(1))

interpretation leases: pool_invariant g "\<lambda>h n rows. one_lease rows"
proof
  fix rows :: "gslt_row list" and old :: gslt_row and f t
  assume one: "one_lease rows" and none: "find (holds f) rows = None"
  let ?u = "\<lambda>_ :: gslt_row. old\<lparr>g_leasedBy := Some f, g_leasedAt := Some t\<rparr>"
  have "length (filter (holds f') (update_first (\<lambda>r. r = old) ?u rows)) \<le> 1" for f'
  proof (cases "f' = f")
    case True
    with count_update_le_Suc [of "holds f" _ ?u rows] count_none [OF none] show ?thesis by simp
  next
    case False
    then have "length (filter (holds f') (update_first (\<lambda>r. r = old) ?u rows))
        \<le> length (filter (holds f') rows)"
      by (intro count_update_le) (simp add: holds_def)
    with one show ?thesis by (meson le_trans one_lease_def)
  qed
  then show "one_lease (update_first (\<lambda>r. r = old) ?u rows)" unfolding one_lease_def by blast
next
  fix rows p i
  assume "one_lease rows" "calm p"
  have "length (filter (holds f) (update_first (\<lambda>r. g_id r = i) p rows)) \<le> 1" for f
  proof -
    have "length (filter (holds f) (update_first (\<lambda>r. g_id r = i) p rows))
        \<le> length (filter (holds f) rows)"
      by (intro count_update_le) (rule calm_holds [OF \<open>calm p\<close>])
    also have "\<dots> \<le> 1" using \<open>one_lease rows\<close> by (simp add: one_lease_def)
    finally show ?thesis .
  qed
  then show "one_lease (update_first (\<lambda>r. g_id r = i) p rows)" unfolding one_lease_def by blast
next
  fix rows f and row :: gslt_row
  assume "one_lease rows" "find (holds f) rows = None" "g_leasedBy row = Some f"
  then show "one_lease (rows @ [row])"
    using count_none [of "holds f" rows] by (auto simp: one_lease_def holds_def)
next
  fix rows and row :: gslt_row
  assume "one_lease rows" "g_leasedBy row = None"
  then show "one_lease (rows @ [row])" by (simp add: one_lease_def holds_def)
qed simp_all

lemma map_update_first_at:
  "x \<in> set xs \<Longrightarrow> k y = k x \<Longrightarrow> map k (update_first (\<lambda>r. r = x) (\<lambda>_. y) xs) = map k xs"
  by (induction xs) auto

text \<open>Steam names a new account on every create. The table never holds one account twice.\<close>

definition steam_fresh :: "pool_env \<Rightarrow> bool" where
  "steam_fresh g \<longleftrightarrow> (\<forall>steam h a. ge_steam g = Some steam \<longrightarrow>
     sw_create steam h (pool_memo g) = Inr a \<longrightarrow> \<not> steam_named steam (pool_memo g) h (sg_steamId a))"

definition one_row :: "pool_env \<Rightarrow> steam_call list \<Rightarrow> nat \<Rightarrow> gslt_row list \<Rightarrow> bool" where
  "one_row g h n rows \<longleftrightarrow> steam_fresh g \<longrightarrow> distinct (map g_steamId rows) \<and>
     (\<forall>i \<in> g_steamId ` set rows. \<exists>steam. ge_steam g = Some steam \<and> steam_named steam (pool_memo g) h i)"

definition row_ids :: "pool_env \<Rightarrow> nat \<Rightarrow> gslt_row list \<Rightarrow> bool" where
  "row_ids g n rows \<longleftrightarrow> inj (ge_uuid g) \<longrightarrow> distinct (map g_id rows) \<and>
     (\<forall>i \<in> g_id ` set rows. \<exists>k < n. i = ge_uuid g k)"

lemma named_mono: "steam_named s m h i \<Longrightarrow> steam_named s m (c # h) i"
  by simp

interpretation accounts: pool_invariant g "one_row g"
proof
  fix h n f t and rows :: "gslt_row list" and old :: gslt_row
  let ?u = "\<lambda>_ :: gslt_row. old\<lparr>g_leasedBy := Some f, g_leasedAt := Some t\<rparr>"
  assume "one_row g h n rows" "old \<in> set rows"
  moreover from \<open>old \<in> set rows\<close>
  have "map g_steamId (update_first (\<lambda>r. r = old) ?u rows) = map g_steamId rows"
    by (intro map_update_first_at) simp_all
  ultimately show "one_row g h n (update_first (\<lambda>r. r = old) ?u rows)"
    unfolding one_row_def image_set by simp
next
  fix h n rows p i
  assume "one_row g h n rows" "calm p"
  moreover from \<open>calm p\<close>
  have "map g_steamId (update_first (\<lambda>r. g_id r = i) p rows) = map g_steamId rows"
    by (intro map_update_first) (simp add: calm_def)
  ultimately show "one_row g h n (update_first (\<lambda>r. g_id r = i) p rows)"
    unfolding one_row_def image_set by simp
next
  fix h n rows f steam a and row :: gslt_row
  assume "one_row g h n rows" "ge_steam g = Some steam" "sw_create steam h (pool_memo g) = Inr a"
    "g_steamId row = sg_steamId a"
  have "sg_steamId a \<notin> g_steamId ` set rows" if "steam_fresh g"
  proof
    assume "sg_steamId a \<in> g_steamId ` set rows"
    with \<open>one_row g h n rows\<close> that \<open>ge_steam g = Some steam\<close>
    have "steam_named steam (pool_memo g) h (sg_steamId a)" by (auto simp: one_row_def)
    with that \<open>ge_steam g = Some steam\<close> \<open>sw_create steam h (pool_memo g) = Inr a\<close> show False
      by (simp add: steam_fresh_def)
  qed
  then show "one_row g (Create_account # h) (Suc n) (rows @ [row])"
    using \<open>one_row g h n rows\<close> \<open>ge_steam g = Some steam\<close> \<open>g_steamId row = sg_steamId a\<close>
      \<open>sw_create steam h (pool_memo g) = Inr a\<close>
    by (auto simp: one_row_def)
next
  fix h n rows steam a and row :: gslt_row
  assume "one_row g h n rows" "ge_steam g = Some steam" "listed steam h a"
    "\<forall>r \<in> set rows. g_steamId r \<noteq> sg_steamId a" "g_steamId row = sg_steamId a"
  then show "one_row g h (Suc n) (rows @ [row])"
    by (auto simp: one_row_def dest: listed_named)
qed (auto simp: one_row_def)

lemma row_ids_snoc:
  assumes "row_ids g n rows" and "g_id row = ge_uuid g n"
  shows "row_ids g (Suc n) (rows @ [row])"
  unfolding row_ids_def
proof (intro impI conjI)
  assume "inj (ge_uuid g)"
  with assms have rows: "distinct (map g_id rows)" "\<forall>i \<in> g_id ` set rows. \<exists>k < n. i = ge_uuid g k"
    by (simp_all add: row_ids_def)
  with \<open>inj (ge_uuid g)\<close> have "ge_uuid g n \<notin> g_id ` set rows"
    by (metis inj_eq less_irrefl)
  with rows assms(2) show "distinct (map g_id (rows @ [row]))" by simp
  from rows(2) assms(2) show "\<forall>i \<in> g_id ` set (rows @ [row]). \<exists>k < Suc n. i = ge_uuid g k"
    using less_Suc_eq by auto
qed

interpretation ids: pool_invariant g "\<lambda>h. row_ids g"
proof
  fix n f t and rows :: "gslt_row list" and old :: gslt_row
  let ?u = "\<lambda>_ :: gslt_row. old\<lparr>g_leasedBy := Some f, g_leasedAt := Some t\<rparr>"
  assume "row_ids g n rows" "old \<in> set rows"
  moreover from \<open>old \<in> set rows\<close>
  have "map g_id (update_first (\<lambda>r. r = old) ?u rows) = map g_id rows"
    by (intro map_update_first_at) simp_all
  ultimately show "row_ids g n (update_first (\<lambda>r. r = old) ?u rows)"
    unfolding row_ids_def image_set by simp
next
  fix n rows p i
  assume "row_ids g n rows" "calm p"
  moreover from \<open>calm p\<close>
  have "map g_id (update_first (\<lambda>r. g_id r = i) p rows) = map g_id rows"
    by (intro map_update_first) (simp add: calm_def)
  ultimately show "row_ids g n (update_first (\<lambda>r. g_id r = i) p rows)"
    unfolding row_ids_def image_set by simp
next
  fix n rows and row :: gslt_row
  assume "row_ids g n rows" "g_id row = ge_uuid g n"
  then show "row_ids g (Suc n) (rows @ [row])" "row_ids g (Suc n) (rows @ [row])"
    by (blast intro: row_ids_snoc)+
qed

text \<open>C32: One token, one running server: after any sequence of leases, releases and sweeps, with the
  ledger written by others in between, no server holds two accounts, an account is one row (so two
  servers never hold one account), and row ids never collide, as long as Steam never answers a
  create with an account it has named before.\<close>

theorem one_token_one_server:
  assumes "steam_fresh g" and "inj (ge_uuid g)"
  shows "let rows = gsltTokens (p_store (pool_run g ops (empty_pool d t))) in
    (\<forall>f. length (filter (holds f) rows) \<le> 1) \<and> distinct (map g_steamId rows) \<and>
    distinct (map g_id rows)"
proof -
  let ?p = "pool_run g ops (empty_pool d t)"
  have "one_lease []" "one_row g [] 0 []" "row_ids g 0 []"
    by (simp_all add: one_lease_def one_row_def row_ids_def)
  note runs = leases.pool_keeps [OF this(1), of g ops d t] accounts.pool_keeps [OF this(2), of ops d t]
    ids.pool_keeps [OF this(3), of ops d t]
  have "one_lease (tokens ?p)" "one_row g (p_calls ?p) (p_fresh ?p) (tokens ?p)"
    "row_ids g (p_fresh ?p) (tokens ?p)"
    using runs unfolding leases.inv_def accounts.inv_def ids.inv_def .
  then show ?thesis
    using assms by (simp add: one_lease_def one_row_def row_ids_def Let_def)
qed

text \<open>A Steam that mints: account names count the calls, and the account list is down.\<close>

definition sample_account :: "nat \<Rightarrow> steam_account" where
  "sample_account n = \<lparr>sg_steamId = replicate n CHR ''s'', sg_appId = 730,
     sg_loginToken = replicate n CHR ''t'', sg_memo = ''ezpug-iron dev'', sg_expired = False\<rparr>"

definition sample_steam :: steam where
  "sample_steam = \<lparr>sw_create = (\<lambda>h m. Inr (sample_account (length h))),
     sw_reset = (\<lambda>h i. Inr ''new''), sw_list = (\<lambda>h. Inl ''down'')\<rparr>"

definition sample_pool_env :: "nat \<Rightarrow> pool_env" where
  "sample_pool_env n = \<lparr>ge_steam = Some sample_steam, ge_max = n, ge_deployment = None,
     ge_uuid = (\<lambda>k. replicate k CHR ''u'')\<rparr>"

lemma sample_named: "steam_named sample_steam m h i \<Longrightarrow> length i < length h"
  by (induction h) (auto simp: sample_steam_def sample_account_def less_SucI split: steam_call.splits)

lemma sample_create: "sw_create sample_steam h m = Inr (sample_account (length h))"
  by (simp add: sample_steam_def)

lemma sample_fresh: "steam_fresh (sample_pool_env n)"
proof -
  have "\<not> steam_named sample_steam m h (sg_steamId (sample_account (length h)))" for m h
    using sample_named [of m h "sg_steamId (sample_account (length h))"]
    by (auto simp: sample_account_def)
  then show ?thesis by (simp add: steam_fresh_def sample_pool_env_def sample_create)
qed

lemma sample_uuids: "inj (ge_uuid (sample_pool_env n))"
  by (rule injI) (simp add: sample_pool_env_def replicate_eq_replicate)

theorem one_token_one_server_witness:
  "let rows = gsltTokens (p_store (pool_run (sample_pool_env 2)
       [Pool_lease ''f1'', Pool_lease ''f2'', Pool_release ''f1'' True, Pool_lease ''f3'']
       (empty_pool ''d'' 0))) in
   map g_leasedBy rows = [Some ''f3'', Some ''f2''] \<and> distinct (map g_steamId rows)"
proof -
  let ?ops = "[Pool_lease ''f1'', Pool_lease ''f2'', Pool_release ''f1'' True, Pool_lease ''f3'']"
  have "map g_leasedBy (gsltTokens (p_store (pool_run (sample_pool_env 2) ?ops (empty_pool ''d'' 0))))
      = [Some ''f3'', Some ''f2'']" by code_simp
  moreover have "distinct (map g_steamId (gsltTokens (p_store
      (pool_run (sample_pool_env 2) ?ops (empty_pool ''d'' 0)))))"
    using one_token_one_server [OF sample_fresh sample_uuids, of 2 ?ops "''d''" 0]
    by (simp add: Let_def)
  ultimately show ?thesis by (simp add: Let_def)
qed

subsection \<open>A lease is given once\<close>

lemma find_update_new:
  "find P xs = None \<Longrightarrow> x \<in> set xs \<Longrightarrow> P y \<Longrightarrow>
    find P (update_first (\<lambda>r. r = x) (\<lambda>_. y) xs) = Some y"
  by (induction xs) (auto split: if_splits)

text \<open>\<open>lease\<close> is idempotent: once a ledger row was answered a token, asking again answers the same
  token, calls Steam for nothing and changes nothing.\<close>

theorem lease_is_idempotent:
  assumes "result (lease g f) p = Inr (Some token)"
  shows "run_state (lease g f) (after (lease g f) p) = (Inr (Some token), after (lease g f) p)"
proof -
  let ?q = "after (lease g f) p"
  have "\<exists>row. find (holds f) (tokens ?q) = Some row \<and> g_loginToken row = token"
  proof (cases "find (holds f) (tokens p)")
    case (Some row)
    with assms show ?thesis by (simp add: lease_def find_lease)
  next
    case none: None
    show ?thesis
    proof (cases "claimFreeGsltToken f (p_now p) (p_store p)")
      case None
      with assms none show ?thesis
        by (auto simp: lease_def find_lease mint_def Let_def run_link_row find_append holds_def
            split: option.splits sum.splits if_splits)
    next
      case (Some rs)
      then obtain row s where rs: "claimFreeGsltToken f (p_now p) (p_store p) = Some (row, s)"
        by (cases rs) simp
      from claim_effect [OF rs] obtain old where old: "old \<in> set (tokens p)" "free_gslt old"
        "row = old\<lparr>g_leasedBy := Some f, g_leasedAt := Some (p_now p)\<rparr>"
        "s = (p_store p)\<lparr>gsltTokens := update_first (\<lambda>r. r = old) (\<lambda>_. row) (tokens p)\<rparr>"
        by blast
      then have "holds f row" by (simp add: holds_def free_gslt_def)
      with find_update_new [OF none old(1)] rs none old(4) assms show ?thesis
        by (auto simp: lease_def find_lease run_link_row)
    qed
  qed
  then show ?thesis by (auto simp: lease_def find_lease)
qed

theorem lease_is_idempotent_witness:
  "let p = empty_pool ''d'' 0; q = after (lease (sample_pool_env 1) ''f1'') p in
   run_state (lease (sample_pool_env 1) ''f1'') q = (Inr (Some ''''), q) \<and> p_calls q = [Create_account]"
proof -
  have "result (lease (sample_pool_env 1) ''f1'') (empty_pool ''d'' 0) = Inr (Some '''')"
    by code_simp
  moreover have "p_calls (after (lease (sample_pool_env 1) ''f1'') (empty_pool ''d'' 0))
      = [Create_account]" by code_simp
  ultimately show ?thesis
    using lease_is_idempotent [of "sample_pool_env 1" "''f1''" "empty_pool ''d'' 0" "''''"]
    by (simp add: Let_def)
qed

subsection \<open>The ceiling\<close>

lemma count_replace:
  "P x \<Longrightarrow> length (filter P (update_first (\<lambda>r. r = x) (\<lambda>_. y) xs)) \<le> length (filter P xs)"
  by (induction xs) auto

text \<open>The ceiling is a wall: a lease asks Steam for an account only when no free one is held and
  fewer than the ceiling are, asks at most once, and never leaves more accounts than the larger of
  the ceiling and what was held before.\<close>

theorem a_lease_never_mints_past_the_ceiling:
  defines "before \<equiv> \<lambda>p. length (listGsltTokens (p_store p))"
  shows "(p_calls (after (lease g f) p) = p_calls p \<or>
      p_calls (after (lease g f) p) = Create_account # p_calls p \<and> before p < ge_max g \<and>
      filter free_gslt (tokens p) = []) \<and>
    before (after (lease g f) p) \<le> max (ge_max g) (before p)"
proof (cases "find (holds f) (tokens p)")
  case (Some row)
  then show ?thesis by (simp add: lease_def find_lease)
next
  case none: None
  show ?thesis
  proof (cases "claimFreeGsltToken f (p_now p) (p_store p)")
    case None
    then have "sort_key idle_since (filter free_gslt (tokens p)) = []"
      by (auto simp: claimFreeGsltToken_def Let_def split: list.splits)
    then have "filter free_gslt (tokens p) = []" by (metis length_0_conv length_sort)
    with None none show ?thesis
      by (auto simp: lease_def find_lease mint_def Let_def run_link_row before_def
          listGsltTokens_def split: option.splits sum.splits if_splits)
  next
    case (Some rs)
    then obtain row s where rs: "claimFreeGsltToken f (p_now p) (p_store p) = Some (row, s)"
      by (cases rs) simp
    from claim_effect [OF rs] obtain old where old: "free_gslt old"
      "row = old\<lparr>g_leasedBy := Some f, g_leasedAt := Some (p_now p)\<rparr>"
      "s = (p_store p)\<lparr>gsltTokens := update_first (\<lambda>r. r = old) (\<lambda>_. row) (tokens p)\<rparr>"
      by blast
    have "length (filter (\<lambda>r. g_deletedAt r = None)
        (update_first (\<lambda>r. r = old) (\<lambda>_. row) (tokens p))) \<le>
        length (filter (\<lambda>r. g_deletedAt r = None) (tokens p))"
      if "g_deletedAt old = None" using that by (rule count_replace)
    with rs none old show ?thesis
      by (auto simp: lease_def find_lease run_link_row before_def listGsltTokens_def free_gslt_def)
  qed
qed

subsection \<open>A crash cannot leak a lease\<close>

definition leaked :: "server_row list \<Rightarrow> gslt_row \<Rightarrow> bool" where
  "leaked srv r \<longleftrightarrow> g_deletedAt r = None \<and> (case g_leasedBy r of None \<Rightarrow> False
     | Some f \<Rightarrow> (case find (\<lambda>s. s_id s = f) srv of
         None \<Rightarrow> True | Some s \<Rightarrow> s_releasedAt s \<noteq> None))"

lemma leaked_list: "listLeakedGsltLeases s = filter (leaked (servers s)) (gsltTokens s)"
  by (auto simp: listLeakedGsltLeases_def leaked_def findServer_def intro!: filter_cong
      split: option.splits)

lemma calm_leaked: "calm u \<Longrightarrow> leaked srv (u r) \<Longrightarrow> leaked srv r"
  unfolding calm_def leaked_def by (metis option.case_eq_if)

lemma in_update_first:
  "r' \<in> set (update_first (\<lambda>r. g_id r = i) u xs) \<Longrightarrow> distinct (map g_id xs) \<Longrightarrow>
    r' \<in> set xs \<and> g_id r' \<noteq> i \<or> (\<exists>r \<in> set xs. r' = u r)"
proof (induction xs)
  case (Cons x xs)
  then show ?case by (cases "g_id x = i") (auto simp: image_iff)
qed simp

lemma free_row_effect:
  "\<exists>u. calm u \<and> (\<forall>r. g_leasedBy (u r) = None) \<and>
    tokens (after (free_row g row lost) p) = update_first (\<lambda>r. g_id r = g_id row) u (tokens p) \<and>
    servers (p_store (after (free_row g row lost) p)) = servers (p_store p)"
proof -
  have "\<exists>token at. tokens (after (free_row g row lost) p) =
      update_first (\<lambda>r. g_id r = g_id row) (\<lambda>r. r\<lparr>g_leasedBy := None, g_leasedAt := g_leasedAt row,
        g_loginToken := token, g_lastResetAt := at\<rparr>) (tokens p) \<and>
      servers (p_store (after (free_row g row lost) p)) = servers (p_store p)"
    by (auto simp: free_row_def split: option.split sum.split)
  then obtain token at where "tokens (after (free_row g row lost) p) =
      update_first (\<lambda>r. g_id r = g_id row) (\<lambda>r. r\<lparr>g_leasedBy := None, g_leasedAt := g_leasedAt row,
        g_loginToken := token, g_lastResetAt := at\<rparr>) (tokens p)"
    "servers (p_store (after (free_row g row lost) p)) = servers (p_store p)" by blast
  then show ?thesis
    by (intro exI [of _ "\<lambda>r. r\<lparr>g_leasedBy := None, g_leasedAt := g_leasedAt row,
        g_loginToken := token, g_lastResetAt := at\<rparr>"]) (simp add: calm_def)
qed

lemma ids_update: "calm u \<Longrightarrow> map g_id (update_first Q u xs) = map g_id xs"
  by (intro map_update_first) (simp add: calm_def)

lemma free_all:
  assumes "distinct (map g_id (tokens p))"
  shows "let q = after (for_each (\<lambda>row. free_row g row lost) xs) p in
    servers (p_store q) = servers (p_store p) \<and>
    {r \<in> set (tokens q). leaked (servers (p_store p)) r} \<subseteq>
      {r \<in> set (tokens p). leaked (servers (p_store p)) r \<and> g_id r \<notin> g_id ` set xs}"
  using assms
proof (induction xs arbitrary: p)
  case (Cons x xs)
  let ?q = "after (free_row g x lost) p" and ?s = "servers (p_store p)"
  from free_row_effect [of g x lost p] obtain u where u: "calm u" "\<forall>r. g_leasedBy (u r) = None"
    "tokens ?q = update_first (\<lambda>r. g_id r = g_id x) u (tokens p)" "servers (p_store ?q) = ?s"
    by blast
  have "distinct (map g_id (tokens ?q))" using Cons.prems by (simp add: u ids_update)
  note IH = Cons.IH [OF this, unfolded Let_def u(4)]
  have "{r \<in> set (tokens ?q). leaked ?s r} \<subseteq> {r \<in> set (tokens p). leaked ?s r \<and> g_id r \<noteq> g_id x}"
  proof
    fix r
    assume r: "r \<in> {r \<in> set (tokens ?q). leaked ?s r}"
    with in_update_first [OF _ Cons.prems, of r "g_id x" u]
    consider "r \<in> set (tokens p)" "g_id r \<noteq> g_id x" | r0 where "r = u r0" by (auto simp: u(3))
    then show "r \<in> {r \<in> set (tokens p). leaked ?s r \<and> g_id r \<noteq> g_id x}"
      using r u(2) by cases (auto simp: leaked_def)
  qed
  with IH show ?case by (auto simp: case_prod_beta Let_def)
qed simp

definition leak_free :: "server_row list \<Rightarrow> pool \<Rightarrow> bool" where
  "leak_free srv p \<longleftrightarrow> servers (p_store p) = srv \<and> (\<forall>r \<in> set (tokens p). \<not> leaked srv r)"

lemma leak_free_patch: "calm u \<Longrightarrow> keeps (leak_free srv) (patch_gslt i u)"
  by (rule tripleI) (use calm_leaked set_update_first in \<open>fastforce simp: leak_free_def\<close>)

lemma leak_free_hold: "keeps (leak_free srv) (hold_against g steam accounts row)"
proof -
  have "keeps (leak_free srv) (steam_says c answer)"
    for c and answer :: "steam_call list \<Rightarrow> string + string"
    by (rule tripleI) (simp add: leak_free_def)
  then show ?thesis unfolding hold_against_def
    by (intro triple_intros leak_free_patch) (simp_all add: calm_def)
qed

lemma leak_free_adopt: "keeps (leak_free srv) (adopt g a)"
  by (rule tripleI) (auto simp: adopt_def leak_free_def leaked_def split: option.split)

text \<open>The sweep heals: after any history and whatever the ledger says, one sweep leaves no lease
  whose ledger row is closed or gone, also when Steam does not answer.\<close>

theorem a_sweep_frees_every_leak:
  assumes "inj (ge_uuid g)"
  shows "listLeakedGsltLeases (p_store (after (sweep_pool g) (pool_run g ops (empty_pool d t)))) = []"
proof -
  let ?p = "pool_run g ops (empty_pool d t)"
  let ?s = "servers (p_store ?p)"
  let ?free = "for_each (\<lambda>row. free_row g row True) (listLeakedGsltLeases (p_store ?p))"
  let ?q = "after ?free ?p"
  have "row_ids g 0 []" by (simp add: row_ids_def)
  from ids.pool_keeps [OF this, of ops d t] assms have "distinct (map g_id (tokens ?p))"
    unfolding ids.inv_def by (simp add: row_ids_def)
  from free_all [OF this, of g True "listLeakedGsltLeases (p_store ?p)"]
  have q: "leak_free ?s ?q" by (auto simp: Let_def leak_free_def leaked_list)
  have "leak_free ?s (after (sweep_pool g) ?p)"
  proof (cases "ge_steam g")
    case None
    with q show ?thesis by (simp add: sweep_pool_def case_prod_beta)
  next
    case (Some steam)
    let ?r = "?q\<lparr>p_calls := List_accounts # p_calls ?q\<rparr>"
    have r: "leak_free ?s ?r" using q by (simp add: leak_free_def)
    show ?thesis
    proof (cases "sw_list steam (p_calls ?q)")
      case (Inl err)
      with Some r show ?thesis by (simp add: sweep_pool_def case_prod_beta)
    next
      case (Inr accounts)
      have "leak_free ?s (after (for_each (hold_against g steam accounts)
          (listGsltTokens (p_store ?r))) ?r)"
        by (rule tripleD [OF keeps_for_each [OF leak_free_hold] r])
      then have "leak_free ?s (after (for_each (adopt g) accounts)
          (after (for_each (hold_against g steam accounts) (listGsltTokens (p_store ?r))) ?r))"
        by (rule tripleD [OF keeps_for_each [OF leak_free_adopt]])
      with Some Inr show ?thesis by (simp add: sweep_pool_def case_prod_beta)
    qed
  qed
  then show ?thesis by (simp add: leaked_list leak_free_def filter_empty_conv)
qed

theorem a_sweep_frees_every_leak_witness:
  "let p = pool_run (sample_pool_env 2) [Pool_lease ''f1''] (empty_pool ''d'' 0) in
   length (listLeakedGsltLeases (p_store p)) = 1 \<and>
   listLeakedGsltLeases (p_store (after (sweep_pool (sample_pool_env 2)) p)) = []"
proof -
  have "length (listLeakedGsltLeases (p_store
      (pool_run (sample_pool_env 2) [Pool_lease ''f1''] (empty_pool ''d'' 0)))) = 1"
    by code_simp
  then show ?thesis
    using a_sweep_frees_every_leak [OF sample_uuids, of 2 "[Pool_lease ''f1'']" "''d''" 0]
    by (simp add: Let_def)
qed

text \<open>A reset that fails when a lost server's token is freed is never tried again while the account is
  not expired: the token a lost server may still be logged in with is leased on.\<close>

lemma failed_reset_is_not_retried:
  "let steam = sample_steam\<lparr>sw_reset := (\<lambda>h i. Inl ''down''), sw_list := (\<lambda>h. Inr [sample_account 0])\<rparr>;
       g = (sample_pool_env 1)\<lparr>ge_steam := Some steam\<rparr>;
       p = pool_run g [Pool_lease ''f1'', Pool_release ''f1'' True, Pool_sweep] (empty_pool ''d'' 0) in
   filter (\<lambda>c. c = Reset_login_token '''') (p_calls p) = [Reset_login_token ''''] \<and>
   result (lease g ''f2'') p = Inr (Some '''')"
  by code_simp

text \<open>Adoption goes by the memo alone: an account of another game is taken into the pool.\<close>

lemma another_game_is_adopted:
  "let steam = sample_steam\<lparr>sw_list := (\<lambda>h. Inr [(sample_account 1)\<lparr>sg_appId := 440\<rparr>])\<rparr>;
       g = (sample_pool_env 1)\<lparr>ge_steam := Some steam\<rparr> in
   map g_appId (gsltTokens (p_store (pool_run g [Pool_sweep] (empty_pool ''d'' 0)))) = [440]"
  by code_simp

end
