(* ===== verification/Reaper.thy ===== *)
theory Reaper
  imports Sample_Run
begin

text \<open>
  The reaper, \<open>apps/orchestrator/src/providers/reaper.ts\<close>: one reconciliation pass of every
  provider's \<open>list()\<close> against the open rows of the ledger. It runs on the machine's world and goes
  through the machine's doors (\<open>expire\<close>, \<open>suspect\<close>, \<open>emitTo\<close>); the marks \<open>orphanedSince\<close> are its own
  state between passes.

  \<^item> What a provider lists and how a deallocation ends are arguments; \<open>Inl\<close> is a rejection.
  \<^item> The key of a mark, \<open>provider serverId\<close>, is a pair: a provider id holds no space.
\<close>

subsection \<open>State\<close>

record provisioned =
  pv_serverId :: string
  pv_matchId :: "ident option"
  pv_fleetServerId :: "ident option"

record reaper_env =
  ra_machine :: env
  ra_graceMs :: nat
  ra_ledger :: "history \<Rightarrow> bool"
  ra_list :: "history \<Rightarrow> string \<Rightarrow> string + provisioned list"
  ra_deallocate :: "history \<Rightarrow> server_ref \<Rightarrow> string + unit"

datatype reaper_call = Call_ledger | Call_list | Call_deallocate | Call_expire

record reaped_server =
  rd_server :: server_ref
  rd_matchId :: "ident option"
  rd_fleetServerId :: "ident option"

record report =
  rr_reaped :: "reaped_server list"
  rr_lost :: "server_row list"
  rr_expired :: "server_row list"
  rr_failures :: "(string \<times> reaper_call) list"

type_synonym marks = "(server_ref \<times> instant) list"

record pass =
  pa_report :: report
  pa_marks :: marks
  pa_seen :: "server_ref list"
  pa_unlisted :: "string list"

definition DEFAULT_REAPER_GRACE_MS :: nat where "DEFAULT_REAPER_GRACE_MS = 120000"

definition fail_call :: "string \<Rightarrow> reaper_call \<Rightarrow> pass \<Rightarrow> pass" where
  "fail_call provider c pa = pa\<lparr>pa_report := (pa_report pa)\<lparr>rr_failures :=
     rr_failures (pa_report pa) @ [(provider, c)]\<rparr>\<rparr>"

subsection \<open>Ceilings\<close>

definition deallocate_call :: "reaper_env \<Rightarrow> server_ref \<Rightarrow> (string + unit) step" where
  "deallocate_call R ref = call (ra_machine R) (Eff_deallocate ref) (\<lambda>h. ra_deallocate R h ref)"

definition note_expired :: "server_row \<Rightarrow> pass \<Rightarrow> pass" where
  "note_expired row pa = pa\<lparr>pa_report := (pa_report pa)\<lparr>rr_expired :=
     rr_expired (pa_report pa) @ [row]\<rparr>\<rparr>"

definition expire_row :: "reaper_env \<Rightarrow> instant \<Rightarrow> server_row \<Rightarrow> pass \<Rightarrow> pass step" where
  "expire_row R clk row pa =
    (if s_expiresAt row > clk then State_Monad.return pa
     else
       (case (s_matchId row, s_serverId row) of
          (Some mid, _) \<Rightarrow> do {
            expire (ra_machine R) mid ''the ledger row reached its expiry'';
            State_Monad.return (note_expired row pa)
          }
        | (None, None) \<Rightarrow> State_Monad.return (note_expired row pa)
        | (None, Some sid) \<Rightarrow> do {
            known \<leftarrow> registered (s_provider row);
            answer \<leftarrow> (if known then deallocate_call R (s_provider row, sid)
                       else State_Monad.return (Inr ()));
            case answer of
              Inl _ \<Rightarrow> State_Monad.return (fail_call (s_provider row) Call_expire pa)
            | Inr _ \<Rightarrow> do {
                t \<leftarrow> now;
                store_updateServer (s_id row) [Srv_state Fs_released, Srv_releasedAt (Some t),
                  Srv_releasedReason (Some ''expired with no match'')];
                State_Monad.return (note_expired row pa)
              }
          }))"

subsection \<open>Orphans and lost servers\<close>

definition accounted :: "server_row list \<Rightarrow> server_ref \<Rightarrow> bool" where
  "accounted open_rows ref \<longleftrightarrow>
     list_ex (\<lambda>r. s_provider r = fst ref \<and> s_serverId r = Some (snd ref)) open_rows"

definition rowIdFor :: "server_ref \<Rightarrow> store \<Rightarrow> ident" where
  "rowIdFor ref s = (case findServerByHandle (fst ref) (snd ref) s of
     Some row \<Rightarrow> s_id row | None \<Rightarrow> ''00000000-0000-4000-8000-000000000000'')"

text \<open>The first half of the visit of a listed server: the mark, and whether it is past its grace.\<close>

definition mark_orphan :: "instant \<Rightarrow> server_ref \<Rightarrow> pass \<Rightarrow> instant \<times> pass" where
  "mark_orphan clk ref pa =
    (let since = (case map_of (pa_marks pa) ref of None \<Rightarrow> clk | Some t \<Rightarrow> t)
     in (since, pa\<lparr>pa_seen := ref # pa_seen pa, pa_marks := map_set ref since (pa_marks pa)\<rparr>))"

definition note_reaped :: "server_ref \<Rightarrow> provisioned \<Rightarrow> pass \<Rightarrow> pass" where
  "note_reaped ref srv pa = pa\<lparr>pa_marks := map_delete ref (pa_marks pa),
     pa_seen := filter (\<lambda>k. k \<noteq> ref) (pa_seen pa),
     pa_report := (pa_report pa)\<lparr>rr_reaped := rr_reaped (pa_report pa) @
       [\<lparr>rd_server = ref, rd_matchId = pv_matchId srv, rd_fleetServerId = pv_fleetServerId srv\<rparr>]\<rparr>\<rparr>"

definition visit :: "reaper_env \<Rightarrow> instant \<Rightarrow> server_row list \<Rightarrow> string \<Rightarrow> provisioned \<Rightarrow> pass \<Rightarrow> pass step"
where
  "visit R clk open_rows provider srv pa =
    (let ref = (provider, pv_serverId srv) in
     if accounted open_rows ref then State_Monad.return pa
     else
       (let (since, pa1) = mark_orphan clk ref pa in
        if clk - since < int (ra_graceMs R) then State_Monad.return pa1
        else do {
          answer \<leftarrow> deallocate_call R ref;
          let released = (case answer of Inl _ \<Rightarrow> False | Inr _ \<Rightarrow> True);
          let pa2 = (if released then note_reaped ref srv pa1
                     else fail_call provider Call_deallocate pa1);
          s \<leftarrow> gets w_store;
          (case pv_matchId srv of
             None \<Rightarrow> skip
           | Some mid \<Rightarrow> emitTo mid (Fleet_orphan_found provider (pv_serverId srv)
               (case pv_fleetServerId srv of Some i \<Rightarrow> i | None \<Rightarrow> rowIdFor ref s) released));
          State_Monad.return pa2
        }))"

fun visit_all :: "reaper_env \<Rightarrow> instant \<Rightarrow> server_row list \<Rightarrow> string \<Rightarrow> provisioned list \<Rightarrow> pass
  \<Rightarrow> pass step" where
  "visit_all R clk open_rows provider [] pa = State_Monad.return pa"
| "visit_all R clk open_rows provider (srv # srvs) pa = do {
     pa1 \<leftarrow> visit R clk open_rows provider srv pa;
     visit_all R clk open_rows provider srvs pa1
   }"

text \<open>Lost: an open row the provider does not confirm. An expired one was dealt with above.\<close>

definition is_lost :: "instant \<Rightarrow> string \<Rightarrow> provisioned list \<Rightarrow> server_row \<Rightarrow> bool" where
  "is_lost clk provider srvs row \<longleftrightarrow> s_provider row = provider \<and> s_releasedAt row = None \<and>
     (case s_serverId row of None \<Rightarrow> False | Some sid \<Rightarrow> sid \<notin> pv_serverId ` set srvs) \<and>
     s_expiresAt row > clk"

definition surface :: "reaper_env \<Rightarrow> string \<Rightarrow> server_row \<Rightarrow> unit step" where
  "surface R provider row =
    (case (s_matchId row, s_serverId row) of
       (Some mid, Some sid) \<Rightarrow>
         suspect (ra_machine R) mid (provider @ '' no longer lists server '' @ sid)
     | _ \<Rightarrow> skip)"

definition note_lost :: "server_row list \<Rightarrow> pass \<Rightarrow> pass" where
  "note_lost rows pa = pa\<lparr>pa_report := (pa_report pa)\<lparr>rr_lost := rr_lost (pa_report pa) @ rows\<rparr>\<rparr>"

definition visit_provider :: "reaper_env \<Rightarrow> instant \<Rightarrow> server_row list \<Rightarrow> string \<Rightarrow> pass \<Rightarrow> pass step"
where
  "visit_provider R clk open_rows provider pa = do {
     h \<leftarrow> gets w_trace;
     case ra_list R h provider of
       Inl _ \<Rightarrow> State_Monad.return
         (fail_call provider Call_list (pa\<lparr>pa_unlisted := provider # pa_unlisted pa\<rparr>))
     | Inr srvs \<Rightarrow> do {
         pa1 \<leftarrow> visit_all R clk open_rows provider srvs pa;
         let rows = filter (is_lost clk provider srvs) open_rows;
         for_each (surface R provider) rows;
         State_Monad.return (note_lost rows pa1)
       }
   }"

subsection \<open>One pass\<close>

fun passes :: "('x \<Rightarrow> pass \<Rightarrow> pass step) \<Rightarrow> 'x list \<Rightarrow> pass \<Rightarrow> pass step" where
  "passes f [] pa = State_Monad.return pa"
| "passes f (x # xs) pa = do { pa1 \<leftarrow> f x pa; passes f xs pa1 }"

definition forget_marks :: "pass \<Rightarrow> pass" where
  "forget_marks pa = pa\<lparr>pa_marks :=
     filter (\<lambda>(k, _). k \<in> set (pa_seen pa) \<or> fst k \<in> set (pa_unlisted pa)) (pa_marks pa)\<rparr>"

definition empty_report :: report where
  "empty_report = \<lparr>rr_reaped = [], rr_lost = [], rr_expired = [], rr_failures = []\<rparr>"

definition start_pass :: "marks \<Rightarrow> pass" where
  "start_pass ms = \<lparr>pa_report = empty_report, pa_marks = ms, pa_seen = [], pa_unlisted = []\<rparr>"

definition reconcile :: "reaper_env \<Rightarrow> marks \<Rightarrow> (report \<times> marks) step" where
  "reconcile R ms = do {
     h \<leftarrow> gets w_trace;
     if \<not> ra_ledger R h then
       State_Monad.return (pa_report (fail_call ''ledger'' Call_ledger (start_pass ms)), ms)
     else do {
       open_rows \<leftarrow> gets (\<lambda>w. listOpenServers None (w_store w));
       t \<leftarrow> now;
       pa1 \<leftarrow> passes (expire_row R t) open_rows (start_pass ms);
       providers \<leftarrow> gets (\<lambda>w. map pe_id (w_registry w));
       pa2 \<leftarrow> passes (visit_provider R t open_rows) providers pa1;
       known \<leftarrow> gets (\<lambda>w. map pe_id (w_registry w));
       let pa3 = fold (\<lambda>row pa. if s_provider row \<in> set known then pa
                   else fail_call (s_provider row) Call_list pa) open_rows pa2;
       let pa4 = forget_marks pa3;
       State_Monad.return (pa_report pa4, pa_marks pa4)
     }
   }"

subsection \<open>What a pass may report\<close>

definition lists :: "reaper_env \<Rightarrow> server_ref \<Rightarrow> bool" where
  "lists R ref \<longleftrightarrow> (\<exists>h srvs. ra_list R h (fst ref) = Inr srvs \<and> snd ref \<in> pv_serverId ` set srvs)"

definition silent :: "reaper_env \<Rightarrow> string \<Rightarrow> bool" where
  "silent R p \<longleftrightarrow> (\<exists>h err. ra_list R h p = Inl err)"

definition past_grace :: "reaper_env \<Rightarrow> marks \<Rightarrow> instant \<Rightarrow> server_ref \<Rightarrow> bool" where
  "past_grace R ms clk ref \<longleftrightarrow> ra_graceMs R = 0 \<or>
     (\<exists>since. (ref, since) \<in> set ms \<and> clk - since \<ge> int (ra_graceMs R))"

definition justly_lost :: "reaper_env \<Rightarrow> instant \<Rightarrow> server_row \<Rightarrow> bool" where
  "justly_lost R clk row \<longleftrightarrow> s_expiresAt row > clk \<and> (\<exists>sid h srvs. s_serverId row = Some sid \<and>
     ra_list R h (s_provider row) = Inr srvs \<and> sid \<notin> pv_serverId ` set srvs)"

definition sound :: "reaper_env \<Rightarrow> marks \<Rightarrow> instant \<Rightarrow> server_row list \<Rightarrow> pass \<Rightarrow> bool" where
  "sound R ms clk rows pa \<longleftrightarrow>
     (\<forall>(ref, t) \<in> set (pa_marks pa). (ref, t) \<in> set ms \<or> t = clk) \<and>
     (\<forall>ref \<in> set (pa_seen pa). \<not> accounted rows ref) \<and>
     (\<forall>p \<in> set (pa_unlisted pa). silent R p) \<and>
     (\<forall>rd \<in> set (rr_reaped (pa_report pa)). \<not> accounted rows (rd_server rd) \<and>
        lists R (rd_server rd) \<and> past_grace R ms clk (rd_server rd)) \<and>
     (\<forall>row \<in> set (rr_lost (pa_report pa)). row \<in> set rows \<and> justly_lost R clk row)"

lemma sound_fail [simp]: "sound R ms clk rows (fail_call p c pa) = sound R ms clk rows pa"
  by (simp add: sound_def fail_call_def)

lemma sound_expired [simp]: "sound R ms clk rows (note_expired row pa) = sound R ms clk rows pa"
  by (simp add: sound_def note_expired_def)

lemma sound_start: "sound R ms clk rows (start_pass ms)"
  by (auto simp: sound_def start_pass_def empty_report_def)

lemma sound_mark:
  assumes "sound R ms clk rows pa" and "\<not> accounted rows ref"
  shows "sound R ms clk rows (snd (mark_orphan clk ref pa))"
    and "(ref, fst (mark_orphan clk ref pa)) \<in> set ms \<or> fst (mark_orphan clk ref pa) = clk"
proof -
  let ?since = "fst (mark_orphan clk ref pa)"
  show old: "(ref, ?since) \<in> set ms \<or> ?since = clk"
    using assms(1) by (auto simp: mark_orphan_def sound_def Let_def dest: map_of_SomeD split: option.splits)
  have "set (pa_marks (snd (mark_orphan clk ref pa))) \<subseteq> insert (ref, ?since) (set (pa_marks pa))"
    using set_map_set by (simp add: mark_orphan_def Let_def)
  with assms old show "sound R ms clk rows (snd (mark_orphan clk ref pa))"
    unfolding sound_def by (auto simp: mark_orphan_def Let_def)
qed

lemma sound_reaped:
  assumes "sound R ms clk rows pa" and "\<not> accounted rows ref" and "lists R ref"
    and "past_grace R ms clk ref"
  shows "sound R ms clk rows (note_reaped ref srv pa)"
  using assms by (auto simp: sound_def note_reaped_def map_delete_def)

lemma sound_visit:
  assumes "sound R ms clk rows pa" and "ra_list R h p = Inr srvs" and "srv \<in> set srvs"
  shows "sound R ms clk rows (result (visit R clk rows p srv pa) w)"
proof (cases "accounted rows (p, pv_serverId srv)")
  case True
  with assms show ?thesis by (simp add: visit_def)
next
  case False
  let ?ref = "(p, pv_serverId srv)"
  let ?since = "fst (mark_orphan clk ?ref pa)" and ?pa = "snd (mark_orphan clk ?ref pa)"
  note mark = sound_mark [OF assms(1) False]
  have "lists R ?ref" using assms(2,3) by (auto simp: lists_def)
  moreover have "past_grace R ms clk ?ref" if "\<not> clk - ?since < int (ra_graceMs R)"
    using that mark(2) by (auto simp: past_grace_def)
  ultimately have "sound R ms clk rows (note_reaped ?ref srv ?pa)"
    if "\<not> clk - ?since < int (ra_graceMs R)"
    using that mark(1) False by (intro sound_reaped) simp_all
  with False mark(1) show ?thesis
    by (auto simp: visit_def Let_def case_prod_beta split: sum.split)
qed

lemma sound_visit_all:
  "sound R ms clk rows pa \<Longrightarrow> ra_list R h p = Inr all \<Longrightarrow> set srvs \<subseteq> set all \<Longrightarrow>
    sound R ms clk rows (result (visit_all R clk rows p srvs pa) w)"
proof (induction srvs arbitrary: pa w)
  case (Cons srv srvs)
  then have "sound R ms clk rows (result (visit R clk rows p srv pa) w)"
    by (intro sound_visit [of R ms clk rows pa h p all srv]) simp_all
  with Cons show ?case by (simp add: case_prod_beta)
qed simp

lemma sound_visit_provider:
  assumes "sound R ms clk rows pa"
  shows "sound R ms clk rows (result (visit_provider R clk rows p pa) w)"
proof (cases "ra_list R (w_trace w) p")
  case (Inl err)
  then have "silent R p" by (auto simp: silent_def)
  with assms Inl show ?thesis by (simp add: visit_provider_def case_prod_beta) (simp add: sound_def)
next
  case (Inr srvs)
  let ?pa = "result (visit_all R clk rows p srvs pa) w"
  have "sound R ms clk rows ?pa" using sound_visit_all [OF assms Inr] by simp
  moreover have "justly_lost R clk row" if "is_lost clk p srvs row" for row
    using that Inr by (auto simp: is_lost_def justly_lost_def split: option.splits)
  ultimately show ?thesis using Inr
    by (auto simp: visit_provider_def case_prod_beta Let_def sound_def note_lost_def)
qed

lemma sound_expire_row:
  "sound R ms clk rows pa \<Longrightarrow> sound R ms clk rows (result (expire_row R clk row pa) w)"
  by (auto simp: expire_row_def case_prod_beta split: option.split sum.split)

lemma sound_passes:
  "(\<And>x pa w. sound R ms clk rows pa \<Longrightarrow> sound R ms clk rows (result (f x pa) w)) \<Longrightarrow>
    sound R ms clk rows pa \<Longrightarrow> sound R ms clk rows (result (passes f xs pa) w)"
  by (induction xs arbitrary: pa w) (simp_all add: case_prod_beta)

lemma sound_unregistered:
  "sound R ms clk rows pa \<Longrightarrow> sound R ms clk rows (fold (\<lambda>row pa. if s_provider row \<in> known then pa
     else fail_call (s_provider row) Call_list pa) xs pa)"
  by (induction xs arbitrary: pa) simp_all

lemma sound_reconcile:
  assumes "ra_ledger R (w_trace w)"
  obtains pa where "result (reconcile R ms) w = (pa_report (forget_marks pa), pa_marks (forget_marks pa))"
    and "sound R ms (w_now w) (listOpenServers None (w_store w)) pa"
proof -
  let ?rows = "listOpenServers None (w_store w)"
  let ?pa1 = "result (passes (expire_row R (w_now w)) ?rows (start_pass ms)) w"
  let ?w1 = "after (passes (expire_row R (w_now w)) ?rows (start_pass ms)) w"
  let ?ids = "map pe_id (w_registry ?w1)"
  let ?pa2 = "result (passes (visit_provider R (w_now w) ?rows) ?ids ?pa1) ?w1"
  let ?w2 = "after (passes (visit_provider R (w_now w) ?rows) ?ids ?pa1) ?w1"
  let ?pa3 = "fold (\<lambda>row pa. if s_provider row \<in> set (map pe_id (w_registry ?w2)) then pa
    else fail_call (s_provider row) Call_list pa) ?rows ?pa2"
  have first: "sound R ms (w_now w) ?rows ?pa1"
    by (rule sound_passes [OF sound_expire_row sound_start])
  have "sound R ms (w_now w) ?rows ?pa2"
    by (rule sound_passes [OF sound_visit_provider first])
  then have "sound R ms (w_now w) ?rows ?pa3"
    by (rule sound_unregistered)
  moreover have "result (reconcile R ms) w = (pa_report (forget_marks ?pa3), pa_marks (forget_marks ?pa3))"
    using assms by (simp add: reconcile_def case_prod_beta now_def Let_def)
  ultimately show ?thesis by (rule that [rotated])
qed

text \<open>C33: The reaper takes away only what nobody accounts for: a server it deallocated as an orphan was
  held by no open ledger row when the pass began, was listed by its provider, and had been seen
  orphaned by an earlier pass at least the grace window before (unless the window is zero). A mark
  is stamped with the time of the pass that first saw the orphan, and a server that is accounted
  for keeps no mark, so its grace starts over, unless its provider did not answer.\<close>

theorem reaped_only_past_its_grace:
  assumes "result (reconcile R ms) w = (rep, ms')"
  defines "rows \<equiv> listOpenServers None (w_store w)"
  shows "(\<forall>rd \<in> set (rr_reaped rep). \<not> accounted rows (rd_server rd) \<and> lists R (rd_server rd) \<and>
      (ra_graceMs R = 0 \<or> (\<exists>since. (rd_server rd, since) \<in> set ms \<and>
         w_now w - since \<ge> int (ra_graceMs R)))) \<and>
    (\<forall>(ref, t) \<in> set ms'. (ref, t) \<in> set ms \<or> t = w_now w) \<and>
    (ra_ledger R (w_trace w) \<longrightarrow>
      (\<forall>(ref, t) \<in> set ms'. accounted rows ref \<longrightarrow> silent R (fst ref)))"
proof (cases "ra_ledger R (w_trace w)")
  case False
  with assms(1) show ?thesis
    by (auto simp: reconcile_def case_prod_beta fail_call_def start_pass_def empty_report_def)
next
  case True
  from sound_reconcile [OF True, of ms] obtain pa
    where pa: "result (reconcile R ms) w = (pa_report (forget_marks pa), pa_marks (forget_marks pa))"
      "sound R ms (w_now w) rows pa"
    unfolding rows_def by blast
  with assms(1) have "rep = pa_report pa" "ms' = pa_marks (forget_marks pa)"
    by (simp_all add: forget_marks_def)
  with pa(2) show ?thesis
    by (fastforce simp: sound_def past_grace_def forget_marks_def)
qed

text \<open>A pass over a provider that runs one server nobody accounts for, first seen two minutes ago.\<close>

definition sample_reaper :: "string + provisioned list \<Rightarrow> reaper_env" where
  "sample_reaper truth = \<lparr>ra_machine = sample_env, ra_graceMs = DEFAULT_REAPER_GRACE_MS,
     ra_ledger = (\<lambda>_. True), ra_list = (\<lambda>_ _. truth), ra_deallocate = (\<lambda>_ _. Inr ())\<rparr>"

definition sample_orphan :: provisioned where
  "sample_orphan = \<lparr>pv_serverId = ''s9'', pv_matchId = None, pv_fleetServerId = None\<rparr>"

lemma no_open_rows:
  "listOpenServers None (w_store (initial_world d reg t)) = []"
  by (simp add: initial_world_def createMemoryMatchStore_def listOpenServers_def newestFirst_def)

lemma sample_pass:
  "result (reconcile (sample_reaper (Inr [sample_orphan])) [((''p'', ''s9''), 0)])
     (initial_world ''d'' sample_registry 120000) =
   (\<lparr>rr_reaped = [\<lparr>rd_server = (''p'', ''s9''), rd_matchId = None, rd_fleetServerId = None\<rparr>],
     rr_lost = [], rr_expired = [], rr_failures = []\<rparr>, [])"
  by (simp add: reconcile_def case_prod_beta now_def no_open_rows)
    (simp add: case_prod_beta initial_world_def sample_registry_def Let_def start_pass_def empty_report_def forget_marks_def
      visit_provider_def visit_def sample_reaper_def sample_orphan_def accounted_def mark_orphan_def
      DEFAULT_REAPER_GRACE_MS_def deallocate_call_def call_def note_reaped_def note_lost_def
      map_delete_def skip_def)

theorem reaped_only_past_its_grace_witness:
  "map rd_server (rr_reaped (fst (result (reconcile (sample_reaper (Inr [sample_orphan]))
     [((''p'', ''s9''), 0)]) (initial_world ''d'' sample_registry 120000)))) = [(''p'', ''s9'')] \<and>
   lists (sample_reaper (Inr [sample_orphan])) (''p'', ''s9'')"
  using reaped_only_past_its_grace [OF sample_pass] by (simp add: sample_pass)

text \<open>A provider that does not answer loses nothing and reaps nothing: every row a pass reports lost
  was open when the pass began, is not past its ceiling, and its own provider answered with a list
  the server is not on; and when the ledger itself cannot be read the pass reports one failure,
  touches no match, no row and no provider, and keeps every mark.\<close>

theorem an_outage_loses_nothing:
  assumes "result (reconcile R ms) w = (rep, ms')"
  shows "(\<forall>row \<in> set (rr_lost rep). row \<in> set (listOpenServers None (w_store w)) \<and>
      s_expiresAt row > w_now w \<and> (\<exists>sid h srvs. s_serverId row = Some sid \<and>
        ra_list R h (s_provider row) = Inr srvs \<and> sid \<notin> pv_serverId ` set srvs)) \<and>
    (\<not> ra_ledger R (w_trace w) \<longrightarrow> after (reconcile R ms) w = w \<and> ms' = ms \<and>
      rep = empty_report\<lparr>rr_failures := [(''ledger'', Call_ledger)]\<rparr>)"
proof (cases "ra_ledger R (w_trace w)")
  case False
  with assms show ?thesis
    by (auto simp: reconcile_def case_prod_beta fail_call_def start_pass_def empty_report_def)
next
  case True
  from sound_reconcile [OF True, of ms] obtain pa
    where "result (reconcile R ms) w = (pa_report (forget_marks pa), pa_marks (forget_marks pa))"
      "sound R ms (w_now w) (listOpenServers None (w_store w)) pa" by blast
  with assms have "rep = pa_report pa" "sound R ms (w_now w) (listOpenServers None (w_store w)) pa"
    by (simp_all add: forget_marks_def)
  with True show ?thesis by (simp add: sound_def justly_lost_def)
qed

definition sample_stray :: server_row where
  "sample_stray = sample_server\<lparr>s_matchId := None, s_deployment := ''d''\<rparr>"

definition sample_stray_world :: world where
  "sample_stray_world = (initial_world ''d'' sample_registry 0)
     \<lparr>w_store := (createMemoryMatchStore ''d'')\<lparr>servers := [sample_stray]\<rparr>\<rparr>"

lemma sample_stray_open: "listOpenServers None (w_store sample_stray_world) = [sample_stray]"
  by code_simp

lemma sample_stray_row: "s_provider sample_stray = ''p''" "s_serverId sample_stray = Some ''s1''"
  "s_matchId sample_stray = None" "s_releasedAt sample_stray = None" "s_expiresAt sample_stray > 0"
  by code_simp+

lemma sample_lost:
  "rr_lost (fst (result (reconcile (sample_reaper (Inr [])) []) sample_stray_world)) = [sample_stray]"
proof -
  have "w_now sample_stray_world = 0" "w_registry sample_stray_world = sample_registry"
    by (simp_all add: sample_stray_world_def initial_world_def)
  then show ?thesis
    by (simp add: reconcile_def case_prod_beta now_def sample_stray_open sample_stray_row
      sample_registry_def Let_def start_pass_def empty_report_def forget_marks_def surface_def
      visit_provider_def sample_reaper_def note_lost_def expire_row_def is_lost_def skip_def)
qed

theorem an_outage_loses_nothing_witness:
  "s_expiresAt sample_stray > w_now sample_stray_world \<and>
   (\<exists>h srvs. ra_list (sample_reaper (Inr [])) h ''p'' = Inr srvs \<and> ''s1'' \<notin> pv_serverId ` set srvs)"
  using an_outage_loses_nothing [of "sample_reaper (Inr [])" "[]" sample_stray_world, OF prod.collapse [symmetric]]
  by (simp add: sample_lost sample_stray_row)

end
