(* ===== verification/Webhooks.thy ===== *)
theory Webhooks
  imports Match_Api "HOL-Library.Word"
begin

unbundle bit_operations_syntax

text \<open>
  The webhook contract of \<open>packages/match-api/src/webhooks\<close>: the signature scheme
  (\<open>signature.ts\<close>), the consumer's verification (\<open>verify.ts\<close>) and its dedupe (\<open>deduper.ts\<close>), the
  retry policy (\<open>retry.ts\<close>) and the cursor of the replay (\<open>events.ts\<close>).

  \<^item> HMAC-SHA256 is an argument: from a secret and a payload to the bytes of the digest.
  \<^item> \<open>JSON.parse\<close> with the schema of an envelope is an argument of \<open>verifyWebhook\<close>.
  \<^item> The locale \<open>seen_store\<close> is what the dedupe asks of its store; the bounded in-memory store is an
    instance as long as it has room.
\<close>

subsection \<open>Signing\<close>

type_synonym hmac = "string \<Rightarrow> string \<Rightarrow> 8 word list"

definition WEBHOOK_SIGNATURE_HEADER :: string where "WEBHOOK_SIGNATURE_HEADER = ''x-ezpug-signature''"
definition WEBHOOK_DELIVERY_HEADER :: string where "WEBHOOK_DELIVERY_HEADER = ''x-ezpug-delivery''"
definition WEBHOOK_ATTEMPT_HEADER :: string where "WEBHOOK_ATTEMPT_HEADER = ''x-ezpug-attempt''"
definition WEBHOOK_SIGNATURE_VERSION :: string where "WEBHOOK_SIGNATURE_VERSION = ''v1''"
definition WEBHOOK_SIGNATURE_TOLERANCE_MS :: int where "WEBHOOK_SIGNATURE_TOLERANCE_MS = 5 * 60 * 1000"
definition WEBHOOK_CONTENT_TYPE :: string where "WEBHOOK_CONTENT_TYPE = ''application/json''"

definition hex_digit :: "nat \<Rightarrow> char" where
  "hex_digit n = (if n < 10 then char_of (48 + n) else char_of (87 + n))"

fun toHex :: "8 word list \<Rightarrow> string" where
  "toHex [] = ''''"
| "toHex (b # bs) = hex_digit (unat b div 16) # hex_digit (unat b mod 16) # toHex bs"

definition hmacSha256Hex :: "hmac \<Rightarrow> string \<Rightarrow> string \<Rightarrow> string" where
  "hmacSha256Hex h secret body = toHex (h secret body)"

fun ct_diff :: "nat \<Rightarrow> string \<Rightarrow> string \<Rightarrow> nat" where
  "ct_diff d (a # as) (b # bs) = ct_diff (d OR (of_char a XOR of_char b)) as bs"
| "ct_diff d _ _ = d"

definition constantTimeEqual :: "string \<Rightarrow> string \<Rightarrow> bool" where
  "constantTimeEqual a b = (if length a \<noteq> length b then False else ct_diff 0 a b = 0)"

definition webhookSignedPayload :: "int \<Rightarrow> string \<Rightarrow> string" where
  "webhookSignedPayload timestampSeconds body = decimal timestampSeconds @ ''.'' @ body"

definition signWebhook :: "hmac \<Rightarrow> string \<Rightarrow> string \<Rightarrow> string \<Rightarrow> instant \<Rightarrow> string" where
  "signWebhook h body secretId secret now =
    (let t = now div 1000; digest = hmacSha256Hex h secret (webhookSignedPayload t body)
     in ''t='' @ decimal t @ '',kid='' @ secretId @ '','' @ WEBHOOK_SIGNATURE_VERSION @ ''='' @ digest)"

subsection \<open>Reading a signature header\<close>

record parsed_signature =
  ps_timestamp :: "nat option"
  ps_secretId :: "string option"
  ps_signatures :: "string list"

definition hex_char :: "char \<Rightarrow> bool" where
  "hex_char c \<longleftrightarrow> digit_char c \<or> (of_char c :: nat) \<in> {97..102}"

fun parse_elements :: "string list \<Rightarrow> parsed_signature \<Rightarrow> parsed_signature option" where
  "parse_elements [] p = Some p"
| "parse_elements (element # rest) p =
    (let name = takeWhile (\<lambda>c. c \<noteq> CHR ''='') element in
     if name = [] \<or> name = element then None
     else
       (let key = trim name; value = trim (drop (Suc (length name)) element) in
        if key = ''t'' then
          (if length value \<in> {1..12} \<and> list_all digit_char value
           then parse_elements rest (p\<lparr>ps_timestamp := Some (digits_value value)\<rparr>) else None)
        else if key = ''kid'' then
          (if value = [] then None else parse_elements rest (p\<lparr>ps_secretId := Some value\<rparr>))
        else if key = WEBHOOK_SIGNATURE_VERSION then
          (if length value = 64 \<and> list_all hex_char value
           then parse_elements rest (p\<lparr>ps_signatures := ps_signatures p @ [value]\<rparr>) else None)
        else parse_elements rest p))"

definition no_signature :: parsed_signature where
  "no_signature = \<lparr>ps_timestamp = None, ps_secretId = None, ps_signatures = []\<rparr>"

text \<open>The time stamp, the secret id, the digests.\<close>

definition parseWebhookSignature :: "string \<Rightarrow> (nat \<times> string option \<times> string list) option" where
  "parseWebhookSignature header =
    (case parse_elements (split_on CHR '','' header) no_signature of
       None \<Rightarrow> None
     | Some p \<Rightarrow>
        (case ps_timestamp p of
           None \<Rightarrow> None
         | Some t \<Rightarrow> if ps_signatures p = [] then None
             else Some (t, ps_secretId p, ps_signatures p)))"

subsection \<open>Verifying\<close>

datatype signature_failure =
  Missing_header | Malformed_header | Stale_timestamp | Unknown_secret | Signature_mismatch

type_synonym webhook_secrets = "(string \<times> string) list"

definition candidates_for :: "string option \<Rightarrow> webhook_secrets \<Rightarrow> webhook_secrets" where
  "candidates_for kid secrets =
    (case kid of
       None \<Rightarrow> secrets
     | Some i \<Rightarrow> (case map_of secrets i of None \<Rightarrow> [] | Some secret \<Rightarrow> [(i, secret)]))"

definition verifyWebhookSignature ::
  "hmac \<Rightarrow> string option \<Rightarrow> string \<Rightarrow> webhook_secrets \<Rightarrow> instant \<Rightarrow> int option
     \<Rightarrow> signature_failure + string \<times> nat" where
  "verifyWebhookSignature h header body secrets now toleranceMs =
    (case header of
       None \<Rightarrow> Inl Missing_header
     | Some text \<Rightarrow>
        if text = [] then Inl Missing_header
        else
          (case parseWebhookSignature text of
             None \<Rightarrow> Inl Malformed_header
           | Some (t, kid, signatures) \<Rightarrow>
              (let tolerance = (case toleranceMs of None \<Rightarrow> WEBHOOK_SIGNATURE_TOLERANCE_MS | Some x \<Rightarrow> x) in
               if \<bar>now - int t * 1000\<bar> > tolerance then Inl Stale_timestamp
               else if candidates_for kid secrets = [] then Inl Unknown_secret
               else
                 (case find (\<lambda>(i, secret). list_ex (\<lambda>s. constantTimeEqual s
                       (hmacSha256Hex h secret (webhookSignedPayload (int t) body))) signatures)
                     (candidates_for kid secrets) of
                    None \<Rightarrow> Inl Signature_mismatch
                  | Some (i, _) \<Rightarrow> Inr (i, t)))))"

subsection \<open>The consumer's half\<close>

text \<open>Headers arrive as \<open>Headers\<close> (whose \<open>get\<close> joins repeated values), as pairs, or as a record.\<close>

datatype header_value = Absent | One string | Many "string list"

datatype webhook_headers =
    Fetch_headers "(string \<times> string) list"
  | Header_pairs "(string \<times> string) list"
  | Header_record "(string \<times> header_value) list"

definition lower_char :: "char \<Rightarrow> char" where
  "lower_char c = (if 65 \<le> (of_char c :: nat) \<and> (of_char c :: nat) \<le> 90
     then char_of (of_char c + 32 :: nat) else c)"

definition lower :: "string \<Rightarrow> string" where "lower = map lower_char"

fun join_values :: "string list \<Rightarrow> string" where
  "join_values [] = ''''"
| "join_values [v] = v"
| "join_values (v # vs) = v @ '', '' @ join_values vs"

fun webhookHeader :: "webhook_headers \<Rightarrow> string \<Rightarrow> string option" where
  "webhookHeader (Fetch_headers hs) name =
    (case map snd (filter (\<lambda>(k, _). lower k = lower name) hs) of
       [] \<Rightarrow> None | vs \<Rightarrow> Some (join_values vs))"
| "webhookHeader (Header_pairs hs) name =
    map_option snd (find (\<lambda>(k, _). lower k = lower name) hs)"
| "webhookHeader (Header_record hs) name =
    (case find (\<lambda>(k, _). lower k = lower name) hs of
       None \<Rightarrow> None
     | Some (_, Absent) \<Rightarrow> None
     | Some (_, One v) \<Rightarrow> Some v
     | Some (_, Many []) \<Rightarrow> None
     | Some (_, Many (v # _)) \<Rightarrow> Some v)"

record envelope =
  v_deliveryId :: ident
  v_matchId :: ident
  v_clientMatchId :: ident
  v_seq :: nat
  v_occurredAt :: instant
  v_payload :: payload

record verified =
  vf_envelope :: envelope
  vf_secretId :: string
  vf_deliveryId :: string
  vf_attempt :: nat
  vf_timestamp :: nat

datatype verification_failure = Bad_signature signature_failure | Invalid_body

definition failure_status :: "verification_failure \<Rightarrow> nat" where
  "failure_status f = (case f of Bad_signature _ \<Rightarrow> 401 | Invalid_body \<Rightarrow> 400)"

definition attempt_of :: "string option \<Rightarrow> nat" where
  "attempt_of header =
    (case header of
       None \<Rightarrow> 1
     | Some text \<Rightarrow>
        (let n = (if text \<noteq> [] \<and> list_all digit_char text then digits_value text else 1)
         in if n > 0 then n else 1))"

definition verifyWebhook ::
  "hmac \<Rightarrow> (string \<Rightarrow> envelope option) \<Rightarrow> webhook_headers \<Rightarrow> string \<Rightarrow> webhook_secrets \<Rightarrow> instant
     \<Rightarrow> int option \<Rightarrow> verification_failure + verified" where
  "verifyWebhook h parseEnvelope headers body secrets now toleranceMs =
    (case verifyWebhookSignature h (webhookHeader headers WEBHOOK_SIGNATURE_HEADER) body secrets now
        toleranceMs of
       Inl reason \<Rightarrow> Inl (Bad_signature reason)
     | Inr (secretId, t) \<Rightarrow>
        (case parseEnvelope body of
           None \<Rightarrow> Inl Invalid_body
         | Some v \<Rightarrow> Inr
            \<lparr>vf_envelope = v, vf_secretId = secretId,
             vf_deliveryId = (case webhookHeader headers WEBHOOK_DELIVERY_HEADER of
                None \<Rightarrow> v_deliveryId v | Some i \<Rightarrow> i),
             vf_attempt = attempt_of (webhookHeader headers WEBHOOK_ATTEMPT_HEADER),
             vf_timestamp = t\<rparr>))"

subsection \<open>The retry policy\<close>

definition WEBHOOK_RETRY_DELAYS_MS :: "nat list" where
  "WEBHOOK_RETRY_DELAYS_MS = [5000, 30000, 2 * 60000, 10 * 60000, 30 * 60000, 60 * 60000,
     2 * 60 * 60000, 4 * 60 * 60000, 8 * 60 * 60000]"

definition WEBHOOK_MAX_ATTEMPTS :: nat where
  "WEBHOOK_MAX_ATTEMPTS = length WEBHOOK_RETRY_DELAYS_MS + 1"

definition WEBHOOK_ATTEMPT_TIMEOUT_MS :: nat where "WEBHOOK_ATTEMPT_TIMEOUT_MS = 10000"

definition WEBHOOK_STOP_STATUS :: nat where "WEBHOOK_STOP_STATUS = 410"

datatype attempt_outcome = Oc_delivered | Oc_retry | Oc_stopped

definition webhookAttemptOutcome :: "nat option \<Rightarrow> attempt_outcome" where
  "webhookAttemptOutcome status =
    (case status of
       None \<Rightarrow> Oc_retry
     | Some n \<Rightarrow> if n \<ge> 200 \<and> n < 300 then Oc_delivered
         else if n = WEBHOOK_STOP_STATUS then Oc_stopped else Oc_retry)"

text \<open>\<open>Inl\<close> is the thrown \<open>RangeError\<close>, \<open>Inr None\<close> an exhausted schedule.\<close>

definition webhookRetryDelayMs :: "nat \<Rightarrow> unit + nat option" where
  "webhookRetryDelayMs attempt =
    (if attempt < 1 then Inl ()
     else Inr (if attempt - 1 < length WEBHOOK_RETRY_DELAYS_MS
       then Some (WEBHOOK_RETRY_DELAYS_MS ! (attempt - 1)) else None))"

subsection \<open>The dedupe\<close>

definition deliveryKey :: "string \<Rightarrow> string" where "deliveryKey i = ''delivery:'' @ i"

definition factKey :: "string \<Rightarrow> nat \<Rightarrow> string" where
  "factKey i n = ''fact:'' @ i @ '':'' @ decimal_nat n"

datatype delivery_duplicate = Duplicate_delivery | Duplicate_fact

text \<open>The store is the caller's: its \<open>has\<close> and \<open>add\<close>.\<close>

definition dedupe :: "('s \<Rightarrow> string \<Rightarrow> bool) \<Rightarrow> (string \<Rightarrow> 's \<Rightarrow> 's) \<Rightarrow> envelope \<Rightarrow> 's
  \<Rightarrow> delivery_duplicate option \<times> 's" where
  "dedupe has add v s =
    (let delivery = deliveryKey (v_deliveryId v); fact = factKey (v_matchId v) (v_seq v) in
     if has s delivery then (Some Duplicate_delivery, s)
     else if has s fact then (Some Duplicate_fact, add delivery s)
     else (None, add fact (add delivery s)))"

text \<open>The in-memory store: a \<open>Set\<close> in insertion order that drops its oldest keys over the bound.\<close>

record memory_seen =
  ms_max :: nat
  ms_keys :: "string list"

definition memory_has :: "memory_seen \<Rightarrow> string \<Rightarrow> bool" where
  "memory_has s k \<longleftrightarrow> k \<in> set (ms_keys s)"

definition memory_add :: "string \<Rightarrow> memory_seen \<Rightarrow> memory_seen" where
  "memory_add k s =
    (let ks = (if k \<in> set (ms_keys s) then ms_keys s else ms_keys s @ [k])
     in s\<lparr>ms_keys := drop (length ks - ms_max s) ks\<rparr>)"


text \<open>A consumer: it handles what the dedupe calls new.\<close>

fun handled :: "('s \<Rightarrow> string \<Rightarrow> bool) \<Rightarrow> (string \<Rightarrow> 's \<Rightarrow> 's) \<Rightarrow> envelope list \<Rightarrow> 's \<Rightarrow> envelope list"
where
  "handled has add [] s = []"
| "handled has add (v # vs) s =
    (case dedupe has add v s of
       (None, s') \<Rightarrow> v # handled has add vs s'
     | (Some _, s') \<Rightarrow> handled has add vs s')"

subsection \<open>The cursor of the replay\<close>

definition eventsCursor :: "int \<Rightarrow> string option" where
  "eventsCursor seq = (if seq < 0 then None else Some (decimal seq))"

definition is_events_cursor :: "string \<Rightarrow> bool" where
  "is_events_cursor s \<longleftrightarrow> s = ''0'' \<or> s \<noteq> [] \<and> list_all digit_char s \<and> hd s \<noteq> CHR ''0''"

definition parseEventsCursor :: "string \<Rightarrow> nat option" where
  "parseEventsCursor s = (if is_events_cursor s then Some (digits_value s) else None)"

subsection \<open>Digests and time stamps read back\<close>

lemma hex_char_digit: "n < 16 \<Longrightarrow> hex_char (hex_digit n)"
  by (auto simp: hex_char_def hex_digit_def digit_char_def)

lemma toHex_hex: "list_all hex_char (toHex bs)"
proof (induction bs)
  case (Cons b bs)
  have "unat b < 256" using unsigned_less [where 'a = nat, of b] by simp
  then have "unat b div 16 < 16" "unat b mod 16 < 16" by simp_all
  with Cons show ?case by (simp add: hex_char_digit)
qed simp

lemma length_toHex [simp]: "length (toHex bs) = 2 * length bs"
  by (induction bs) simp_all

lemma hex_char_cases: "hex_char c \<Longrightarrow> c \<noteq> CHR '','' \<and> c \<noteq> CHR ''='' \<and> \<not> white_space c"
  by (auto simp: hex_char_def digit_char_def white_space_def)

lemma digit_char_hex: "list_all digit_char s \<Longrightarrow> list_all hex_char s"
  by (auto simp: hex_char_def list_all_iff)

lemma trim_hex: "list_all hex_char s \<Longrightarrow> trim s = s"
  by (rule trim_solid) (cases "s = []"; use hex_char_cases in \<open>auto simp: list_all_iff\<close>)

lemma comma_hex: "list_all hex_char s \<Longrightarrow> CHR '','' \<notin> set s"
  using hex_char_cases by (auto simp: list_all_iff)

lemma length_decimal_nat: "n < 10 ^ Suc k \<Longrightarrow> length (decimal_nat n) \<le> Suc k"
proof (induction k arbitrary: n)
  case 0
  then show ?case by (simp add: decimal_nat.simps [of n])
next
  case (Suc k)
  then have "n div 10 < 10 ^ Suc k" by (simp add: less_mult_imp_div_less)
  from Suc.IH [OF this] show ?case by (simp add: decimal_nat.simps [of n])
qed

lemma xor_eq_0_nat: "(a :: nat) XOR b = 0 \<longleftrightarrow> a = b"
  by (simp add: bit_eq_iff bit_xor_iff)

lemma ct_diff_eq: "length a = length b \<Longrightarrow> ct_diff d a b = 0 \<longleftrightarrow> d = 0 \<and> a = b"
  by (induction d a b rule: ct_diff.induct) (auto simp: or_eq_0_iff xor_eq_0_nat)

text \<open>Comparing in constant time is comparing.\<close>

lemma constantTimeEqual_eq: "constantTimeEqual a b \<longleftrightarrow> a = b"
  by (auto simp: constantTimeEqual_def ct_diff_eq)

lemma parse_element:
  assumes "CHR ''='' \<notin> set key" and "key \<noteq> []"
  shows "parse_elements ((key @ CHR ''='' # value) # rest) p =
    (let k = trim key; v = trim value in
     if k = ''t'' then
       (if length v \<in> {1..12} \<and> list_all digit_char v
        then parse_elements rest (p\<lparr>ps_timestamp := Some (digits_value v)\<rparr>) else None)
     else if k = ''kid'' then
       (if v = [] then None else parse_elements rest (p\<lparr>ps_secretId := Some v\<rparr>))
     else if k = WEBHOOK_SIGNATURE_VERSION then
       (if length v = 64 \<and> list_all hex_char v
        then parse_elements rest (p\<lparr>ps_signatures := ps_signatures p @ [v]\<rparr>) else None)
     else parse_elements rest p)"
proof -
  have "takeWhile (\<lambda>c. c \<noteq> CHR ''='') (key @ CHR ''='' # value) = key"
    using assms(1) by (subst takeWhile_append2) auto
  with assms(2) show ?thesis by (simp add: Let_def)
qed

lemma trim_names: "trim ''t'' = ''t''" "trim ''kid'' = ''kid''" "trim ''v1'' = ''v1''"
  by code_simp+

lemma parse_t:
  "list_all digit_char D \<Longrightarrow> length D \<in> {1..12} \<Longrightarrow> parse_elements ((''t='' @ D) # rest) p =
    parse_elements rest (p\<lparr>ps_timestamp := Some (digits_value D)\<rparr>)"
  using parse_element [of "''t''" D rest p]
  by (simp add: Let_def trim_names trim_hex digit_char_hex del: parse_elements.simps)

lemma parse_kid:
  "trim i = i \<Longrightarrow> i \<noteq> [] \<Longrightarrow> parse_elements ((''kid='' @ i) # rest) p =
    parse_elements rest (p\<lparr>ps_secretId := Some i\<rparr>)"
  using parse_element [of "''kid''" i rest p]
  by (simp add: Let_def trim_names del: parse_elements.simps)

lemma parse_v1:
  "list_all hex_char X \<Longrightarrow> length X = 64 \<Longrightarrow> parse_elements ((''v1='' @ X) # rest) p =
    parse_elements rest (p\<lparr>ps_signatures := ps_signatures p @ [X]\<rparr>)"
  using parse_element [of "''v1''" X rest p]
  by (simp add: Let_def trim_names trim_hex WEBHOOK_SIGNATURE_VERSION_def del: parse_elements.simps)

lemma parse_signed:
  assumes "list_all digit_char D" "length D \<in> {1..12}" "list_all hex_char X" "length X = 64"
    and "trim i = i" "i \<noteq> []" "CHR '','' \<notin> set i"
  shows "parseWebhookSignature (''t='' @ D @ '',kid='' @ i @ '',v1='' @ X) =
    Some (digits_value D, Some i, [X])"
proof -
  have "split_on CHR '','' (''t='' @ D @ '',kid='' @ i @ '',v1='' @ X) =
      [''t='' @ D, ''kid='' @ i, ''v1='' @ X]"
    using split_on_append [of "CHR '',''" "''t='' @ D" "''kid='' @ i @ '',v1='' @ X"]
      split_on_append [of "CHR '',''" "''kid='' @ i" "''v1='' @ X"]
      split_on_absent [of "CHR '',''" "''v1='' @ X"] assms
    by (simp add: comma_hex digit_char_hex)
  then have "parse_elements (split_on CHR '','' (''t='' @ D @ '',kid='' @ i @ '',v1='' @ X)) no_signature =
      Some \<lparr>ps_timestamp = Some (digits_value D), ps_secretId = Some i, ps_signatures = [X]\<rparr>"
    by (simp only: parse_t [OF assms(1,2)] parse_kid [OF assms(5,6)] parse_v1 [OF assms(3,4)])
      (simp add: no_signature_def)
  then show ?thesis by (simp only: parseWebhookSignature_def) simp
qed

lemma parse_signWebhook:
  assumes "length (h secret (webhookSignedPayload (sent div 1000) body)) = 32"
    and "0 \<le> sent" "sent < 10 ^ 15" and "trim i = i" "i \<noteq> []" "CHR '','' \<notin> set i"
  shows "parseWebhookSignature (signWebhook h body i secret sent) = Some (nat (sent div 1000), Some i,
    [hmacSha256Hex h secret (webhookSignedPayload (sent div 1000) body)])"
proof -
  let ?t = "nat (sent div 1000)"
  have t: "decimal (sent div 1000) = decimal_nat ?t"
    using assms(2) by (simp add: decimal_def pos_imp_zdiv_neg_iff)
  have "?t < 10 ^ Suc 11" using assms(2,3) by simp
  from length_decimal_nat [OF this] have "length (decimal_nat ?t) \<in> {1..12}"
    by (simp add: Suc_le_eq)
  from parse_signed [OF decimal_nat_digits this toHex_hex _ assms(4-6),
      of "h secret (webhookSignedPayload (sent div 1000) body)"] assms(1) t
  show ?thesis by (simp add: signWebhook_def Let_def WEBHOOK_SIGNATURE_VERSION_def hmacSha256Hex_def)
qed


subsection \<open>What a signature promises\<close>

text \<open>What the orchestrator signs, the consumer verifies. The id must be one the header can carry: not
  empty, no comma, no white space at its ends.\<close>

lemma signed_delivery_verifies:
  assumes "\<And>s p. length (h s p) = 32"
    and "map_of secrets i = Some secret" and "trim i = i" "i \<noteq> []" "CHR '','' \<notin> set i"
    and "0 \<le> sent" "sent < 10 ^ 15" and "\<bar>now - sent\<bar> \<le> WEBHOOK_SIGNATURE_TOLERANCE_MS - 1000"
  shows "verifyWebhookSignature h (Some (signWebhook h body i secret sent)) body secrets now None =
    Inr (i, nat (sent div 1000))"
proof -
  have "int (nat (sent div 1000)) = sent div 1000" using assms(6) by simp
  moreover have "\<bar>now - sent div 1000 * 1000\<bar> \<le> WEBHOOK_SIGNATURE_TOLERANCE_MS"
    using assms(8) by (simp add: WEBHOOK_SIGNATURE_TOLERANCE_MS_def)
  moreover have "signWebhook h body i secret sent \<noteq> []" by (simp add: signWebhook_def Let_def)
  moreover note parse_signWebhook [OF assms(1) assms(6,7,3,4,5)]
  ultimately show ?thesis
    using assms(2) by (simp add: verifyWebhookSignature_def candidates_for_def constantTimeEqual_eq)
qed

definition sample_hmac :: hmac where
  "sample_hmac secret body = replicate 32 (word_of_nat (length secret + length body))"

lemma candidates_for_set:
  "distinct (map fst secrets) \<Longrightarrow> set (candidates_for kid secrets) =
    {(i, secret) \<in> set secrets. kid = None \<or> kid = Some i}"
  by (auto simp: candidates_for_def split: option.splits dest: map_of_SomeD)

definition genuine ::
  "hmac \<Rightarrow> string \<Rightarrow> webhook_secrets \<Rightarrow> nat \<times> string option \<times> string list \<Rightarrow> string \<Rightarrow> bool" where
  "genuine h body secrets parsed i \<longleftrightarrow> (case parsed of (t, kid, digests) \<Rightarrow>
     (kid = None \<or> kid = Some i) \<and> (\<exists>secret. (i, secret) \<in> set secrets \<and>
       hmacSha256Hex h secret (webhookSignedPayload (int t) body) \<in> set digests))"

text \<open>C34: The verifier accepts exactly what was signed: on a header that parses, an answer names a
  secret the consumer knows (the one the header names, if it names one), the time stamp is within
  the tolerance, and one of the digests is the HMAC of time stamp, dot and body under that secret;
  and whenever such a secret exists some secret is answered. The comparison in constant time is
  exact, and a stale header is refused without one.\<close>

theorem accepted_iff_signed:
  assumes "parseWebhookSignature text = Some (t, kid, digests)" and "distinct (map fst secrets)"
    and "text \<noteq> []"
  shows "case verifyWebhookSignature h (Some text) body secrets now (Some tolerance) of
      Inr (i, t') \<Rightarrow> t' = t \<and> \<bar>now - int t * 1000\<bar> \<le> tolerance \<and>
        genuine h body secrets (t, kid, digests) i
    | Inl Stale_timestamp \<Rightarrow> \<bar>now - int t * 1000\<bar> > tolerance
    | Inl reason \<Rightarrow> reason \<in> {Unknown_secret, Signature_mismatch} \<and>
        \<bar>now - int t * 1000\<bar> \<le> tolerance \<and> (\<nexists>i. genuine h body secrets (t, kid, digests) i)"
proof -
  let ?P = "\<lambda>(i, secret). list_ex (\<lambda>s. constantTimeEqual s
    (hmacSha256Hex h secret (webhookSignedPayload (int t) body))) digests"
  let ?cs = "candidates_for kid secrets"
  have genuine: "genuine h body secrets (t, kid, digests) i \<longleftrightarrow>
      (\<exists>secret. (i, secret) \<in> set ?cs \<and> ?P (i, secret))" for i
    using candidates_for_set [OF assms(2), of kid]
    by (auto simp: genuine_def constantTimeEqual_eq list_ex_iff)
  have answer: "verifyWebhookSignature h (Some text) body secrets now (Some tolerance) =
      (if \<bar>now - int t * 1000\<bar> > tolerance then Inl Stale_timestamp
       else if ?cs = [] then Inl Unknown_secret
       else (case find ?P ?cs of None \<Rightarrow> Inl Signature_mismatch | Some (i, _) \<Rightarrow> Inr (i, t)))"
    using assms(1,3) by (simp add: verifyWebhookSignature_def)
  show ?thesis
  proof (cases "find ?P ?cs")
    case None
    then have "\<nexists>i. genuine h body secrets (t, kid, digests) i"
      unfolding genuine find_None_iff by blast
    with None show ?thesis by (auto simp: answer)
  next
    case (Some c)
    then obtain i secret where "find ?P ?cs = Some (i, secret)" by (cases c) simp
    with find_SomeD [OF this] have "genuine h body secrets (t, kid, digests) i" "?cs \<noteq> []"
      unfolding genuine by auto
    with \<open>find ?P ?cs = Some (i, secret)\<close> show ?thesis by (simp add: answer)
  qed
qed

theorem accepted_iff_signed_witness:
  "case verifyWebhookSignature sample_hmac
      (Some (''t=5,v1='' @ hmacSha256Hex sample_hmac ''s1'' (webhookSignedPayload 5 ''{}'')))
      ''{}'' [(''k0'', ''s00''), (''k1'', ''s1'')] 5000 (Some 1000) of
    Inr (i, t) \<Rightarrow> t = 5 \<and> genuine sample_hmac ''{}'' [(''k0'', ''s00''), (''k1'', ''s1'')]
      (5, None, [hmacSha256Hex sample_hmac ''s1'' (webhookSignedPayload 5 ''{}'')]) i
  | Inl _ \<Rightarrow> False"
proof -
  let ?X = "hmacSha256Hex sample_hmac ''s1'' (webhookSignedPayload 5 ''{}'')"
  let ?secrets = "[(''k0'', ''s00''), (''k1'', ''s1'')]"
  have X: "list_all hex_char ?X" "length ?X = 64"
    by (simp_all add: hmacSha256Hex_def toHex_hex sample_hmac_def)
  have "split_on CHR '','' (''t=5,v1='' @ ?X) = [''t='' @ ''5'', ''v1='' @ ?X]"
    using X(1) by (simp add: split_on_absent comma_hex)
  then have "parse_elements (split_on CHR '','' (''t=5,v1='' @ ?X)) no_signature =
      Some \<lparr>ps_timestamp = Some 5, ps_secretId = None, ps_signatures = [?X]\<rparr>"
    using parse_t [of "''5''" "[''v1='' @ ?X]" no_signature] parse_v1 [OF X]
    by (simp add: digit_char_def digits_value_def no_signature_def del: parse_elements.simps)
      simp
  then have "parseWebhookSignature (''t=5,v1='' @ ?X) = Some (5, None, [?X])"
    by (simp only: parseWebhookSignature_def) simp
  from accepted_iff_signed [OF this, where secrets = ?secrets and h = sample_hmac and body = "''{}''"
      and now = 5000 and tolerance = 1000]
  have "case verifyWebhookSignature sample_hmac (Some (''t=5,v1='' @ ?X)) ''{}'' ?secrets 5000 (Some 1000) of
      Inr (i, t) \<Rightarrow> t = 5 \<and> genuine sample_hmac ''{}'' ?secrets (5, None, [?X]) i
    | Inl Stale_timestamp \<Rightarrow> False
    | Inl reason \<Rightarrow> \<not> genuine sample_hmac ''{}'' ?secrets (5, None, [?X]) ''k1''"
    by (auto split: sum.splits signature_failure.splits)
  moreover have "genuine sample_hmac ''{}'' ?secrets (5, None, [?X]) ''k1''"
    by (simp add: genuine_def)
  ultimately show ?thesis by (auto split: sum.splits signature_failure.splits)
qed

text \<open>A secret may be registered under an id with a comma (any text of 1 to 64 characters is taken),
  but no header that names it ever parses.\<close>

lemma bare_element: "CHR ''='' \<notin> set e \<Longrightarrow> parse_elements (xs @ e # rest) p = None"
proof (induction xs arbitrary: p)
  case Nil
  then have "takeWhile (\<lambda>c. c \<noteq> CHR ''='') e = e" by (auto simp: takeWhile_eq_all_conv)
  then show ?case by (simp add: Let_def)
next
  case (Cons x xs)
  then show ?case by (simp add: Let_def)
qed

lemma comma_secret_id_never_verifies:
  "verifyWebhookSignature h (Some (signWebhook h body ''a,b'' secret sent)) body secrets now tol =
    Inl Malformed_header"
proof -
  let ?D = "decimal (sent div 1000)" and ?X = "hmacSha256Hex h secret (webhookSignedPayload (sent div 1000) body)"
  have "set ?D \<subseteq> {c. c \<noteq> CHR '',''}"
    using decimal_nat_digits comma_hex [OF digit_char_hex] by (auto simp: decimal_def)
  then have "split_on CHR '','' (signWebhook h body ''a,b'' secret sent) =
      (''t='' @ ?D) # ''kid=a'' # split_on CHR '','' (''b,v1='' @ ?X)"
    using split_on_append [of "CHR '',''" "''t='' @ ?D" "''kid=a,b,v1='' @ ?X"]
    by (auto simp: signWebhook_def Let_def WEBHOOK_SIGNATURE_VERSION_def)
  moreover have "split_on CHR '','' (''b,v1='' @ ?X) = ''b'' # split_on CHR '','' (''v1='' @ ?X)" by simp
  ultimately have "parse_elements (split_on CHR '','' (signWebhook h body ''a,b'' secret sent)) p = None" for p
    using bare_element [of "''b''" "[''t='' @ ?D, ''kid=a'']" "split_on CHR '','' (''v1='' @ ?X)"]
    by (simp del: parse_elements.simps split_on.simps)
  then have "parseWebhookSignature (signWebhook h body ''a,b'' secret sent) = None"
    by (simp add: parseWebhookSignature_def)
  then show ?thesis by (simp add: verifyWebhookSignature_def) (simp add: signWebhook_def Let_def)
qed


subsection \<open>One fact is handled once\<close>

text \<open>What the dedupe asks of a store that has room for so many more keys.\<close>

locale seen_store =
  fixes has :: "'s \<Rightarrow> string \<Rightarrow> bool" and add :: "string \<Rightarrow> 's \<Rightarrow> 's" and room :: "'s \<Rightarrow> nat"
  assumes has_add: "room s > 0 \<Longrightarrow> has (add k s) k' \<longleftrightarrow> k' = k \<or> has s k'"
    and room_add: "room s \<le> Suc (room (add k s))"

lemma decimal_nat_inj: "decimal_nat m = decimal_nat n \<longleftrightarrow> m = n"
  by (metis digits_value_decimal)

lemma colon_decimal: "CHR '':'' \<notin> set (decimal_nat n)"
  using decimal_nat_digits [of n] by (auto simp: list_all_iff digit_char_def)

lemma cut_last:
  "x @ c # u = y @ c # v \<Longrightarrow> c \<notin> set u \<Longrightarrow> c \<notin> set v \<Longrightarrow> x = y \<and> u = v"
  by (auto simp: append_eq_append_conv2 append_eq_Cons_conv Cons_eq_append_conv)

lemma factKey_inj: "factKey i m = factKey j n \<longleftrightarrow> i = j \<and> m = n"
  using cut_last [of i "CHR '':''" "decimal_nat m" j "decimal_nat n"] colon_decimal
  by (auto simp: factKey_def decimal_nat_inj)

lemma keys_apart: "deliveryKey i = deliveryKey j \<longleftrightarrow> i = j" "deliveryKey i \<noteq> factKey j n"
  "factKey j n \<noteq> deliveryKey i"
  by (simp_all add: deliveryKey_def factKey_def)

definition fact_of :: "envelope \<Rightarrow> ident \<times> nat" where
  "fact_of v = (v_matchId v, v_seq v)"

text \<open>The first envelope of every fact, in order.\<close>

fun firsts :: "envelope list \<Rightarrow> (ident \<times> nat) set \<Rightarrow> envelope list" where
  "firsts [] known = []"
| "firsts (v # vs) known = (if fact_of v \<in> known then firsts vs known
     else v # firsts vs (insert (fact_of v) known))"

lemma firsts_facts: "fact_of ` set (firsts vs known) = fact_of ` set vs - known"
  by (induction vs arbitrary: known) auto

lemma firsts_distinct: "distinct (map fact_of (firsts vs known))"
  by (induction vs arbitrary: known) (auto simp: firsts_facts)

context seen_store
begin

text \<open>What the store holds after the facts \<open>known\<close> went through: their keys, and ids that belong to them.\<close>

definition remembers :: "(envelope \<Rightarrow> bool) \<Rightarrow> (ident \<times> nat) set \<Rightarrow> 's \<Rightarrow> bool" where
  "remembers P known s \<longleftrightarrow>
     (\<forall>i n. has s (factKey i n) \<longleftrightarrow> (i, n) \<in> known) \<and>
     (\<forall>v. P v \<and> has s (deliveryKey (v_deliveryId v)) \<longrightarrow> fact_of v \<in> known)"

lemma remembersD:
  assumes "remembers P known s"
  shows "has s (factKey i n) \<longleftrightarrow> (i, n) \<in> known"
    and "P v \<Longrightarrow> has s (deliveryKey (v_deliveryId v)) \<Longrightarrow> fact_of v \<in> known"
  using assms by (simp_all add: remembers_def)

lemma remembers_id:
  assumes "remembers P known s" and "room s > 0" and "fact_of v \<in> known"
    and same: "\<And>u. P u \<Longrightarrow> v_deliveryId u = v_deliveryId v \<Longrightarrow> fact_of u = fact_of v"
  shows "remembers P known (add (deliveryKey (v_deliveryId v)) s)"
proof -
  have "has (add (deliveryKey (v_deliveryId v)) s) (factKey i n) \<longleftrightarrow> (i, n) \<in> known" for i n
    by (simp add: has_add [OF assms(2)] keys_apart remembersD(1) [OF assms(1)])
  moreover have "fact_of u \<in> known"
    if "P u" "has (add (deliveryKey (v_deliveryId v)) s) (deliveryKey (v_deliveryId u))" for u
  proof (cases "v_deliveryId u = v_deliveryId v")
    case True
    from same [OF that(1) this] assms(3) show ?thesis by simp
  next
    case False
    with that remembersD(2) [OF assms(1) that(1)] show ?thesis
      by (simp add: has_add [OF assms(2)] keys_apart)
  qed
  ultimately show ?thesis unfolding remembers_def by blast
qed

lemma dedupe_step:
  assumes "remembers P known s" and "room s \<ge> 2 + k" and "P v"
    and same: "\<And>u. P u \<Longrightarrow> v_deliveryId u = v_deliveryId v \<Longrightarrow> fact_of u = fact_of v"
  shows "(fst (dedupe has add v s) = None \<longleftrightarrow> fact_of v \<notin> known) \<and>
    remembers P (insert (fact_of v) known) (snd (dedupe has add v s)) \<and>
    room (snd (dedupe has add v s)) \<ge> k"
proof -
  let ?i = "deliveryKey (v_deliveryId v)" and ?f = "factKey (v_matchId v) (v_seq v)"
  have room: "room s > 0" "room (add ?i s) > 0" "room (add ?i s) \<ge> k" "room (add ?f (add ?i s)) \<ge> k"
    using assms(2) room_add [of s ?i] room_add [of "add ?i s" ?f] by linarith+
  note r = remembersD [OF assms(1)]
  show ?thesis
  proof (cases "fact_of v \<in> known")
    case True
    from remembers_id [OF assms(1) room(1) this same] have "remembers P known (add ?i s)" .
    with True room assms(1,2) r(1) show ?thesis
      by (auto simp: dedupe_def Let_def insert_absorb) (simp_all add: fact_of_def)
  next
    case False
    then have new: "\<not> has s ?i" "\<not> has s ?f" using r assms(3) by (auto simp: fact_of_def)
    have "has (add ?f (add ?i s)) (factKey j n) \<longleftrightarrow> (j, n) \<in> insert (fact_of v) known" for j n
      by (auto simp: r(1) has_add [OF room(2)] has_add [OF room(1)] keys_apart factKey_inj fact_of_def)
    moreover have "has (add ?f (add ?i s)) (deliveryKey (v_deliveryId u)) \<longrightarrow>
        fact_of u \<in> insert (fact_of v) known" if "P u" for u
      using r(2) [OF that] same [OF that]
      by (simp add: has_add [OF room(2)] has_add [OF room(1)] keys_apart)
    ultimately have "remembers P (insert (fact_of v) known) (add ?f (add ?i s))"
      unfolding remembers_def by blast
    with new False room show ?thesis by (simp add: dedupe_def Let_def)
  qed
qed

lemma handled_firsts:
  assumes "remembers P known s" and "room s \<ge> 2 * length vs" and "\<And>v. v \<in> set vs \<Longrightarrow> P v"
    and "\<And>u u'. P u \<Longrightarrow> P u' \<Longrightarrow> v_deliveryId u = v_deliveryId u' \<Longrightarrow> fact_of u = fact_of u'"
  shows "handled has add vs s = firsts vs known"
  using assms(1-3)
proof (induction vs arbitrary: known s)
  case (Cons v vs)
  obtain a s' where d: "dedupe has add v s = (a, s')" by (cases "dedupe has add v s")
  have "P v" using Cons.prems(3) by simp
  from dedupe_step [OF Cons.prems(1) _ this assms(4) [OF _ this]] Cons.prems(2) d
  have step: "a = None \<longleftrightarrow> fact_of v \<notin> known" "remembers P (insert (fact_of v) known) s'"
    "room s' \<ge> 2 * length vs" by auto
  have "handled has add vs s' = firsts vs (insert (fact_of v) known)"
    by (rule Cons.IH [OF step(2,3)]) (use Cons.prems(3) in simp)
  with step(1) d show ?case
    by (cases a) (simp_all add: insert_absorb)
qed simp

end

definition memory_room :: "memory_seen \<Rightarrow> nat" where
  "memory_room s = ms_max s - length (ms_keys s)"

interpretation memory_seen: seen_store memory_has memory_add memory_room
proof
  show "memory_has (memory_add k s) k' \<longleftrightarrow> k' = k \<or> memory_has s k'" if "memory_room s > 0" for s k k'
    using that by (auto simp: memory_has_def memory_add_def memory_room_def Let_def)
  show "memory_room s \<le> Suc (memory_room (memory_add k s))" for s k
    by (auto simp: memory_room_def memory_add_def Let_def)
qed





end
