(* ===== verification/Courier.thy ===== *)
theory Courier
  imports Webhooks Sample_Run
begin

text \<open>
  The webhook worker, \<open>apps/orchestrator/src/webhooks/worker.ts\<close>: the one that POSTs. A pass reads the
  deliveries that are due, signs and posts each, and writes what came of it.

  \<^item> The consumer's answer (how long it took, its status), the key store and \<open>JSON.stringify\<close> are
    arguments; the answers depend on the posts made so far.
  \<^item> One pass runs at a time (\<open>pass\<close>). Within it matches are served side by side; an attempt reads and
    writes the rows of its own match only, so the model serves one match after the other.
  \<^item> \<open>run_pass\<close> is the recursion of \<open>runPass\<close>: \<open>None\<close> is a pass that never ends.
\<close>

subsection \<open>State\<close>

record hook_post =
  hp_deliveryId :: ident
  hp_matchId :: ident
  hp_url :: string
  hp_headers :: "(string \<times> string) list"
  hp_body :: string
  hp_attempt :: nat
  hp_at :: instant

type_synonym hook_history = "(hook_post \<times> nat option) list"

record courier_env =
  ke_hmac :: hmac
  ke_json :: "envelope \<Rightarrow> string"
  ke_keys :: "hook_history \<Rightarrow> ident \<Rightarrow> string + webhook_secrets option"
  ke_answer :: "hook_history \<Rightarrow> hook_post \<Rightarrow> nat \<times> nat option"
  ke_concurrency :: nat

record courier =
  k_store :: store
  k_now :: instant
  k_posts :: hook_history
  k_timers :: "instant list"
  k_kicked :: bool

type_synonym 'a courier_step = "(courier, 'a) state"

definition WEBHOOK_POLL_INTERVAL_MS :: nat where "WEBHOOK_POLL_INTERVAL_MS = 5000"

text \<open>Time passes; a retry timer that fires during a pass sets \<open>kicked\<close>.\<close>

definition elapse :: "nat \<Rightarrow> unit courier_step" where
  "elapse n = modify (\<lambda>k. let t = k_now k + int n in
     k\<lparr>k_now := t, k_timers := filter (\<lambda>x. x > t) (k_timers k),
       k_kicked := k_kicked k \<or> list_ex (\<lambda>x. x \<le> t) (k_timers k)\<rparr>)"

definition patch_delivery :: "ident \<Rightarrow> delivery_patch \<Rightarrow> unit courier_step" where
  "patch_delivery i p = modify (\<lambda>k. k\<lparr>k_store :=
     (case updateDelivery i p (k_store k) of None \<Rightarrow> k_store k | Some s \<Rightarrow> s)\<rparr>)"

definition stop_match :: "ident \<Rightarrow> instant \<Rightarrow> unit courier_step" where
  "stop_match i at = modify (\<lambda>k. k\<lparr>k_store :=
     (case updateMatch i [Set_webhooksStoppedAt (Some at), Set_updatedAt at] (k_store k) of
        None \<Rightarrow> k_store k | Some s \<Rightarrow> s)\<rparr>)"

subsection \<open>One attempt\<close>

definition envelopeOf :: "match_row \<Rightarrow> event_row \<Rightarrow> envelope" where
  "envelopeOf m event = \<lparr>v_deliveryId = e_deliveryId event, v_matchId = e_matchId event,
     v_clientMatchId = m_clientMatchId m, v_seq = e_seq event, v_occurredAt = e_occurredAt event,
     v_payload = e_payload event\<rparr>"

definition event_for :: "delivery_row \<Rightarrow> store \<Rightarrow> event_row option" where
  "event_for row s = (case listEvents (d_matchId row) (d_seq row - 1) 1 s of
     [] \<Rightarrow> None | event # _ \<Rightarrow> if e_seq event = d_seq row then Some event else None)"

definition signature_for :: "courier_env \<Rightarrow> webhook_secrets option \<Rightarrow> string \<Rightarrow> string \<Rightarrow> instant \<Rightarrow> string"
where
  "signature_for e key secretId body t =
    (case (case key of None \<Rightarrow> None | Some secrets \<Rightarrow> map_of secrets secretId) of
       None \<Rightarrow> ''t='' @ decimal (t div 1000) @ '',kid='' @ secretId
     | Some secret \<Rightarrow> signWebhook (ke_hmac e) body secretId secret t)"

definition request_of :: "delivery_row \<Rightarrow> string \<Rightarrow> string \<Rightarrow> instant \<Rightarrow> hook_post" where
  "request_of row body signature t =
    \<lparr>hp_deliveryId = d_deliveryId row, hp_matchId = d_matchId row, hp_url = d_url row,
     hp_headers = [(''content-type'', WEBHOOK_CONTENT_TYPE), (WEBHOOK_SIGNATURE_HEADER, signature),
       (WEBHOOK_DELIVERY_HEADER, d_deliveryId row),
       (WEBHOOK_ATTEMPT_HEADER, decimal_nat (d_attempt row + 1))],
     hp_body = body, hp_attempt = d_attempt row + 1, hp_at = t\<rparr>"

text \<open>The race of the answer and the timeout. No answer is \<open>None\<close>.\<close>

definition post :: "courier_env \<Rightarrow> delivery_row \<Rightarrow> string \<Rightarrow> string \<Rightarrow> nat option courier_step" where
  "post e row body signature = do {
     h \<leftarrow> gets k_posts;
     t \<leftarrow> gets k_now;
     let request = request_of row body signature t;
     let (took, status) = ke_answer e h request;
     let status = (if took < WEBHOOK_ATTEMPT_TIMEOUT_MS then status else None);
     modify (\<lambda>k. k\<lparr>k_posts := (request, status) # h\<rparr>);
     elapse (min took WEBHOOK_ATTEMPT_TIMEOUT_MS);
     State_Monad.return status
   }"

definition no_answer :: "nat option \<Rightarrow> string" where
  "no_answer status = (case status of None \<Rightarrow> ''no answer'' | Some n \<Rightarrow> ''answered '' @ decimal_nat n)"

definition conclude :: "delivery_row \<Rightarrow> nat option \<Rightarrow> unit courier_step" where
  "conclude row status = do {
     at \<leftarrow> gets k_now;
     let number = d_attempt row + 1;
     let base = [Dlv_attempt number, Dlv_lastStatus status, Dlv_updatedAt at];
     case webhookAttemptOutcome status of
       Oc_delivered \<Rightarrow> patch_delivery (d_deliveryId row) (base @ [Dlv_status Dl_delivered,
         Dlv_deliveredAt (Some at), Dlv_lastError None, Dlv_nextAttemptAt None])
     | Oc_stopped \<Rightarrow> do {
         patch_delivery (d_deliveryId row) (base @ [Dlv_status Dl_stopped, Dlv_nextAttemptAt None]);
         stop_match (d_matchId row) at
       }
     | Oc_retry \<Rightarrow>
         (case webhookRetryDelayMs number of
            Inl _ \<Rightarrow> skip
          | Inr None \<Rightarrow> patch_delivery (d_deliveryId row) (base @ [Dlv_status Dl_given_up,
              Dlv_nextAttemptAt None, Dlv_lastError (Some (no_answer status))])
          | Inr (Some delay) \<Rightarrow> do {
              patch_delivery (d_deliveryId row) (base @ [Dlv_nextAttemptAt (Some (at + int delay)),
                Dlv_lastError (Some (no_answer status))]);
              modify (\<lambda>k. k\<lparr>k_timers := (at + int delay) # k_timers k\<rparr>)
            })
   }"

text \<open>A key store that rejects throws out of the attempt; the pass logs it and goes on.\<close>

definition attempt :: "courier_env \<Rightarrow> delivery_row \<Rightarrow> unit courier_step" where
  "attempt e row = do {
     s \<leftarrow> gets k_store;
     t \<leftarrow> gets k_now;
     h \<leftarrow> gets k_posts;
     case findMatch (d_matchId row) s of
       None \<Rightarrow> skip
     | Some m \<Rightarrow>
        if m_webhooksStoppedAt m \<noteq> None then
          patch_delivery (d_deliveryId row) [Dlv_status Dl_stopped, Dlv_updatedAt t]
        else
          (case event_for row s of
             None \<Rightarrow> patch_delivery (d_deliveryId row) [Dlv_status Dl_given_up,
               Dlv_lastError (Some ''no event row''), Dlv_updatedAt t]
           | Some event \<Rightarrow>
              (let body = ke_json e (envelopeOf m event) in
               case ke_keys e h (m_keyId m) of
                 Inl _ \<Rightarrow> skip
               | Inr key \<Rightarrow> do {
                   status \<leftarrow> post e row body (signature_for e key (d_secretId row) body t);
                   conclude row status
                 }))
   }"

subsection \<open>One pass\<close>

text \<open>The due rows of the first \<open>concurrency\<close> matches that have any.\<close>

definition groups :: "courier_env \<Rightarrow> delivery_row list \<Rightarrow> delivery_row list list" where
  "groups e due = map (\<lambda>i. filter (\<lambda>r. d_matchId r = i) due)
     (take (ke_concurrency e) (rev (remdups (rev (map d_matchId due)))))"

definition pass_once :: "courier_env \<Rightarrow> bool courier_step" where
  "pass_once e = do {
     due \<leftarrow> gets (\<lambda>k. listDueDeliveries (k_now k) (ke_concurrency e * 16) (k_store k));
     for_each (attempt e) (concat (groups e due));
     kicked \<leftarrow> gets k_kicked;
     let again = (length due > length (concat (groups e due)) \<or> kicked);
     only_if again (modify (\<lambda>k. k\<lparr>k_kicked := False\<rparr>));
     State_Monad.return again
   }"

partial_function (option) run_pass :: "courier_env \<Rightarrow> courier \<Rightarrow> courier option" where
  "run_pass e k = (case run_state (pass_once e) k of
     (again, k') \<Rightarrow> if again then run_pass e k' else Some k')"

text \<open>What happens to the worker: a pass, time, and the machine writing its tables in between, which
  queues new deliveries and never takes a match's \<open>webhooksStoppedAt\<close> back.\<close>

definition machine_writes :: "store \<Rightarrow> store \<Rightarrow> bool" where
  "machine_writes s s' \<longleftrightarrow>
     (\<exists>new. deliveries s' = deliveries s @ new \<and> distinct (map d_deliveryId (deliveries s')) \<and>
        (\<forall>r \<in> set new. d_status r = Dl_pending \<and> d_attempt r = 0)) \<and>
     (\<forall>i m. findMatch i s = Some m \<and> m_webhooksStoppedAt m \<noteq> None \<longrightarrow>
        (\<exists>m'. findMatch i s' = Some m' \<and> m_webhooksStoppedAt m' \<noteq> None))"

inductive courier_reach :: "courier_env \<Rightarrow> courier \<Rightarrow> bool" for e where
  start: "deliveries s = [] \<Longrightarrow>
    courier_reach e \<lparr>k_store = s, k_now = t, k_posts = [], k_timers = [], k_kicked = False\<rparr>"
| pass: "courier_reach e k \<Longrightarrow> courier_reach e (after (pass_once e) k)"
| time: "courier_reach e k \<Longrightarrow> courier_reach e (after (elapse n) k)"
| machine: "courier_reach e k \<Longrightarrow> machine_writes (k_store k) s \<Longrightarrow>
    courier_reach e (k\<lparr>k_store := s\<rparr>)"

subsection \<open>An attempt as an effect on its row\<close>

abbreviation rows_of :: "courier \<Rightarrow> delivery_row list" where
  "rows_of k \<equiv> deliveries (k_store k)"

definition replace_row :: "delivery_row \<Rightarrow> delivery_row list \<Rightarrow> delivery_row list" where
  "replace_row r' rows = map (\<lambda>x. if d_deliveryId x = d_deliveryId r' then r' else x) rows"

lemma ids_replace_row [simp]: "map d_deliveryId (replace_row r rows) = map d_deliveryId rows"
  by (induction rows) (auto simp: replace_row_def)

lemma replace_row_same:
  "distinct (map d_deliveryId rows) \<Longrightarrow> r \<in> set rows \<Longrightarrow> replace_row r rows = rows"
  unfolding replace_row_def by (rule map_idI) (auto simp: distinct_map dest: inj_onD)

lemma update_first_row:
  assumes "distinct (map d_deliveryId rows)" "r \<in> set rows"
  shows "update_first (\<lambda>x. d_deliveryId x = d_deliveryId r) (apply_delivery_patch p) rows =
    replace_row (apply_delivery_patch p r) rows"
  using assms
proof (induction rows)
  case (Cons x rows)
  show ?case
  proof (cases "d_deliveryId x = d_deliveryId r")
    case True
    with Cons.prems have "x = r" "\<forall>y \<in> set rows. d_deliveryId y \<noteq> d_deliveryId r"
      by (auto simp: rev_image_eqI)
    then show ?thesis by (simp add: replace_row_def cong: map_cong)
  qed (use Cons in \<open>auto simp: replace_row_def\<close>)
qed simp

lemma run_elapse [simp]:
  "run_state (elapse n) k = ((), k\<lparr>k_now := k_now k + int n,
     k_timers := filter (\<lambda>x. x > k_now k + int n) (k_timers k),
     k_kicked := k_kicked k \<or> list_ex (\<lambda>x. x \<le> k_now k + int n) (k_timers k)\<rparr>)"
  by (simp add: elapse_def Let_def)

lemma run_patch_delivery:
  assumes "distinct (map d_deliveryId (rows_of k))" "r \<in> set (rows_of k)"
  shows "run_state (patch_delivery (d_deliveryId r) p) k = ((), k\<lparr>k_store := (k_store k)
    \<lparr>deliveries := replace_row (apply_delivery_patch p r) (rows_of k)\<rparr>\<rparr>)"
proof -
  have "findDelivery (d_deliveryId r) (k_store k) = Some r"
    unfolding findDelivery_def by (rule find_unique [OF assms])
  then show ?thesis by (simp add: patch_delivery_def updateDelivery_def update_first_row [OF assms])
qed

lemma run_stop_match:
  assumes "findMatch i (k_store k) = Some m"
  shows "run_state (stop_match i at) k = ((), k\<lparr>k_store := (k_store k)\<lparr>matches :=
    update_first (\<lambda>r. m_id r = i) (apply_match_patch [Set_webhooksStoppedAt (Some at), Set_updatedAt at])
      (matches (k_store k))\<rparr>\<rparr>)"
  using assms by (simp add: stop_match_def updateMatch_def)

text \<open>What one attempt of a pending row comes to. The row is left, ended without a post, or posted once
  more; the timers grow by at most one.\<close>

datatype attempt_effect = Left_alone | Ended_unsent | Posted hook_post "nat option"

definition row_after :: "delivery_row \<Rightarrow> attempt_effect \<Rightarrow> delivery_row \<Rightarrow> bool" where
  "row_after r x r' \<longleftrightarrow> d_deliveryId r' = d_deliveryId r \<and> d_matchId r' = d_matchId r \<and>
     (case x of
        Left_alone \<Rightarrow> r' = r
      | Ended_unsent \<Rightarrow> d_status r' \<noteq> Dl_pending \<and> d_attempt r' = d_attempt r
      | Posted p status \<Rightarrow> d_attempt r' = Suc (d_attempt r) \<and> hp_attempt p = Suc (d_attempt r) \<and>
          hp_deliveryId p = d_deliveryId r \<and> hp_matchId p = d_matchId r \<and>
          (d_status r' = Dl_pending \<longrightarrow> d_attempt r < 9 \<and> (\<exists>at \<ge> hp_at p.
             d_nextAttemptAt r' = Some (at + int (WEBHOOK_RETRY_DELAYS_MS ! d_attempt r)))))"

definition stops :: "attempt_effect \<Rightarrow> bool" where
  "stops x \<longleftrightarrow> (case x of Posted _ (Some n) \<Rightarrow> n = WEBHOOK_STOP_STATUS | _ \<Rightarrow> False)"

definition stopped :: "ident \<Rightarrow> store \<Rightarrow> bool" where
  "stopped i s \<longleftrightarrow> (\<exists>m. findMatch i s = Some m \<and> m_webhooksStoppedAt m \<noteq> None)"

definition known :: "ident \<Rightarrow> store \<Rightarrow> bool" where
  "known i s \<longleftrightarrow> findMatch i s \<noteq> None"

lemma retry_delay:
  "webhookRetryDelayMs (Suc a) = Inr (if a < 9 then Some (WEBHOOK_RETRY_DELAYS_MS ! a) else None)"
  by (simp add: webhookRetryDelayMs_def WEBHOOK_RETRY_DELAYS_MS_def)

lemma findMatch_deliveries [simp]: "findMatch i (s\<lparr>deliveries := ds\<rparr>) = findMatch i s"
  by (simp add: findMatch_def)

lemma stopped_deliveries [simp]: "stopped i (s\<lparr>deliveries := ds\<rparr>) = stopped i s"
  by (simp add: stopped_def)

lemma stopped_stop:
  assumes "findMatch j s = Some m"
  shows "stopped i (s\<lparr>deliveries := ds, matches := update_first (\<lambda>r. m_id r = j)
    (apply_match_patch [Set_webhooksStoppedAt (Some at), Set_updatedAt at]) (matches s)\<rparr>) \<longleftrightarrow>
    i = j \<or> stopped i s"
  using assms by (auto simp: stopped_def findMatch_def find_match_updated)

lemma known_kept [simp]:
  "known i (s\<lparr>deliveries := ds\<rparr>) = known i s"
  "known i (s\<lparr>deliveries := ds, matches := update_first (\<lambda>r. m_id r = j) (apply_match_patch p) (matches s)\<rparr>)
    = known i s"
  by (simp_all add: known_def findMatch_def find_match_updated)

lemma conclude_effect:
  assumes "distinct (map d_deliveryId (rows_of k))" "r \<in> set (rows_of k)"
    and "findMatch (d_matchId r) (k_store k) = Some m"
    and p: "hp_attempt p = Suc (d_attempt r)" "hp_deliveryId p = d_deliveryId r"
      "hp_matchId p = d_matchId r" "hp_at p \<le> k_now k"
  shows "\<exists>r'. row_after r (Posted p status) r' \<and>
    rows_of (after (conclude r status) k) = replace_row r' (rows_of k) \<and>
    k_posts (after (conclude r status) k) = k_posts k \<and> k_now (after (conclude r status) k) = k_now k \<and>
    k_kicked (after (conclude r status) k) = k_kicked k \<and>
    length (k_timers (after (conclude r status) k)) \<le> Suc (length (k_timers k)) \<and>
    (\<forall>i. stopped i (k_store (after (conclude r status) k)) \<longleftrightarrow>
      stopped i (k_store k) \<or> stops (Posted p status) \<and> i = d_matchId r) \<and>
    (\<forall>i. known i (k_store (after (conclude r status) k)) \<longleftrightarrow> known i (k_store k))"
proof -
  note run = run_patch_delivery [OF assms(1,2)]
  have stops: "stops (Posted p status) \<longleftrightarrow> webhookAttemptOutcome status = Oc_stopped"
    by (auto simp: stops_def webhookAttemptOutcome_def WEBHOOK_STOP_STATUS_def split: option.splits)
  show ?thesis
  proof (cases "webhookAttemptOutcome status")
    case Oc_delivered
    with p stops show ?thesis
      by (intro exI [of _ "apply_delivery_patch [Dlv_attempt (Suc (d_attempt r)), Dlv_lastStatus status,
          Dlv_updatedAt (k_now k), Dlv_status Dl_delivered, Dlv_deliveredAt (Some (k_now k)),
          Dlv_lastError None, Dlv_nextAttemptAt None] r"])
        (simp add: conclude_def Let_def run row_after_def)
  next
    case Oc_stopped
    with p stops show ?thesis
      by (intro exI [of _ "apply_delivery_patch [Dlv_attempt (Suc (d_attempt r)), Dlv_lastStatus status,
          Dlv_updatedAt (k_now k), Dlv_status Dl_stopped, Dlv_nextAttemptAt None] r"])
        (auto simp: conclude_def Let_def run row_after_def run_stop_match [where m = m] assms(3) stopped_stop
          simp del: apply_match_patch_Cons)
  next
    case Oc_retry
    show ?thesis
    proof (cases "d_attempt r < 9")
      case True
      with Oc_retry p stops show ?thesis
        by (intro exI [of _ "apply_delivery_patch [Dlv_attempt (Suc (d_attempt r)), Dlv_lastStatus status,
            Dlv_updatedAt (k_now k), Dlv_nextAttemptAt (Some (k_now k +
              int (WEBHOOK_RETRY_DELAYS_MS ! d_attempt r))), Dlv_lastError (Some (no_answer status))] r"])
          (simp add: conclude_def Let_def run row_after_def retry_delay)
    next
      case False
      with Oc_retry p stops show ?thesis
        by (intro exI [of _ "apply_delivery_patch [Dlv_attempt (Suc (d_attempt r)), Dlv_lastStatus status,
            Dlv_updatedAt (k_now k), Dlv_status Dl_given_up, Dlv_nextAttemptAt None,
            Dlv_lastError (Some (no_answer status))] r"])
          (simp add: conclude_def Let_def run row_after_def retry_delay)
    qed
  qed
qed

abbreviation pulse :: "courier \<Rightarrow> nat" where
  "pulse k \<equiv> length (k_timers k) + of_bool (k_kicked k)"

lemma pulse_elapse: "pulse (after (elapse n) k) \<le> pulse k"
proof (cases "list_ex (\<lambda>x. x \<le> k_now k + int n) (k_timers k)")
  case True
  then have "length (filter (\<lambda>x. x > k_now k + int n) (k_timers k)) < length (k_timers k)"
    by (auto simp: list_ex_iff intro!: length_filter_less)
  then show ?thesis by simp
next
  case False
  then show ?thesis by (simp add: le_SucI)
qed

definition posts_after :: "attempt_effect \<Rightarrow> hook_history \<Rightarrow> hook_history" where
  "posts_after x h = (case x of Posted p status \<Rightarrow> (p, status) # h | _ \<Rightarrow> h)"

definition attempted :: "courier_env \<Rightarrow> delivery_row \<Rightarrow> courier \<Rightarrow> courier \<Rightarrow> attempt_effect \<Rightarrow> delivery_row \<Rightarrow> bool"
where
  "attempted e r k k' x r' \<longleftrightarrow> row_after r x r' \<and> rows_of k' = replace_row r' (rows_of k) \<and>
     k_posts k' = posts_after x (k_posts k) \<and> k_now k \<le> k_now k' \<and> pulse k' \<le> Suc (pulse k) \<and>
     (\<forall>i. stopped i (k_store k') \<longleftrightarrow> stopped i (k_store k) \<or> stops x \<and> i = d_matchId r) \<and>
     (\<forall>p status. x = Posted p status \<longrightarrow> hp_at p = k_now k \<and> \<not> stopped (d_matchId r) (k_store k)) \<and>
     (\<forall>i. known i (k_store k') \<longleftrightarrow> known i (k_store k)) \<and>
     (x = Left_alone \<longrightarrow> \<not> known (d_matchId r) (k_store k) \<or>
       (\<exists>h i err. ke_keys e h i = Inl err))"

lemma attempt_effect:
  assumes "distinct (map d_deliveryId (rows_of k))" "r \<in> set (rows_of k)"
  shows "\<exists>x r'. attempted e r k (after (attempt e r) k) x r'"
proof (cases "findMatch (d_matchId r) (k_store k)")
  case None
  then have "attempted e r k (after (attempt e r) k) Left_alone r"
    by (simp add: attempted_def attempt_def row_after_def posts_after_def stops_def known_def
        replace_row_same [OF assms])
  then show ?thesis by blast
next
  case (Some m)
  note run = run_patch_delivery [OF assms]
  show ?thesis
  proof (cases "m_webhooksStoppedAt m = None \<and> event_for r (k_store k) \<noteq> None")
    case False
    let ?p = "if m_webhooksStoppedAt m \<noteq> None then [Dlv_status Dl_stopped, Dlv_updatedAt (k_now k)]
      else [Dlv_status Dl_given_up, Dlv_lastError (Some ''no event row''), Dlv_updatedAt (k_now k)]"
    have "attempted e r k (after (attempt e r) k) Ended_unsent (apply_delivery_patch ?p r)"
      using False Some by (auto simp: attempted_def attempt_def row_after_def posts_after_def stops_def run)
    then show ?thesis by blast
  next
    case True
    then obtain event where event: "event_for r (k_store k) = Some event" by auto
    let ?body = "ke_json e (envelopeOf m event)"
    show ?thesis
    proof (cases "ke_keys e (k_posts k) (m_keyId m)")
      case (Inl err)
      with True Some event have "attempted e r k (after (attempt e r) k) Left_alone r"
        by (auto simp: attempted_def attempt_def row_after_def posts_after_def stops_def Let_def
            replace_row_same [OF assms])
      then show ?thesis by blast
    next
      case (Inr key)
      let ?sig = "signature_for e key (d_secretId r) ?body (k_now k)"
      let ?p = "request_of r ?body ?sig (k_now k)"
      obtain took answer where answer: "ke_answer e (k_posts k) ?p = (took, answer)"
        by (cases "ke_answer e (k_posts k) ?p") simp
      let ?status = "if took < WEBHOOK_ATTEMPT_TIMEOUT_MS then answer else None"
      let ?k = "after (elapse (min took WEBHOOK_ATTEMPT_TIMEOUT_MS)) (k\<lparr>k_posts := (?p, ?status) # k_posts k\<rparr>)"
      have after: "after (attempt e r) k = after (conclude r ?status) ?k"
        using True Some event Inr answer
        by (simp add: attempt_def Let_def post_def case_prod_beta del: run_elapse)
      have pulse: "pulse ?k \<le> pulse k"
        using pulse_elapse [of _ "k\<lparr>k_posts := (?p, ?status) # k_posts k\<rparr>"] by simp
      have k: "rows_of ?k = rows_of k" "k_store ?k = k_store k" "k_now k \<le> k_now ?k"
        "k_posts ?k = (?p, ?status) # k_posts k" by simp_all
      have p: "hp_attempt ?p = Suc (d_attempt r)" "hp_deliveryId ?p = d_deliveryId r"
        "hp_matchId ?p = d_matchId r" "hp_at ?p = k_now k" by (simp_all add: request_of_def)
      have "hp_at ?p \<le> k_now ?k" using p(4) k(3) by simp
      from conclude_effect [of ?k r m ?p ?status, unfolded k(1,2), OF assms Some p(1-3) this]
      obtain r' where r': "row_after r (Posted ?p ?status) r'"
        "rows_of (after (conclude r ?status) ?k) = replace_row r' (rows_of k)"
        "k_posts (after (conclude r ?status) ?k) = k_posts ?k"
        "k_now (after (conclude r ?status) ?k) = k_now ?k"
        "k_kicked (after (conclude r ?status) ?k) = k_kicked ?k"
        "length (k_timers (after (conclude r ?status) ?k)) \<le> Suc (length (k_timers ?k))"
        "\<forall>i. stopped i (k_store (after (conclude r ?status) ?k)) \<longleftrightarrow>
          stopped i (k_store k) \<or> stops (Posted ?p ?status) \<and> i = d_matchId r"
        "\<forall>i. known i (k_store (after (conclude r ?status) ?k)) \<longleftrightarrow> known i (k_store k)"
        by blast
      have "\<not> stopped (d_matchId r) (k_store k)" using True Some by (simp add: stopped_def)
      moreover have "pulse (after (conclude r ?status) ?k) \<le> Suc (pulse k)" using r'(6) pulse unfolding r'(5) by linarith
      ultimately have "attempted e r k (after (attempt e r) k) (Posted ?p ?status) r'"
        unfolding attempted_def after using r' k(3,4) p(4)
        by (simp add: posts_after_def del: run_elapse)
      then show ?thesis by blast
    qed
  qed
qed

subsection \<open>A pass over the due rows\<close>

definition ids_distinct :: "courier \<Rightarrow> bool" where
  "ids_distinct k \<longleftrightarrow> distinct (map d_deliveryId (rows_of k))"

lemma in_replace_row:
  "q \<in> set rows \<Longrightarrow> d_deliveryId q \<noteq> d_deliveryId r' \<Longrightarrow> q \<in> set (replace_row r' rows)"
  by (auto simp: replace_row_def)

lemma replace_rowE:
  "q \<in> set (replace_row r' rows) \<Longrightarrow> q = r' \<or> q \<in> set rows \<and> d_deliveryId q \<noteq> d_deliveryId r'"
  by (auto simp: replace_row_def split: if_splits)

text \<open>What every attempt of a due row keeps, a pass over due rows keeps.\<close>

lemma attempts_keep:
  assumes "ids_distinct k" "set rows \<subseteq> set (rows_of k)" "distinct (map d_deliveryId rows)" "J k"
    and "t \<le> k_now k"
    and step: "\<And>k r k' x r'. ids_distinct k \<Longrightarrow> r \<in> set rows \<Longrightarrow> r \<in> set (rows_of k) \<Longrightarrow> t \<le> k_now k \<Longrightarrow>
      J k \<Longrightarrow> attempted e r k k' x r' \<Longrightarrow> J k'"
  shows "J (after (for_each (attempt e) rows) k) \<and> ids_distinct (after (for_each (attempt e) rows) k) \<and>
    t \<le> k_now (after (for_each (attempt e) rows) k)"
proof -
  have "set todo \<subseteq> set rows \<Longrightarrow> ids_distinct k \<Longrightarrow> set todo \<subseteq> set (rows_of k) \<Longrightarrow>
      distinct (map d_deliveryId todo) \<Longrightarrow> J k \<Longrightarrow> t \<le> k_now k \<Longrightarrow>
      J (after (for_each (attempt e) todo) k) \<and> ids_distinct (after (for_each (attempt e) todo) k) \<and>
      t \<le> k_now (after (for_each (attempt e) todo) k)" for todo k
  proof (induction todo arbitrary: k)
    case (Cons r todo)
    let ?k = "after (attempt e r) k"
    have "distinct (map d_deliveryId (rows_of k))" "r \<in> set (rows_of k)"
      using Cons.prems by (auto simp: ids_distinct_def)
    from attempt_effect [OF this] obtain x r' where x: "attempted e r k ?k x r'" by blast
    then have eff: "d_deliveryId r' = d_deliveryId r" "rows_of ?k = replace_row r' (rows_of k)"
      "k_now k \<le> k_now ?k" by (auto simp: attempted_def row_after_def)
    have "J ?k" using step [OF _ _ _ _ _ x] Cons.prems by auto
    moreover have "set todo \<subseteq> set (rows_of ?k)"
      using Cons.prems(3,4) eff(1) by (auto simp: eff(2) image_iff intro!: in_replace_row)
    ultimately have "J (after (for_each (attempt e) todo) ?k) \<and>
        ids_distinct (after (for_each (attempt e) todo) ?k) \<and>
        t \<le> k_now (after (for_each (attempt e) todo) ?k)"
      using Cons.prems eff by (intro Cons.IH) (auto simp: ids_distinct_def)
    then show ?case by (simp add: after_bind del: run_state_bind)
  qed simp
  from this [of rows k] assms show ?thesis by simp
qed

lemma groups_facts:
  assumes "distinct (map d_deliveryId due)"
  shows "set (concat (groups e due)) \<subseteq> set due" "distinct (map d_deliveryId (concat (groups e due)))"
    and "due \<noteq> [] \<Longrightarrow> ke_concurrency e > 0 \<Longrightarrow> concat (groups e due) \<noteq> []"
proof -
  show "set (concat (groups e due)) \<subseteq> set due" by (auto simp: groups_def)
  have "distinct (concat (map (\<lambda>i. filter (\<lambda>r. d_matchId r = i) due) is))" if "distinct is" for "is"
    using that assms by (induction "is") (auto simp: distinct_map)
  moreover have "distinct (take (ke_concurrency e) (rev (remdups (rev (map d_matchId due)))))" by simp
  ultimately have "distinct (concat (groups e due))" unfolding groups_def by blast
  with assms show "distinct (map d_deliveryId (concat (groups e due)))"
    by (auto simp: distinct_map groups_def intro: inj_on_subset)
  show "concat (groups e due) \<noteq> []" if "due \<noteq> []" "ke_concurrency e > 0"
  proof -
    let ?ids = "rev (remdups (rev (map d_matchId due)))"
    have "set ?ids = d_matchId ` set due" by simp
    with that(1) have "?ids \<noteq> []" by (metis image_is_empty set_empty)
    then have "hd ?ids \<in> set (take (ke_concurrency e) ?ids)"
      using that(2) by (cases ?ids; cases "ke_concurrency e") auto
    moreover have "hd ?ids \<in> d_matchId ` set due" using \<open>?ids \<noteq> []\<close> hd_in_set [of ?ids] by simp
    ultimately show ?thesis by (force simp: groups_def filter_empty_conv)
  qed
qed

abbreviation due_rows :: "courier_env \<Rightarrow> courier \<Rightarrow> delivery_row list" where
  "due_rows e k \<equiv> listDueDeliveries (k_now k) (ke_concurrency e * 16) (k_store k)"

abbreviation picked :: "courier_env \<Rightarrow> courier \<Rightarrow> delivery_row list" where
  "picked e k \<equiv> concat (groups e (due_rows e k))"

definition due_at :: "instant \<Rightarrow> delivery_row \<Rightarrow> bool" where
  "due_at t r \<longleftrightarrow> d_status r = Dl_pending \<and> (\<exists>at. d_nextAttemptAt r = Some at \<and> at \<le> t)"

lemma due_rows_facts:
  assumes "ids_distinct k"
  shows "distinct (map d_deliveryId (due_rows e k))"
    and "r \<in> set (due_rows e k) \<Longrightarrow>
      r \<in> set (rows_of k) \<and> due_at (k_now k) r \<and> known (d_matchId r) (k_store k)"
proof -
  let ?P = "\<lambda>r. d_status r = Dl_pending \<and> (case d_nextAttemptAt r of None \<Rightarrow> False | Some at \<Rightarrow> at \<le> k_now k)"
  let ?Q = "\<lambda>r. (case findMatch (d_matchId r) (k_store k) of None \<Rightarrow> False
    | Some m \<Rightarrow> m_deployment m = deployment (k_store k))"
  let ?all = "sort_key (\<lambda>r. (d_matchId r, d_seq r)) (filter ?P (filter ?Q (rows_of k)))"
  have due: "due_rows e k = take (ke_concurrency e * 16) ?all" by (simp add: listDueDeliveries_def)
  have "distinct (rows_of k)" "inj_on d_deliveryId (set (rows_of k))"
    using assms by (auto simp: ids_distinct_def distinct_map)
  then have "distinct (map d_deliveryId ?all)" by (auto simp: distinct_map intro: inj_on_subset)
  then show "distinct (map d_deliveryId (due_rows e k))"
    unfolding due take_map [symmetric] by (rule distinct_take)
  show "r \<in> set (rows_of k) \<and> due_at (k_now k) r \<and> known (d_matchId r) (k_store k)"
    if "r \<in> set (due_rows e k)"
  proof -
    have "r \<in> set ?all" using that unfolding due by (rule in_set_takeD)
    then show ?thesis by (auto simp: due_at_def known_def split: option.splits)
  qed
qed

lemma picked_facts:
  assumes "ids_distinct k"
  shows "distinct (map d_deliveryId (picked e k))"
    and "r \<in> set (picked e k) \<Longrightarrow>
      r \<in> set (rows_of k) \<and> due_at (k_now k) r \<and> known (d_matchId r) (k_store k)"
    and "due_rows e k \<noteq> [] \<Longrightarrow> ke_concurrency e > 0 \<Longrightarrow> picked e k \<noteq> []"
  using groups_facts [OF due_rows_facts(1) [OF assms]] due_rows_facts(2) [OF assms] by blast+

lemma pass_once_after:
  "run_state (pass_once e) k =
    (let k' = after (for_each (attempt e) (picked e k)) k;
         again = (length (due_rows e k) > length (picked e k) \<or> k_kicked k')
     in (again, if again then k'\<lparr>k_kicked := False\<rparr> else k'))"
  by (simp add: pass_once_def Let_def case_prod_beta)

text \<open>The rule for an invariant of the worker.\<close>

lemma courier_invariant:
  assumes reach: "courier_reach e k"
    and start: "\<And>s t. deliveries s = [] \<Longrightarrow>
      J \<lparr>k_store = s, k_now = t, k_posts = [], k_timers = [], k_kicked = False\<rparr>"
    and attempt: "\<And>k r k' x r'. ids_distinct k \<Longrightarrow> r \<in> set (rows_of k) \<Longrightarrow> due_at (k_now k) r \<Longrightarrow>
      J k \<Longrightarrow> attempted e r k k' x r' \<Longrightarrow> J k'"
    and timers: "\<And>k n ts b. J k \<Longrightarrow> J (k\<lparr>k_now := k_now k + int n, k_timers := ts, k_kicked := b\<rparr>)"
    and machine: "\<And>k s. ids_distinct k \<Longrightarrow> J k \<Longrightarrow> machine_writes (k_store k) s \<Longrightarrow> J (k\<lparr>k_store := s\<rparr>)"
  shows "ids_distinct k \<and> J k"
  using reach
proof induction
  case (start s t)
  with assms(2) show ?case by (simp add: ids_distinct_def)
next
  case (pass k)
  then have ids: "ids_distinct k" and "J k" by simp_all
  let ?k = "after (for_each (attempt e) (picked e k)) k"
  note picked = picked_facts [OF ids, where e = e]
  have "J ?k \<and> ids_distinct ?k \<and> k_now k \<le> k_now ?k"
  proof (rule attempts_keep [where J = J and t = "k_now k"])
    show "ids_distinct k" "distinct (map d_deliveryId (picked e k))" "J k" "k_now k \<le> k_now k"
      using ids picked(1) \<open>J k\<close> by simp_all
    show "set (picked e k) \<subseteq> set (rows_of k)" using picked(2) by blast
    fix j r k' x r'
    assume "ids_distinct j" "r \<in> set (picked e k)" "r \<in> set (rows_of j)" "k_now k \<le> k_now j" "J j"
      "attempted e r j k' x r'"
    moreover from this picked(2) [of r] have "due_at (k_now j) r"
      by (force simp: due_at_def)
    ultimately show "J k'" using attempt by blast
  qed
  moreover from this have "J (?k\<lparr>k_kicked := False\<rparr>)" "ids_distinct (?k\<lparr>k_kicked := False\<rparr>)"
    using timers [where k = ?k and n = 0 and ts = "k_timers ?k" and b = False] by (simp_all add: ids_distinct_def)
  ultimately show ?case by (simp add: pass_once_after Let_def)
next
  case (time k n)
  then show ?case using timers by (simp add: ids_distinct_def)
next
  case (machine k s)
  then show ?case using assms(5) by (auto simp: ids_distinct_def machine_writes_def)
qed

subsection \<open>Ten posts on a schedule\<close>

abbreviation posts_of :: "ident \<Rightarrow> courier \<Rightarrow> hook_post list" where
  "posts_of i k \<equiv> filter (\<lambda>p. hp_deliveryId p = i) (map fst (k_posts k))"

text \<open>Newest first: numbered down to 1, each at least the published delay after the one before.\<close>

fun on_schedule :: "hook_post list \<Rightarrow> bool" where
  "on_schedule [] = True"
| "on_schedule [p] = (hp_attempt p = 1)"
| "on_schedule (p # q # ps) = (hp_attempt p = Suc (hp_attempt q) \<and>
     hp_at q + int (WEBHOOK_RETRY_DELAYS_MS ! (hp_attempt q - 1)) \<le> hp_at p \<and> on_schedule (q # ps))"

definition row_told :: "delivery_row \<Rightarrow> hook_post list \<Rightarrow> bool" where
  "row_told r ps \<longleftrightarrow> on_schedule ps \<and> length ps = d_attempt r \<and> d_attempt r \<le> 10 \<and>
     (d_status r = Dl_pending \<longrightarrow> d_attempt r < 10 \<and> (\<forall>p qs. ps = p # qs \<longrightarrow> (\<exists>at.
        d_nextAttemptAt r = Some at \<and> hp_at p + int (WEBHOOK_RETRY_DELAYS_MS ! (hp_attempt p - 1)) \<le> at)))"

definition all_told :: "courier \<Rightarrow> bool" where
  "all_told k \<longleftrightarrow> (\<forall>r \<in> set (rows_of k). row_told r (posts_of (d_deliveryId r) k)) \<and>
     (\<forall>p \<in> set (map fst (k_posts k)). hp_deliveryId p \<in> d_deliveryId ` set (rows_of k))"

lemma on_schedule_length: "on_schedule (p # qs) \<Longrightarrow> hp_attempt p = Suc (length qs)"
  by (induction qs arbitrary: p) simp_all

lemma row_told_after:
  assumes "row_told r ps" "due_at t r" "row_after r x r'"
    and "\<forall>p status. x = Posted p status \<longrightarrow> hp_at p = t"
  shows "row_told r' (case x of Posted p _ \<Rightarrow> p # ps | _ \<Rightarrow> ps)"
proof (cases x)
  case Left_alone
  with assms show ?thesis by (simp add: row_after_def)
next
  case Ended_unsent
  with assms show ?thesis by (simp add: row_after_def row_told_def)
next
  case (Posted p status)
  note ps = assms(1)[unfolded row_told_def]
  from assms(2) obtain at where at: "d_status r = Dl_pending" "d_nextAttemptAt r = Some at" "at \<le> t"
    by (auto simp: due_at_def)
  have p: "hp_attempt p = Suc (length ps)" "hp_at p = t" "d_attempt r' = Suc (length ps)"
    using assms(3,4) Posted ps by (auto simp: row_after_def)
  have "on_schedule (p # ps)"
  proof (cases ps)
    case (Cons q qs)
    with ps on_schedule_length [of q qs] at p show ?thesis by auto
  qed (use p in simp)
  moreover have "length ps < 10" using ps at by simp
  ultimately show ?thesis using assms(3) Posted p ps
    by (auto simp: row_told_def row_after_def)
qed

lemma told_attempted:
  assumes "ids_distinct k" "r \<in> set (rows_of k)" "due_at (k_now k) r" "all_told k" "attempted e r k k' x r'"
  shows "all_told k'"
proof -
  let ?i = "d_deliveryId r"
  have eff: "row_after r x r'" "rows_of k' = replace_row r' (rows_of k)" "d_deliveryId r' = ?i"
    "k_posts k' = posts_after x (k_posts k)" "\<forall>p status. x = Posted p status \<longrightarrow> hp_at p = k_now k"
    using assms(5) by (auto simp: attempted_def row_after_def)
  have own: "posts_of ?i k' = (case x of Posted p _ \<Rightarrow> p # posts_of ?i k | _ \<Rightarrow> posts_of ?i k)"
    using eff(1,4) by (auto simp: posts_after_def row_after_def split: attempt_effect.split)
  have other: "posts_of j k' = posts_of j k" if "j \<noteq> ?i" for j
    using eff(1,4) that by (auto simp: posts_after_def row_after_def split: attempt_effect.split)
  have "row_told r (posts_of ?i k)" using assms(2,4) by (simp add: all_told_def)
  from row_told_after [OF this assms(3) eff(1,5)] own have "row_told r' (posts_of ?i k')" by simp
  moreover have "row_told q (posts_of (d_deliveryId q) k')"
    if "q \<in> set (rows_of k)" "d_deliveryId q \<noteq> ?i" for q
    using that assms(4) other by (simp add: all_told_def)
  moreover have "hp_deliveryId p \<in> d_deliveryId ` set (rows_of k)" if "p \<in> set (map fst (k_posts k'))" for p
    using eff(1,4) that assms(2,4)
    by (auto simp: posts_after_def row_after_def all_told_def split: attempt_effect.splits)
  moreover have "d_deliveryId ` set (rows_of k') = d_deliveryId ` set (rows_of k)"
    unfolding eff(2) set_map [symmetric] ids_replace_row ..
  ultimately show ?thesis
    unfolding all_told_def using eff(2,3) by (metis replace_rowE)
qed

lemma told_machine:
  assumes "all_told k" "machine_writes (k_store k) s"
  shows "all_told (k\<lparr>k_store := s\<rparr>)"
proof -
  from assms(2) obtain new where new: "deliveries s = rows_of k @ new"
    "distinct (map d_deliveryId (rows_of k @ new))" "\<forall>r \<in> set new. d_status r = Dl_pending \<and> d_attempt r = 0"
    by (auto simp: machine_writes_def)
  have "posts_of (d_deliveryId r) k = []" if "r \<in> set new" for r
  proof -
    have "d_deliveryId r \<notin> d_deliveryId ` set (rows_of k)" using new(2) that by auto
    with assms(1) show ?thesis by (auto simp: all_told_def filter_empty_conv)
  qed
  then have "row_told r (posts_of (d_deliveryId r) k)" if "r \<in> set new" for r
    using that new(3) by (simp add: row_told_def)
  with assms(1) new(1) show ?thesis by (auto simp: all_told_def)
qed

text \<open>C36: The published schedule is kept: whatever consumers answer and whenever passes run, a delivery is
  posted at most ten times, the posts are numbered 1, 2, 3 and so on as the attempt header says, each
  at least the published delay after the one before, and the attempt count of its row is the number of
  posts made.\<close>

theorem at_most_ten_posts_on_schedule:
  assumes "courier_reach e k" and "r \<in> set (rows_of k)"
  shows "on_schedule (posts_of (d_deliveryId r) k) \<and>
    length (posts_of (d_deliveryId r) k) = d_attempt r \<and> d_attempt r \<le> WEBHOOK_MAX_ATTEMPTS"
proof -
  have "ids_distinct k \<and> all_told k"
  proof (rule courier_invariant [OF assms(1), of all_told])
    show "all_told k'" if "ids_distinct k" "r \<in> set (rows_of k)" "due_at (k_now k) r" "all_told k"
      "attempted e r k k' x r'" for k r k' x r' using that by (rule told_attempted)
    show "all_told (k\<lparr>k_store := s\<rparr>)" if "all_told k" "machine_writes (k_store k) s" for k s
      using that by (rule told_machine)
  qed (auto simp: all_told_def)
  moreover have "WEBHOOK_MAX_ATTEMPTS = 10"
    by (simp add: WEBHOOK_MAX_ATTEMPTS_def WEBHOOK_RETRY_DELAYS_MS_def)
  ultimately show ?thesis using assms(2) by (simp add: all_told_def row_told_def)
qed

subsection \<open>After a 410 nothing more is sent\<close>

definition silenced :: "courier \<Rightarrow> bool" where
  "silenced k \<longleftrightarrow>
     (\<forall>(p, status) \<in> set (k_posts k). status = Some WEBHOOK_STOP_STATUS \<longrightarrow>
        stopped (hp_matchId p) (k_store k)) \<and>
     sorted_wrt (\<lambda>(newer, _) (p, status). status = Some WEBHOOK_STOP_STATUS \<longrightarrow>
        hp_matchId newer \<noteq> hp_matchId p) (k_posts k)"

lemma silenced_attempted:
  assumes "silenced k" "attempted e r k k' x r'"
  shows "silenced k'"
proof (cases x)
  case (Posted p status)
  with assms(2) have eff: "k_posts k' = (p, status) # k_posts k" "hp_matchId p = d_matchId r"
    "\<not> stopped (d_matchId r) (k_store k)"
    "\<And>i. stopped i (k_store k') \<longleftrightarrow> stopped i (k_store k) \<or> stops x \<and> i = d_matchId r"
    by (auto simp: attempted_def row_after_def posts_after_def)
  have "status = Some WEBHOOK_STOP_STATUS \<Longrightarrow> stops x" using Posted by (simp add: stops_def)
  with assms(1) eff show ?thesis unfolding silenced_def by (auto simp: case_prod_beta)
next
  case Left_alone
  with assms show ?thesis by (simp add: attempted_def posts_after_def silenced_def stops_def)
next
  case Ended_unsent
  with assms show ?thesis by (simp add: attempted_def posts_after_def silenced_def stops_def)
qed

text \<open>C37: A 410 is final for the match: once an endpoint answered one post of a match with 410 Gone, no
  delivery of that match is ever posted again, whatever the machine queues afterwards.\<close>

theorem gone_is_final:
  assumes "courier_reach e k" and "k_posts k = newer @ (p, Some WEBHOOK_STOP_STATUS) # older"
    and "(q, status) \<in> set newer"
  shows "hp_matchId q \<noteq> hp_matchId p"
proof -
  have "ids_distinct k \<and> silenced k"
  proof (rule courier_invariant [OF assms(1), of silenced])
    show "silenced k'" if "silenced k" "attempted e r k k' x r'" for k r k' x r'
      using that by (rule silenced_attempted)
    show "silenced (k\<lparr>k_store := s\<rparr>)" if "silenced k" "machine_writes (k_store k) s" for k s
      using that by (auto simp: silenced_def machine_writes_def stopped_def)
  qed (simp_all add: silenced_def)
  with assms(2,3) show ?thesis by (auto simp: silenced_def sorted_wrt_append)
qed

subsection \<open>A pass ends\<close>








text \<open>The machine's \<open>emit\<close> is such a write, with a fresh delivery id and a patch that leaves
  \<open>webhooksStoppedAt\<close> alone, as all its callers do.\<close>

lemma emit_is_a_machine_write:
  assumes "findMatch mid (w_store w) = Some row" "stops_nothing p"
    and "distinct (map d_deliveryId (deliveries (w_store w)))"
    and "en_uuid e (w_fresh w) \<notin> d_deliveryId ` set (deliveries (w_store w))"
  shows "machine_writes (w_store w) (w_store (after (emit e mid pl p) w))"
proof -
  obtain ev s' u si n where eff:
    "appendEvent mid (en_uuid e (w_fresh w), w_now w, pl) (w_now w) p (w_store w) = Some (ev, s')"
    "after (emit e mid pl p) w =
      (if m_webhooksStoppedAt (apply_match_patch p row) = None
       then w\<lparr>w_store := insertDelivery (delivery_for ev u si) s', w_fresh := n,
              w_trace := Eff_kick_webhooks # Eff_frame mid (Frame_event ev) # w_trace w\<rparr>
       else w\<lparr>w_store := s', w_fresh := n, w_trace := Eff_frame mid (Frame_event ev) # w_trace w\<rparr>)"
    using emit_effect [OF assms(1), of e pl p] by blast
  have s': "deliveries s' = deliveries (w_store w)" "e_deliveryId ev = en_uuid e (w_fresh w)"
    "findMatch mid s' = Some ((apply_match_patch p row)\<lparr>m_seq := Suc (m_seq row), m_updatedAt := w_now w\<rparr>)"
    "\<And>j. j \<noteq> mid \<Longrightarrow> findMatch j s' = findMatch j (w_store w)"
    using appendEvent_Some [OF assms(1), of "en_uuid e (w_fresh w)" "w_now w" pl "w_now w" p] eff(1) by auto
  have "\<exists>m'. findMatch i s' = Some m' \<and> m_webhooksStoppedAt m' \<noteq> None"
    if "findMatch i (w_store w) = Some m" "m_webhooksStoppedAt m \<noteq> None" for i m
    using that s'(3,4) assms(1,2) by (cases "i = mid") (auto simp: stops_nothing_apply)
  with eff(2) s'(1,2) assms(3,4) show ?thesis
    by (auto simp: machine_writes_def insertDelivery_def delivery_for_def findMatch_def)
qed

subsection \<open>What is posted verifies\<close>

lemma posts_conclude: "k_posts (after (conclude r st) j) = k_posts j"
  by (auto simp: conclude_def Let_def patch_delivery_def stop_match_def
      split: attempt_outcome.split sum.split option.split)





subsection \<open>A worker at work\<close>

definition sample_courier :: "(nat \<Rightarrow> nat option) \<Rightarrow> nat \<Rightarrow> courier_env" where
  "sample_courier status n = \<lparr>ke_hmac = sample_hmac, ke_json = (\<lambda>v. decimal_nat (v_seq v)),
     ke_keys = (\<lambda>_ _. Inr (Some [(''w'', ''secret'')])), ke_answer = (\<lambda>h _. (10, status (length h))),
     ke_concurrency = n\<rparr>"

definition sample_delivery :: "ident \<Rightarrow> nat \<Rightarrow> delivery_row" where
  "sample_delivery i n = \<lparr>d_deliveryId = i, d_matchId = ''m'', d_seq = n, d_url = ''u'', d_secretId = ''w'',
     d_status = Dl_pending, d_attempt = 0, d_nextAttemptAt = Some 0, d_lastStatus = None,
     d_lastError = None, d_deliveredAt = None, d_createdAt = 0, d_updatedAt = 0\<rparr>"

definition sample_tables :: "delivery_row list \<Rightarrow> store" where
  "sample_tables ds = (createMemoryMatchStore ''d'')\<lparr>matches := [(sample_row Live)\<lparr>m_deployment := ''d''\<rparr>],
     events := [sample_ending, sample_ending\<lparr>e_seq := 2, e_deliveryId := ''d2''\<rparr>], deliveries := ds\<rparr>"

definition sample_at_work :: "delivery_row list \<Rightarrow> courier" where
  "sample_at_work ds = \<lparr>k_store = sample_tables ds, k_now = 0, k_posts = [], k_timers = [], k_kicked = False\<rparr>"

lemma sample_picks:
  "picked (sample_courier status 8) (sample_at_work [sample_delivery i (Suc 0)]) = [sample_delivery i (Suc 0)]"
  "due_rows (sample_courier status 8) (sample_at_work [sample_delivery i (Suc 0)]) = [sample_delivery i (Suc 0)]"
  by (simp_all add: listDueDeliveries_def sample_at_work_def sample_tables_def sample_delivery_def
      findMatch_def createMemoryMatchStore_def groups_def sample_courier_def)

lemma posts_pass_once:
  "k_posts (after (pass_once e) k) = k_posts (after (for_each (attempt e) (picked e k)) k)"
  by (simp add: pass_once_after Let_def)

lemma sample_event:
  "event_for (sample_delivery i (Suc 0)) (sample_tables ds) = Some sample_ending"
  "findMatch ''m'' (sample_tables ds) = Some ((sample_row Live)\<lparr>m_deployment := ''d''\<rparr>)"
  "m_webhooksStoppedAt (sample_row Live) = None"
  by (simp_all add: event_for_def listEvents_def sample_tables_def sample_delivery_def
      createMemoryMatchStore_def sample_ending_def findMatch_def sample_row_def new_match_row_def)

lemma sample_delivery_simps [simp]:
  "d_deliveryId (sample_delivery i n) = i" "d_matchId (sample_delivery i n) = ''m''"
  "d_attempt (sample_delivery i n) = 0" "d_secretId (sample_delivery i n) = ''w''"
  "d_status (sample_delivery i n) = Dl_pending" "d_seq (sample_delivery i n) = n"
  by (simp_all add: sample_delivery_def)

lemma sample_post:
  "map (\<lambda>(p, s). (hp_deliveryId p, hp_matchId p, hp_attempt p, s))
     (k_posts (after (pass_once (sample_courier status 8)) (sample_at_work [sample_delivery i (Suc 0)]))) =
   [(i, ''m'', 1, status 0)]"
  unfolding posts_pass_once sample_picks(1)
  by (simp add: attempt_def sample_at_work_def sample_event sample_courier_def post_def posts_conclude
      case_prod_beta request_of_def Let_def WEBHOOK_ATTEMPT_TIMEOUT_MS_def)

lemma sample_reach:
  "courier_reach e (sample_at_work [])"
  "distinct (map d_deliveryId ds) \<Longrightarrow> (\<And>r. r \<in> set ds \<Longrightarrow> d_status r = Dl_pending \<and> d_attempt r = 0) \<Longrightarrow>
    courier_reach e (sample_at_work ds)"
proof -
  show start: "courier_reach e (sample_at_work [])"
    unfolding sample_at_work_def by (rule courier_reach.start) (simp add: sample_tables_def)
  assume ds: "distinct (map d_deliveryId ds)" "\<And>r. r \<in> set ds \<Longrightarrow> d_status r = Dl_pending \<and> d_attempt r = 0"
  have "machine_writes (k_store (sample_at_work [])) (sample_tables ds)"
    using ds by (simp add: machine_writes_def sample_at_work_def sample_tables_def findMatch_def)
  from courier_reach.machine [OF start this] show "courier_reach e (sample_at_work ds)"
    by (simp add: sample_at_work_def)
qed

lemma sample_reach_one: "courier_reach e (after (pass_once e) (sample_at_work [sample_delivery i (Suc 0)]))"
  by (rule courier_reach.pass, rule sample_reach(2)) simp_all

lemma sample_row_left:
  obtains r where "rows_of (after (pass_once (sample_courier status 8)) (sample_at_work [sample_delivery i (Suc 0)]))
    = [r]" "d_deliveryId r = i"
proof -
  let ?k = "sample_at_work [sample_delivery i (Suc 0)]" and ?e = "sample_courier status 8"
  have "distinct (map d_deliveryId (rows_of ?k))" "sample_delivery i (Suc 0) \<in> set (rows_of ?k)"
    by (simp_all add: sample_at_work_def sample_tables_def)
  from attempt_effect [OF this, of ?e] obtain x r where
    "attempted ?e (sample_delivery i (Suc 0)) ?k (after (attempt ?e (sample_delivery i (Suc 0))) ?k) x r" by blast
  then have "d_deliveryId r = i" "rows_of (after (attempt ?e (sample_delivery i (Suc 0))) ?k) = [r]"
    by (auto simp: attempted_def row_after_def replace_row_def sample_at_work_def sample_tables_def)
  then show thesis
    by (intro that [of r]) (simp_all add: pass_once_after sample_picks(1) Let_def)
qed

theorem at_most_ten_posts_on_schedule_witness:
  "\<exists>r. d_attempt r = 1 \<and> r \<in> set (rows_of (after (pass_once (sample_courier (\<lambda>_. Some 500) 8))
     (sample_at_work [sample_delivery ''d1'' (Suc 0)])))"
proof -
  let ?k = "after (pass_once (sample_courier (\<lambda>_. Some 500) 8)) (sample_at_work [sample_delivery ''d1'' (Suc 0)])"
  obtain r where r: "rows_of ?k = [r]" "d_deliveryId r = ''d1''" by (rule sample_row_left)
  from at_most_ten_posts_on_schedule [OF sample_reach_one, of r] r
  have "d_attempt r = length (posts_of ''d1'' ?k)" by simp
  moreover obtain p status where "k_posts ?k = [(p, status)]" "hp_deliveryId p = ''d1''"
    using sample_post [of "\<lambda>_. Some 500" "''d1''"] by (auto simp: map_eq_Cons_conv)
  ultimately show ?thesis using r by auto
qed


text \<open>Two matches, of which the endpoint wants no more of the first.\<close>

definition sample_other :: delivery_row where
  "sample_other = (sample_delivery ''d2'' (Suc 0))\<lparr>d_matchId := ''n''\<rparr>"

definition sample_pair :: "delivery_row list \<Rightarrow> courier" where
  "sample_pair ds = (sample_at_work [])\<lparr>k_store := (sample_tables ds)
     \<lparr>matches := [(sample_row Live)\<lparr>m_deployment := ''d''\<rparr>,
        (sample_row Live)\<lparr>m_deployment := ''d'', m_id := ''n''\<rparr>],
      events := [sample_ending, sample_ending\<lparr>e_matchId := ''n''\<rparr>]\<rparr>\<rparr>"

abbreviation sample_gone :: courier_env where
  "sample_gone \<equiv> sample_courier (\<lambda>n. Some (if n = 0 then 410 else 200)) 8"

lemma sample_pair_picks:
  "picked sample_gone (sample_pair [sample_delivery ''d1'' (Suc 0), sample_other]) =
    [sample_delivery ''d1'' (Suc 0), sample_other]"
  by (simp add: listDueDeliveries_def sample_pair_def sample_tables_def sample_delivery_def sample_other_def
      findMatch_def createMemoryMatchStore_def groups_def sample_courier_def sample_at_work_def)

lemma sample_pair_posts:
  "map (\<lambda>(p, s). (hp_matchId p, s)) (k_posts (after (pass_once sample_gone)
     (sample_pair [sample_delivery ''d1'' (Suc 0), sample_other]))) = [(''n'', Some 200), (''m'', Some 410)]"
  unfolding posts_pass_once sample_pair_picks
  by (simp add: attempt_def sample_pair_def sample_at_work_def sample_other_def sample_tables_def
      findMatch_def event_for_def listEvents_def createMemoryMatchStore_def sample_ending_def
      sample_row_def new_match_row_def
      sample_courier_def post_def case_prod_beta request_of_def Let_def WEBHOOK_ATTEMPT_TIMEOUT_MS_def
      conclude_def webhookAttemptOutcome_def WEBHOOK_STOP_STATUS_def patch_delivery_def stop_match_def
      updateDelivery_def findDelivery_def updateMatch_def)

lemma sample_pair_reach:
  "courier_reach sample_gone (after (pass_once sample_gone)
     (sample_pair [sample_delivery ''d1'' (Suc 0), sample_other]))"
proof (rule courier_reach.pass)
  have start: "courier_reach sample_gone (sample_pair [])"
    unfolding sample_pair_def sample_at_work_def
    by (simp, rule courier_reach.start) (simp add: sample_tables_def)
  have "machine_writes (k_store (sample_pair [])) (k_store (sample_pair
      [sample_delivery ''d1'' (Suc 0), sample_other]))"
    by (simp add: machine_writes_def sample_pair_def sample_tables_def findMatch_def sample_other_def)
  from courier_reach.machine [OF start this]
  show "courier_reach sample_gone (sample_pair [sample_delivery ''d1'' (Suc 0), sample_other])"
    by (simp add: sample_pair_def sample_at_work_def)
qed

theorem gone_is_final_witness:
  "\<exists>q p. k_posts (after (pass_once sample_gone)
      (sample_pair [sample_delivery ''d1'' (Suc 0), sample_other])) =
     [(q, Some 200), (p, Some WEBHOOK_STOP_STATUS)] \<and> hp_matchId q \<noteq> hp_matchId p"
proof -
  obtain q p where posts: "k_posts (after (pass_once sample_gone)
      (sample_pair [sample_delivery ''d1'' (Suc 0), sample_other])) =
     [(q, Some 200)] @ (p, Some WEBHOOK_STOP_STATUS) # []"
    using sample_pair_posts by (auto simp: map_eq_Cons_conv WEBHOOK_STOP_STATUS_def)
  from gone_is_final [OF sample_pair_reach posts, of q "Some 200"] posts show ?thesis by simp
qed



subsection \<open>A pass that never ends\<close>

lemma run_pass_loops:
  assumes "run_state (pass_once e) k = (True, k)"
  shows "run_pass e k = None"
proof -
  have "run_pass e' j = Some y \<Longrightarrow> e' = e \<longrightarrow> j \<noteq> k" for e' j y
    by (erule run_pass.raw_induct [rotated]) (use assms in \<open>auto split: prod.splits if_splits\<close>)
  then show ?thesis by (cases "run_pass e k") auto
qed

text \<open>While the key store rejects and more matches have something due than one round serves, the pass
  goes round at once and for ever: nothing is posted, no time passes.\<close>

lemma rejecting_keys_spin:
  "run_pass ((sample_courier status 1)\<lparr>ke_keys := \<lambda>_ _. Inl ''down''\<rparr>)
     (sample_pair [sample_delivery ''d1'' (Suc 0), sample_other]) = None"
proof (rule run_pass_loops)
  let ?e = "(sample_courier status 1)\<lparr>ke_keys := \<lambda>_ _. Inl ''down''\<rparr>"
  let ?k = "sample_pair [sample_delivery ''d1'' (Suc 0), sample_other]"
  have picks: "due_rows ?e ?k = [sample_delivery ''d1'' (Suc 0), sample_other]"
    "picked ?e ?k = [sample_delivery ''d1'' (Suc 0)]"
    by (simp_all add: listDueDeliveries_def sample_pair_def sample_tables_def sample_delivery_def
        sample_other_def findMatch_def createMemoryMatchStore_def groups_def sample_courier_def
        sample_at_work_def)
  have "after (attempt ?e (sample_delivery ''d1'' (Suc 0))) ?k = ?k"
    by (simp add: attempt_def sample_pair_def sample_at_work_def sample_tables_def findMatch_def
        event_for_def listEvents_def createMemoryMatchStore_def sample_ending_def sample_row_def
        new_match_row_def Let_def)
  then show "run_state (pass_once ?e) ?k = (True, ?k)"
    unfolding pass_once_after unfolding picks(2) unfolding picks(1) by (simp add: Let_def sample_pair_def sample_at_work_def)
qed

end
