(* ===== verification/Rcon.thy ===== *)
theory Rcon
  imports Prelude "HOL-Library.Word"
begin

unbundle bit_operations_syntax

text \<open>
  Source RCON, \<open>apps/orchestrator/src/rcon/protocol.ts\<close> (the frames) and \<open>rcon/client.ts\<close> (one command
  over one connection).

  \<^item> A buffer is a list of bytes. Numbers on the wire are 32-bit words, little-endian, read signed.
  \<^item> \<open>Buffer.from(body, 'ascii')\<close> takes the low byte of each character, \<open>toString('ascii')\<close> drops the
    high bit of each byte.
  \<^item> What the peer does while the client waits is a list of happenings: bytes arrive, the connection
    closes, a deadline passes. At the end of the list the peer is silent.
\<close>

subsection \<open>Frames\<close>

definition RCON_AUTH :: "32 word" where "RCON_AUTH = 3"
definition RCON_AUTH_RESPONSE :: "32 word" where "RCON_AUTH_RESPONSE = 2"
definition RCON_EXECCOMMAND :: "32 word" where "RCON_EXECCOMMAND = 2"
definition RCON_RESPONSE_VALUE :: "32 word" where "RCON_RESPONSE_VALUE = 0"
definition RCON_AUTH_FAILED_ID :: "32 word" where "RCON_AUTH_FAILED_ID = - 1"
definition RCON_PACKET_MAX :: int where "RCON_PACKET_MAX = 4 * 1024 * 1024"

record rcon_packet =
  rp_id :: "32 word"
  rp_type :: "32 word"
  rp_body :: string

type_synonym bytes = "8 word list"

definition writeInt32LE :: "32 word \<Rightarrow> bytes" where
  "writeInt32LE w = [ucast w, ucast (drop_bit 8 w), ucast (drop_bit 16 w), ucast (drop_bit 24 w)]"

definition readInt32LE :: "bytes \<Rightarrow> 32 word" where
  "readInt32LE bs = ucast (bs ! 0) OR push_bit 8 (ucast (bs ! 1)) OR push_bit 16 (ucast (bs ! 2)) OR
     push_bit 24 (ucast (bs ! 3))"

definition ascii_bytes :: "string \<Rightarrow> bytes" where
  "ascii_bytes s = map (\<lambda>c. word_of_nat (of_char c)) s"

definition ascii_text :: "bytes \<Rightarrow> string" where
  "ascii_text bs = map (\<lambda>b. char_of (unat (b AND 127))) bs"

definition encodeRconPacket :: "rcon_packet \<Rightarrow> bytes" where
  "encodeRconPacket p =
    (let body = ascii_bytes (rp_body p)
     in writeInt32LE (word_of_nat (length body + 10)) @ writeInt32LE (rp_id p) @
        writeInt32LE (rp_type p) @ body @ [0, 0])"

text \<open>\<open>Inl\<close> is the thrown error: the length prefix is nonsense, and what was read before it is lost.\<close>

function decodeRconPackets :: "bytes \<Rightarrow> int + rcon_packet list \<times> bytes" where
  "decodeRconPackets buffered =
    (if length buffered < 4 then Inr ([], buffered)
     else
       (let size = sint (readInt32LE buffered) in
        if size < 10 \<or> size > RCON_PACKET_MAX then Inl size
        else if int (length buffered) - 4 < size then Inr ([], buffered)
        else
          (let n = nat size;
               packet = \<lparr>rp_id = readInt32LE (drop 4 buffered), rp_type = readInt32LE (drop 8 buffered),
                 rp_body = ascii_text (take (n - 10) (drop 12 buffered))\<rparr>
           in case decodeRconPackets (drop (4 + n) buffered) of
                Inl e \<Rightarrow> Inl e
              | Inr (packets, rest) \<Rightarrow> Inr (packet # packets, rest))))"
  by pat_completeness auto
termination by (relation "measure length") auto

declare decodeRconPackets.simps [simp del]

subsection \<open>The connection\<close>

datatype rcon_failure = Unreachable | Auth_failed | Timeout | Protocol

datatype happening = Arrives bytes | Hangs_up | Deadline

record reader =
  rd_buffered :: bytes
  rd_queued :: "rcon_packet list"
  rd_closed :: "rcon_failure option"

text \<open>\<open>onData\<close>: the packets a chunk completes, or the failure that ends the reading.\<close>

definition onData :: "bytes \<Rightarrow> reader \<Rightarrow> reader" where
  "onData chunk r =
    (case decodeRconPackets (rd_buffered r @ chunk) of
       Inl _ \<Rightarrow> r\<lparr>rd_buffered := rd_buffered r @ chunk, rd_closed := Some Protocol\<rparr>
     | Inr (packets, rest) \<Rightarrow> r\<lparr>rd_buffered := rest, rd_queued := rd_queued r @ packets\<rparr>)"

definition onClose :: "reader \<Rightarrow> reader" where
  "onClose r = r\<lparr>rd_closed := Some (case rd_closed r of None \<Rightarrow> Unreachable | Some f \<Rightarrow> f)\<rparr>"

text \<open>The next packet, within the command's deadline.\<close>

fun next_packet :: "reader \<Rightarrow> happening list \<Rightarrow> (rcon_failure + rcon_packet) \<times> reader \<times> happening list"
where
  "next_packet r hs =
    (case rd_queued r of
       p # ps \<Rightarrow> (Inr p, r\<lparr>rd_queued := ps\<rparr>, hs)
     | [] \<Rightarrow>
        (case rd_closed r of
           Some f \<Rightarrow> (Inl f, r, hs)
         | None \<Rightarrow>
            (case hs of
               [] \<Rightarrow> (Inl Timeout, r, [])
             | Arrives chunk # hs' \<Rightarrow> next_packet (onData chunk r) hs'
             | Hangs_up # hs' \<Rightarrow> next_packet (onClose r) hs'
             | Deadline # hs' \<Rightarrow> (Inl Timeout, r, hs'))))"

declare next_packet.simps [simp del]

definition AUTH_ID :: "32 word" where "AUTH_ID = 1"
definition COMMAND_ID :: "32 word" where "COMMAND_ID = 2"
definition SENTINEL_ID :: "32 word" where "SENTINEL_ID = 3"
definition AUTH_NOISE_MAX :: nat where "AUTH_NOISE_MAX = 4"

text \<open>The verdict on the password: noise is skipped a bounded number of times.\<close>

fun await_verdict :: "nat \<Rightarrow> reader \<Rightarrow> happening list
  \<Rightarrow> (rcon_failure + rcon_packet) \<times> reader \<times> happening list" where
  "await_verdict left r hs =
    (case next_packet r hs of
       (Inl f, r', hs') \<Rightarrow> (Inl f, r', hs')
     | (Inr p, r', hs') \<Rightarrow>
        if rp_type p \<noteq> RCON_RESPONSE_VALUE then (Inr p, r', hs')
        else (case left of
            0 \<Rightarrow> (Inl Protocol, r', hs')
          | Suc n \<Rightarrow> await_verdict n r' hs'))"

declare await_verdict.simps [simp del]

subsection \<open>What was read before stays read\<close>

lemma decode_short: "length bs < 4 \<Longrightarrow> decodeRconPackets bs = Inr ([], bs)"
  by (simp add: decodeRconPackets.simps)

lemma read_append [simp]: "length bs \<ge> 4 \<Longrightarrow> readInt32LE (bs @ later) = readInt32LE bs"
proof -
  assume "length bs \<ge> 4"
  then have "(bs @ later) ! i = bs ! i" if "i < 4" for i using that by (simp add: nth_append)
  then show ?thesis by (simp add: readInt32LE_def)
qed

lemma read_drop_append [simp]:
  "length bs \<ge> k + 4 \<Longrightarrow> readInt32LE (drop k (bs @ later)) = readInt32LE (drop k bs)"
  by (simp add: readInt32LE_def nth_append)

text \<open>Bytes that arrive later only add packets, and an error stays an error.\<close>

lemma decode_append:
  "(case decodeRconPackets bs of
      Inl e \<Rightarrow> decodeRconPackets (bs @ later) = Inl e
    | Inr (ps, rest) \<Rightarrow> decodeRconPackets (bs @ later) =
        map_sum id (map_prod (\<lambda>qs. ps @ qs) id) (decodeRconPackets (rest @ later)))"
proof (induction bs rule: decodeRconPackets.induct)
  case (1 bs)
  let ?size = "sint (readInt32LE bs)" and ?n = "nat (sint (readInt32LE bs))"
  show ?case
  proof (cases "length bs < 4")
    case True
    then show ?thesis
      by (simp add: decode_short) (cases "decodeRconPackets (bs @ later)"; simp add: map_prod_def split_beta)
  next
    case long: False
    show ?thesis
    proof (cases "?size < 10 \<or> ?size > RCON_PACKET_MAX")
      case True
      with long show ?thesis by (simp add: decodeRconPackets.simps [of bs] decodeRconPackets.simps [of "bs @ later"])
    next
      case ok: False
      show ?thesis
      proof (cases "int (length bs) - 4 < ?size")
        case True
        with long ok show ?thesis
          by (simp add: decodeRconPackets.simps [of bs])
            (cases "decodeRconPackets (bs @ later)"; simp add: map_prod_def split_beta)
      next
        case whole: False
        then have len: "4 + ?n \<le> length bs" "12 \<le> length bs" "10 \<le> ?n" using ok by linarith+
        have "take (?n - 10) (drop 12 (bs @ later)) = take (?n - 10) (drop 12 bs)"
          "drop (4 + ?n) (bs @ later) = drop (4 + ?n) bs @ later" using len by simp_all
        then have step: "decodeRconPackets (bs @ later) =
            (case decodeRconPackets (drop (4 + ?n) bs @ later) of
               Inl e \<Rightarrow> Inl e
             | Inr (packets, rest) \<Rightarrow> Inr (\<lparr>rp_id = readInt32LE (drop 4 bs), rp_type = readInt32LE (drop 8 bs),
                 rp_body = ascii_text (take (?n - 10) (drop 12 bs))\<rparr> # packets, rest))"
          using long ok whole len
          by (subst decodeRconPackets.simps) (simp add: Let_def del: drop_append split: sum.split)
        note IH = 1 [OF long refl ok whole refl refl]
        show ?thesis
        proof (cases "decodeRconPackets (drop (4 + ?n) bs)")
          case (Inl e)
          with IH step long ok whole show ?thesis by (simp add: decodeRconPackets.simps [of bs] Let_def)
        next
          case (Inr pr)
          obtain ps rest where pr: "pr = (ps, rest)" by (cases pr)
          from IH Inr pr have "decodeRconPackets (drop (4 + ?n) bs @ later) =
              map_sum id (map_prod (\<lambda>qs. ps @ qs) id) (decodeRconPackets (rest @ later))" by simp
          with step Inr pr long ok whole show ?thesis
            by (cases "decodeRconPackets (rest @ later)") (auto simp: decodeRconPackets.simps [of bs] Let_def)
        qed
      qed
    qed
  qed
qed

subsection \<open>One frame\<close>

lemma read_write [simp]: "readInt32LE (writeInt32LE w @ later) = w"
proof (rule bit_word_eqI)
  fix n
  assume "n < LENGTH(32)"
  then consider "n < 8" | "8 \<le> n" "n < 16" | "16 \<le> n" "n < 24" | "24 \<le> n" "n < 32" by fastforce
  then show "bit (readInt32LE (writeInt32LE w @ later)) n \<longleftrightarrow> bit w n"
    by cases (auto simp: readInt32LE_def writeInt32LE_def bit_simps nth_append)
qed

lemma sint_of_size: "int n \<le> RCON_PACKET_MAX \<Longrightarrow> sint (word_of_nat n :: 32 word) = int n"
  by (simp add: RCON_PACKET_MAX_def signed_of_nat signed_take_bit_int_eq_self)

lemma length_write [simp]: "length (writeInt32LE w) = 4"
  by (simp add: writeInt32LE_def)

definition ascii :: "string \<Rightarrow> bool" where
  "ascii s \<longleftrightarrow> list_all (\<lambda>c. (of_char c :: nat) < 128) s"

lemma text_bytes: "ascii s \<Longrightarrow> ascii_text (ascii_bytes s) = s"
proof (induction s)
  case (Cons c s)
  have "unat ((word_of_nat (of_char c) :: 8 word) AND 127) = of_char c" if "(of_char c :: nat) < 128"
  proof -
    have "(word_of_nat (of_char c) :: 8 word) AND 127 = take_bit 7 (word_of_nat (of_char c))"
      by (simp add: take_bit_eq_mask mask_eq_exp_minus_1)
    then show ?thesis using that by (simp add: unsigned_take_bit_eq unsigned_of_nat take_bit_nat_eq_self)
  qed
  with Cons show ?case by (simp add: ascii_def ascii_text_def ascii_bytes_def)
qed (simp add: ascii_text_def ascii_bytes_def)

definition fits :: "rcon_packet \<Rightarrow> bool" where
  "fits p \<longleftrightarrow> ascii (rp_body p) \<and> int (length (rp_body p)) + 10 \<le> RCON_PACKET_MAX"

lemma length_ascii_bytes [simp]: "length (ascii_bytes s) = length s"
  by (simp add: ascii_bytes_def)

lemma decode_encode:
  assumes "fits p"
  shows "decodeRconPackets (encodeRconPacket p @ later) =
    map_sum id (map_prod (Cons p) id) (decodeRconPackets later)"
proof -
  let ?body = "ascii_bytes (rp_body p)" and ?n = "length (rp_body p) + 10"
  let ?bs = "encodeRconPacket p @ later"
  have bs: "?bs = writeInt32LE (word_of_nat ?n) @ writeInt32LE (rp_id p) @ writeInt32LE (rp_type p) @
      ?body @ 0 # 0 # later"
    by (simp add: encodeRconPacket_def Let_def ascii_bytes_def)
  have n: "int ?n \<le> RCON_PACKET_MAX" using assms by (simp add: fits_def)
  then have size: "sint (readInt32LE ?bs) = int ?n"
    unfolding bs read_write by (rule sint_of_size)
  have "readInt32LE (drop 4 ?bs) = rp_id p" "readInt32LE (drop 8 ?bs) = rp_type p"
    "drop 12 ?bs = ?body @ 0 # 0 # later" "drop (4 + ?n) ?bs = later"
    unfolding bs by (simp_all add: drop_Cons' ascii_bytes_def)
  moreover have "take (?n - 10) (?body @ 0 # 0 # later) = ?body" by simp
  moreover have "length ?bs = ?n + 4 + length later" unfolding bs by simp
  moreover have "ascii_text ?body = rp_body p" using assms by (simp add: fits_def text_bytes)
  moreover have "nat (int ?n) = ?n" by simp
  ultimately have "decodeRconPackets ?bs = (case decodeRconPackets later of Inl e \<Rightarrow> Inl e
      | Inr (packets, rest) \<Rightarrow> Inr (\<lparr>rp_id = rp_id p, rp_type = rp_type p, rp_body = rp_body p\<rparr> # packets, rest))"
    using n by (subst decodeRconPackets.simps) (simp only: size Let_def, simp)
  then show ?thesis by (cases "decodeRconPackets later") (simp_all add: split_beta map_prod_def)
qed


subsection \<open>One command\<close>

lemma decode_size: "decodeRconPackets bs = Inr (ps, rest) \<Longrightarrow> length ps + length rest \<le> length bs"
proof (induction bs arbitrary: ps rule: decodeRconPackets.induct)
  case (1 bs)
  let ?n = "nat (sint (readInt32LE bs))"
  show ?case
  proof (cases "length bs < 4 \<or> int (length bs) - 4 < sint (readInt32LE bs)")
    case True
    with "1.prems" show ?thesis by (auto simp: decodeRconPackets.simps [of bs] Let_def split: if_splits)
  next
    case False
    then have size: "\<not> (sint (readInt32LE bs) < 10 \<or> sint (readInt32LE bs) > RCON_PACKET_MAX)"
      using "1.prems" by (auto simp: decodeRconPackets.simps [of bs] Let_def split: if_splits)
    with False "1.prems" obtain qs where "decodeRconPackets (drop (4 + ?n) bs) = Inr (qs, rest)"
      "length ps = Suc (length qs)"
      by (auto simp: decodeRconPackets.simps [of bs] Let_def split: sum.splits)
    with 1(1) [OF _ refl size _ refl refl, of qs] False size show ?thesis by auto
  qed
qed

definition potential :: "reader \<Rightarrow> happening list \<Rightarrow> nat" where
  "potential r hs = length (rd_queued r) + length (rd_buffered r) +
     sum_list (map (\<lambda>h. case h of Arrives c \<Rightarrow> Suc (length c) | _ \<Rightarrow> 1) hs)"

lemma potential_onData:
  "rd_closed (onData chunk r) = None \<Longrightarrow> potential (onData chunk r) hs < potential r (Arrives chunk # hs)"
  using decode_size [of "rd_buffered r @ chunk"]
  by (fastforce simp: onData_def potential_def split: sum.splits)

lemma next_packet_potential:
  "next_packet r hs = (Inr p, r', hs') \<Longrightarrow> potential r' hs' < potential r hs"
proof (induction r hs rule: next_packet.induct)
  case (1 r hs)
  show ?case
  proof (cases "rd_queued r")
    case (Cons q qs)
    with "1.prems" show ?thesis by (auto simp: next_packet.simps [of r] potential_def)
  next
    case Nil
    with "1.prems" have alive: "rd_closed r = None"
      by (cases "rd_closed r") (auto simp: next_packet.simps [of r])
    show ?thesis
    proof (cases hs)
      case Nil
      with "1.prems" alive \<open>rd_queued r = []\<close> show ?thesis by (simp add: next_packet.simps [of r])
    next
      case (Cons h hs0)
      show ?thesis
      proof (cases h)
        case (Arrives chunk)
        with 1 Cons alive \<open>rd_queued r = []\<close> have "potential r' hs' < potential (onData chunk r) hs0"
          by (simp add: next_packet.simps [of r])
        moreover have "potential (onData chunk r) hs0 \<le> potential r (Arrives chunk # hs0)"
          using potential_onData [of chunk r hs0]
          by (cases "decodeRconPackets (rd_buffered r @ chunk)") (auto simp: onData_def potential_def alive)
        ultimately show ?thesis using Cons Arrives by simp
      next
        case Hangs_up
        with 1 Cons alive \<open>rd_queued r = []\<close> show ?thesis
          by (fastforce simp: next_packet.simps [of r] potential_def onClose_def)
      next
        case Deadline
        with 1 Cons alive \<open>rd_queued r = []\<close> show ?thesis by (simp add: next_packet.simps [of r])
      qed
    qed
  qed
qed

definition marker_frame :: bytes where
  "marker_frame = encodeRconPacket \<lparr>rp_id = SENTINEL_ID, rp_type = RCON_RESPONSE_VALUE, rp_body = ''''\<rparr>"

text \<open>The output: everything up to the marker's echo, which is asked for after the first answer. The
  second component is what the client writes meanwhile.\<close>

function gather :: "reader \<Rightarrow> happening list \<Rightarrow> string \<Rightarrow> bool \<Rightarrow> (rcon_failure + string) \<times> bytes list"
where
  "gather r hs output marked =
    (case next_packet r hs of
       (Inl f, _, _) \<Rightarrow> (if output \<noteq> '''' \<and> f \<noteq> Protocol then Inr output else Inl f, [])
     | (Inr p, r', hs') \<Rightarrow>
        if rp_id p = RCON_AUTH_FAILED_ID then (Inl Auth_failed, [])
        else if marked \<and> rp_id p = SENTINEL_ID then (Inr output, [])
        else (let (answer, written) = gather r' hs' (output @ rp_body p) True
              in (answer, if marked then written else marker_frame # written)))"
  by pat_completeness auto
termination
  by (relation "measure (\<lambda>(r, hs, _, _). potential r hs)") (auto dest: next_packet_potential [OF sym])

declare gather.simps [simp del]

definition fresh_reader :: reader where
  "fresh_reader = \<lparr>rd_buffered = [], rd_queued = [], rd_closed = None\<rparr>"

text \<open>\<open>exec\<close>: the answer or the failure, and the frames written. The connection is an argument.\<close>

definition rcon_exec ::
  "rcon_failure + unit \<Rightarrow> string \<Rightarrow> string \<Rightarrow> happening list \<Rightarrow> (rcon_failure + string) \<times> bytes list" where
  "rcon_exec connection password line hs =
    (case connection of
       Inl f \<Rightarrow> (Inl f, [])
     | Inr _ \<Rightarrow>
        (let auth = encodeRconPacket \<lparr>rp_id = AUTH_ID, rp_type = RCON_AUTH, rp_body = password\<rparr>
         in case await_verdict AUTH_NOISE_MAX fresh_reader hs of
              (Inl f, _, _) \<Rightarrow> (Inl f, [auth])
            | (Inr verdict, r, hs') \<Rightarrow>
                if rp_type verdict \<noteq> RCON_AUTH_RESPONSE then (Inl Protocol, [auth])
                else if rp_id verdict = RCON_AUTH_FAILED_ID then (Inl Auth_failed, [auth])
                else
                  (let run = encodeRconPacket \<lparr>rp_id = COMMAND_ID, rp_type = RCON_EXECCOMMAND, rp_body = line\<rparr>;
                       (answer, written) = gather r hs' '''' False
                   in (answer, auth # run # written))))"


subsection \<open>Chunks do not matter\<close>

lemma decode_rest: "decodeRconPackets bs = Inr (ps, rest) \<Longrightarrow> decodeRconPackets rest = Inr ([], rest)"
proof (induction bs arbitrary: ps rule: decodeRconPackets.induct)
  case (1 bs)
  let ?n = "nat (sint (readInt32LE bs))"
  show ?case
  proof (cases "length bs < 4 \<or> int (length bs) - 4 < sint (readInt32LE bs)")
    case True
    with "1.prems" have "ps = [] \<and> rest = bs"
      by (auto simp: decodeRconPackets.simps [of bs] Let_def split: if_splits)
    with "1.prems" show ?thesis by simp
  next
    case False
    then have size: "\<not> (sint (readInt32LE bs) < 10 \<or> sint (readInt32LE bs) > RCON_PACKET_MAX)"
      using "1.prems" by (auto simp: decodeRconPackets.simps [of bs] Let_def split: if_splits)
    with False "1.prems" obtain qs where "decodeRconPackets (drop (4 + ?n) bs) = Inr (qs, rest)"
      by (auto simp: decodeRconPackets.simps [of bs] Let_def split: sum.splits)
    with 1(1) [OF _ refl size _ refl refl, of qs] False size show ?thesis by auto
  qed
qed

lemma decode_packets:
  "list_all fits ps \<Longrightarrow> decodeRconPackets (concat (map encodeRconPacket ps)) = Inr (ps, [])"
proof (induction ps)
  case (Cons p ps)
  then show ?case using decode_encode [of p "concat (map encodeRconPacket ps)"] by simp
qed (simp add: decode_short)

text \<open>The reader is inside a stream of whole packets, of which \<open>ps\<close> are still to be handed out.\<close>

definition reading :: "reader \<Rightarrow> bytes list \<Rightarrow> rcon_packet list \<Rightarrow> bool" where
  "reading r chunks ps \<longleftrightarrow> rd_closed r = None \<and>
     decodeRconPackets (rd_buffered r) = Inr ([], rd_buffered r) \<and>
     (\<exists>qs. ps = rd_queued r @ qs \<and> decodeRconPackets (rd_buffered r @ concat chunks) = Inr (qs, []))"

lemma reading_start:
  "list_all fits ps \<Longrightarrow> concat chunks = concat (map encodeRconPacket ps) \<Longrightarrow> reading fresh_reader chunks ps"
  by (simp add: reading_def fresh_reader_def decode_short decode_packets)

lemma reading_onData:
  assumes "reading r (chunk # chunks) ps"
  shows "reading (onData chunk r) chunks ps"
proof -
  obtain qs where qs: "ps = rd_queued r @ qs" "rd_closed r = None"
    "decodeRconPackets ((rd_buffered r @ chunk) @ concat chunks) = Inr (qs, [])"
    using assms by (auto simp: reading_def)
  note split = decode_append [of "rd_buffered r @ chunk" "concat chunks", unfolded qs(3)]
  show ?thesis
  proof (cases "decodeRconPackets (rd_buffered r @ chunk)")
    case (Inl e)
    with split show ?thesis by simp
  next
    case (Inr read)
    obtain ps1 rest where read: "read = (ps1, rest)" by (cases read)
    with split Inr obtain ps2 where "decodeRconPackets (rest @ concat chunks) = Inr (ps2, [])" "qs = ps1 @ ps2"
      by (cases "decodeRconPackets (rest @ concat chunks)") auto
    with Inr read qs decode_rest [of "rd_buffered r @ chunk" ps1 rest] show ?thesis
      by (simp add: onData_def reading_def)
  qed
qed

text \<open>C40: How the bytes of a conversation are cut into chunks does not matter: whatever chunks carry the
  frames of a list of packets (with ASCII bodies inside the size limit), the reader ends with exactly
  these packets, nothing left over and no failure.\<close>

theorem frames_survive_chunking:
  assumes "list_all fits ps" and "concat chunks = concat (map encodeRconPacket ps)"
  shows "fold onData chunks fresh_reader = \<lparr>rd_buffered = [], rd_queued = ps, rd_closed = None\<rparr>"
proof -
  have "reading r chunks ps \<Longrightarrow> reading (fold onData chunks r) [] ps" for r
    by (induction chunks arbitrary: r) (simp_all add: reading_onData)
  from this [OF reading_start [OF assms]] obtain qs where
    "ps = rd_queued (fold onData chunks fresh_reader) @ qs"
    "rd_closed (fold onData chunks fresh_reader) = None"
    "decodeRconPackets (rd_buffered (fold onData chunks fresh_reader)) = Inr (qs, [])"
    "decodeRconPackets (rd_buffered (fold onData chunks fresh_reader)) =
      Inr ([], rd_buffered (fold onData chunks fresh_reader))"
    unfolding reading_def by auto
  then show ?thesis by (intro reader.equality) auto
qed

definition sample_packet :: "nat \<Rightarrow> string \<Rightarrow> rcon_packet" where
  "sample_packet i body = \<lparr>rp_id = word_of_nat i, rp_type = 0, rp_body = body\<rparr>"

theorem frames_survive_chunking_witness:
  "let bytes = encodeRconPacket (sample_packet 1 ''ok'') @ encodeRconPacket (sample_packet 2 '''') in
   rd_queued (fold onData [take 3 bytes, drop 3 bytes] fresh_reader) =
     [sample_packet 1 ''ok'', sample_packet 2 '''']"
proof -
  define bytes where
    "bytes = encodeRconPacket (sample_packet 1 ''ok'') @ encodeRconPacket (sample_packet 2 '''')"
  have "fold onData [take 3 bytes, drop 3 bytes] fresh_reader =
      \<lparr>rd_buffered = [], rd_queued = [sample_packet 1 ''ok'', sample_packet 2 ''''], rd_closed = None\<rparr>"
    by (rule frames_survive_chunking)
      (simp add: fits_def ascii_def RCON_PACKET_MAX_def sample_packet_def, simp add: bytes_def [symmetric], simp add: bytes_def)
  then show ?thesis by (simp only: bytes_def [symmetric] Let_def) simp
qed

subsection \<open>The answer comes back whole\<close>

lemma next_reading:
  assumes "reading r chunks (p # ps)"
  obtains r' chunks' where "next_packet r (map Arrives chunks @ tail) = (Inr p, r', map Arrives chunks' @ tail)"
    and "reading r' chunks' ps"
proof -
  have "\<exists>r' chunks'. next_packet r (map Arrives chunks @ tail) = (Inr p, r', map Arrives chunks' @ tail) \<and>
      reading r' chunks' ps"
    using assms
  proof (induction chunks arbitrary: r)
    case Nil
    then obtain q qs where "rd_queued r = q # qs" by (cases "rd_queued r") (auto simp: reading_def)
    with Nil show ?case
      by (intro exI [of _ "r\<lparr>rd_queued := qs\<rparr>"] exI [of _ "[]"])
        (auto simp: next_packet.simps [of r] reading_def)
  next
    case (Cons chunk chunks)
    show ?case
    proof (cases "rd_queued r")
      case (Cons q qs)
      with Cons.prems show ?thesis
        by (intro exI [of _ "r\<lparr>rd_queued := qs\<rparr>"] exI [of _ "chunk # chunks"])
          (auto simp: next_packet.simps [of r] reading_def)
    next
      case Nil
      with Cons.prems have "next_packet r (map Arrives (chunk # chunks) @ tail) =
          next_packet (onData chunk r) (map Arrives chunks @ tail)"
        by (simp add: next_packet.simps [of r] reading_def)
      with Cons.IH [OF reading_onData [OF Cons.prems]] show ?thesis by simp
    qed
  qed
  with that show thesis by blast
qed

lemma verdict_reading:
  assumes "reading r chunks (noise @ verdict # ps)" and "length noise \<le> left"
    and "list_all (\<lambda>p. rp_type p = RCON_RESPONSE_VALUE) noise" "rp_type verdict \<noteq> RCON_RESPONSE_VALUE"
  obtains r' chunks' where "await_verdict left r (map Arrives chunks @ tail) =
      (Inr verdict, r', map Arrives chunks' @ tail)" and "reading r' chunks' ps"
proof -
  have "\<exists>r' chunks'. await_verdict left r (map Arrives chunks @ tail) =
      (Inr verdict, r', map Arrives chunks' @ tail) \<and> reading r' chunks' ps"
    using assms
  proof (induction noise arbitrary: left r chunks)
    case Nil
    from next_reading [OF Nil.prems(1) [simplified]] obtain r' chunks' where
      "next_packet r (map Arrives chunks @ tail) = (Inr verdict, r', map Arrives chunks' @ tail)"
      "reading r' chunks' ps" .
    with Nil.prems(4) show ?case
      by (intro exI [of _ r'] exI [of _ chunks']) (simp add: await_verdict.simps [of left])
  next
    case (Cons q noise)
    from next_reading [OF Cons.prems(1) [simplified]] obtain r' chunks' where
      got: "next_packet r (map Arrives chunks @ tail) = (Inr q, r', map Arrives chunks' @ tail)"
      "reading r' chunks' (noise @ verdict # ps)" .
    obtain n where n: "left = Suc n" "length noise \<le> n" using Cons.prems(2) by (cases left) auto
    from Cons.IH [OF got(2) n(2)] Cons.prems(3,4) got(1) show ?case
      by (simp add: await_verdict.simps [of "Suc n"] n(1))
  qed
  with that show thesis by blast
qed

lemma gather_reading:
  assumes "reading r chunks (answers @ marker # ps)"
    and "\<And>p. p \<in> set answers \<Longrightarrow> rp_id p \<noteq> RCON_AUTH_FAILED_ID"
    and "\<And>p. p \<in> set (if marked then answers else tl answers) \<Longrightarrow> rp_id p \<noteq> SENTINEL_ID"
    and "rp_id marker = SENTINEL_ID" and "marked \<or> answers \<noteq> []"
  shows "gather r (map Arrives chunks @ tail) said marked =
    (Inr (said @ concat (map rp_body answers)), if marked then [] else [marker_frame])"
  using assms
proof (induction answers arbitrary: r chunks said marked)
  case Nil
  from next_reading [OF Nil.prems(1) [simplified]] obtain r' chunks' where
    "next_packet r (map Arrives chunks @ tail) = (Inr marker, r', map Arrives chunks' @ tail)" .
  with Nil.prems(4,5) show ?case
    by (simp add: gather.simps [of r] SENTINEL_ID_def RCON_AUTH_FAILED_ID_def)
next
  case (Cons p answers)
  from next_reading [OF Cons.prems(1) [simplified]] obtain r' chunks' where
    got: "next_packet r (map Arrives chunks @ tail) = (Inr p, r', map Arrives chunks' @ tail)"
    "reading r' chunks' (answers @ marker # ps)" .
  have "gather r' (map Arrives chunks' @ tail) (said @ rp_body p) True =
      (Inr ((said @ rp_body p) @ concat (map rp_body answers)), if True then [] else [marker_frame])"
    using Cons.prems by (intro Cons.IH [OF got(2)]) (auto split: if_splits)
  with got(1) Cons.prems(2,3) show ?case by (auto simp: gather.simps [of r])
qed

text \<open>A command's output comes back whole: from a server that takes the password (after at most four
  packets of noise), answers in one or more packets and echoes the marker, \<open>exec\<close> returns the bodies
  of the answer in order, however the bytes are cut into chunks and whatever happens afterwards. The
  first answer may carry any id but -1, also the marker's, as CS2 tags it; the marker is written once,
  after it.\<close>

theorem exec_returns_the_whole_answer:
  assumes "list_all fits conversation" and "concat chunks = concat (map encodeRconPacket conversation)"
    and "conversation = noise @ verdict # answer # answers @ marker # further"
    and "length noise \<le> AUTH_NOISE_MAX" "list_all (\<lambda>p. rp_type p = RCON_RESPONSE_VALUE) noise"
    and "rp_type verdict = RCON_AUTH_RESPONSE" "rp_id verdict \<noteq> RCON_AUTH_FAILED_ID"
    and "rp_id answer \<noteq> RCON_AUTH_FAILED_ID"
    and "list_all (\<lambda>p. rp_id p \<noteq> RCON_AUTH_FAILED_ID \<and> rp_id p \<noteq> SENTINEL_ID) answers"
    and "rp_id marker = SENTINEL_ID"
  shows "rcon_exec (Inr ()) password line (map Arrives chunks @ tail) =
    (Inr (concat (map rp_body (answer # answers))),
     [encodeRconPacket \<lparr>rp_id = AUTH_ID, rp_type = RCON_AUTH, rp_body = password\<rparr>,
      encodeRconPacket \<lparr>rp_id = COMMAND_ID, rp_type = RCON_EXECCOMMAND, rp_body = line\<rparr>, marker_frame])"
proof -
  have "reading fresh_reader chunks (noise @ verdict # (answer # answers) @ marker # further)"
    using reading_start [OF assms(1,2)] assms(3) by simp
  moreover have "rp_type verdict \<noteq> RCON_RESPONSE_VALUE"
    using assms(6) by (simp add: RCON_AUTH_RESPONSE_def RCON_RESPONSE_VALUE_def)
  ultimately obtain r' chunks' where verdict:
    "await_verdict AUTH_NOISE_MAX fresh_reader (map Arrives chunks @ tail) =
      (Inr verdict, r', map Arrives chunks' @ tail)"
    "reading r' chunks' ((answer # answers) @ marker # further)"
    using verdict_reading [OF _ assms(4,5)] by metis
  have "gather r' (map Arrives chunks' @ tail) '''' False =
      (Inr ('''' @ concat (map rp_body (answer # answers))), if False then [] else [marker_frame])"
    by (rule gather_reading [OF verdict(2)]) (use assms(8-10) in \<open>auto simp: list_all_iff\<close>)
  with verdict(1) assms(6,7) show ?thesis by (simp add: rcon_exec_def Let_def)
qed

theorem exec_returns_the_whole_answer_witness:
  "fst (rcon_exec (Inr ()) ''pw'' ''status'' (map Arrives [concat (map encodeRconPacket
     [\<lparr>rp_id = 1, rp_type = 2, rp_body = ''''\<rparr>, sample_packet 3 ''map: '', sample_packet 2 ''de_dust2'',
      sample_packet 3 ''''])] @ [Hangs_up])) = Inr ''map: de_dust2''"
  by (subst exec_returns_the_whole_answer [where noise = "[]" and further = "[]"
        and conversation = "[\<lparr>rp_id = 1, rp_type = 2, rp_body = ''''\<rparr>, sample_packet 3 ''map: '',
          sample_packet 2 ''de_dust2'', sample_packet 3 '''']"
        and verdict = "\<lparr>rp_id = 1, rp_type = 2, rp_body = ''''\<rparr>" and answer = "sample_packet 3 ''map: ''"
        and answers = "[sample_packet 2 ''de_dust2'']" and marker = "sample_packet 3 ''''"])
    (simp_all add: fits_def ascii_def RCON_PACKET_MAX_def sample_packet_def RCON_AUTH_RESPONSE_def
      RCON_AUTH_FAILED_ID_def SENTINEL_ID_def)


end
