(* ===== verification/Game.thy ===== *)
theory Game
  imports Match_Api "HOL-Library.List_Lexorder" "HOL-Library.Char_ord"
begin

text \<open>
  The game's build: the feeds (\<open>apps/orchestrator/src/game/feeds.ts\<close>), the pins (\<open>game/pins.ts\<close>), the
  tables (\<open>game/store.ts\<close>, \<open>game/memory-store.ts\<close>), the watcher that turns what moved into facts
  (\<open>game/watcher.ts\<close>) and what a client reads (\<open>game/reads.ts\<close>).

  One tick of the watcher is a function of what answered during it (\<open>tick_answers\<close>): Valve, the mirror,
  GitHub, the providers. A build id is a text. The texts of issues and comments are left out, their
  titles and subjects kept.
\<close>

subsection \<open>The contract's vocabulary\<close>

datatype canary_state = Green | Red | Unproven

record game_canary =
  gc_state :: canary_state
  gc_build :: "string option"
  gc_since :: "instant option"
  gc_reason :: "string option"

datatype canary_cause = Build_moved | Demand

datatype game_fact =
    Game_build_moved "string option" string instant "string option" "string option" "(string \<times> string) list"
  | Game_upstream_released string string "string option" string instant
  | Game_canary_started ident string bool nat ident canary_cause instant
  | Game_canary_verdict ident string bool nat ident canary_state "string option" instant

datatype fact_type = Ft_build_moved | Ft_upstream_released | Ft_canary_started | Ft_canary_verdict

fun type_of_fact :: "game_fact \<Rightarrow> fact_type" where
  "type_of_fact (Game_build_moved _ _ _ _ _ _) = Ft_build_moved"
| "type_of_fact (Game_upstream_released _ _ _ _ _) = Ft_upstream_released"
| "type_of_fact (Game_canary_started _ _ _ _ _ _ _) = Ft_canary_started"
| "type_of_fact (Game_canary_verdict _ _ _ _ _ _ _ _) = Ft_canary_verdict"

definition GAME_FACTS_RECENT_MAX :: nat where "GAME_FACTS_RECENT_MAX = 50"

subsection \<open>The tables\<close>

record game_fact_row =
  gf_at :: instant
  gf_build :: "string option"
  gf_fact :: game_fact

record game_build_row =
  gb_build :: string
  gb_steamBuildId :: "string option"
  gb_sourceRevision :: "string option"
  gb_observedAt :: instant
  gb_issueNumber :: "nat option"
  gb_issueUrl :: "string option"

record game_state_row =
  gp_provider :: ident
  gp_build :: "string option"
  gp_buildSince :: "instant option"
  gp_stack :: "string option"
  gp_canary :: game_canary
  gp_hud :: game_canary
  gp_updatedAt :: instant

record game_store =
  gs_facts :: "game_fact_row list"
  gs_builds :: "game_build_row list"
  gs_providers :: "game_state_row list"

definition appendFact :: "game_fact_row \<Rightarrow> game_store \<Rightarrow> game_store" where
  "appendFact row s = s\<lparr>gs_facts := gs_facts s @ [row]\<rparr>"

text \<open>Newest first, and of one instant the one written last first.\<close>

definition listFacts :: "nat \<Rightarrow> fact_type option \<Rightarrow> game_store \<Rightarrow> game_fact_row list" where
  "listFacts limit ty s = take limit (sort_key (\<lambda>r. - gf_at r)
     (rev (filter (\<lambda>r. ty = None \<or> ty = Some (type_of_fact (gf_fact r))) (gs_facts s))))"

definition latestBuild :: "game_store \<Rightarrow> game_build_row option" where
  "latestBuild s = (case sort_key (\<lambda>r. - gb_observedAt r) (rev (gs_builds s)) of [] \<Rightarrow> None | r # _ \<Rightarrow> Some r)"

definition findBuild :: "string \<Rightarrow> game_store \<Rightarrow> game_build_row option" where
  "findBuild b s = find (\<lambda>r. gb_build r = b) (gs_builds s)"

definition insertBuild :: "game_build_row \<Rightarrow> game_store \<Rightarrow> game_store" where
  "insertBuild row s = (if list_ex (\<lambda>r. gb_build r = gb_build row) (gs_builds s) then s
     else s\<lparr>gs_builds := gs_builds s @ [row]\<rparr>)"

definition updateBuild :: "string \<Rightarrow> (game_build_row \<Rightarrow> game_build_row) \<Rightarrow> game_store \<Rightarrow> game_store" where
  "updateBuild b patch s = s\<lparr>gs_builds := update_first (\<lambda>r. gb_build r = b) patch (gs_builds s)\<rparr>"

definition listProviderStates :: "game_store \<Rightarrow> game_state_row list" where
  "listProviderStates s = sort_key gp_provider (gs_providers s)"

definition upsertProviderState :: "game_state_row \<Rightarrow> game_store \<Rightarrow> game_store" where
  "upsertProviderState row s = s\<lparr>gs_providers :=
     (if list_ex (\<lambda>r. gp_provider r = gp_provider row) (gs_providers s)
      then update_first (\<lambda>r. gp_provider r = gp_provider row) (\<lambda>_. row) (gs_providers s)
      else gs_providers s @ [row])\<rparr>"

text \<open>\<open>(await store.listProviderStates()).find(row => row.provider === provider)\<close>.\<close>

definition state_of :: "ident \<Rightarrow> game_store \<Rightarrow> game_state_row option" where
  "state_of p s = find (\<lambda>r. gp_provider r = p) (listProviderStates s)"

subsection \<open>Versions out of what the feeds say\<close>

definition digits_of :: "string \<Rightarrow> string" where "digits_of s = takeWhile digit_char s"

definition past_digits :: "string \<Rightarrow> string" where "past_digits s = dropWhile digit_char s"

lemma past_digits_shorter [termination_simp]: "length (past_digits s) \<le> length s"
  by (simp add: past_digits_def length_dropWhile_le)

text \<open>The groups \<open>\.\d+\<close> that follow.\<close>

fun dotted_groups :: "string \<Rightarrow> string list" where
  "dotted_groups [] = []"
| "dotted_groups (c # s) =
    (if c = CHR ''.'' \<and> digits_of s \<noteq> [] then (c # digits_of s) # dotted_groups (past_digits s) else [])"

definition version_at :: "string \<Rightarrow> string option" where
  "version_at s = (let groups = dotted_groups (past_digits s) in
     if digits_of s \<noteq> [] \<and> length groups \<ge> 2 then Some (digits_of s @ concat groups) else None)"

fun first_version :: "string \<Rightarrow> string option" where
  "first_version [] = None"
| "first_version (c # s) = (case version_at (c # s) of Some v \<Rightarrow> Some v | None \<Rightarrow> first_version s)"

definition parsePatchVersion :: "string option \<Rightarrow> string option" where
  "parsePatchVersion message = (case message of None \<Rightarrow> None | Some m \<Rightarrow> first_version m)"

definition versionOfTag :: "string \<Rightarrow> string" where
  "versionOfTag tag = (case tag of
     c # d # s \<Rightarrow> if c = CHR ''v'' \<and> digit_char d then d # s else tag | _ \<Rightarrow> tag)"

definition all_digits :: "string \<Rightarrow> bool" where
  "all_digits s \<longleftrightarrow> s \<noteq> [] \<and> list_all digit_char s"

definition stripped :: "string \<Rightarrow> string \<Rightarrow> string option" where
  "stripped prefix s = (if take (length prefix) s = prefix then Some (drop (length prefix) s) else None)"

definition versionOfMetamodDrop :: "string \<Rightarrow> string option" where
  "versionOfMetamodDrop filename =
    (case stripped ''mmsource-'' (trim filename) of
       None \<Rightarrow> None
     | Some rest \<Rightarrow>
         (case stripped (rev ''-linux.tar.gz'') (rev rest) of
            None \<Rightarrow> None
          | Some middle \<Rightarrow>
              (case split_on (CHR ''-'') (rev middle) of
                 [version, git] \<Rightarrow>
                   (case (split_on (CHR ''.'') version, stripped ''git'' git) of
                      ([a, b, c], Some n) \<Rightarrow>
                        if all_digits a \<and> all_digits b \<and> all_digits c \<and> all_digits n then Some (rev middle) else None
                    | _ \<Rightarrow> None)
               | _ \<Rightarrow> None)))"

subsection \<open>Steam's public build\<close>

text \<open>A feed that did not answer says why; else its status and, of the body, the one field read.\<close>

datatype feed_answer = Feed_down string | Feed_answered nat "string option"

record steam_reading =
  sb_id :: "string option"
  sb_steamBuildId :: "string option"

datatype feed_problem =
    Valve_problem string | Mirror_problem string | Build_problem ident string | Stack_problem ident string
  | Source_problem string string | Source_limited string nat instant | Source_not_asked string
  | Github_not_asked instant

definition response_ok :: "nat \<Rightarrow> bool" where "response_ok status \<longleftrightarrow> 200 \<le> status \<and> status \<le> 299"

definition answered_status :: "nat \<Rightarrow> string" where
  "answered_status status = ''answered '' @ decimal_nat status"

definition readSteamBuild :: "feed_answer \<Rightarrow> feed_answer \<Rightarrow> steam_reading \<times> feed_problem list" where
  "readSteamBuild valve mirror =
    (let valve_result = (case valve of
           Feed_down why \<Rightarrow> Inl why
         | Feed_answered status message \<Rightarrow>
             if \<not> response_ok status then Inl (answered_status status)
             else (case parsePatchVersion message of
                     None \<Rightarrow> Inl ''answered without a version in its message'' | Some v \<Rightarrow> Inr v));
         mirror_result = (case mirror of
           Feed_down why \<Rightarrow> Inl why
         | Feed_answered status buildid \<Rightarrow>
             if \<not> response_ok status then Inl (answered_status status)
             else (case buildid of
                     Some b \<Rightarrow> if b = [] then Inl ''answered without a public buildid'' else Inr b
                   | None \<Rightarrow> Inl ''answered without a public buildid''))
     in (\<lparr>sb_id = (case valve_result of Inl _ \<Rightarrow> None | Inr v \<Rightarrow> Some v),
          sb_steamBuildId = (case mirror_result of Inl _ \<Rightarrow> None | Inr b \<Rightarrow> Some b)\<rparr>,
         (case valve_result of Inl why \<Rightarrow> [Valve_problem why] | Inr _ \<Rightarrow> []) @
         (case mirror_result of Inl why \<Rightarrow> [Mirror_problem why] | Inr _ \<Rightarrow> [])))"

subsection \<open>The upstream releases\<close>

datatype source_kind = Github_release | Metamod_drop

record upstream_source =
  us_pin :: string
  us_repo :: string
  us_kind :: source_kind

definition GAME_PINS :: "(string \<times> string) list" where
  "GAME_PINS = [(''counterStrikeSharp'', ''1.0.378''), (''metamod'', ''2.0.0-git1483''),
     (''multiAddonManager'', ''1.7.2''), (''matchzy'', ''1.4.32-ezpug.1'')]"

definition GAME_UPSTREAMS :: "upstream_source list" where
  "GAME_UPSTREAMS =
    [\<lparr>us_pin = ''counterStrikeSharp'', us_repo = ''roflmuffin/CounterStrikeSharp'', us_kind = Github_release\<rparr>,
     \<lparr>us_pin = ''metamod'', us_repo = ''alliedmodders/metamod-source'', us_kind = Metamod_drop\<rparr>,
     \<lparr>us_pin = ''multiAddonManager'', us_repo = ''Source2ZE/MultiAddonManager'', us_kind = Github_release\<rparr>,
     \<lparr>us_pin = ''matchzy'', us_repo = ''ezpug/MatchZy-Enhanced'', us_kind = Github_release\<rparr>]"

text \<open>A reply: its status, the three headers as numbers where \<open>Number\<close> reads one, the drop's text and
  the release's tag, title, time and address.\<close>

record source_reply =
  sr_status :: nat
  sr_remaining :: "string option"
  sr_reset :: "int option"
  sr_retryAfter :: "int option"
  sr_text :: string
  sr_tag :: "string option"
  sr_publishedAt :: "string option"

datatype source_answer = Source_down string | Source_replied source_reply

record upstream_release =
  ur_pin :: string
  ur_repo :: string
  ur_version :: string
  ur_publishedAt :: "string option"

definition positive :: "int option \<Rightarrow> int option" where
  "positive n = (case n of Some k \<Rightarrow> if k > 0 then Some k else None | None \<Rightarrow> None)"

definition rateLimitResetOf :: "source_reply \<Rightarrow> instant \<Rightarrow> instant option" where
  "rateLimitResetOf r now =
    (if sr_status r \<noteq> 403 \<and> sr_status r \<noteq> 429 then None
     else (case (sr_remaining r = Some ''0'', positive (sr_reset r)) of
             (True, Some reset) \<Rightarrow> Some (reset * 1000)
           | _ \<Rightarrow> (case positive (sr_retryAfter r) of
                     Some wait \<Rightarrow> Some (now + wait * 1000)
                   | None \<Rightarrow> if sr_status r = 429 then Some (now + 60 * 60000) else None)))"

record upstream_reading =
  up_releases :: "upstream_release list"
  up_limitedUntil :: "instant option"
  up_problems :: "feed_problem list"
  up_asked :: "string list"

text \<open>One source. \<open>up_asked\<close> records which repositories GitHub was asked for.\<close>

definition drop_release :: "upstream_source \<Rightarrow> source_answer \<Rightarrow> upstream_release + string" where
  "drop_release src answer = (case answer of
       Source_down why \<Rightarrow> Inr why
     | Source_replied r \<Rightarrow>
         if \<not> response_ok (sr_status r) then Inr (answered_status (sr_status r))
         else (case versionOfMetamodDrop (sr_text r) of
                 None \<Rightarrow> Inr (''answered an unexpected name ('' @ take 64 (trim (sr_text r)) @ '')'')
               | Some v \<Rightarrow> Inl \<lparr>ur_pin = us_pin src, ur_repo = us_repo src, ur_version = v, ur_publishedAt = None\<rparr>))"

definition github_release :: "upstream_source \<Rightarrow> source_reply \<Rightarrow> upstream_release + string" where
  "github_release src r =
    (if \<not> response_ok (sr_status r) then Inr (answered_status (sr_status r))
     else (case sr_tag r of
             Some tag \<Rightarrow>
               if tag = [] then Inr ''answered a release without a tag''
               else Inl \<lparr>ur_pin = us_pin src, ur_repo = us_repo src, ur_version = versionOfTag tag,
                         ur_publishedAt = sr_publishedAt r\<rparr>
           | None \<Rightarrow> Inr ''answered a release without a tag''))"

definition took :: "upstream_source \<Rightarrow> upstream_release + string \<Rightarrow> upstream_reading \<Rightarrow> upstream_reading" where
  "took src res u = (case res of
       Inl release \<Rightarrow> u\<lparr>up_releases := up_releases u @ [release]\<rparr>
     | Inr why \<Rightarrow> u\<lparr>up_problems := up_problems u @ [Source_problem (us_repo src) why]\<rparr>)"

definition read_source ::
  "(string \<Rightarrow> source_answer) \<Rightarrow> instant \<Rightarrow> upstream_source \<Rightarrow> upstream_reading \<Rightarrow> upstream_reading" where
  "read_source answers now src u =
    (case us_kind src of
       Metamod_drop \<Rightarrow> took src (drop_release src (answers (us_repo src))) u
     | Github_release \<Rightarrow>
         if up_limitedUntil u \<noteq> None
         then u\<lparr>up_problems := up_problems u @ [Source_not_asked (us_repo src)]\<rparr>
         else
           (let u = u\<lparr>up_asked := up_asked u @ [us_repo src]\<rparr> in
            case answers (us_repo src) of
              Source_down why \<Rightarrow> took src (Inr why) u
            | Source_replied r \<Rightarrow>
                (case rateLimitResetOf r now of
                   Some reset \<Rightarrow> u\<lparr>up_limitedUntil := Some reset,
                     up_problems := up_problems u @ [Source_limited (us_repo src) (sr_status r) reset]\<rparr>
                 | None \<Rightarrow> took src (github_release src r) u)))"

definition readUpstreamReleases ::
  "(string \<Rightarrow> source_answer) \<Rightarrow> instant \<Rightarrow> upstream_source list \<Rightarrow> upstream_reading" where
  "readUpstreamReleases answers now sources =
     fold (read_source answers now) sources
       \<lparr>up_releases = [], up_limitedUntil = None, up_problems = [], up_asked = []\<rparr>"

subsection \<open>The watcher\<close>

definition GAME_WATCH_INTERVAL_MS :: int where "GAME_WATCH_INTERVAL_MS = 15 * 60000"

definition GAME_FEED_TIMEOUT_MS :: int where "GAME_FEED_TIMEOUT_MS = 20000"

definition UNPROVEN :: game_canary where
  "UNPROVEN = \<lparr>gc_state = Unproven, gc_build = None, gc_since = None, gc_reason = None\<rparr>"

record build_reading =
  br_id :: string
  br_sourceRevision :: "string option"

text \<open>What a provider's optional doors \<open>gameBuild\<close> and \<open>stack\<close> answered. A door that outlasts
  \<open>GAME_FEED_TIMEOUT_MS\<close> failed.\<close>

datatype build_answer = No_build_door | Build_answer "build_reading option" | Build_failed string

datatype stack_answer = No_stack_door | Stack_answer "string option" | Stack_failed string

record tick_answers =
  ta_at :: instant
  ta_valve :: feed_answer
  ta_mirror :: feed_answer
  ta_own :: "ident \<Rightarrow> build_answer"
  ta_stack :: "ident \<Rightarrow> stack_answer"
  ta_githubAt :: instant
  ta_sources :: "string \<Rightarrow> source_answer"
  ta_filed :: "string \<Rightarrow> (nat \<times> string) option"

record watcher_config =
  wc_providers :: "ident list"
  wc_pins :: "(string \<times> string) list"
  wc_upstreams :: "upstream_source list"

datatype issue_call = Issue_create string | Issue_comment nat upstream_release

text \<open>The store, GitHub's pause, and what went outside: the repositories asked for, the issues, and the
  providers whose picture moved to a new build (\<open>onProviderBuild\<close>).\<close>

record watcher =
  wt_store :: game_store
  wt_asked :: "(string \<times> instant) list"
  wt_githubPausedUntil :: "instant option"
  wt_issues :: "issue_call list"
  wt_moved :: "(ident \<times> string) list"

record move_to =
  mt_id :: string
  mt_steamBuildId :: "string option"
  mt_sourceRevision :: "string option"

record tick_report =
  tr_build :: "string option"
  tr_moved :: "(string option \<times> string) option"
  tr_released :: "upstream_release list"
  tr_problems :: "feed_problem list"

definition issueTitle :: "string \<Rightarrow> string option \<Rightarrow> string" where
  "issueTitle build revision = (case revision of
     None \<Rightarrow> ''CS2 build '' @ build
   | Some r \<Rightarrow> ''CS2 build '' @ build @ '' (source revision '' @ r @ '')'')"

definition askProvider :: "tick_answers \<Rightarrow> ident \<Rightarrow> build_reading option \<times> feed_problem list" where
  "askProvider a p = (case ta_own a p of
     No_build_door \<Rightarrow> (None, [])
   | Build_answer r \<Rightarrow> (r, [])
   | Build_failed why \<Rightarrow> (None, [Build_problem p why]))"

text \<open>\<open>None\<close> is \<open>undefined\<close>: no door, or no answer.\<close>

definition askStack :: "tick_answers \<Rightarrow> ident \<Rightarrow> string option option \<times> feed_problem list" where
  "askStack a p = (case ta_stack a p of
     No_stack_door \<Rightarrow> (None, [])
   | Stack_answer s \<Rightarrow> (Some s, [])
   | Stack_failed why \<Rightarrow> (None, [Stack_problem p why]))"

definition recordMove ::
  "watcher_config \<Rightarrow> tick_answers \<Rightarrow> game_build_row option \<Rightarrow> move_to \<Rightarrow> watcher \<Rightarrow> watcher" where
  "recordMove c a current to w =
    (let fact = Game_build_moved (map_option gb_build current) (mt_id to) (ta_at a) (mt_steamBuildId to)
                  (mt_sourceRevision to) (wc_pins c);
         s = insertBuild \<lparr>gb_build = mt_id to, gb_steamBuildId = mt_steamBuildId to,
               gb_sourceRevision = mt_sourceRevision to, gb_observedAt = ta_at a,
               gb_issueNumber = None, gb_issueUrl = None\<rparr>
             (appendFact \<lparr>gf_at = ta_at a, gf_build = Some (mt_id to), gf_fact = fact\<rparr> (wt_store w));
         title = issueTitle (mt_id to) (mt_sourceRevision to)
     in w\<lparr>wt_issues := wt_issues w @ [Issue_create title],
          wt_store := (case ta_filed a title of
             None \<Rightarrow> s
           | Some (number, url) \<Rightarrow>
               updateBuild (mt_id to) (\<lambda>r. r\<lparr>gb_issueNumber := Some number, gb_issueUrl := Some url\<rparr>) s)\<rparr>)"

definition verdict_for :: "string option \<Rightarrow> instant \<Rightarrow> game_canary option \<Rightarrow> game_canary" where
  "verdict_for build at previous =
    (let fresh = (case build of
           None \<Rightarrow> UNPROVEN
         | Some b \<Rightarrow> \<lparr>gc_state = Unproven, gc_build = Some b, gc_since = Some at, gc_reason = None\<rparr>)
     in (case previous of Some v \<Rightarrow> if gc_build v = build then v else fresh | None \<Rightarrow> fresh))"

definition fold_picture ::
  "game_state_row option \<Rightarrow> ident \<Rightarrow> string option \<Rightarrow> string option option \<Rightarrow> instant \<Rightarrow> game_state_row" where
  "fold_picture prev provider build stack at =
    \<lparr>gp_provider = provider, gp_build = build,
     gp_buildSince = (if build = None then None
       else (case prev of
               Some p \<Rightarrow> if gp_build p = build
                         then (case gp_buildSince p of None \<Rightarrow> Some at | Some since \<Rightarrow> Some since) else Some at
             | None \<Rightarrow> Some at)),
     gp_stack = (case stack of None \<Rightarrow> Option.bind prev gp_stack | Some s \<Rightarrow> s),
     gp_canary = verdict_for build at (map_option gp_canary prev),
     gp_hud = verdict_for build at (map_option gp_hud prev),
     gp_updatedAt = at\<rparr>"

definition same_state :: "game_state_row option \<Rightarrow> game_state_row \<Rightarrow> bool" where
  "same_state a b = (case a of None \<Rightarrow> False | Some p \<Rightarrow>
     gp_build p = gp_build b \<and> gp_stack p = gp_stack b \<and> gp_buildSince p = gp_buildSince b \<and>
     gp_canary p = gp_canary b \<and> gp_hud p = gp_hud b)"

text \<open>The world's build: what is reported, and the move to record. A label learned late is filled in.\<close>

definition fresh_reading :: "(build_reading \<Rightarrow> bool) \<Rightarrow> build_reading option list \<Rightarrow> build_reading option" where
  "fresh_reading P own = Option.bind (find (\<lambda>r. case r of None \<Rightarrow> False | Some b \<Rightarrow> P b) own) id"

definition world_build ::
  "steam_reading \<Rightarrow> build_reading option list \<Rightarrow> game_build_row option \<Rightarrow> string option \<times> move_to option" where
  "world_build steam own current =
    (case sb_id steam of
       Some b \<Rightarrow>
         (Some b,
          if map_option gb_build current = Some b then None
          else Some \<lparr>mt_id = b, mt_steamBuildId = sb_steamBuildId steam,
                     mt_sourceRevision = Option.bind (fresh_reading (\<lambda>r. br_id r = b) own) br_sourceRevision\<rparr>)
     | None \<Rightarrow>
         (case (sb_steamBuildId steam, current) of
            (Some sid, Some row) \<Rightarrow>
              if gb_steamBuildId row \<noteq> None \<and> gb_steamBuildId row \<noteq> Some sid
              then (Some (gb_build row),
                    map_option (\<lambda>r. \<lparr>mt_id = br_id r, mt_steamBuildId = Some sid, mt_sourceRevision = br_sourceRevision r\<rparr>)
                      (fresh_reading (\<lambda>r. br_id r \<noteq> gb_build row) own))
              else (Some (gb_build row), None)
          | _ \<Rightarrow> (map_option gb_build current, None)))"

definition learn_label :: "steam_reading \<Rightarrow> game_build_row option \<Rightarrow> game_store \<Rightarrow> game_store" where
  "learn_label steam current s =
    (case (current, sb_id steam, sb_steamBuildId steam) of
       (Some row, Some b, Some sid) \<Rightarrow>
         if gb_build row = b \<and> gb_steamBuildId row = None
         then updateBuild b (\<lambda>r. r\<lparr>gb_steamBuildId := Some sid\<rparr>) s else s
     | _ \<Rightarrow> s)"

text \<open>One turn on a provider's picture: read, folded and written under the lock it shares with the canary.\<close>

definition picture_turn ::
  "tick_answers \<Rightarrow> string option \<Rightarrow> ident \<Rightarrow> build_reading option \<Rightarrow> string option option \<Rightarrow> game_store
     \<Rightarrow> (game_state_row option \<times> game_state_row) \<times> game_store" where
  "picture_turn a latest p reading stack s =
    (let prev = state_of p s;
         build = (case reading of
             Some r \<Rightarrow> Some (br_id r)
           | None \<Rightarrow> if ta_own a p = No_build_door then latest
                      else (case Option.bind prev gp_build of Some b \<Rightarrow> Some b | None \<Rightarrow> latest));
         nxt = fold_picture prev p build stack (ta_at a)
     in ((prev, nxt), if same_state prev nxt then s else upsertProviderState nxt s))"

definition learn_revision :: "string option \<Rightarrow> build_reading option \<Rightarrow> game_store \<Rightarrow> game_store" where
  "learn_revision latest reading s =
    (case (latest, reading) of
       (Some b, Some r) \<Rightarrow>
         if br_id r = b \<and> br_sourceRevision r \<noteq> None \<and>
            (case findBuild b s of Some row \<Rightarrow> gb_sourceRevision row = None | None \<Rightarrow> False)
         then updateBuild b (\<lambda>row. row\<lparr>gb_sourceRevision := br_sourceRevision r\<rparr>) s else s
     | _ \<Rightarrow> s)"

definition provider_turn ::
  "tick_answers \<Rightarrow> string option \<Rightarrow> ident \<Rightarrow> watcher \<times> feed_problem list \<Rightarrow> watcher \<times> feed_problem list" where
  "provider_turn a latest p wp =
    (case wp of (w, problems) \<Rightarrow>
      (let reading = fst (askProvider a p); (stack, more) = askStack a p;
           ((prev, nxt), s) = picture_turn a latest p reading stack (wt_store w);
           told = (case gp_build nxt of
               Some b \<Rightarrow> if Option.bind prev gp_build \<noteq> Some b then [(p, b)] else []
             | None \<Rightarrow> [])
       in (w\<lparr>wt_store := learn_revision latest reading s, wt_moved := wt_moved w @ told\<rparr>, problems @ more)))"

text \<open>The releases that are news: not the pinned version, and never told before.\<close>

definition told_release :: "game_fact_row list \<Rightarrow> upstream_release \<Rightarrow> bool" where
  "told_release known r = list_ex (\<lambda>row. case gf_fact row of
     Game_upstream_released repo version _ _ _ \<Rightarrow> repo = ur_repo r \<and> version = ur_version r | _ \<Rightarrow> False) known"

definition record_release ::
  "watcher_config \<Rightarrow> tick_answers \<Rightarrow> string option \<Rightarrow> game_fact_row list \<Rightarrow> nat option \<Rightarrow> upstream_release
     \<Rightarrow> watcher \<times> upstream_release list \<Rightarrow> watcher \<times> upstream_release list" where
  "record_release c a build known issue r wr =
    (case wr of (w, released) \<Rightarrow>
      (case map_of (wc_pins c) (ur_pin r) of
         None \<Rightarrow> wr
       | Some pinned \<Rightarrow>
           if ur_version r = pinned \<or> told_release known r then wr
           else
             (w\<lparr>wt_store := appendFact \<lparr>gf_at = ta_at a, gf_build = build,
                  gf_fact = Game_upstream_released (ur_repo r) (ur_version r) (ur_publishedAt r) pinned (ta_at a)\<rparr>
                  (wt_store w),
                wt_issues := wt_issues w @ (case issue of None \<Rightarrow> [] | Some n \<Rightarrow> [Issue_comment n r])\<rparr>,
              released @ [r])))"

definition github_paused :: "tick_answers \<Rightarrow> watcher \<Rightarrow> bool" where
  "github_paused a w = (case wt_githubPausedUntil w of Some until \<Rightarrow> ta_githubAt a < until | None \<Rightarrow> False)"

definition read_upstreams ::
  "watcher_config \<Rightarrow> tick_answers \<Rightarrow> string option \<Rightarrow> watcher \<Rightarrow> (watcher \<times> upstream_release list) \<times> feed_problem list" where
  "read_upstreams c a build w =
    (if github_paused a w then ((w, []), [Github_not_asked (the (wt_githubPausedUntil w))])
     else
       (let u = readUpstreamReleases (ta_sources a) (ta_githubAt a) (wc_upstreams c);
            w = w\<lparr>wt_githubPausedUntil := up_limitedUntil u,
                  wt_asked := wt_asked w @ map (\<lambda>repo. (repo, ta_githubAt a)) (up_asked u)\<rparr>;
            known = listFacts 500 (Some Ft_upstream_released) (wt_store w);
            issue = Option.bind (Option.bind build (\<lambda>b. findBuild b (wt_store w))) gb_issueNumber
        in (fold (record_release c a build known issue) (up_releases u) (w, []), up_problems u)))"

definition tick :: "watcher_config \<Rightarrow> tick_answers \<Rightarrow> watcher \<Rightarrow> tick_report \<times> watcher" where
  "tick c a w =
    (let (steam, problems1) = readSteamBuild (ta_valve a) (ta_mirror a);
         own = map (\<lambda>p. fst (askProvider a p)) (wc_providers c);
         problems2 = concat (map (\<lambda>p. snd (askProvider a p)) (wc_providers c));
         current = latestBuild (wt_store w);
         (build, moveTo) = world_build steam own current;
         w1 = w\<lparr>wt_store := learn_label steam current (wt_store w)\<rparr>;
         w2 = (case moveTo of None \<Rightarrow> w1 | Some to \<Rightarrow> recordMove c a current to w1);
         latest = (case moveTo of Some to \<Rightarrow> Some (mt_id to) | None \<Rightarrow> map_option gb_build current);
         (w3, problems3) = fold (provider_turn a latest) (wc_providers c) (w2, problems1 @ problems2);
         ((w4, released), problems4) = read_upstreams c a latest w3
     in (\<lparr>tr_build = build, tr_moved = map_option (\<lambda>to. (map_option gb_build current, mt_id to)) moveTo,
          tr_released = released, tr_problems = problems3 @ problems4\<rparr>, w4))"

subsection \<open>What a client reads\<close>

record provider_game =
  pg_build :: "(string \<times> instant) option"
  pg_stack :: "string option"
  pg_canary :: game_canary
  pg_hud :: game_canary

definition UNKNOWN_PROVIDER_GAME :: provider_game where
  "UNKNOWN_PROVIDER_GAME = \<lparr>pg_build = None, pg_stack = None, pg_canary = UNPROVEN, pg_hud = UNPROVEN\<rparr>"

text \<open>\<open>stated\<close> is the provider's own \<open>gamePicture\<close>, where it has one.\<close>

definition provider_picture :: "provider_game option \<Rightarrow> ident \<Rightarrow> game_store \<Rightarrow> provider_game" where
  "provider_picture stated p s =
    (case stated of
       Some own \<Rightarrow> own
     | None \<Rightarrow>
         (case state_of p s of
            None \<Rightarrow> UNKNOWN_PROVIDER_GAME
          | Some row \<Rightarrow>
              \<lparr>pg_build = (case (gp_build row, gp_buildSince row) of (Some b, Some since) \<Rightarrow> Some (b, since) | _ \<Rightarrow> None),
               pg_stack = gp_stack row, pg_canary = gp_canary row, pg_hud = gp_hud row\<rparr>))"

record game_upstream =
  gu_repo :: string
  gu_pinned :: string
  gu_latest :: "string option"
  gu_publishedAt :: "string option"

record fleet_game =
  fg_build :: "game_build_row option"
  fg_upstream :: "game_upstream list"
  fg_providers :: "(ident \<times> provider_game) list"
  fg_recent :: "game_fact list"

definition upstream_row :: "(string \<times> string) list \<Rightarrow> game_fact_row list \<Rightarrow> upstream_source \<Rightarrow> game_upstream" where
  "upstream_row pins released src =
    (let newest = find (\<lambda>row. case gf_fact row of
           Game_upstream_released repo _ _ _ _ \<Rightarrow> repo = us_repo src | _ \<Rightarrow> False) released
     in \<lparr>gu_repo = us_repo src,
         gu_pinned = (case map_of pins (us_pin src) of None \<Rightarrow> ''unknown'' | Some v \<Rightarrow> v),
         gu_latest = (case newest of
             Some row \<Rightarrow> (case gf_fact row of Game_upstream_released _ v _ _ _ \<Rightarrow> Some v | _ \<Rightarrow> None) | None \<Rightarrow> None),
         gu_publishedAt = (case newest of
             Some row \<Rightarrow> (case gf_fact row of Game_upstream_released _ _ pub _ _ \<Rightarrow> pub | _ \<Rightarrow> None) | None \<Rightarrow> None)\<rparr>)"

definition fleet_game_of :: "watcher_config \<Rightarrow> (ident \<Rightarrow> provider_game option) \<Rightarrow> game_store \<Rightarrow> fleet_game" where
  "fleet_game_of c stated s =
    \<lparr>fg_build = latestBuild s,
     fg_upstream = map (upstream_row (wc_pins c) (listFacts 500 (Some Ft_upstream_released) s)) (wc_upstreams c),
     fg_providers = map (\<lambda>p. (p, provider_picture (stated p) p s)) (wc_providers c),
     fg_recent = map gf_fact (listFacts GAME_FACTS_RECENT_MAX None s)\<rparr>"

end
