(* ===== verification/Game_Laws.thy ===== *)
theory Game_Laws
  imports Game
begin

text \<open>
  The laws of the game store and of the watcher: what a provider's picture says after a write
  (\<open>state_of_upsert\<close>), that a verdict on a picture is about the build it shows and is backed by a verdict
  fact (\<open>pictures_ok\<close>), what one tick writes (\<open>tick_writes\<close>), and when GitHub is asked.
\<close>

subsection \<open>Reading back a picture\<close>

lemma find_hd_filter: "find P xs = (case filter P xs of [] \<Rightarrow> None | x # _ \<Rightarrow> Some x)"
  by (induction xs) simp_all

lemma find_sort_key: "find (\<lambda>r. f r = k) (sort_key f xs) = find (\<lambda>r. f r = k) xs"
proof (cases "\<exists>x \<in> set xs. f x = k")
  case True
  then obtain x where "f x = k" by blast
  then show ?thesis using sort_key_stable [of f k xs] by (simp add: find_hd_filter eq_commute)
next
  case False
  then show ?thesis by (simp add: find_None_iff2 [THEN iffD2] find_None_iff [THEN iffD2])
qed

lemma state_of_find: "state_of p s = find (\<lambda>r. gp_provider r = p) (gs_providers s)"
  by (simp add: state_of_def listProviderStates_def find_sort_key)

lemma state_of_provider: "state_of p s = Some row \<Longrightarrow> gp_provider row = p \<and> row \<in> set (gs_providers s)"
  by (auto simp: state_of_find find_Some_iff)

lemma find_replaced:
  "list_ex (\<lambda>r. f r = f row) xs \<Longrightarrow>
     find (\<lambda>r. f r = k) (update_first (\<lambda>r. f r = f row) (\<lambda>_. row) xs) =
       (if k = f row then Some row else find (\<lambda>r. f r = k) xs)"
  by (induction xs) auto

lemma state_of_upsert:
  "state_of p (upsertProviderState row s) = (if p = gp_provider row then Some row else state_of p s)"
proof (cases "list_ex (\<lambda>r. gp_provider r = gp_provider row) (gs_providers s)")
  case True
  then show ?thesis
    by (simp add: state_of_find upsertProviderState_def find_replaced)
next
  case False
  then have "find (\<lambda>r. gp_provider r = gp_provider row) (gs_providers s) = None"
    by (auto simp: find_None_iff list_ex_iff)
  with False show ?thesis
    by (auto simp: state_of_find upsertProviderState_def find_append split: option.split)
qed

lemma state_of_providers: "gs_providers s' = gs_providers s \<Longrightarrow> state_of p s' = state_of p s"
  by (simp add: state_of_find)

lemma store_frames [simp]:
  "gs_facts (appendFact f s) = gs_facts s @ [f]" "gs_providers (appendFact f s) = gs_providers s"
  "gs_builds (appendFact f s) = gs_builds s"
  "gs_facts (insertBuild b s) = gs_facts s" "gs_providers (insertBuild b s) = gs_providers s"
  "gs_facts (updateBuild k u s) = gs_facts s" "gs_providers (updateBuild k u s) = gs_providers s"
  "gs_facts (upsertProviderState row s) = gs_facts s" "gs_builds (upsertProviderState row s) = gs_builds s"
  by (simp_all add: appendFact_def insertBuild_def updateBuild_def upsertProviderState_def)

lemma upsert_subset: "set (gs_providers (upsertProviderState row s)) \<subseteq> set (gs_providers s) \<union> {row}"
  using set_update_first [of "\<lambda>r. gp_provider r = gp_provider row" "\<lambda>_. row" "gs_providers s"]
  by (auto simp: upsertProviderState_def)

subsection \<open>A verdict is about the build shown, and a fact tells it\<close>

definition verdict_told :: "game_store \<Rightarrow> ident \<Rightarrow> string option \<Rightarrow> bool \<Rightarrow> canary_state \<Rightarrow> bool" where
  "verdict_told s p b hud v \<longleftrightarrow> (\<exists>row \<in> set (gs_facts s). \<exists>build attempt m reason at.
     gf_fact row = Game_canary_verdict p build hud attempt m v reason at \<and> b = Some build)"

definition verdict_ok :: "game_store \<Rightarrow> game_state_row \<Rightarrow> bool \<Rightarrow> game_canary \<Rightarrow> bool" where
  "verdict_ok s row hud v \<longleftrightarrow> gc_build v = gp_build row \<and>
     (gc_state v \<noteq> Unproven \<longrightarrow> verdict_told s (gp_provider row) (gp_build row) hud (gc_state v))"

definition picture_ok :: "game_store \<Rightarrow> game_state_row \<Rightarrow> bool" where
  "picture_ok s row \<longleftrightarrow> verdict_ok s row False (gp_canary row) \<and> verdict_ok s row True (gp_hud row)"

definition pictures_ok :: "game_store \<Rightarrow> bool" where
  "pictures_ok s \<longleftrightarrow> (\<forall>row \<in> set (gs_providers s). picture_ok s row)"

lemma verdict_ok_facts:
  "set (gs_facts s) \<subseteq> set (gs_facts s') \<Longrightarrow> verdict_ok s row hud v \<Longrightarrow> verdict_ok s' row hud v"
  by (auto simp: verdict_ok_def verdict_told_def) blast+

lemma picture_ok_facts: "set (gs_facts s) \<subseteq> set (gs_facts s') \<Longrightarrow> picture_ok s row \<Longrightarrow> picture_ok s' row"
  by (simp add: picture_ok_def verdict_ok_facts)

lemma pictures_ok_facts:
  "pictures_ok s \<Longrightarrow> gs_providers s' = gs_providers s \<Longrightarrow> set (gs_facts s) \<subseteq> set (gs_facts s') \<Longrightarrow> pictures_ok s'"
  by (auto simp: pictures_ok_def intro: picture_ok_facts)

lemma pictures_ok_upsert:
  assumes "pictures_ok s" "picture_ok s row"
  shows "pictures_ok (upsertProviderState row s)"
  unfolding pictures_ok_def
proof
  fix r assume "r \<in> set (gs_providers (upsertProviderState row s))"
  with upsert_subset [of row s] assms have "picture_ok s r" by (auto simp: pictures_ok_def)
  then show "picture_ok (upsertProviderState row s) r" by (rule picture_ok_facts [rotated]) simp
qed

lemma pictures_ok_state_of: "pictures_ok s \<Longrightarrow> state_of p s = Some row \<Longrightarrow> picture_ok s row"
  by (auto simp: pictures_ok_def dest: state_of_provider)

lemma verdict_for_ok:
  assumes "\<And>v. previous = Some v \<Longrightarrow> gc_build v = build \<Longrightarrow> verdict_ok s row hud v" "gp_build row = build"
  shows "verdict_ok s row hud (verdict_for build at previous)"
  using assms by (auto simp: verdict_for_def verdict_ok_def UNPROVEN_def Let_def split: option.split)

text \<open>A fold keeps a verdict only where the build stands, so what told it stands too.\<close>

lemma fold_picture_ok:
  assumes prev: "\<And>r. prev = Some r \<Longrightarrow> picture_ok s r \<and> gp_provider r = p"
  shows "picture_ok s (fold_picture prev p build stack at)"
proof -
  let ?row = "fold_picture prev p build stack at"
  have shape: "gp_canary ?row = verdict_for build at (map_option gp_canary prev)"
    "gp_hud ?row = verdict_for build at (map_option gp_hud prev)" "gp_build ?row = build" "gp_provider ?row = p"
    by (simp_all add: fold_picture_def)
  have "verdict_ok s ?row False (gp_canary ?row)" unfolding shape(1)
    by (rule verdict_for_ok) (use prev in \<open>auto simp: shape picture_ok_def verdict_ok_def\<close>)
  moreover have "verdict_ok s ?row True (gp_hud ?row)" unfolding shape(2)
    by (rule verdict_for_ok) (use prev in \<open>auto simp: shape picture_ok_def verdict_ok_def\<close>)
  ultimately show ?thesis by (simp add: picture_ok_def)
qed

subsection \<open>What the watcher writes\<close>

text \<open>The writes of a tick, one at a time: between two of them anyone else may write.\<close>

inductive watch_write :: "game_store \<Rightarrow> game_store \<Rightarrow> bool" where
  fact: "type_of_fact (gf_fact f) \<in> {Ft_build_moved, Ft_upstream_released} \<Longrightarrow> watch_write s (appendFact f s)"
| builds: "gs_facts s' = gs_facts s \<Longrightarrow> gs_providers s' = gs_providers s \<Longrightarrow> watch_write s s'"
| picture: "watch_write s (snd (picture_turn a latest p reading stack s))"

inductive_cases watch_writeE: "watch_write s s'"

lemma picture_turn_store:
  "snd (picture_turn a latest p reading stack s) = s \<or>
   (\<exists>build. snd (picture_turn a latest p reading stack s) =
      upsertProviderState (fold_picture (state_of p s) p build stack (ta_at a)) s)"
  by (auto simp: picture_turn_def Let_def)

lemma watch_write_pictures: "watch_write s s' \<Longrightarrow> pictures_ok s \<Longrightarrow> pictures_ok s'"
proof (erule watch_writeE)
  fix a latest p reading stack
  assume ok: "pictures_ok s" and s': "s' = snd (picture_turn a latest p reading stack s)"
  have "picture_ok s (fold_picture (state_of p s) p build stack (ta_at a))" for build
    by (rule fold_picture_ok) (use ok in \<open>auto dest: pictures_ok_state_of state_of_provider\<close>)
  then have "pictures_ok (upsertProviderState (fold_picture (state_of p s) p build stack (ta_at a)) s)" for build
    by (rule pictures_ok_upsert [OF ok])
  with ok s' show "pictures_ok s'"
    using picture_turn_store [of a latest p reading stack s] by metis
qed (auto intro: pictures_ok_facts)

abbreviation watch_writes :: "game_store \<Rightarrow> game_store \<Rightarrow> bool" where
  "watch_writes \<equiv> watch_write\<^sup>*\<^sup>*"

lemma writes_trans: "watch_writes s s' \<Longrightarrow> watch_writes s' s'' \<Longrightarrow> watch_writes s s''"
  by (rule rtranclp_trans)

lemma write_one: "watch_write s s' \<Longrightarrow> watch_writes s s'" by (rule r_into_rtranclp)

lemma learn_label_writes: "watch_writes s (learn_label steam current s)"
  by (rule write_one, rule watch_write.builds) (simp_all add: learn_label_def split: option.split)

lemma learn_revision_writes: "watch_writes s (learn_revision latest reading s)"
  by (rule write_one, rule watch_write.builds) (simp_all add: learn_revision_def split: option.split)

lemma recordMove_writes: "watch_writes (wt_store w) (wt_store (recordMove c a current to w))"
proof -
  define f where "f = \<lparr>gf_at = ta_at a, gf_build = Some (mt_id to),
    gf_fact = Game_build_moved (map_option gb_build current) (mt_id to) (ta_at a) (mt_steamBuildId to)
      (mt_sourceRevision to) (wc_pins c)\<rparr>"
  have "watch_write (wt_store w) (appendFact f (wt_store w))" by (rule watch_write.fact) (simp add: f_def)
  moreover have "watch_write (appendFact f (wt_store w)) (wt_store (recordMove c a current to w))"
    by (rule watch_write.builds) (simp_all add: recordMove_def Let_def f_def split: option.split prod.split)
  ultimately show ?thesis by (rule converse_rtranclp_into_rtranclp [OF _ r_into_rtranclp])
qed

lemma provider_turn_writes: "watch_writes (wt_store (fst wp)) (wt_store (fst (provider_turn a latest p wp)))"
proof -
  let ?r = "fst (askProvider a p)" and ?k = "fst (askStack a p)" and ?s = "wt_store (fst wp)"
  let ?t = "snd (picture_turn a latest p ?r ?k ?s)"
  have "wt_store (fst (provider_turn a latest p wp)) = learn_revision latest ?r ?t"
    by (simp add: provider_turn_def Let_def split: prod.split)
  then show ?thesis
    using writes_trans [OF write_one [OF watch_write.picture [of ?s a latest p ?r ?k]]
      learn_revision_writes [of ?t latest ?r]] by simp
qed

lemma record_release_writes:
  "watch_writes (wt_store (fst wr)) (wt_store (fst (record_release c a build known issue r wr)))"
  by (auto simp: record_release_def split: prod.split option.split intro!: write_one watch_write.fact)

lemma fold_writes:
  assumes "\<And>x y. watch_writes (wt_store (fst y)) (wt_store (fst (f x y)))"
  shows "watch_writes (wt_store (fst y)) (wt_store (fst (fold f xs y)))"
proof (induction xs arbitrary: y)
  case (Cons x xs)
  show ?case using writes_trans [OF assms [of y x] Cons.IH [of "f x y"]] by simp
qed simp

lemma read_upstreams_writes: "watch_writes (wt_store w) (wt_store (fst (fst (read_upstreams c a build w))))"
proof (cases "github_paused a w")
  case True then show ?thesis by (simp add: read_upstreams_def)
next
  case False
  let ?u = "readUpstreamReleases (ta_sources a) (ta_githubAt a) (wc_upstreams c)"
  let ?w = "w\<lparr>wt_githubPausedUntil := up_limitedUntil ?u,
    wt_asked := wt_asked w @ map (\<lambda>repo. (repo, ta_githubAt a)) (up_asked ?u)\<rparr>"
  note fold_writes [of "record_release c a build known issue" for known issue, OF record_release_writes, of "(?w, [])"]
  with False show ?thesis by (simp add: read_upstreams_def Let_def)
qed

lemma tick_writes: "watch_writes (wt_store w) (wt_store (snd (tick c a w)))"
proof -
  obtain steam problems1 where steam: "readSteamBuild (ta_valve a) (ta_mirror a) = (steam, problems1)" by force
  define own where "own = map (\<lambda>p. fst (askProvider a p)) (wc_providers c)"
  define current where "current = latestBuild (wt_store w)"
  obtain build moveTo where world: "world_build steam own current = (build, moveTo)" by force
  define w1 where "w1 = w\<lparr>wt_store := learn_label steam current (wt_store w)\<rparr>"
  define w2 where "w2 = (case moveTo of None \<Rightarrow> w1 | Some to \<Rightarrow> recordMove c a current to w1)"
  define latest where "latest = (case moveTo of Some to \<Rightarrow> Some (mt_id to) | None \<Rightarrow> map_option gb_build current)"
  obtain w3 problems3 where turns: "fold (provider_turn a latest) (wc_providers c)
      (w2, problems1 @ concat (map (\<lambda>p. snd (askProvider a p)) (wc_providers c))) = (w3, problems3)" by force
  obtain w4 released problems4 where up: "read_upstreams c a latest w3 = ((w4, released), problems4)"
    by (metis surj_pair)
  have "snd (tick c a w) = fst (fst (read_upstreams c a latest w3))"
    by (simp only: tick_def steam own_def [symmetric] current_def [symmetric] world w1_def [symmetric]
        w2_def [symmetric] latest_def [symmetric] turns up Let_def prod.case fst_conv snd_conv)
  moreover have "watch_writes (wt_store w) (wt_store w1)" by (simp add: w1_def learn_label_writes)
  moreover have "watch_writes (wt_store w1) (wt_store w2)"
    by (simp add: w2_def recordMove_writes split: option.split)
  moreover have "watch_writes (wt_store w2) (wt_store w3)"
    using fold_writes [of "provider_turn a latest", OF provider_turn_writes,
      of "(w2, problems1 @ concat (map (\<lambda>p. snd (askProvider a p)) (wc_providers c)))" "wc_providers c"] turns by simp
  ultimately show ?thesis by (metis (no_types) rtranclp_trans read_upstreams_writes)
qed

lemma writes_keep_pictures: "watch_writes s s' \<Longrightarrow> pictures_ok s \<Longrightarrow> pictures_ok s'"
  by (induction rule: rtranclp_induct) (auto intro: watch_write_pictures)

end
