(* ===== verification/Game_Properties.thy ===== *)
theory Game_Properties
  imports Game_Laws
begin

text \<open>
  The watcher over many ticks (\<open>ticks\<close>): a new build is told once while Valve names it, a build Valve goes
  back to is told at every tick, and GitHub is left alone until the instant it named.
\<close>

definition ticks :: "watcher_config \<Rightarrow> tick_answers list \<Rightarrow> watcher \<Rightarrow> watcher" where
  "ticks c as w = fold (\<lambda>a w. snd (tick c a w)) as w"

lemma ticks_simps [simp]: "ticks c [] w = w" "ticks c (a # as) w = ticks c as (snd (tick c a w))"
  by (simp_all add: ticks_def)

subsection \<open>A tick in its parts\<close>

definition steam_says :: "tick_answers \<Rightarrow> string option" where
  "steam_says a = sb_id (fst (readSteamBuild (ta_valve a) (ta_mirror a)))"

definition tick_world :: "watcher_config \<Rightarrow> tick_answers \<Rightarrow> watcher \<Rightarrow> string option \<times> move_to option" where
  "tick_world c a w = world_build (fst (readSteamBuild (ta_valve a) (ta_mirror a)))
     (map (\<lambda>p. fst (askProvider a p)) (wc_providers c)) (latestBuild (wt_store w))"

definition tick_latest :: "watcher_config \<Rightarrow> tick_answers \<Rightarrow> watcher \<Rightarrow> string option" where
  "tick_latest c a w = (case snd (tick_world c a w) of
     Some to \<Rightarrow> Some (mt_id to) | None \<Rightarrow> map_option gb_build (latestBuild (wt_store w)))"

definition tick_moved :: "watcher_config \<Rightarrow> tick_answers \<Rightarrow> watcher \<Rightarrow> watcher" where
  "tick_moved c a w =
    (let current = latestBuild (wt_store w);
         w1 = w\<lparr>wt_store := learn_label (fst (readSteamBuild (ta_valve a) (ta_mirror a))) current (wt_store w)\<rparr>
     in case snd (tick_world c a w) of None \<Rightarrow> w1 | Some to \<Rightarrow> recordMove c a current to w1)"

definition tick_turned :: "watcher_config \<Rightarrow> tick_answers \<Rightarrow> watcher \<Rightarrow> watcher \<times> feed_problem list" where
  "tick_turned c a w = fold (provider_turn a (tick_latest c a w)) (wc_providers c)
     (tick_moved c a w, snd (readSteamBuild (ta_valve a) (ta_mirror a)) @
        concat (map (\<lambda>p. snd (askProvider a p)) (wc_providers c)))"

lemma tick_parts: "snd (tick c a w) = fst (fst (read_upstreams c a (tick_latest c a w) (fst (tick_turned c a w))))"
  by (simp only: tick_def tick_turned_def tick_moved_def tick_latest_def tick_world_def Let_def case_prod_beta' fst_conv snd_conv)

subsection \<open>What tells of builds\<close>

text \<open>The facts that a build moved, the builds known with the instant they were seen, the issues opened.\<close>

definition moves :: "game_store \<Rightarrow> game_fact_row list" where
  "moves s = filter (\<lambda>row. type_of_fact (gf_fact row) = Ft_build_moved) (gs_facts s)"

definition seen_builds :: "game_store \<Rightarrow> (string \<times> instant) list" where
  "seen_builds s = map (\<lambda>r. (gb_build r, gb_observedAt r)) (gs_builds s)"

definition opened_issues :: "watcher \<Rightarrow> string list" where
  "opened_issues w = concat (map (\<lambda>x. case x of Issue_create t \<Rightarrow> [t] | _ \<Rightarrow> []) (wt_issues w))"

definition told_alike :: "watcher \<Rightarrow> watcher \<Rightarrow> bool" where
  "told_alike w w' \<longleftrightarrow> moves (wt_store w') = moves (wt_store w) \<and>
     seen_builds (wt_store w') = seen_builds (wt_store w) \<and> opened_issues w' = opened_issues w"

lemma alike_trans: "told_alike w w' \<Longrightarrow> told_alike w' w'' \<Longrightarrow> told_alike w w''"
  by (simp add: told_alike_def)

lemma alike_refl: "told_alike w w" by (simp add: told_alike_def)

lemma seen_update [simp]:
  assumes "\<And>r. gb_build (u r) = gb_build r" "\<And>r. gb_observedAt (u r) = gb_observedAt r"
  shows "seen_builds (updateBuild k u s) = seen_builds s"
  by (simp add: seen_builds_def updateBuild_def map_update_first assms)

lemma seen_frames [simp]:
  "seen_builds (appendFact f s) = seen_builds s" "seen_builds (upsertProviderState row s) = seen_builds s"
  by (simp_all add: seen_builds_def)

lemma moves_frames [simp]:
  "moves (updateBuild k u s) = moves s" "moves (insertBuild b s) = moves s" "moves (upsertProviderState row s) = moves s"
  "moves (appendFact f s) = moves s @ (if type_of_fact (gf_fact f) = Ft_build_moved then [f] else [])"
  by (simp_all add: moves_def)

lemma learn_label_alike [simp]:
  "moves (learn_label steam current s) = moves s" "seen_builds (learn_label steam current s) = seen_builds s"
  by (simp_all add: learn_label_def split: option.split)

lemma learn_revision_alike [simp]:
  "moves (learn_revision latest reading s) = moves s" "seen_builds (learn_revision latest reading s) = seen_builds s"
  by (simp_all add: learn_revision_def split: option.split)

lemma picture_turn_alike [simp]:
  "moves (snd (picture_turn a latest p reading stack s)) = moves s"
  "seen_builds (snd (picture_turn a latest p reading stack s)) = seen_builds s"
  by (simp_all add: picture_turn_def Let_def)

lemma provider_turn_alike: "told_alike (fst wp) (fst (provider_turn a latest p wp))"
proof -
  let ?r = "fst (askProvider a p)" and ?k = "fst (askStack a p)" and ?s = "wt_store (fst wp)"
  have "wt_store (fst (provider_turn a latest p wp)) = learn_revision latest ?r (snd (picture_turn a latest p ?r ?k ?s))"
    "wt_issues (fst (provider_turn a latest p wp)) = wt_issues (fst wp)"
    by (simp_all add: provider_turn_def Let_def split: prod.split)
  then show ?thesis by (simp add: told_alike_def opened_issues_def)
qed

lemma record_release_alike: "told_alike (fst wr) (fst (record_release c a build known issue r wr))"
  by (simp add: record_release_def told_alike_def opened_issues_def split: prod.split option.split)

lemma fold_alike:
  assumes "\<And>x y. told_alike (fst y) (fst (f x y))"
  shows "told_alike (fst y) (fst (fold f xs y))"
proof (induction xs arbitrary: y)
  case (Cons x xs)
  show ?case using alike_trans [OF assms [of y x] Cons.IH [of "f x y"]] by simp
qed (simp add: alike_refl)

lemma read_upstreams_alike: "told_alike w (fst (fst (read_upstreams c a build w)))"
proof (cases "github_paused a w")
  case True then show ?thesis by (simp add: read_upstreams_def alike_refl)
next
  case False
  let ?u = "readUpstreamReleases (ta_sources a) (ta_githubAt a) (wc_upstreams c)"
  let ?w = "w\<lparr>wt_githubPausedUntil := up_limitedUntil ?u,
    wt_asked := wt_asked w @ map (\<lambda>repo. (repo, ta_githubAt a)) (up_asked ?u)\<rparr>"
  have "told_alike w ?w" by (simp add: told_alike_def opened_issues_def)
  moreover have "told_alike ?w (fst (fold (record_release c a build known issue) rs (?w, [])))" for known issue rs
    using fold_alike [of "record_release c a build known issue" "(?w, [])"] record_release_alike by simp
  ultimately show ?thesis using False by (simp add: read_upstreams_def Let_def) (blast intro: alike_trans)
qed

lemma tick_alike: "told_alike (tick_moved c a w) (snd (tick c a w))"
proof -
  have "told_alike (tick_moved c a w) (fst (tick_turned c a w))"
    using fold_alike [of "provider_turn a (tick_latest c a w)", OF provider_turn_alike] by (simp add: tick_turned_def) force
  then show ?thesis unfolding tick_parts by (rule alike_trans [OF _ read_upstreams_alike])
qed

subsection \<open>Which build is the latest\<close>

lemma map_insort_key: "map g (insort_key (\<lambda>x. f (g x)) x xs) = insort_key f (g x) (map g xs)"
  by (induction xs) simp_all

lemma map_sort_key: "map g (sort_key (\<lambda>x. f (g x)) xs) = sort_key f (map g xs)"
  by (induction xs) (simp_all add: map_insort_key)

definition latest_seen :: "(string \<times> instant) list \<Rightarrow> string option" where
  "latest_seen bs = map_option fst (List.find (\<lambda>_. True) (sort_key (\<lambda>(b, at). - at) (rev bs)))"

lemma latest_is_seen: "map_option gb_build (latestBuild s) = latest_seen (seen_builds s)"
proof -
  have "sort_key (\<lambda>(b, at). - at) (rev (seen_builds s)) =
      map (\<lambda>r. (gb_build r, gb_observedAt r)) (sort_key (\<lambda>r. - gb_observedAt r) (rev (gs_builds s)))"
    using map_sort_key [of "\<lambda>r. (gb_build r, gb_observedAt r)" "\<lambda>(b, at). - at" "rev (gs_builds s)"]
    by (simp add: seen_builds_def rev_map)
  then show ?thesis by (simp add: latest_seen_def latestBuild_def split: list.split)
qed

lemma latest_seen_in: "latest_seen bs = Some b \<Longrightarrow> b \<in> fst ` set bs"
proof (cases "sort_key (\<lambda>(b, at). - at) (rev bs)")
  case (Cons x xs)
  have "set (sort_key (\<lambda>(b, at). - at) (rev bs)) = set bs" by simp
  then have "x \<in> set bs" unfolding Cons by auto
  moreover assume "latest_seen bs = Some b"
  ultimately show ?thesis by (auto simp: latest_seen_def Cons)
qed (simp add: latest_seen_def)

lemma insort_front: "\<forall>x \<in> set xs. f y \<le> f x \<Longrightarrow> insort_key f y xs = y # xs"
  by (cases xs) simp_all

text \<open>A build seen no earlier than every other is the latest.\<close>

lemma latest_seen_new:
  assumes "\<forall>(b, t) \<in> set bs. t \<le> at"
  shows "latest_seen (bs @ [(b, at)]) = Some b"
  using assms by (simp add: latest_seen_def) (subst insort_front; force)

subsection \<open>What a tick tells of builds\<close>

definition moved_row :: "watcher_config \<Rightarrow> tick_answers \<Rightarrow> string option \<Rightarrow> move_to \<Rightarrow> game_fact_row" where
  "moved_row c a from to = \<lparr>gf_at = ta_at a, gf_build = Some (mt_id to),
     gf_fact = Game_build_moved from (mt_id to) (ta_at a) (mt_steamBuildId to) (mt_sourceRevision to) (wc_pins c)\<rparr>"

definition see_build :: "string \<Rightarrow> instant \<Rightarrow> (string \<times> instant) list \<Rightarrow> (string \<times> instant) list" where
  "see_build b at bs = (if b \<in> fst ` set bs then bs else bs @ [(b, at)])"

lemma seen_insert: "seen_builds (insertBuild row s) = see_build (gb_build row) (gb_observedAt row) (seen_builds s)"
proof -
  have "list_ex (\<lambda>r. gb_build r = gb_build row) (gs_builds s) \<longleftrightarrow> gb_build row \<in> fst ` set (seen_builds s)"
    unfolding seen_builds_def list_ex_iff by (simp add: image_image) (metis (no_types) image_iff)
  then show ?thesis by (simp add: seen_builds_def insertBuild_def see_build_def)
qed

lemma recordMove_tells:
  "moves (wt_store (recordMove c a current to w)) = moves (wt_store w) @ [moved_row c a (map_option gb_build current) to]"
  "seen_builds (wt_store (recordMove c a current to w)) = see_build (mt_id to) (ta_at a) (seen_builds (wt_store w))"
  "opened_issues (recordMove c a current to w) = opened_issues w @ [issueTitle (mt_id to) (mt_sourceRevision to)]"
  by (simp_all add: recordMove_def Let_def moved_row_def opened_issues_def seen_insert split: option.split)

lemma tick_tells_none:
  assumes "snd (tick_world c a w) = None"
  shows "told_alike w (snd (tick c a w))"
proof -
  have "told_alike w (tick_moved c a w)"
    by (simp add: tick_moved_def Let_def assms told_alike_def opened_issues_def)
  then show ?thesis by (rule alike_trans [OF _ tick_alike])
qed

lemma tick_tells_move:
  assumes "snd (tick_world c a w) = Some to"
  defines "w' \<equiv> snd (tick c a w)"
  shows "moves (wt_store w') = moves (wt_store w) @ [moved_row c a (latest_seen (seen_builds (wt_store w))) to]"
    "seen_builds (wt_store w') = see_build (mt_id to) (ta_at a) (seen_builds (wt_store w))"
    "opened_issues w' = opened_issues w @ [issueTitle (mt_id to) (mt_sourceRevision to)]"
  using tick_alike [of c a w]
  by (simp_all add: told_alike_def w'_def tick_moved_def Let_def assms(1) recordMove_tells latest_is_seen)
    (simp add: opened_issues_def)

lemma steam_world:
  assumes "steam_says a = Some b"
  shows "if latest_seen (seen_builds (wt_store w)) = Some b then snd (tick_world c a w) = None
    else \<exists>to. snd (tick_world c a w) = Some to \<and> mt_id to = b"
  using assms by (simp add: tick_world_def world_build_def steam_says_def latest_is_seen)

definition all_say :: "string \<Rightarrow> tick_answers list \<Rightarrow> bool" where
  "all_say b as \<longleftrightarrow> (\<forall>a \<in> set as. steam_says a = Some b)"

lemma settled_ticks:
  assumes "all_say b as" "latest_seen (seen_builds (wt_store w)) = Some b"
  shows "told_alike w (ticks c as w)"
  using assms
proof (induction as arbitrary: w)
  case (Cons a as)
  then have one: "told_alike w (snd (tick c a w))"
    using steam_world [of a b w c] by (intro tick_tells_none) (simp add: all_say_def)
  then have "latest_seen (seen_builds (wt_store (snd (tick c a w)))) = Some b"
    using Cons.prems(2) by (simp add: told_alike_def)
  with Cons one show ?case by (auto simp: all_say_def intro: alike_trans)
qed (simp add: alike_refl)

text \<open>When Valve names a build never seen before, the first tick tells the move and opens one issue for it,
  and the ticks after it, as long as Valve names that build, tell nothing more.\<close>

theorem a_new_build_is_told_once:
  assumes "all_say b (a # as)" "b \<notin> fst ` set (seen_builds (wt_store w))"
    "\<forall>(b', t) \<in> set (seen_builds (wt_store w)). t \<le> ta_at a"
  shows "\<exists>to. mt_id to = b \<and>
    moves (wt_store (ticks c (a # as) w)) = moves (wt_store w) @ [moved_row c a (latest_seen (seen_builds (wt_store w))) to] \<and>
    opened_issues (ticks c (a # as) w) = opened_issues w @ [issueTitle b (mt_sourceRevision to)]"
proof -
  let ?bs = "seen_builds (wt_store w)"
  have "latest_seen ?bs \<noteq> Some b" using latest_seen_in assms(2) by blast
  then obtain to where to: "snd (tick_world c a w) = Some to" "mt_id to = b"
    using steam_world [of a b w c] assms(1) by (auto simp: all_say_def)
  note t = tick_tells_move [OF to(1)]
  have "latest_seen (seen_builds (wt_store (snd (tick c a w)))) = Some b"
    unfolding t to(2) see_build_def using assms(2) latest_seen_new [OF assms(3), of b] by simp
  then have "told_alike (snd (tick c a w)) (ticks c as (snd (tick c a w)))"
    using assms(1) by (intro settled_ticks [of b]) (simp_all add: all_say_def)
  with t to(2) show ?thesis by (auto simp: told_alike_def)
qed

text \<open>When Valve goes back to a build seen before an other one, the other stays the latest: every tick tells the
  move again, and opens an issue for it again.\<close>

theorem a_build_gone_back_to_is_told_at_every_tick:
  assumes "all_say b as" "b \<in> fst ` set (seen_builds (wt_store w))"
    "latest_seen (seen_builds (wt_store w)) = Some b'" "b' \<noteq> b"
  shows "length (moves (wt_store (ticks c as w))) = length (moves (wt_store w)) + length as \<and>
    length (opened_issues (ticks c as w)) = length (opened_issues w) + length as"
  using assms
proof (induction as arbitrary: w)
  case (Cons a as)
  then obtain to where to: "snd (tick_world c a w) = Some to" "mt_id to = b"
    using steam_world [of a b w c] by (auto simp: all_say_def)
  note t = tick_tells_move [OF to(1)]
  have same: "seen_builds (wt_store (snd (tick c a w))) = seen_builds (wt_store w)"
    using t(2) to(2) Cons.prems(2) by (simp add: see_build_def)
  from Cons.IH [of "snd (tick c a w)"] Cons.prems show ?case by (simp add: all_say_def same t)
qed simp

subsection \<open>GitHub is left alone\<close>

lemma ticks_paused:
  assumes "wt_githubPausedUntil w = Some until" "ta_githubAt a < until"
  shows "wt_asked (snd (tick c a w)) = wt_asked w \<and> wt_githubPausedUntil (snd (tick c a w)) = Some until"
proof -
  define q where "q w' = (wt_asked w' = wt_asked w \<and> wt_githubPausedUntil w' = Some until)" for w' :: watcher
  have moved: "q (tick_moved c a w)"
    using assms(1) by (simp add: q_def tick_moved_def Let_def recordMove_def split: option.split)
  have turn: "q (fst wp) \<Longrightarrow> q (fst (provider_turn a latest p wp))" for latest p wp
    by (cases wp) (auto simp: q_def provider_turn_def Let_def split: prod.split)
  have turns: "q (fst wp) \<Longrightarrow> q (fst (fold (provider_turn a latest) ps wp))" for latest ps wp
    by (induction ps arbitrary: wp) (simp_all add: turn)
  have "q (fst (tick_turned c a w))" unfolding tick_turned_def by (rule turns) (simp add: moved)
  with assms(2) show ?thesis by (simp add: tick_parts read_upstreams_def github_paused_def q_def)
qed

text \<open>Once GitHub has named an instant, no tick before it asks GitHub anything.\<close>

theorem github_is_left_alone:
  assumes "wt_githubPausedUntil w = Some until" "\<forall>a \<in> set as. ta_githubAt a < until"
  shows "wt_asked (ticks c as w) = wt_asked w \<and> wt_githubPausedUntil (ticks c as w) = Some until"
  using assms
proof (induction as arbitrary: w)
  case (Cons a as)
  with ticks_paused [OF Cons.prems(1), of a c] show ?case by simp
qed simp

subsection \<open>Sample ticks\<close>

definition valve_says :: "string \<Rightarrow> instant \<Rightarrow> tick_answers" where
  "valve_says v at = \<lparr>ta_at = at, ta_valve = Feed_answered 200 (Some v), ta_mirror = Feed_down ''no'',
     ta_own = (\<lambda>_. No_build_door), ta_stack = (\<lambda>_. No_stack_door), ta_githubAt = at,
     ta_sources = (\<lambda>_. Source_down ''no''), ta_filed = (\<lambda>_. None)\<rparr>"

definition quiet_config :: watcher_config where
  "quiet_config = \<lparr>wc_providers = [''p''], wc_pins = [], wc_upstreams = []\<rparr>"

definition watcher_of :: "string list \<Rightarrow> instant option \<Rightarrow> watcher" where
  "watcher_of bs paused = \<lparr>wt_store = \<lparr>gs_facts = [], gs_builds = map (\<lambda>(b, at). \<lparr>gb_build = b, gb_steamBuildId = None,
       gb_sourceRevision = None, gb_observedAt = int at, gb_issueNumber = None, gb_issueUrl = None\<rparr>) (zip bs [0..<length bs]),
     gs_providers = []\<rparr>, wt_asked = [], wt_githubPausedUntil = paused, wt_issues = [], wt_moved = []\<rparr>"

lemma valve_says_so: "steam_says (valve_says ''1.0.1'' at) = Some ''1.0.1''"
  by code_simp

lemma all_valve: "all_say ''1.0.1'' (map (valve_says ''1.0.1'') ats)"
  by (simp add: all_say_def valve_says_so)

theorem a_new_build_is_told_once_witness:
  "length (moves (wt_store (ticks quiet_config (map (valve_says ''1.0.1'') [5, 6, 7]) (watcher_of [''1.0.0''] None)))) = 1"
proof -
  let ?w = "watcher_of [''1.0.0''] None"
  have "''1.0.1'' \<notin> fst ` set (seen_builds (wt_store ?w))" "\<forall>(b', t) \<in> set (seen_builds (wt_store ?w)). t \<le> ta_at (valve_says ''1.0.1'' 5)"
    "moves (wt_store ?w) = []"
    by (simp_all add: watcher_of_def seen_builds_def valve_says_def moves_def)
  with a_new_build_is_told_once [of "''1.0.1''" "valve_says ''1.0.1'' 5" "map (valve_says ''1.0.1'') [6, 7]" ?w quiet_config]
    all_valve [of "[5, 6, 7]"] show ?thesis by (auto simp: list.map)
qed

theorem a_build_gone_back_to_is_told_at_every_tick_witness:
  "length (opened_issues (ticks quiet_config (map (valve_says ''1.0.1'') [5, 6, 7]) (watcher_of [''1.0.1'', ''1.0.2''] None))) = 3"
proof -
  let ?w = "watcher_of [''1.0.1'', ''1.0.2''] None"
  have "''1.0.1'' \<in> fst ` set (seen_builds (wt_store ?w))" "latest_seen (seen_builds (wt_store ?w)) = Some ''1.0.2''"
    "opened_issues ?w = []"
    by (simp_all add: watcher_of_def seen_builds_def latest_seen_def opened_issues_def upt_rec)
  with a_build_gone_back_to_is_told_at_every_tick [OF all_valve [of "[5, 6, 7]"], of ?w "''1.0.2''" quiet_config]
  show ?thesis by simp
qed

theorem github_is_left_alone_witness:
  "wt_asked (ticks quiet_config (map (valve_says ''1.0.1'') [5, 6, 7]) (watcher_of [] (Some 100))) = []"
  using github_is_left_alone [of "watcher_of [] (Some 100)" 100 "map (valve_says ''1.0.1'') [5, 6, 7]" quiet_config]
  by (simp add: watcher_of_def valve_says_def)

end
