(* ===== verification/Redact.thy ===== *)
theory Redact
  imports Keys "HOL-Library.Sublist"
begin

text \<open>
  What leaves the process in clear: tokens cut out of every line that is logged
  (\<open>apps/orchestrator/src/log.ts\<close>) and the values of credential cvars masked in console text
  (\<open>rcon/redact.ts\<close>). The two regular expressions are read as scans. A text is a list of bytes in
  Windows-1252, where the ellipsis is one character.
\<close>

subsection \<open>Tokens in a line\<close>

definition ELLIPSIS :: string where "ELLIPSIS = [CHR 0x85]"

definition token_char :: "char \<Rightarrow> bool" where
  "token_char c \<longleftrightarrow> (let n = of_char c :: nat in
     48 \<le> n \<and> n \<le> 57 \<or> 65 \<le> n \<and> n \<le> 90 \<or> 97 \<le> n \<and> n \<le> 122 \<or> n = 95 \<or> n = 45)"

definition token_run :: "string \<Rightarrow> nat" where "token_run s = length (takeWhile token_char s)"

definition starts_token :: "string \<Rightarrow> bool" where
  "starts_token s \<longleftrightarrow> take 5 s \<in> set TOKEN_PREFIXES \<and> 8 \<le> token_run (drop 5 s)"

function redactSecrets :: "string \<Rightarrow> string" where
  "redactSecrets [] = []"
| "redactSecrets (c # s) =
    (if starts_token (c # s)
     then take 5 (c # s) @ ELLIPSIS @ redactSecrets (dropWhile token_char (drop 5 (c # s)))
     else c # redactSecrets s)"
  by pat_completeness auto

termination
  by (relation "measure length")
    (auto simp: less_Suc_eq_le intro: le_trans [OF length_dropWhile_le])

subsection \<open>Credentials in console text\<close>

definition CONSOLE_REDACTED :: string where "CONSOLE_REDACTED = ''<redacted>''"

definition lowered :: "char \<Rightarrow> char" where
  "lowered c = (let n = of_char c :: nat in if 65 \<le> n \<and> n \<le> 90 then char_of (n + 32) else c)"

definition word_char :: "char \<Rightarrow> bool" where
  "word_char c \<longleftrightarrow> token_char c \<and> c \<noteq> CHR ''-''"

definition SECRET_ENDINGS :: "string list" where
  "SECRET_ENDINGS = [''password'', ''passwd'', ''secret'', ''_token'', ''apikey'', ''api_key'', ''_header_value'', ''_upload_url'']"

definition secret_word :: "string \<Rightarrow> bool" where
  "secret_word w \<longleftrightarrow> (let l = map lowered w in
     l = ''sv_setsteamaccount'' \<or> list_ex (\<lambda>ending. suffix ending l) SECRET_ENDINGS)"

definition blank :: "char \<Rightarrow> bool" where "blank c \<longleftrightarrow> c = CHR '' '' \<or> c = CHR 0x09"

definition quoted_value :: "string \<Rightarrow> (string \<times> string) option" where
  "quoted_value s = (case s of
     [] \<Rightarrow> None
   | q # r \<Rightarrow>
       (let inner = takeWhile (\<lambda>c. c \<noteq> CHR 0x22 \<and> c \<noteq> CHR 0x0A) r in
        case drop (length inner) r of
          [] \<Rightarrow> None
        | c # rest \<Rightarrow> if q = CHR 0x22 \<and> c = CHR 0x22 then Some (q # inner @ [c], rest) else None))"

definition value_at :: "string \<Rightarrow> (string \<times> string) option" where
  "value_at s = (case quoted_value s of
     Some v \<Rightarrow> Some v
   | None \<Rightarrow> (let v = takeWhile (\<lambda>c. \<not> white_space c) s in
       if v = [] then None else Some (v, drop (length v) s)))"

text \<open>The gap, the value and what follows. A separator with nothing behind it is itself the value.\<close>

definition secret_value :: "string \<Rightarrow> (string \<times> string \<times> string) option" where
  "secret_value s =
    (let g1 = takeWhile blank s; r1 = drop (length g1) s;
         sep = (case r1 of [] \<Rightarrow> [] | c # _ \<Rightarrow> if c = CHR '':'' \<or> c = CHR ''='' then [c] else []);
         r2 = drop (length sep) r1; g2 = takeWhile blank r2
     in (case value_at (drop (length g2) r2) of
           Some (v, rest) \<Rightarrow> Some (g1 @ sep @ g2, v, rest)
         | None \<Rightarrow> if sep = [] then None else map_option (Pair g1) (value_at r1)))"

definition masked :: "string \<Rightarrow> string" where
  "masked v = (if hd v = CHR 0x22 then CHR 0x22 # CONSOLE_REDACTED @ [CHR 0x22] else CONSOLE_REDACTED)"

lemma quoted_value_shorter:
  assumes "quoted_value s = Some (v, rest)"
  shows "length rest \<le> length s"
proof (cases s)
  case (Cons q r)
  define n where "n = length (takeWhile (\<lambda>c. c \<noteq> CHR 0x22 \<and> c \<noteq> CHR 0x0A) r)"
  from assms obtain c where "drop n r = c # rest"
    by (auto simp: quoted_value_def Cons Let_def n_def split: list.splits if_splits)
  then have "length (c # rest) \<le> length r" by (metis length_drop diff_le_self)
  with Cons show ?thesis by simp
qed (use assms in \<open>simp add: quoted_value_def\<close>)

lemma value_at_shorter:
  assumes "value_at s = Some (v, rest)"
  shows "length rest \<le> length s"
proof (cases "quoted_value s")
  case None
  with assms have "rest = drop (length v) s" by (auto simp: value_at_def Let_def split: if_splits)
  then show ?thesis by simp
next
  case (Some p)
  with assms have "quoted_value s = Some (v, rest)" by (simp add: value_at_def)
  then show ?thesis by (rule quoted_value_shorter)
qed

lemma secret_value_shorter:
  assumes "secret_value s = Some (g, v, rest)"
  shows "length rest \<le> length s"
proof -
  from assms obtain n where "value_at (drop n s) = Some (v, rest)"
    unfolding secret_value_def Let_def drop_drop
    by (cases "value_at (drop (length (takeWhile blank s)) s)") (auto split: option.splits if_splits)
  from value_at_shorter [OF this] show ?thesis by simp
qed

function mask_cvars :: "string \<Rightarrow> string" where
  "mask_cvars [] = []"
| "mask_cvars (c # s) =
    (if \<not> word_char c then c # mask_cvars s
     else
       (let w = takeWhile word_char (c # s); rest = dropWhile word_char (c # s) in
        case (if secret_word w then secret_value rest else None) of
          Some (gap, v, rest') \<Rightarrow> w @ gap @ masked v @ mask_cvars rest'
        | None \<Rightarrow> w @ mask_cvars rest))"
  by pat_completeness auto

termination
proof (relation "measure length")
  fix c s x w rest y a b gap v rest'
  assume w: "\<not> \<not> word_char c" "x = takeWhile word_char (c # s)" "rest = dropWhile word_char (c # s)"
    and v: "(if secret_word x then secret_value rest else None) = Some y" "(a, b) = y" "(v, rest') = b"
  from v have "secret_value rest = Some (a, v, rest')" by (auto split: if_splits)
  then have "length rest' \<le> length rest" by (rule secret_value_shorter)
  moreover have "length rest \<le> length s" using w by (simp add: length_dropWhile_le)
  ultimately show "(rest', c # s) \<in> measure length" by simp
qed (auto simp: less_Suc_eq_le length_dropWhile_le)

definition redactConsoleLine :: "string \<Rightarrow> string" where
  "redactConsoleLine line = redactSecrets (mask_cvars line)"

subsection \<open>No token survives\<close>

lemma prefix_chars: "p \<in> set TOKEN_PREFIXES \<Longrightarrow> length p = 5 \<and> list_all token_char p"
  by (auto simp: TOKEN_PREFIXES_def token_char_def)

lemma token_run_append: "list_all token_char u \<Longrightarrow> token_run (u @ s) = length u + token_run s"
  by (induction u) (simp_all add: token_run_def)

lemma token_run_stops: "\<not> list_all token_char u \<Longrightarrow> token_run (u @ s) = token_run u"
  by (induction u) (auto simp: token_run_def)

lemma ellipsis_stops [simp]: "token_run (ELLIPSIS @ s) = 0"
  by (simp add: token_run_def ELLIPSIS_def token_char_def)

lemma starts_token_run: "starts_token s \<Longrightarrow> 13 \<le> token_run s"
proof -
  assume s: "starts_token s"
  then have p: "length (take 5 s) = 5" "list_all token_char (take 5 s)"
    using prefix_chars unfolding starts_token_def by blast+
  have "token_run s = token_run (take 5 s @ drop 5 s)" by simp
  also have "\<dots> = 5 + token_run (drop 5 s)" unfolding token_run_append [OF p(2)] using p(1) by simp
  finally show ?thesis using s by (simp add: starts_token_def)
qed

lemma starts_token_here:
  "take 5 s \<in> set TOKEN_PREFIXES \<Longrightarrow> 13 \<le> token_run s \<Longrightarrow> starts_token s"
proof -
  assume p: "take 5 s \<in> set TOKEN_PREFIXES" and r: "13 \<le> token_run s"
  then have t: "list_all token_char (take 5 s)" "length (take 5 s) = 5" using prefix_chars by blast+
  have "token_run (take 5 s @ drop 5 s) = 5 + token_run (drop 5 s)"
    unfolding token_run_append [OF t(1)] using t(2) by simp
  with p r show ?thesis by (simp add: starts_token_def)
qed

text \<open>A line up to its first token: what stands before is kept, and no token starts in it.\<close>

lemma redact_split:
  obtains (clean) "redactSecrets s = s" "\<And>n. \<not> starts_token (drop n s)"
  | (token) u t where "s = u @ t" "starts_token t" "\<And>n. n < length u \<Longrightarrow> \<not> starts_token (drop n s)"
      "redactSecrets s = u @ take 5 t @ ELLIPSIS @ redactSecrets (dropWhile token_char (drop 5 t))"
proof (induction s arbitrary: thesis)
  case Nil
  show ?case by (rule Nil(1)) (simp_all add: starts_token_def TOKEN_PREFIXES_def)
next
  case (Cons c s)
  show ?case
  proof (cases "starts_token (c # s)")
    case True
    show ?thesis by (rule Cons.prems(2) [of "[]" "c # s"]) (use True in auto)
  next
    case False
    have later: "\<not> starts_token (drop n (c # s))" if "\<And>m. m < k \<Longrightarrow> \<not> starts_token (drop m s)" "n \<le> k" for n k
      using False that by (cases n) auto
    show ?thesis
    proof (rule Cons.IH)
      assume "redactSecrets s = s" and none: "\<And>n. \<not> starts_token (drop n s)"
      then show ?thesis
        by (intro Cons.prems(1)) (use False later none in auto)
    next
      fix u t
      assume a: "s = u @ t" "starts_token t" "\<And>n. n < length u \<Longrightarrow> \<not> starts_token (drop n s)"
        "redactSecrets s = u @ take 5 t @ ELLIPSIS @ redactSecrets (dropWhile token_char (drop 5 t))"
      show ?thesis
      proof (rule Cons.prems(2) [of "c # u" t])
        show "\<not> starts_token (drop n (c # s))" if "n < length (c # u)" for n
          using later [of "length u" n] a(3) that by simp
      qed (use a False in auto)
    qed
  qed
qed

text \<open>Cutting the token behind a text does not make one start in the text.\<close>

lemma no_new_token:
  assumes "\<not> starts_token (u @ t)" "starts_token t" "u \<noteq> []"
  shows "\<not> starts_token (u @ take 5 t @ ELLIPSIS @ r)"
proof
  assume new: "starts_token (u @ take 5 t @ ELLIPSIS @ r)"
  from assms(2) have t: "length (take 5 t) = 5" "list_all token_char (take 5 t)"
    using prefix_chars unfolding starts_token_def by blast+
  have run: "13 \<le> token_run (u @ take 5 t @ ELLIPSIS @ r)" by (rule starts_token_run [OF new])
  have cut: "token_run (take 5 t @ ELLIPSIS @ r) = 5" using token_run_append [OF t(2)] t(1) by simp
  have u: "8 \<le> length u"
  proof (cases "list_all token_char u")
    case True with run cut token_run_append [of u] show ?thesis by simp
  next
    case False
    then have "token_run (u @ take 5 t @ ELLIPSIS @ r) \<le> length u"
      by (simp add: token_run_stops) (simp add: token_run_def length_takeWhile_le)
    with run show ?thesis by simp
  qed
  then have "take 5 (u @ t) = take 5 (u @ take 5 t @ ELLIPSIS @ r)" by simp
  moreover have "13 \<le> token_run (u @ t)"
  proof (cases "list_all token_char u")
    case True with token_run_append [of u t] starts_token_run [OF assms(2)] show ?thesis by simp
  next
    case False with run token_run_stops [of u] show ?thesis by metis
  qed
  ultimately have "starts_token (u @ t)"
    using new starts_token_here [of "u @ t"] unfolding starts_token_def by metis
  with assms(1) show False by contradiction
qed

text \<open>C21: Whatever is logged or answered, no usable token of this service is in it: behind no prefix of its
  tokens do eight characters of a token follow anywhere in the redacted line.\<close>

theorem no_token_survives: "\<not> starts_token (drop n (redactSecrets s))"
proof (induction "length s" arbitrary: s n rule: less_induct)
  case step: less
  show ?case
  proof (cases rule: redact_split [of s])
    case clean then show ?thesis by simp
  next
    case split: (token u t)
    define rest where "rest = dropWhile token_char (drop 5 t)"
    have t: "length (take 5 t) = 5" "list_all token_char (take 5 t)"
      using split(2) prefix_chars unfolding starts_token_def by blast+
    have "length rest \<le> length (drop 5 t)" unfolding rest_def by (rule length_dropWhile_le)
    moreover have "5 \<le> length t" using t(1) by simp
    ultimately have "length rest < length s" by (simp add: split(1))
    then have ih: "\<not> starts_token (drop m (redactSecrets rest))" for m by (rule step)
    have red: "redactSecrets s = u @ take 5 t @ ELLIPSIS @ redactSecrets rest" by (simp add: split(4) rest_def)
    consider "n < length u" | k where "n = length u + k" "k < 5" | "n = length u + 5"
      | k where "n = length u + 6 + k"
    proof (cases "n < length u + 6")
      case True
      then have "n < length u \<or> (n = length u + (n - length u) \<and> n - length u < 5) \<or> n = length u + 5" by arith
      with that show thesis by blast
    next
      case False
      then have "n = length u + 6 + (n - (length u + 6))" by simp
      with that show thesis by blast
    qed
    then show ?thesis
    proof cases
      case 1
      then have "\<not> starts_token (drop n u @ t)" using split(3) [of n] by (simp add: split(1))
      moreover have "drop n u \<noteq> []" using 1 by simp
      ultimately have "\<not> starts_token (drop n u @ take 5 t @ ELLIPSIS @ redactSecrets rest)"
        using no_new_token split(2) by blast
      with 1 show ?thesis by (simp add: red)
    next
      case (2 k)
      have "list_all token_char (drop k (take 5 t))"
        using t(2) by (metis append_take_drop_id list_all_append)
      then have "token_run (drop k (take 5 t) @ ELLIPSIS @ redactSecrets rest) = length (drop k (take 5 t))"
        by (simp add: token_run_append)
      then have "token_run (drop n (redactSecrets s)) \<le> 5" using 2 t(1) by (simp add: red)
      then show ?thesis using starts_token_run by fastforce
    next
      case 3
      then have "drop n (redactSecrets s) = ELLIPSIS @ redactSecrets rest" using t(1) by (simp add: red)
      then show ?thesis using starts_token_run [of "ELLIPSIS @ redactSecrets rest"] by auto
    next
      case (4 k)
      then have "drop n (redactSecrets s) = drop k (redactSecrets rest)" using t(1) by (simp add: red ELLIPSIS_def)
      with ih show ?thesis by simp
    qed
  qed
qed

end
