(* ===== verification/Canary_Reason.thy ===== *)
theory Canary_Reason
  imports Game Redact Machine_World
begin

text \<open>
  What the canary (\<open>apps/orchestrator/src/game/canary.ts\<close>) reads off a console, the reason it gives for a
  red verdict, and the request it plays. The regular expressions are read as searches.
\<close>

subsection \<open>Constants\<close>

definition CANARY_KEY_NAME :: string where "CANARY_KEY_NAME = ''canary''"
definition CANARY_WEBHOOK_SECRET_ID :: string where "CANARY_WEBHOOK_SECRET_ID = ''canary''"
definition CANARY_WEBHOOK_URL :: string where "CANARY_WEBHOOK_URL = ''https://webhooks.invalid/canary''"
definition CANARY_LIFETIME_MINUTES :: nat where "CANARY_LIFETIME_MINUTES = 10"
definition CANARY_GAMEMODE :: string where "CANARY_GAMEMODE = ''pug''"
definition CANARY_MAP :: string where "CANARY_MAP = ''de_dust2''"
definition CANARY_BOTS :: nat where "CANARY_BOTS = 4"
definition CANARY_UNPAUSES :: nat where "CANARY_UNPAUSES = 3"
definition CANARY_UNPAUSE_GAP_MS :: int where "CANARY_UNPAUSE_GAP_MS = 30000"
definition CANARY_LOADER_QUESTION :: string where "CANARY_LOADER_QUESTION = ''mm_client_extra_addons''"
definition CANARY_LOADER_ASKS :: nat where "CANARY_LOADER_ASKS = 6"
definition CONSOLE_KEEP :: nat where "CONSOLE_KEEP = 60"
definition REASON_LINES :: nat where "REASON_LINES = 3"
definition REASON_LINE_MAX :: nat where "REASON_LINE_MAX = 140"
definition REASON_MAX :: nat where "REASON_MAX = 512"

definition EM_DASH :: string where "EM_DASH = [CHR 0x97]"

text \<open>\<open>Date.prototype.toISOString\<close>, in the years of four digits.\<close>

definition padded :: "nat \<Rightarrow> int \<Rightarrow> string" where
  "padded n i = (let s = decimal i in replicate (n - length s) (CHR ''0'') @ s)"

definition isoString :: "instant \<Rightarrow> string" where
  "isoString at =
    (let d = at div msPerDay; ms = at mod msPerDay; y = YearFromDay d; yd = d - DayFromYear y;
         past = filter (\<lambda>s. s \<le> yd) (month_starts y)
     in padded 4 y @ ''-'' @ padded 2 (int (length past)) @ ''-'' @ padded 2 (yd - last past + 1) @ ''T'' @
        padded 2 (ms div 3600000) @ '':'' @ padded 2 (ms div 60000 mod 60) @ '':'' @
        padded 2 (ms div 1000 mod 60) @ ''.'' @ padded 3 (ms mod 1000) @ ''Z'')"

subsection \<open>What a console says\<close>

text \<open>The patterns are texts to be found in a line, some whatever their case.\<close>

definition says :: "string \<Rightarrow> string \<Rightarrow> bool" where "says needle line \<longleftrightarrow> sublist needle line"

definition says_nocase :: "string \<Rightarrow> string \<Rightarrow> bool" where
  "says_nocase needle line \<longleftrightarrow> sublist (map lowered needle) (map lowered line)"

record console_pattern =
  cp_found :: "string \<Rightarrow> bool"
  cp_name :: string
  cp_fatal :: bool

definition CANARY_LOADER_LINE :: "string \<Rightarrow> bool" where
  "CANARY_LOADER_LINE line \<longleftrightarrow> says ''[MultiAddonManager] Steam API Activated'' line \<or>
     says ''[MultiAddonManager] Logged on to Steam'' line"

definition CANARY_CONSOLE_PATTERNS :: "console_pattern list" where
  "CANARY_CONSOLE_PATTERNS = [
     \<lparr>cp_found = says ''Engine2PreBreakpadDumpFunction'', cp_name = ''the server crashed (breakpad)'', cp_fatal = True\<rparr>,
     \<lparr>cp_found = says_nocase ''SERVER EXITED'', cp_name = ''the server process exited'', cp_fatal = True\<rparr>,
     \<lparr>cp_found = says ''Failed to find signature'',
      cp_name = ''a plugin'' @ [CHR 0x27] @ ''s game signatures no longer match the build (Failed to find signature)'',
      cp_fatal = True\<rparr>,
     \<lparr>cp_found = (\<lambda>l. says_nocase ''cs2_update_required'' l \<or> says_nocase ''MasterRequestRestart'' l \<or>
        says_nocase ''Your server is out of date'' l),
      cp_name = ''the game asks for an update (cs2_update_required)'', cp_fatal = True\<rparr>,
     \<lparr>cp_found = says ''SIGNONSTATE_SPAWN'', cp_name = ''a client reached SIGNONSTATE_SPAWN'', cp_fatal = False\<rparr>,
     \<lparr>cp_found = (\<lambda>l. says ''Steam API Activated'' l \<or> says ''[MultiAddonManager] Logged on to Steam'' l),
      cp_name = ''the addon loader woke the Steam API'', cp_fatal = False\<rparr>]"

definition fatal_line :: "string \<Rightarrow> bool" where
  "fatal_line line \<longleftrightarrow> list_ex (\<lambda>p. cp_fatal p \<and> cp_found p line) CANARY_CONSOLE_PATTERNS"

text \<open>\<open>rcon from "...": command "\<close>.\<close>

definition QUOTE :: char where "QUOTE = CHR 0x22"

definition CONSOLE_NOISE :: "string \<Rightarrow> bool" where
  "CONSOLE_NOISE line \<longleftrightarrow> list_ex (\<lambda>rest. case stripped (''rcon from '' @ [QUOTE]) rest of
     None \<Rightarrow> False
   | Some r \<Rightarrow> stripped ([QUOTE] @ '': command '' @ [QUOTE]) (dropWhile (\<lambda>c. c \<noteq> QUOTE) r) \<noteq> None) (suffixes line)"

text \<open>\<open>mm_client_extra_addons\s*=\s*"?\d\<close>.\<close>

definition CANARY_LOADER_ANSWER :: "string \<Rightarrow> bool" where
  "CANARY_LOADER_ANSWER line \<longleftrightarrow> list_ex (\<lambda>rest. case stripped CANARY_LOADER_QUESTION rest of
     None \<Rightarrow> False
   | Some r \<Rightarrow> (case dropWhile white_space r of
       [] \<Rightarrow> False
     | c # r1 \<Rightarrow> c = CHR ''='' \<and> (case dropWhile white_space r1 of
         [] \<Rightarrow> False
       | d # r2 \<Rightarrow> digit_char d \<or> d = QUOTE \<and> (case r2 of [] \<Rightarrow> False | d2 # _ \<Rightarrow> digit_char d2)))) (suffixes line)"

subsection \<open>The reason of a verdict\<close>

definition progressOf :: "bool \<Rightarrow> bool \<Rightarrow> string" where
  "progressOf ready live =
    (if \<not> ready then ''it never got ready''
     else if \<not> live then ''it was ready but never went live''
     else ''it went live but no round was played'')"

definition hudShortfall :: "bool \<Rightarrow> bool \<Rightarrow> bool \<Rightarrow> string option" where
  "hudShortfall hello loader askable =
    (if \<not> hello
     then Some (''the server played a round but its hello did not say hud: the addon id or MultiAddonManager''
       @ [CHR 0x27] @ ''s loader file did not reach it'')
     else if askable \<and> \<not> loader
     then Some (''the server played a round but MultiAddonManager never answered: no '' @ [QUOTE] @
       ''Logged on to Steam'' @ [QUOTE] @ '' or '' @ [QUOTE] @ ''Steam API Activated'' @ [QUOTE] @
       '' was read, and `'' @ CANARY_LOADER_QUESTION @ ''` named no addon '' @ decimal_nat CANARY_LOADER_ASKS @
       '' times: the loader did not load'')
     else None)"

fun joined :: "string \<Rightarrow> string list \<Rightarrow> string" where
  "joined sep [] = []"
| "joined sep [s] = s"
| "joined sep (s # ss) = s @ sep @ joined sep ss"

definition last_of :: "nat \<Rightarrow> 'a list \<Rightarrow> 'a list" where "last_of n xs = drop (length xs - n) xs"

definition canaryReason ::
  "string \<Rightarrow> ident \<Rightarrow> string list \<Rightarrow> string option \<Rightarrow> string option \<Rightarrow> string" where
  "canaryReason build provider lines ended progress =
    (let hits = filter (\<lambda>(line, hit). hit \<noteq> None)
           (map (\<lambda>line. (line, find (\<lambda>p. cp_found p line) CANARY_CONSOLE_PATTERNS)) lines);
         fatal = find (\<lambda>(line, hit). case hit of Some p \<Rightarrow> cp_fatal p | None \<Rightarrow> False) hits;
         head = (case fatal of
             Some (_, Some p) \<Rightarrow> cp_name p @ '' on '' @ provider @ '', build '' @ build
           | _ \<Rightarrow> (case ended of None \<Rightarrow> ''the canary ended without a round'' | Some t \<Rightarrow> t) @
                  (case progress of None \<Rightarrow> [] | Some t \<Rightarrow> ''; '' @ t) @ '' ('' @ provider @ '', build '' @ build @ '')'');
         said = filter (\<lambda>line. \<not> CONSOLE_NOISE line) lines;
         quoted = map (\<lambda>line. [QUOTE] @ take REASON_LINE_MAX (redactConsoleLine (trim line)) @ [QUOTE])
           (if hits \<noteq> [] then map fst (last_of REASON_LINES hits) else last_of 2 said);
         text = (if quoted \<noteq> [] then head @ '': '' @ joined ('' '' @ ELLIPSIS @ '' '') quoted else head)
     in if length text > REASON_MAX then take (REASON_MAX - 1) text @ ELLIPSIS else text)"

subsection \<open>The request a canary plays\<close>

definition canary_id :: "ident \<Rightarrow> string \<Rightarrow> bool \<Rightarrow> nat \<Rightarrow> string" where
  "canary_id provider build hud attempt =
     ''canary:'' @ provider @ '':'' @ build @ '':'' @ (if hud then ''hud'' else ''plain'') @ '':'' @ decimal_nat attempt"

text \<open>The branding's \<open>hud\<close> is not a field of \<open>match_request\<close>: it stands beside the request in the call.\<close>

definition canaryRequest :: "ident \<Rightarrow> string \<Rightarrow> bool \<Rightarrow> nat \<Rightarrow> match_request" where
  "canaryRequest provider build hud attempt =
    \<lparr>mr_clientMatchId = canary_id provider build hud attempt, mr_game = ''cs2'', mr_gamemode = CANARY_GAMEMODE,
     mr_teamA = [], mr_teamB = [], mr_nameA = ''Canary A'', mr_nameB = ''Canary B'',
     mr_maps = [\<lparr>mp_map = CANARY_MAP, mp_sides = Starts Ct\<rparr>],
     mr_rules = Some \<lparr>ru_format = Competitive, ru_regulationRounds = 2, ru_overtimeEnabled = False,
       ru_overtimeMaxRounds = 6, ru_startMoney = 10000, ru_minPlayersToReady = 0, ru_minSpectatorsToReady = 0,
       ru_autoReady = False,
       ru_cvars = [(''bot_quota'', decimal_nat CANARY_BOTS), (''bot_difficulty'', ''2''),
                   (''bot_join_after_player'', ''0''), (''mp_freezetime'', ''5'')]\<rparr>,
     mr_requirements = \<lparr>rq_region = None, rq_lan = False, rq_preferLan = False, rq_provider = Some provider,
       rq_simulated = False\<rparr>,
     mr_callbacks = \<lparr>cb_webhookUrl = CANARY_WEBHOOK_URL, cb_webhookSecretId = CANARY_WEBHOOK_SECRET_ID,
       cb_demoUploadUrl = None, cb_demoUploadUrls = None,
       cb_streamAllowedOrigins = None\<rparr>,
     mr_halftime = None, mr_simScenario = None, mr_simulation = None,
     mr_ttlMinutes = CANARY_LIFETIME_MINUTES,
     mr_hostname = Some (''EZPug '' @ [CHR 0xB7] @ '' canary '' @ [CHR 0xB7] @ '' '' @ build)\<rparr>"

end
