(* ===== verification/Canary.thy ===== *)
theory Canary
  imports Game Canary_Reason
begin

text \<open>
  The canary (\<open>apps/orchestrator/src/game/canary.ts\<close>): the match the orchestrator plays by itself when a
  provider's build moves, and the verdict it writes on the provider's picture.

  The maps \<open>runs\<close> and \<open>running\<close> of the source share their objects: here they hold indices into
  \<open>cn_heap\<close>. What the match machine, the provider's console, the server's link and its RCON door answer
  during one look is \<open>look_answers\<close>; what the canary calls is appended to \<open>cn_calls\<close>. The key is the
  service's own (\<open>Keys\<close>), the picture the watcher's (\<open>Game\<close>). A call of the store does not fail, as
  on the tables in memory. A \<open>play\<close> is two steps, cut where it waits for the match to be created; the
  slot it holds meanwhile is in \<open>cn_starting\<close>.
\<close>

subsection \<open>Runs and their calls\<close>

record canary_run =
  rn_provider :: ident
  rn_build :: string
  rn_hud :: bool
  rn_attempt :: nat
  rn_matchId :: ident
  rn_cause :: canary_cause
  rn_startedAt :: instant
  rn_finishedAt :: "instant option"
  rn_verdict :: game_canary
  rn_afterSeq :: nat
  rn_ready :: bool
  rn_live :: bool
  rn_round :: bool
  rn_hello :: bool
  rn_loader :: bool
  rn_asks :: nat
  rn_emptied :: bool
  rn_started :: bool
  rn_filled :: bool
  rn_warmupEnded :: bool
  rn_paused :: bool
  rn_unpauses :: nat
  rn_unpausedAt :: "instant option"
  rn_console :: "string list"

definition run_key :: "ident \<Rightarrow> string \<Rightarrow> bool \<Rightarrow> string" where
  "run_key provider build hud = provider @ ''|'' @ build @ ''|'' @ (if hud then ''hud'' else ''plain'')"

definition slot_of :: "canary_run \<Rightarrow> string" where
  "slot_of r = run_key (rn_provider r) (rn_build r) (rn_hud r)"

text \<open>A run as it begins, and as it is picked up from its fact: nothing read yet.\<close>

definition fresh_run ::
  "ident \<Rightarrow> string \<Rightarrow> bool \<Rightarrow> nat \<Rightarrow> ident \<Rightarrow> canary_cause \<Rightarrow> instant \<Rightarrow> string option \<Rightarrow> canary_run" where
  "fresh_run provider build hud attempt matchId cause at reason =
    \<lparr>rn_provider = provider, rn_build = build, rn_hud = hud, rn_attempt = attempt, rn_matchId = matchId,
     rn_cause = cause, rn_startedAt = at, rn_finishedAt = None,
     rn_verdict = \<lparr>gc_state = Unproven, gc_build = Some build, gc_since = Some at, gc_reason = reason\<rparr>,
     rn_afterSeq = 0, rn_ready = False, rn_live = False, rn_round = False, rn_hello = False, rn_loader = False,
     rn_asks = 0, rn_emptied = False, rn_started = False, rn_filled = False, rn_warmupEnded = False,
     rn_paused = False, rn_unpauses = 0, rn_unpausedAt = None, rn_console = []\<rparr>"

datatype canary_call =
    Call_create match_request bool
  | Call_force_end ident string
  | Call_cancel ident
  | Call_unpause ident nat instant
  | Call_rcon ident ident string
  | Call_comment nat ident

record canary_env =
  ce_keys :: keys_env
  ce_hookSecret :: string
  ce_monthlyCents :: nat
  ce_flow :: "string option"
  ce_hudAddon :: bool
  ce_known :: "ident \<Rightarrow> bool"
  ce_consoleDoor :: "ident \<Rightarrow> bool"
  ce_rconDoor :: "ident \<Rightarrow> bool"
  ce_updatesItself :: "ident \<Rightarrow> bool"

record canaries =
  cn_heap :: "canary_run list"
  cn_runs :: "(ident \<times> nat) list"
  cn_running :: "(string \<times> nat) list"
  cn_starting :: "string list"
  cn_hudDue :: "(string \<times> ident \<times> string) list"
  cn_key :: "key_row option"
  cn_keys :: keys
  cn_store :: game_store
  cn_calls :: "canary_call list"

definition run_at :: "nat \<Rightarrow> canaries \<Rightarrow> canary_run" where "run_at o' c = cn_heap c ! o'"

definition set_run :: "nat \<Rightarrow> canary_run \<Rightarrow> canaries \<Rightarrow> canaries" where
  "set_run o' r c = c\<lparr>cn_heap := (cn_heap c)[o' := r]\<rparr>"

definition called :: "canary_call \<Rightarrow> canaries \<Rightarrow> canaries" where
  "called x c = c\<lparr>cn_calls := cn_calls c @ [x]\<rparr>"

subsection \<open>The canary's key\<close>

text \<open>\<open>ensureKey\<close>: the live key of the name, held to the configured ceilings, or a new one.\<close>

definition canary_limits :: "canary_env \<Rightarrow> budget_limits" where
  "canary_limits e = \<lparr>bl_maxConcurrentServers = 1, bl_maxServerLifetimeMinutes = CANARY_LIFETIME_MINUTES,
     bl_monthlyCents = ce_monthlyCents e\<rparr>"

definition canary_key_request :: "canary_env \<Rightarrow> key_create_request" where
  "canary_key_request e = \<lparr>kc_name = CANARY_KEY_NAME, kc_scopes = [Scope_matches], kc_budget = canary_limits e,
     kc_webhookSecrets = [\<lparr>ws_id = CANARY_WEBHOOK_SECRET_ID, ws_secret = ce_hookSecret e\<rparr>], kc_fleetWebhook = None\<rparr>"

definition key_for_canary :: "canary_env \<Rightarrow> instant \<Rightarrow> keys \<Rightarrow> (api_error + ident) \<times> keys" where
  "key_for_canary e at k =
    (case find (\<lambda>key. apk_name key = CANARY_KEY_NAME \<and> apk_revokedAt key = None) (list_keys k) of
       Some existing \<Rightarrow>
         if apk_budget existing = canary_limits e then (Inr (apk_id existing), k)
         else (case setBudget (apk_id existing)
                 \<lparr>bp_maxConcurrentServers = Some 1, bp_maxServerLifetimeMinutes = Some CANARY_LIFETIME_MINUTES,
                  bp_monthlyCents = Some (ce_monthlyCents e)\<rparr> k of
                 (Inl err, k') \<Rightarrow> (Inl err, k') | (Inr _, k') \<Rightarrow> (Inr (apk_id existing), k'))
     | None \<Rightarrow>
         (case mint_key (ce_keys e) at (canary_key_request e) k of
            (Inl err, k') \<Rightarrow> (Inl err, k') | (Inr (key, _), k') \<Rightarrow> (Inr (apk_id key), k')))"

definition ensureKey :: "canary_env \<Rightarrow> instant \<Rightarrow> canaries \<Rightarrow> (api_error + key_row) \<times> canaries" where
  "ensureKey e at c =
    (case cn_key c of
       Some key \<Rightarrow> (Inr key, c)
     | None \<Rightarrow>
         (case key_for_canary e at (cn_keys c) of
            (Inl err, k) \<Rightarrow> (Inl err, c\<lparr>cn_keys := k\<rparr>)
          | (Inr i, k) \<Rightarrow>
              (case get_key i k of
                 None \<Rightarrow> (Inl (refuse Internal), c\<lparr>cn_keys := k\<rparr>)
               | Some key \<Rightarrow> (Inr key, c\<lparr>cn_keys := k, cn_key := Some key\<rparr>))))"

subsection \<open>The verdict\<close>

definition with_verdict :: "bool \<Rightarrow> game_canary \<Rightarrow> instant \<Rightarrow> game_state_row \<Rightarrow> game_state_row" where
  "with_verdict hud v at row =
     (if hud then row\<lparr>gp_hud := v, gp_updatedAt := at\<rparr> else row\<lparr>gp_canary := v, gp_updatedAt := at\<rparr>)"

definition writePicture :: "canary_run \<Rightarrow> game_canary \<Rightarrow> instant \<Rightarrow> game_store \<Rightarrow> game_store" where
  "writePicture r v at s =
    (case state_of (rn_provider r) s of
       None \<Rightarrow> s
     | Some row \<Rightarrow> if gp_build row \<noteq> Some (rn_build r) then s
                   else upsertProviderState (with_verdict (rn_hud r) v at row) s)"

definition comment_on_build :: "string \<Rightarrow> ident \<Rightarrow> canaries \<Rightarrow> canaries" where
  "comment_on_build build matchId c =
    (case Option.bind (findBuild build (cn_store c)) gb_issueNumber of
       None \<Rightarrow> c | Some n \<Rightarrow> called (Call_comment n matchId) c)"

definition decide :: "canary_env \<Rightarrow> instant \<Rightarrow> nat \<Rightarrow> bool \<Rightarrow> string option \<Rightarrow> canaries \<Rightarrow> canaries" where
  "decide e at i green reason c =
    (let r = run_at i c in
     if rn_finishedAt r \<noteq> None then c
     else
       (let state = (if green then Green else Red);
            v = \<lparr>gc_state = state, gc_build = Some (rn_build r), gc_since = Some at, gc_reason = reason\<rparr>;
            fact = Game_canary_verdict (rn_provider r) (rn_build r) (rn_hud r) (rn_attempt r) (rn_matchId r) state reason at;
            c = set_run i (r\<lparr>rn_finishedAt := Some at, rn_verdict := v\<rparr>) c;
            c = c\<lparr>cn_running := map_delete (slot_of r) (cn_running c),
                  cn_store := writePicture r v at
                    (appendFact \<lparr>gf_at = at, gf_build = Some (rn_build r), gf_fact = fact\<rparr> (cn_store c))\<rparr>;
            c = comment_on_build (rn_build r) (rn_matchId r) c
        in if green \<and> \<not> rn_hud r \<and> rn_cause r = Build_moved \<and> ce_hudAddon e
           then c\<lparr>cn_hudDue := map_set (run_key (rn_provider r) (rn_build r) True) (rn_provider r, rn_build r) (cn_hudDue c)\<rparr>
           else c))"

subsection \<open>One look\<close>

record seen_match =
  sm_state :: match_state
  sm_serverId :: "ident option"
  sm_provider :: "ident option"
  sm_endedReason :: "ended_reason option"

text \<open>\<open>lk_pages\<close> are the pages of the match's log, \<open>lk_console\<close> the lines of the console (\<open>None\<close> when it
  threw), \<open>lk_rcon\<close> the answer to a command (\<open>None\<close> when it threw).\<close>

record look_answers =
  lk_at :: instant
  lk_match :: "api_error + seen_match"
  lk_pages :: "nat \<Rightarrow> api_error + (nat \<times> string) list"
  lk_console :: "string list option"
  lk_capabilities :: "string list option"
  lk_rcon :: "string \<Rightarrow> string option"

definition take_event :: "nat \<times> string \<Rightarrow> canary_run \<Rightarrow> canary_run" where
  "take_event ev r =
    (let r = r\<lparr>rn_afterSeq := max (rn_afterSeq r) (fst ev)\<rparr>;
         r = (if snd ev = ''match_paused'' then r\<lparr>rn_paused := True\<rparr>
              else if snd ev = ''match_unpaused'' then r\<lparr>rn_paused := False\<rparr> else r)
     in if snd ev = ''match.server_ready'' \<or> snd ev = ''server_ready'' then r\<lparr>rn_ready := True\<rparr>
        else if snd ev = ''going_live'' then r\<lparr>rn_live := True\<rparr>
        else if snd ev = ''round_end'' then r\<lparr>rn_round := True\<rparr>
        else r)"

text \<open>At most twenty pages, up to the first empty one. \<open>False\<close> when a page threw.\<close>

fun read_pages :: "(nat \<Rightarrow> api_error + (nat \<times> string) list) \<Rightarrow> nat \<Rightarrow> nat \<Rightarrow> canary_run \<Rightarrow> bool \<times> canary_run" where
  "read_pages pages num 0 r = (True, r)"
| "read_pages pages num (Suc n) r =
    (case pages num of
       Inl _ \<Rightarrow> (False, r)
     | Inr items \<Rightarrow> if items = [] then (True, r) else read_pages pages (Suc num) n (fold take_event items r))"

definition readLog :: "look_answers \<Rightarrow> canary_run \<Rightarrow> bool \<times> canary_run" where
  "readLog a r = read_pages (lk_pages a) 0 20 r"

definition readConsole :: "canary_env \<Rightarrow> look_answers \<Rightarrow> seen_match \<Rightarrow> canary_run \<Rightarrow> canary_run" where
  "readConsole e a m r =
    (case (sm_serverId m, sm_provider m) of
       (Some _, Some p) \<Rightarrow>
         if \<not> ce_known e p \<or> \<not> ce_consoleDoor e p then r
         else (case lk_console a of
                 None \<Rightarrow> r
               | Some lines \<Rightarrow>
                   if lines = [] then r
                   else (let r = r\<lparr>rn_console := last_of CONSOLE_KEEP lines\<rparr>
                         in if rn_hud r \<and> list_ex (\<lambda>l. CANARY_LOADER_LINE l \<or> CANARY_LOADER_ANSWER l) lines
                            then r\<lparr>rn_loader := True\<rparr> else r))
     | _ \<Rightarrow> r)"

text \<open>The three things a look sends: the question to the loader, the unpause, a step of the start.\<close>

definition askLoader :: "look_answers \<Rightarrow> ident \<Rightarrow> canary_run \<Rightarrow> canary_run" where
  "askLoader a server r =
    (let r = r\<lparr>rn_asks := rn_asks r + 1\<rparr>
     in case lk_rcon a CANARY_LOADER_QUESTION of
          Some said \<Rightarrow> if CANARY_LOADER_ANSWER said then r\<lparr>rn_loader := True\<rparr> else r
        | None \<Rightarrow> r)"

definition wants_unpause :: "instant \<Rightarrow> seen_match \<Rightarrow> canary_run \<Rightarrow> bool" where
  "wants_unpause at m r \<longleftrightarrow> sm_state m = Live \<and> rn_paused r \<and> rn_unpauses r < CANARY_UNPAUSES \<and>
     (case rn_unpausedAt r of None \<Rightarrow> True | Some t \<Rightarrow> at - t \<ge> CANARY_UNPAUSE_GAP_MS)"

definition start_step :: "seen_match \<Rightarrow> canary_run \<Rightarrow> canary_run \<times> string option" where
  "start_step m r =
    (if sm_state m = Ready then
       if \<not> rn_emptied r then (r\<lparr>rn_emptied := True\<rparr>, Some ''bot_kick; bot_quota 0'')
       else if \<not> rn_started r then (r\<lparr>rn_started := True\<rparr>, Some ''css_start'')
       else (r, None)
     else if sm_state m = Live then
       (let r = r\<lparr>rn_emptied := True, rn_started := True\<rparr>
        in if \<not> rn_filled r then (r\<lparr>rn_filled := True\<rparr>, Some (''bot_quota '' @ decimal_nat CANARY_BOTS))
           else if \<not> rn_warmupEnded r then (r\<lparr>rn_warmupEnded := True\<rparr>, Some ''mp_warmup_end'')
           else (r, None))
     else (r, None))"

definition startStep :: "canary_env \<Rightarrow> seen_match \<Rightarrow> nat \<Rightarrow> canaries \<Rightarrow> canaries" where
  "startStep e m i c =
    (case sm_serverId m of
       None \<Rightarrow> c
     | Some server \<Rightarrow>
         if ce_flow e \<noteq> Some ''matchzy'' then c
         else (case start_step m (run_at i c) of
                 (r, None) \<Rightarrow> set_run i r c
               | (r, Some cmd) \<Rightarrow> called (Call_rcon (rn_matchId r) server cmd) (set_run i r c)))"

definition endMatch :: "seen_match \<Rightarrow> nat \<Rightarrow> string \<Rightarrow> canaries \<Rightarrow> canaries" where
  "endMatch m i why c =
    (if cn_key c = None \<or> isTerminalMatchState (sm_state m) then c
     else if sm_state m \<in> {Live, Recovering, Ready} then called (Call_force_end (rn_matchId (run_at i c)) why) c
     else called (Call_cancel (rn_matchId (run_at i c))) c)"

definition ended_text :: "seen_match \<Rightarrow> string option" where
  "ended_text m = (case sm_endedReason m of
     Some reason \<Rightarrow>
       if isTerminalMatchState (sm_state m)
       then Some (''the match '' @ match_state_name (sm_state m) @ '': '' @ ended_kind_name (er_kind reason) @
         (case er_detail reason of Some d \<Rightarrow> if d = [] then [] else '' '' @ EM_DASH @ '' '' @ d | None \<Rightarrow> []))
       else None
   | None \<Rightarrow> None)"

text \<open>The run with everything the look has read, before anything is decided or sent.\<close>

definition looked :: "canary_env \<Rightarrow> look_answers \<Rightarrow> seen_match \<Rightarrow> canary_run \<Rightarrow> canary_run" where
  "looked e a m r =
    (let r = (if sm_state m = Live then r\<lparr>rn_live := True\<rparr> else r);
         r = (if isTerminalMatchState (sm_state m) then r else readConsole e a m r)
     in if rn_hud r \<and> sm_serverId m \<noteq> None \<and> sm_provider m \<noteq> None \<and>
           (case lk_capabilities a of Some cs \<Rightarrow> ''hud'' \<in> set cs | None \<Rightarrow> False)
        then r\<lparr>rn_hello := True\<rparr> else r)"

definition asking :: "seen_match \<Rightarrow> canary_run \<Rightarrow> bool" where
  "asking m r \<longleftrightarrow> rn_hud r \<and> rn_ready r \<and> \<not> isTerminalMatchState (sm_state m) \<and> \<not> rn_loader r \<and>
     rn_asks r < CANARY_LOADER_ASKS \<and> sm_serverId m \<noteq> None"

definition shortfall :: "canary_env \<Rightarrow> canary_run \<Rightarrow> string option" where
  "shortfall e r = (if rn_hud r then hudShortfall (rn_hello r) (rn_loader r)
     (ce_known e (rn_provider r) \<and> (ce_consoleDoor e (rn_provider r) \<or> ce_rconDoor e (rn_provider r))) else None)"

definition conclude_round :: "canary_env \<Rightarrow> instant \<Rightarrow> seen_match \<Rightarrow> nat \<Rightarrow> canaries \<Rightarrow> canaries" where
  "conclude_round e at m i c =
    (let r = run_at i c in case shortfall e r of
       None \<Rightarrow> endMatch m i ''the canary saw a round'' (decide e at i True None c)
     | Some why \<Rightarrow> endMatch m i ''the canary is red''
         (decide e at i False (Some (why @ '' ('' @ rn_provider r @ '', build '' @ rn_build r @ '')'')) c))"

definition conclude_red :: "canary_env \<Rightarrow> instant \<Rightarrow> seen_match \<Rightarrow> nat \<Rightarrow> canaries \<Rightarrow> canaries" where
  "conclude_red e at m i c =
    (let r = run_at i c in
     endMatch m i ''the canary is red'' (decide e at i False
       (Some (canaryReason (rn_build r) (rn_provider r) (rn_console r) (ended_text m)
         (if list_ex fatal_line (rn_console r) then None else Some (progressOf (rn_ready r) (rn_live r))))) c))"

definition look_on :: "canary_env \<Rightarrow> look_answers \<Rightarrow> seen_match \<Rightarrow> nat \<Rightarrow> canaries \<Rightarrow> canaries" where
  "look_on e a m i c0 =
    (let r1 = looked e a m (run_at i c0); c1 = set_run i r1 c0; ask = asking m r1;
         c2 = (if ask then called (Call_rcon (rn_matchId r1) (the (sm_serverId m)) CANARY_LOADER_QUESTION)
                 (set_run i (askLoader a (the (sm_serverId m)) r1) c1) else c1);
         r2 = run_at i c2
     in if rn_ready r2 \<and> rn_live r2 \<and> rn_round r2 \<and> \<not> (ask \<and> \<not> rn_loader r2)
        then conclude_round e (lk_at a) m i c2
        else if list_ex fatal_line (rn_console r2) \<or> isTerminalMatchState (sm_state m)
        then conclude_red e (lk_at a) m i c2
        else if wants_unpause (lk_at a) m r2
        then called (Call_unpause (rn_matchId r2) (rn_unpauses r2 + 1) (lk_at a))
               (set_run i (r2\<lparr>rn_unpauses := rn_unpauses r2 + 1, rn_unpausedAt := Some (lk_at a)\<rparr>) c2)
        else startStep e m i c2)"

definition look :: "canary_env \<Rightarrow> look_answers \<Rightarrow> nat \<Rightarrow> canaries \<Rightarrow> canaries" where
  "look e a i c =
    (case ensureKey e (lk_at a) c of
       (Inl _, c1) \<Rightarrow> c1
     | (Inr _, c1) \<Rightarrow>
         (case lk_match a of
            Inl _ \<Rightarrow> c1
          | Inr m \<Rightarrow>
              (case readLog a (run_at i c1) of
                 (False, r) \<Rightarrow> set_run i r c1
               | (True, r) \<Rightarrow> look_on e a m i (set_run i r c1))))"

subsection \<open>Playing a canary\<close>

definition started_before :: "ident \<Rightarrow> string \<Rightarrow> bool \<Rightarrow> game_store \<Rightarrow> nat" where
  "started_before provider build hud s = length (filter (\<lambda>row. case gf_fact row of
       Game_canary_started p b h _ _ _ _ \<Rightarrow> p = provider \<and> b = build \<and> h = hud | _ \<Rightarrow> False)
     (listFacts 500 (Some Ft_canary_started) s))"

record canary_run_view =
  rv_provider :: ident
  rv_build :: string
  rv_hud :: bool
  rv_attempt :: nat
  rv_matchId :: ident
  rv_cause :: canary_cause
  rv_startedAt :: instant
  rv_finishedAt :: "instant option"
  rv_verdict :: game_canary

definition view_run :: "canary_run \<Rightarrow> canary_run_view" where
  "view_run r = \<lparr>rv_provider = rn_provider r, rv_build = rn_build r, rv_hud = rn_hud r, rv_attempt = rn_attempt r,
     rv_matchId = rn_matchId r, rv_cause = rn_cause r, rv_startedAt = rn_startedAt r,
     rv_finishedAt = rn_finishedAt r, rv_verdict = rn_verdict r\<rparr>"

text \<open>The first half of \<open>play\<close>, up to the slot it takes: refused, answered with the run that plays,
  joined to the play in flight, or begun. The picture's build was read before.\<close>

datatype play_turn = Play_refused api_error | Play_running canary_run_view | Play_joined | Play_begun

definition play_open ::
  "canary_env \<Rightarrow> ident \<Rightarrow> bool \<Rightarrow> string option \<Rightarrow> canaries \<Rightarrow> play_turn \<times> canaries" where
  "play_open e provider hud build c =
    (if \<not> ce_known e provider then (Play_refused (refuse Not_found), c)
     else if hud \<and> \<not> ce_hudAddon e then (Play_refused (refuse Invalid_state), c)
     else (case build of
       None \<Rightarrow> (Play_refused (refuse Invalid_state), c)
     | Some b \<Rightarrow>
         if b = [] then (Play_refused (refuse Invalid_state), c)
         else (let slot = run_key provider b hud in
           case map_of (cn_running c) slot of
             Some i \<Rightarrow> (Play_running (view_run (run_at i c)), c)
           | None \<Rightarrow> if slot \<in> set (cn_starting c) then (Play_joined, c)
                     else (Play_begun, c\<lparr>cn_starting := cn_starting c @ [slot]\<rparr>))))"

definition end_start :: "string \<Rightarrow> canaries \<Rightarrow> canaries" where
  "end_start slot c = c\<lparr>cn_starting := filter (\<lambda>s. s \<noteq> slot) (cn_starting c)\<rparr>"

definition add_run :: "canary_run \<Rightarrow> canaries \<Rightarrow> canaries" where
  "add_run r c = c\<lparr>cn_heap := cn_heap c @ [r],
     cn_runs := map_set (rn_matchId r) (length (cn_heap c)) (cn_runs c),
     cn_running := map_set (slot_of r) (length (cn_heap c)) (cn_running c)\<rparr>"

text \<open>An unproven picture says what it waits for.\<close>

definition write_waiting :: "canary_run \<Rightarrow> instant \<Rightarrow> game_store \<Rightarrow> game_store" where
  "write_waiting r at s =
    (case state_of (rn_provider r) s of
       None \<Rightarrow> s
     | Some row \<Rightarrow>
         if gp_build row \<noteq> Some (rn_build r) \<or> gc_state (if rn_hud r then gp_hud row else gp_canary row) \<noteq> Unproven
         then s else upsertProviderState (with_verdict (rn_hud r) (rn_verdict r) at row) s)"

text \<open>The second half. \<open>created\<close> answers \<open>matches.create\<close> with the id of the match.\<close>

definition play_create ::
  "canary_env \<Rightarrow> instant \<Rightarrow> ident \<Rightarrow> string \<Rightarrow> bool \<Rightarrow> canary_cause \<Rightarrow> (match_request \<Rightarrow> api_error + ident)
     \<Rightarrow> canaries \<Rightarrow> (api_error + canary_run_view) \<times> canaries" where
  "play_create e at provider build hud cause created c =
    (let slot = run_key provider build hud in
     case ensureKey e at c of
       (Inl err, c1) \<Rightarrow> (Inl err, end_start slot c1)
     | (Inr _, c1) \<Rightarrow>
         (let attempt = started_before provider build hud (cn_store c1) + 1;
              request = canaryRequest provider build hud attempt;
              c2 = called (Call_create request hud) c1
          in case created request of
               Inl err \<Rightarrow> (Inl err, end_start slot c2)
             | Inr matchId \<Rightarrow>
                 (let r = fresh_run provider build hud attempt matchId cause at
                        (Some (''a canary is playing (attempt '' @ decimal_nat attempt @ '', since '' @ isoString at @ '')''));
                      fact = Game_canary_started provider build hud attempt matchId cause at;
                      c3 = add_run r c2;
                      c4 = c3\<lparr>cn_store := write_waiting r at
                             (appendFact \<lparr>gf_at = at, gf_build = Some build, gf_fact = fact\<rparr> (cn_store c3))\<rparr>
                  in (Inr (view_run r), end_start slot c4))))"

text \<open>\<open>play\<close> in one go, as \<open>startDue\<close> awaits it: no other play is in flight for the slot.\<close>

definition play ::
  "canary_env \<Rightarrow> instant \<Rightarrow> ident \<Rightarrow> bool \<Rightarrow> canary_cause \<Rightarrow> (match_request \<Rightarrow> api_error + ident)
     \<Rightarrow> canaries \<Rightarrow> (api_error + canary_run_view option) \<times> canaries" where
  "play e at provider hud cause created c =
    (let build = Option.bind (state_of provider (cn_store c)) gp_build in
     case play_open e provider hud build c of
       (Play_refused err, c1) \<Rightarrow> (Inl err, c1)
     | (Play_running v, c1) \<Rightarrow> (Inr (Some v), c1)
     | (Play_joined, c1) \<Rightarrow> (Inr None, c1)
     | (Play_begun, c1) \<Rightarrow>
         (case play_create e at provider (the build) hud cause created c1 of
            (Inl err, c2) \<Rightarrow> (Inl err, c2) | (Inr v, c2) \<Rightarrow> (Inr (Some v), c2)))"

subsection \<open>The queue, the pass, the restart and the gate\<close>

definition start_one ::
  "canary_env \<Rightarrow> instant \<Rightarrow> (match_request \<Rightarrow> api_error + ident) \<Rightarrow> string \<times> ident \<times> string \<Rightarrow> canaries \<Rightarrow> canaries" where
  "start_one e at created entry c =
    (case entry of (slot, provider, build) \<Rightarrow>
      (let forget = (\<lambda>c. c\<lparr>cn_hudDue := map_delete slot (cn_hudDue c)\<rparr>) in
       if Option.bind (state_of provider (cn_store c)) gp_build \<noteq> Some build then forget c
       else (case play e at provider True Build_moved created c of
               (Inr _, c1) \<Rightarrow> forget c1
             | (Inl err, c1) \<Rightarrow> if ae_code err = Budget_exceeded then c1 else forget c1)))"

definition startDue :: "canary_env \<Rightarrow> instant \<Rightarrow> (match_request \<Rightarrow> api_error + ident) \<Rightarrow> canaries \<Rightarrow> canaries" where
  "startDue e at created c = fold (start_one e at created) (cn_hudDue c) c"

text \<open>One pass: every running canary is looked at, each with what it is answered, then the queue.\<close>

definition pass ::
  "canary_env \<Rightarrow> (nat \<Rightarrow> look_answers) \<Rightarrow> instant \<Rightarrow> (match_request \<Rightarrow> api_error + ident) \<Rightarrow> canaries \<Rightarrow> canaries" where
  "pass e answers at created c =
     startDue e at created (fold (\<lambda>i. look e (answers i) i) (map snd (cn_running c)) c)"

definition decided_matches :: "game_store \<Rightarrow> ident list" where
  "decided_matches s = map (\<lambda>row. case gf_fact row of Game_canary_verdict _ _ _ _ m _ _ _ \<Rightarrow> m | _ \<Rightarrow> [])
     (listFacts 200 (Some Ft_canary_verdict) s)"

definition pick_up :: "ident list \<Rightarrow> game_fact_row \<Rightarrow> canaries \<Rightarrow> canaries" where
  "pick_up decided row c =
    (case gf_fact row of
       Game_canary_started provider build hud attempt matchId cause at \<Rightarrow>
         if matchId \<in> set decided \<or> map_of (cn_runs c) matchId \<noteq> None \<or>
            map_of (cn_running c) (run_key provider build hud) \<noteq> None
         then c
         else add_run (fresh_run provider build hud attempt matchId cause at None) c
     | _ \<Rightarrow> c)"

definition start :: "canary_env \<Rightarrow> instant \<Rightarrow> canaries \<Rightarrow> canaries" where
  "start e at c =
    (case ensureKey e at c of
       (Inl _, c1) \<Rightarrow> c1
     | (Inr _, c1) \<Rightarrow> fold (pick_up (decided_matches (cn_store c1)))
         (listFacts 200 (Some Ft_canary_started) (cn_store c1)) c1)"

text \<open>\<open>providerMoved\<close> plays only where the vendor moves the game by itself.\<close>

definition providerMoved ::
  "canary_env \<Rightarrow> instant \<Rightarrow> ident \<Rightarrow> (match_request \<Rightarrow> api_error + ident) \<Rightarrow> canaries \<Rightarrow> canaries" where
  "providerMoved e at provider created c =
    (if ce_known e provider \<and> ce_updatesItself e provider
     then snd (play e at provider False Build_moved created c) else c)"

definition hudAllowed :: "ident \<Rightarrow> ident \<Rightarrow> canaries \<Rightarrow> bool" where
  "hudAllowed provider matchId c \<longleftrightarrow>
    (case map_of (cn_runs c) matchId of
       Some i \<Rightarrow> rn_hud (run_at i c) \<and> rn_provider (run_at i c) = provider \<and> rn_finishedAt (run_at i c) = None
     | None \<Rightarrow> False) \<or>
    (case state_of provider (cn_store c) of
       None \<Rightarrow> False
     | Some row \<Rightarrow> gp_build row \<noteq> None \<and> gc_state (gp_hud row) = Green \<and> gc_build (gp_hud row) = gp_build row)"

definition canary_runs :: "canaries \<Rightarrow> canary_run_view list" where
  "canary_runs c = map (\<lambda>(m, i). view_run (run_at i c)) (cn_runs c)"

text \<open>A process begins with no runs: the store and the keys are what the last one left.\<close>

definition process_start :: "keys \<Rightarrow> game_store \<Rightarrow> canaries" where
  "process_start k s = \<lparr>cn_heap = [], cn_runs = [], cn_running = [], cn_starting = [], cn_hudDue = [],
     cn_key = None, cn_keys = k, cn_store = s, cn_calls = []\<rparr>"

end
