(* ===== verification/Canary_Laws.thy ===== *)
theory Canary_Laws
  imports Canary Game_Laws
begin

text \<open>
  The laws of the canary: what one look does to a run (\<open>look_cases\<close>), the invariant of runs, slots and
  facts along every interleaving of the canary with the watcher (\<open>canary_reach\<close>, \<open>runs_ok\<close>), and of the
  pictures (\<open>pictures_ok\<close>).
\<close>

subsection \<open>What a look keeps of a run\<close>

definition same_run :: "canary_run \<Rightarrow> canary_run \<Rightarrow> bool" where
  "same_run r r' \<longleftrightarrow> rn_provider r' = rn_provider r \<and> rn_build r' = rn_build r \<and> rn_hud r' = rn_hud r \<and>
     rn_attempt r' = rn_attempt r \<and> rn_matchId r' = rn_matchId r \<and> rn_cause r' = rn_cause r \<and>
     rn_startedAt r' = rn_startedAt r"

text \<open>Nothing is decided, and nothing was sent that is counted.\<close>

definition reading :: "canary_run \<Rightarrow> canary_run \<Rightarrow> bool" where
  "reading r r' \<longleftrightarrow> same_run r r' \<and> rn_finishedAt r' = rn_finishedAt r \<and> rn_verdict r' = rn_verdict r \<and>
     rn_asks r' = rn_asks r \<and> rn_unpauses r' = rn_unpauses r \<and> rn_unpausedAt r' = rn_unpausedAt r"

lemma same_run_refl [simp]: "same_run r r" by (simp add: same_run_def)
lemma reading_refl [simp]: "reading r r" by (simp add: reading_def)

lemma same_run_trans: "same_run r r' \<Longrightarrow> same_run r' r'' \<Longrightarrow> same_run r r''"
  by (simp add: same_run_def)

lemma reading_trans: "reading r r' \<Longrightarrow> reading r' r'' \<Longrightarrow> reading r r''"
  by (auto simp: reading_def intro: same_run_trans)

lemma same_slot: "same_run r r' \<Longrightarrow> slot_of r' = slot_of r"
  by (simp add: same_run_def slot_of_def)

lemma take_event_reads: "reading r (take_event ev r)"
  by (simp add: take_event_def Let_def reading_def same_run_def)

lemma fold_reads: "reading r (fold take_event items r)"
  by (induction items arbitrary: r) (auto intro: reading_trans take_event_reads)

lemma read_pages_reads: "reading r (snd (read_pages pages num n r))"
  by (induction pages num n r rule: read_pages.induct)
    (auto split: sum.split intro: reading_trans fold_reads)

lemma readLog_reads: "readLog a r = (ok, r') \<Longrightarrow> reading r r'"
  using read_pages_reads [of r "lk_pages a" 0 20] by (simp add: readLog_def)

lemma readConsole_reads: "reading r (readConsole e a m r)"
  by (simp add: readConsole_def Let_def reading_def same_run_def split: option.split)

lemma looked_reads: "reading r (looked e a m r)"
proof -
  have live: "reading r (r\<lparr>rn_live := True\<rparr>)" and hello: "reading r r' \<Longrightarrow> reading r (r'\<lparr>rn_hello := True\<rparr>)" for r'
    by (simp_all add: reading_def same_run_def)
  have console: "reading r r' \<Longrightarrow> reading r (readConsole e a m r')" for r'
    by (rule reading_trans [OF _ readConsole_reads])
  show ?thesis
    unfolding looked_def Let_def by (auto intro!: live hello console)
qed

lemma askLoader_keeps:
  "same_run r (askLoader a s r) \<and> rn_finishedAt (askLoader a s r) = rn_finishedAt r \<and>
   rn_verdict (askLoader a s r) = rn_verdict r \<and> rn_asks (askLoader a s r) = rn_asks r + 1 \<and>
   rn_unpauses (askLoader a s r) = rn_unpauses r \<and> rn_unpausedAt (askLoader a s r) = rn_unpausedAt r"
  by (simp add: askLoader_def Let_def same_run_def split: option.split)

lemma start_step_reads: "reading r (fst (start_step m r))"
  by (simp add: start_step_def Let_def reading_def same_run_def)

lemma start_step_commands: "snd (start_step m r) = Some cmd \<Longrightarrow> cmd \<noteq> CANARY_LOADER_QUESTION"
  by (auto simp: start_step_def Let_def CANARY_LOADER_QUESTION_def split: if_splits)

subsection \<open>What a look does\<close>

lemma set_run_simps [simp]:
  "run_at i (set_run i r c) = (if i < length (cn_heap c) then r else run_at i c)"
  "cn_heap (set_run i r c) = (cn_heap c)[i := r]" "cn_runs (set_run i r c) = cn_runs c"
  "cn_running (set_run i r c) = cn_running c" "cn_starting (set_run i r c) = cn_starting c"
  "cn_hudDue (set_run i r c) = cn_hudDue c" "cn_key (set_run i r c) = cn_key c"
  "cn_keys (set_run i r c) = cn_keys c" "cn_store (set_run i r c) = cn_store c"
  "cn_calls (set_run i r c) = cn_calls c"
  by (simp_all add: set_run_def run_at_def list_update_beyond)

lemma called_simps [simp]:
  "run_at i (called x c) = run_at i c" "cn_heap (called x c) = cn_heap c" "cn_runs (called x c) = cn_runs c"
  "cn_running (called x c) = cn_running c" "cn_starting (called x c) = cn_starting c"
  "cn_hudDue (called x c) = cn_hudDue c" "cn_key (called x c) = cn_key c"
  "cn_keys (called x c) = cn_keys c" "cn_store (called x c) = cn_store c"
  "cn_calls (called x c) = cn_calls c @ [x]"
  by (simp_all add: called_def run_at_def)

lemma ensureKey_frame:
  assumes "ensureKey e at c = (x, c')"
  shows "cn_heap c' = cn_heap c" "cn_runs c' = cn_runs c" "cn_running c' = cn_running c"
    "cn_starting c' = cn_starting c" "cn_hudDue c' = cn_hudDue c" "cn_store c' = cn_store c"
    "cn_calls c' = cn_calls c" "run_at i c' = run_at i c"
  using assms by (auto simp: ensureKey_def run_at_def split: option.splits prod.splits sum.splits)

text \<open>A decided run, and the fact that tells it.\<close>

definition decided_run :: "instant \<Rightarrow> bool \<Rightarrow> string option \<Rightarrow> canary_run \<Rightarrow> canary_run" where
  "decided_run at green reason r = r\<lparr>rn_finishedAt := Some at,
     rn_verdict := \<lparr>gc_state = (if green then Green else Red), gc_build = Some (rn_build r), gc_since = Some at,
       gc_reason = reason\<rparr>\<rparr>"

definition verdict_row :: "instant \<Rightarrow> bool \<Rightarrow> string option \<Rightarrow> canary_run \<Rightarrow> game_fact_row" where
  "verdict_row at green reason r = \<lparr>gf_at = at, gf_build = Some (rn_build r),
     gf_fact = Game_canary_verdict (rn_provider r) (rn_build r) (rn_hud r) (rn_attempt r) (rn_matchId r)
       (if green then Green else Red) reason at\<rparr>"

definition hud_follows :: "canary_env \<Rightarrow> bool \<Rightarrow> canary_run \<Rightarrow> bool" where
  "hud_follows e green r \<longleftrightarrow> green \<and> \<not> rn_hud r \<and> rn_cause r = Build_moved \<and> ce_hudAddon e"

lemma decide_effect:
  assumes "i < length (cn_heap c)" "rn_finishedAt (run_at i c) = None"
  defines "r \<equiv> run_at i c"
  shows "cn_heap (decide e at i green reason c) = (cn_heap c)[i := decided_run at green reason r]"
    "cn_running (decide e at i green reason c) = map_delete (slot_of r) (cn_running c)"
    "cn_store (decide e at i green reason c) = writePicture r (rn_verdict (decided_run at green reason r)) at
       (appendFact (verdict_row at green reason r) (cn_store c))"
    "cn_runs (decide e at i green reason c) = cn_runs c"
    "cn_starting (decide e at i green reason c) = cn_starting c"
    "cn_hudDue (decide e at i green reason c) = (if hud_follows e green r
       then map_set (run_key (rn_provider r) (rn_build r) True) (rn_provider r, rn_build r) (cn_hudDue c) else cn_hudDue c)"
    "\<exists>xs. cn_calls (decide e at i green reason c) = cn_calls c @ xs \<and> (\<forall>x \<in> set xs. \<exists>n m. x = Call_comment n m)"
    "cn_key (decide e at i green reason c) = cn_key c"
  using assms(2)
  by (simp_all add: decide_def Let_def comment_on_build_def decided_run_def verdict_row_def hud_follows_def r_def
      split: option.split)

lemma endMatch_frame:
  "cn_heap (endMatch m i why c) = cn_heap c" "cn_runs (endMatch m i why c) = cn_runs c"
  "cn_running (endMatch m i why c) = cn_running c" "cn_starting (endMatch m i why c) = cn_starting c"
  "cn_hudDue (endMatch m i why c) = cn_hudDue c" "cn_store (endMatch m i why c) = cn_store c"
  "\<exists>xs. cn_calls (endMatch m i why c) = cn_calls c @ xs \<and>
     (\<forall>x \<in> set xs. (\<exists>m w. x = Call_force_end m w) \<or> (\<exists>m. x = Call_cancel m))"
  by (auto simp: endMatch_def)

text \<open>Calls of a look that are counted: the questions to the loader and the unpauses.\<close>

definition counted_call :: "canary_call \<Rightarrow> bool" where
  "counted_call x = (case x of Call_unpause _ _ _ \<Rightarrow> True | Call_rcon _ _ cmd \<Rightarrow> cmd = CANARY_LOADER_QUESTION | _ \<Rightarrow> False)"

definition quiet_calls :: "canaries \<Rightarrow> canaries \<Rightarrow> bool" where
  "quiet_calls c c' \<longleftrightarrow> (\<exists>xs. cn_calls c' = cn_calls c @ xs \<and> (\<forall>x \<in> set xs. \<not> counted_call x))"

lemma quiet_refl [simp]: "cn_calls c' = cn_calls c \<Longrightarrow> quiet_calls c c'"
  by (auto simp: quiet_calls_def)

lemma quiet_trans: "quiet_calls c c' \<Longrightarrow> quiet_calls c' c'' \<Longrightarrow> quiet_calls c c''"
  by (auto simp: quiet_calls_def)

text \<open>The evidence of a green verdict: everything it needs was seen.\<close>

definition proven :: "canary_env \<Rightarrow> canary_run \<Rightarrow> bool" where
  "proven e r \<longleftrightarrow> rn_ready r \<and> rn_live r \<and> rn_round r \<and> shortfall e r = None"

definition frame_but_run :: "canaries \<Rightarrow> canaries \<Rightarrow> bool" where
  "frame_but_run c c' \<longleftrightarrow> cn_runs c' = cn_runs c \<and> cn_running c' = cn_running c \<and> cn_starting c' = cn_starting c \<and>
     cn_hudDue c' = cn_hudDue c \<and> cn_store c' = cn_store c"

text \<open>The strides of a look: it reads (and may send a step of the start), asks the loader, asks for an
  unpause, or decides.\<close>

inductive stride :: "canary_env \<Rightarrow> instant \<Rightarrow> nat \<Rightarrow> canary_run \<Rightarrow> canaries \<Rightarrow> canaries \<Rightarrow> bool"
  for e at i r c c' where
  quiet: "reading r r' \<Longrightarrow> cn_heap c' = (cn_heap c)[i := r'] \<Longrightarrow> frame_but_run c c' \<Longrightarrow> quiet_calls c c' \<Longrightarrow>
    stride e at i r c c'"
| unpaused: "rn_unpauses r < CANARY_UNPAUSES \<Longrightarrow>
    (\<And>t. rn_unpausedAt r = Some t \<Longrightarrow> at - t \<ge> CANARY_UNPAUSE_GAP_MS) \<Longrightarrow>
    cn_heap c' = (cn_heap c)[i := r\<lparr>rn_unpauses := rn_unpauses r + 1, rn_unpausedAt := Some at\<rparr>] \<Longrightarrow>
    frame_but_run c c' \<Longrightarrow> cn_calls c' = cn_calls c @ [Call_unpause (rn_matchId r) (rn_unpauses r + 1) at] \<Longrightarrow>
    stride e at i r c c'"
| asked: "rn_asks r < CANARY_LOADER_ASKS \<Longrightarrow> same_run r r' \<Longrightarrow> rn_finishedAt r' = rn_finishedAt r \<Longrightarrow>
    rn_verdict r' = rn_verdict r \<Longrightarrow> rn_asks r' = rn_asks r + 1 \<Longrightarrow> rn_unpauses r' = rn_unpauses r \<Longrightarrow>
    rn_unpausedAt r' = rn_unpausedAt r \<Longrightarrow> cn_heap c' = (cn_heap c)[i := r'] \<Longrightarrow> frame_but_run c c' \<Longrightarrow>
    cn_calls c' = cn_calls c @ [Call_rcon (rn_matchId r) server CANARY_LOADER_QUESTION] \<Longrightarrow>
    stride e at i r c c'"
| decided: "rn_finishedAt r = None \<Longrightarrow> (green \<Longrightarrow> proven e r) \<Longrightarrow> cn_heap c' = (cn_heap c)[i := decided_run at green reason r] \<Longrightarrow>
    cn_running c' = map_delete (slot_of r) (cn_running c) \<Longrightarrow>
    cn_store c' = writePicture r (rn_verdict (decided_run at green reason r)) at
      (appendFact (verdict_row at green reason r) (cn_store c)) \<Longrightarrow>
    cn_runs c' = cn_runs c \<Longrightarrow> cn_starting c' = cn_starting c \<Longrightarrow>
    cn_hudDue c' = (if hud_follows e green r
      then map_set (run_key (rn_provider r) (rn_build r) True) (rn_provider r, rn_build r) (cn_hudDue c) else cn_hudDue c) \<Longrightarrow>
    quiet_calls c c' \<Longrightarrow> stride e at i r c c'"

lemma decide_then_end:
  assumes "i < length (cn_heap c)" "rn_finishedAt (run_at i c) = None" "green \<Longrightarrow> proven e (run_at i c)"
  shows "stride e at i (run_at i c) c (endMatch m i why (decide e at i green reason c))"
proof -
  note d = decide_effect [OF assms(1,2), of e at green reason]
  note f = endMatch_frame [of m i why "decide e at i green reason c"]
  have "quiet_calls c (decide e at i green reason c)"
    using d(7) unfolding quiet_calls_def counted_call_def by fastforce
  moreover have "quiet_calls (decide e at i green reason c) (endMatch m i why (decide e at i green reason c))"
    using f(7) unfolding quiet_calls_def counted_call_def by fastforce
  ultimately have "quiet_calls c (endMatch m i why (decide e at i green reason c))" by (rule quiet_trans)
  with assms(2,3) show ?thesis
    by (intro stride.decided [where green = green and reason = reason]) (simp_all add: f d)
qed

lemma startStep_after:
  assumes "i < length (cn_heap c)"
  shows "stride e at i (run_at i c) c (startStep ce m i c)"
proof -
  obtain r cmd where step: "start_step m (run_at i c) = (r, cmd)" by force
  have r: "reading (run_at i c) r" using start_step_reads [of "run_at i c" m] step by simp
  have same: "stride e at i (run_at i c) c c"
    by (rule stride.quiet [of _ "run_at i c"]) (simp_all add: frame_but_run_def run_at_def)
  show ?thesis
  proof (cases "sm_serverId m = None \<or> ce_flow ce \<noteq> Some ''matchzy''")
    case True
    then have "startStep ce m i c = c" by (auto simp: startStep_def split: option.split)
    with same show ?thesis by simp
  next
    case False
    then obtain server where s: "sm_serverId m = Some server" "ce_flow ce = Some ''matchzy''" by auto
    show ?thesis
    proof (cases cmd)
      case None
      then have "startStep ce m i c = set_run i r c" by (simp add: startStep_def s step)
      then show ?thesis
        by (intro stride.quiet [OF r]) (simp_all add: frame_but_run_def)
    next
      case (Some x)
      then have "startStep ce m i c = called (Call_rcon (rn_matchId r) server x) (set_run i r c)"
        by (simp add: startStep_def s step)
      moreover have "x \<noteq> CANARY_LOADER_QUESTION" using start_step_commands [of m "run_at i c" x] step Some by simp
      ultimately show ?thesis
        by (intro stride.quiet [OF r]) (simp_all add: frame_but_run_def quiet_calls_def counted_call_def)
    qed
  qed
qed

text \<open>What is done once the questions are asked, from the run as it then is.\<close>

definition look_end :: "canary_env \<Rightarrow> look_answers \<Rightarrow> seen_match \<Rightarrow> bool \<Rightarrow> nat \<Rightarrow> canaries \<Rightarrow> canaries" where
  "look_end e a m ask i c =
    (let r = run_at i c in
     if rn_ready r \<and> rn_live r \<and> rn_round r \<and> \<not> (ask \<and> \<not> rn_loader r)
     then conclude_round e (lk_at a) m i c
     else if list_ex fatal_line (rn_console r) \<or> isTerminalMatchState (sm_state m)
     then conclude_red e (lk_at a) m i c
     else if wants_unpause (lk_at a) m r
     then called (Call_unpause (rn_matchId r) (rn_unpauses r + 1) (lk_at a))
            (set_run i (r\<lparr>rn_unpauses := rn_unpauses r + 1, rn_unpausedAt := Some (lk_at a)\<rparr>) c)
     else startStep e m i c)"

lemma look_end_after:
  assumes "i < length (cn_heap c)" "rn_finishedAt (run_at i c) = None"
  shows "stride e (lk_at a) i (run_at i c) c (look_end e a m ask i c)"
proof -
  let ?r = "run_at i c"
  consider (round) "rn_ready ?r \<and> rn_live ?r \<and> rn_round ?r \<and> \<not> (ask \<and> \<not> rn_loader ?r)"
    | (red) "\<not> (rn_ready ?r \<and> rn_live ?r \<and> rn_round ?r \<and> \<not> (ask \<and> \<not> rn_loader ?r))"
        "list_ex fatal_line (rn_console ?r) \<or> isTerminalMatchState (sm_state m)"
    | (pause) "\<not> (rn_ready ?r \<and> rn_live ?r \<and> rn_round ?r \<and> \<not> (ask \<and> \<not> rn_loader ?r))"
        "\<not> (list_ex fatal_line (rn_console ?r) \<or> isTerminalMatchState (sm_state m))" "wants_unpause (lk_at a) m ?r"
    | (step) "\<not> (rn_ready ?r \<and> rn_live ?r \<and> rn_round ?r \<and> \<not> (ask \<and> \<not> rn_loader ?r))"
        "\<not> (list_ex fatal_line (rn_console ?r) \<or> isTerminalMatchState (sm_state m))" "\<not> wants_unpause (lk_at a) m ?r"
    by blast
  then show ?thesis
  proof cases
    case round
    then have "look_end e a m ask i c = conclude_round e (lk_at a) m i c"
      by (simp add: look_end_def Let_def)
    moreover have "stride e (lk_at a) i ?r c (conclude_round e (lk_at a) m i c)"
    proof (cases "shortfall e ?r")
      case None
      with round have "proven e ?r" by (simp add: proven_def)
      with decide_then_end [OF assms, of True] None show ?thesis by (simp add: conclude_round_def Let_def)
    next
      case (Some why)
      with decide_then_end [OF assms, of False] show ?thesis by (simp add: conclude_round_def Let_def)
    qed
    ultimately show ?thesis by simp
  next
    case red
    then have "look_end e a m ask i c = conclude_red e (lk_at a) m i c"
      unfolding look_end_def Let_def by (simp only: if_True if_False)
    with decide_then_end [OF assms, of False] show ?thesis by (simp add: conclude_red_def Let_def)
  next
    case pause
    then have "look_end e a m ask i c = called (Call_unpause (rn_matchId ?r) (rn_unpauses ?r + 1) (lk_at a))
        (set_run i (?r\<lparr>rn_unpauses := rn_unpauses ?r + 1, rn_unpausedAt := Some (lk_at a)\<rparr>) c)"
      unfolding look_end_def Let_def by (simp only: if_True if_False)
    with pause(3) show ?thesis
      by (intro stride.unpaused) (simp_all add: wants_unpause_def frame_but_run_def split: option.splits)
  next
    case step
    then have "look_end e a m ask i c = startStep e m i c"
      unfolding look_end_def Let_def by (simp only: if_True if_False)
    with startStep_after [OF assms(1)] show ?thesis by simp
  qed
qed

lemma look_on_split:
  "look_on e a m i c =
    (let r = looked e a m (run_at i c); ask = asking m r
     in look_end e a m ask i
          (if ask then called (Call_rcon (rn_matchId r) (the (sm_serverId m)) CANARY_LOADER_QUESTION)
             (set_run i (askLoader a (the (sm_serverId m)) r) (set_run i r c)) else set_run i r c))"
  by (simp add: look_on_def look_end_def Let_def)

definition run_step :: "canary_env \<Rightarrow> instant \<Rightarrow> nat \<Rightarrow> canaries \<Rightarrow> canaries \<Rightarrow> bool" where
  "run_step e at i c c' \<longleftrightarrow> rn_finishedAt (run_at i c) = None \<and> stride e at i (run_at i c) c c'"

lemma stride_length: "stride e at i r c c' \<Longrightarrow> length (cn_heap c') = length (cn_heap c)"
  by (erule stride.cases) (metis length_list_update)+

lemma read_step:
  assumes "rn_finishedAt (run_at i c) = None"
    "reading (run_at i c) r" "frame_but_run c c'" "cn_heap c' = (cn_heap c)[i := r]" "cn_calls c' = cn_calls c"
  shows "run_step e at i c c'"
  unfolding run_step_def by (intro conjI stride.quiet [OF assms(2,4,3)]) (simp_all add: assms(1,5))

lemma look_on_steps:
  assumes i: "i < length (cn_heap c)" and u: "rn_finishedAt (run_at i c) = None"
  shows "(run_step e (lk_at a) i)\<^sup>*\<^sup>* c (look_on e a m i c)"
proof -
  define r where "r = looked e a m (run_at i c)"
  define c1 where "c1 = set_run i r c"
  have r: "reading (run_at i c) r" by (simp add: r_def looked_reads)
  have one: "run_step e (lk_at a) i c c1"
    by (rule read_step [OF u r]) (simp_all add: c1_def frame_but_run_def)
  have at1: "run_at i c1 = r" "i < length (cn_heap c1)" using i by (simp_all add: c1_def)
  have u1: "rn_finishedAt r = None" using r u by (simp add: reading_def)
  show ?thesis
  proof (cases "asking m r")
    case False
    then have "look_on e a m i c = look_end e a m False i c1"
      by (simp add: look_on_split Let_def r_def c1_def)
    moreover have "run_step e (lk_at a) i c1 (look_end e a m False i c1)"
      unfolding run_step_def by (intro conjI look_end_after) (simp_all add: at1 u1)
    ultimately show ?thesis using one by (simp add: rtranclp.rtrancl_into_rtrancl r_into_rtranclp)
  next
    case True
    define r2 where "r2 = askLoader a (the (sm_serverId m)) r"
    define c2 where "c2 = called (Call_rcon (rn_matchId r) (the (sm_serverId m)) CANARY_LOADER_QUESTION) (set_run i r2 c1)"
    note k = askLoader_keeps [of r a "the (sm_serverId m)"]
    have "stride e (lk_at a) i r c1 c2"
      by (rule stride.asked [of r r2 _ _ _ "the (sm_serverId m)"])
        (use True k in \<open>simp_all add: asking_def r2_def c2_def frame_but_run_def\<close>)
    then have two: "run_step e (lk_at a) i c1 c2" by (simp add: run_step_def at1 u1)
    have at2: "run_at i c2 = r2" "i < length (cn_heap c2)" using at1 by (simp_all add: c2_def)
    have u2: "rn_finishedAt r2 = None" using k u1 by (simp add: r2_def)
    from True have "look_on e a m i c = look_end e a m True i c2"
      by (simp add: look_on_split Let_def r_def [symmetric] c1_def c2_def r2_def)
    moreover have "run_step e (lk_at a) i c2 (look_end e a m True i c2)"
      unfolding run_step_def by (intro conjI look_end_after) (simp_all add: at2 u2)
    ultimately show ?thesis using one two
      by (metis (no_types) rtranclp.rtrancl_into_rtrancl rtranclp.rtrancl_refl)
  qed
qed

lemma look_steps:
  assumes i: "i < length (cn_heap c)" and u: "rn_finishedAt (run_at i c) = None"
  shows "(run_step e (lk_at a) i)\<^sup>*\<^sup>* c (look e a i c)"
proof -
  obtain x c1 where k: "ensureKey e (lk_at a) c = (x, c1)" by force
  note f = ensureKey_frame [OF k]
  have i1: "i < length (cn_heap c1)" using i f by simp
  have stay: "run_step e (lk_at a) i c c1"
    by (rule read_step [OF u, of "run_at i c"]) (simp_all add: f frame_but_run_def run_at_def)
  show ?thesis
  proof (cases "(x, lk_match a)")
    case (Pair y z)
    then consider (stopped) "look e a i c = c1" | (seen) m where "x \<noteq> Inl (refuse Internal) \<or> True" "z = Inr m" "\<exists>k. x = Inr k"
      by (cases x; cases z) (auto simp: look_def k)
    then show ?thesis
    proof cases
      case stopped with stay show ?thesis by simp
    next
      case (seen m)
      obtain ok r where log: "readLog a (run_at i c1) = (ok, r)" by force
      have r: "reading (run_at i c1) r" by (rule readLog_reads [OF log])
      define c2 where "c2 = set_run i r c1"
      have two: "run_step e (lk_at a) i c1 c2"
        by (rule read_step [OF _ r]) (use u in \<open>simp_all add: c2_def frame_but_run_def f\<close>)
      have at2: "run_at i c2 = r" "i < length (cn_heap c2)" using i1 by (simp_all add: c2_def)
      have u2: "rn_finishedAt r = None" using r u by (simp add: reading_def f)
      from seen have "look e a i c = (if ok then look_on e a m i c2 else c2)"
        using Pair by (auto simp: look_def k log c2_def split: bool.split)
      moreover have "(run_step e (lk_at a) i)\<^sup>*\<^sup>* c2 (look_on e a m i c2)"
        by (rule look_on_steps) (simp_all add: at2 u2)
      ultimately show ?thesis using stay two
        by (auto intro: converse_rtranclp_into_rtranclp)
    qed
  qed
qed

subsection \<open>The facts a store tells of canaries\<close>

definition verdict_ids_of :: "game_fact_row \<Rightarrow> ident list" where
  "verdict_ids_of row = (case gf_fact row of Game_canary_verdict _ _ _ _ m _ _ _ \<Rightarrow> [m] | _ \<Rightarrow> [])"

definition started_ids_of :: "game_fact_row \<Rightarrow> ident list" where
  "started_ids_of row = (case gf_fact row of Game_canary_started _ _ _ _ m _ _ \<Rightarrow> [m] | _ \<Rightarrow> [])"

text \<open>The matches whose verdict is told, in the order they were told, and the matches started.\<close>

definition verdict_ids :: "game_store \<Rightarrow> ident list" where
  "verdict_ids s = concat (map verdict_ids_of (gs_facts s))"

definition started_ids :: "game_store \<Rightarrow> ident list" where
  "started_ids s = concat (map started_ids_of (gs_facts s))"

lemma ids_append [simp]:
  "verdict_ids (appendFact f s) = verdict_ids s @ verdict_ids_of f"
  "started_ids (appendFact f s) = started_ids s @ started_ids_of f"
  by (simp_all add: verdict_ids_def started_ids_def)

lemma ids_facts: "gs_facts s' = gs_facts s \<Longrightarrow> verdict_ids s' = verdict_ids s \<and> started_ids s' = started_ids s"
  by (simp add: verdict_ids_def started_ids_def)

lemma picture_facts [simp]:
  "gs_facts (writePicture r v at s) = gs_facts s" "gs_facts (write_waiting r at s) = gs_facts s"
  by (simp_all add: writePicture_def write_waiting_def split: option.split)

lemma ids_picture [simp]:
  "verdict_ids (writePicture r v at s) = verdict_ids s" "started_ids (writePicture r v at s) = started_ids s"
  "verdict_ids (write_waiting r at s) = verdict_ids s" "started_ids (write_waiting r at s) = started_ids s"
  by (simp_all add: verdict_ids_def started_ids_def)

lemma ids_verdict_row [simp]:
  "verdict_ids_of (verdict_row at green reason r) = [rn_matchId r]" "started_ids_of (verdict_row at green reason r) = []"
  by (simp_all add: verdict_row_def verdict_ids_of_def started_ids_of_def)

lemma watch_write_ids:
  assumes "watch_write s s'"
  shows "verdict_ids s' = verdict_ids s \<and> started_ids s' = started_ids s"
  using assms
proof (cases rule: watch_write.cases)
  case (fact f)
  then show ?thesis by (cases "gf_fact f") (simp_all add: verdict_ids_of_def started_ids_of_def)
next
  case builds
  then show ?thesis by (simp add: verdict_ids_def started_ids_def)
next
  case (picture a latest p reading stack)
  with picture_turn_store [of a latest p reading stack s] show ?thesis
    by (auto simp: verdict_ids_def started_ids_def)
qed

subsection \<open>Runs, slots and facts\<close>

text \<open>The objects, the two maps into them and the facts agree: a run plays exactly while it is undecided, in
  its own slot, and it is decided exactly when a fact tells its verdict.\<close>

definition heap_ok :: "canaries \<Rightarrow> bool" where
  "heap_ok c \<longleftrightarrow> distinct (map rn_matchId (cn_heap c)) \<and>
     (\<forall>m i. map_of (cn_runs c) m = Some i \<longleftrightarrow> i < length (cn_heap c) \<and> rn_matchId (cn_heap c ! i) = m)"

definition slots_ok :: "canaries \<Rightarrow> bool" where
  "slots_ok c \<longleftrightarrow>
     (\<forall>slot i. map_of (cn_running c) slot = Some i \<longleftrightarrow>
        i < length (cn_heap c) \<and> slot_of (cn_heap c ! i) = slot \<and> rn_finishedAt (cn_heap c ! i) = None)"

definition facts_ok :: "canaries \<Rightarrow> bool" where
  "facts_ok c \<longleftrightarrow> distinct (verdict_ids (cn_store c)) \<and>
     set (verdict_ids (cn_store c)) \<subseteq> set (started_ids (cn_store c)) \<and>
     (\<forall>r \<in> set (cn_heap c). rn_matchId r \<in> set (started_ids (cn_store c)) \<and>
        (rn_finishedAt r \<noteq> None \<longleftrightarrow> rn_matchId r \<in> set (verdict_ids (cn_store c))))"

definition starting_ok :: "canaries \<Rightarrow> bool" where
  "starting_ok c \<longleftrightarrow> (\<forall>slot \<in> set (cn_starting c). map_of (cn_running c) slot = None)"

definition runs_ok :: "canaries \<Rightarrow> bool" where
  "runs_ok c \<longleftrightarrow> heap_ok c \<and> slots_ok c \<and> facts_ok c \<and> starting_ok c"

lemma same_run_id: "same_run r r' \<Longrightarrow> rn_matchId r' = rn_matchId r"
  by (simp add: same_run_def)

lemma heap_ok_update:
  assumes "heap_ok c" "i < length (cn_heap c)" "same_run (run_at i c) r'"
    "cn_heap c' = (cn_heap c)[i := r']" "cn_runs c' = cn_runs c"
  shows "heap_ok c'"
proof -
  have "map rn_matchId ((cn_heap c)[i := r']) = map rn_matchId (cn_heap c)"
    using assms(2,3) by (simp add: map_update same_run_id run_at_def) (metis length_map list_update_id nth_map)
  moreover from this have "j < length (cn_heap c) \<Longrightarrow> rn_matchId ((cn_heap c)[i := r'] ! j) = rn_matchId (cn_heap c ! j)" for j
    by (metis length_list_update nth_map)
  ultimately show ?thesis using assms(1) unfolding heap_ok_def assms(4,5) by auto
qed

lemma slots_ok_update:
  assumes "slots_ok c" "i < length (cn_heap c)" "same_run (run_at i c) r'"
    "rn_finishedAt r' = rn_finishedAt (run_at i c)" "cn_heap c' = (cn_heap c)[i := r']" "cn_running c' = cn_running c"
  shows "slots_ok c'"
proof -
  have "j < length (cn_heap c) \<Longrightarrow> slot_of ((cn_heap c)[i := r'] ! j) = slot_of (cn_heap c ! j) \<and>
      rn_finishedAt ((cn_heap c)[i := r'] ! j) = rn_finishedAt (cn_heap c ! j)" for j
    using assms(2-4) by (cases "j = i") (simp_all add: same_slot run_at_def)
  with assms(1) show ?thesis unfolding slots_ok_def assms(5,6) by auto
qed

lemma facts_ok_update:
  assumes "facts_ok c" "i < length (cn_heap c)" "same_run (run_at i c) r'"
    "rn_finishedAt r' = rn_finishedAt (run_at i c)" "cn_heap c' = (cn_heap c)[i := r']" "cn_store c' = cn_store c"
  shows "facts_ok c'"
proof -
  have "\<exists>q \<in> set (cn_heap c). rn_matchId r = rn_matchId q \<and> rn_finishedAt r = rn_finishedAt q"
    if "r \<in> set ((cn_heap c)[i := r'])" for r
  proof -
    from that assms(2) obtain j where j: "j < length (cn_heap c)" "r = (cn_heap c)[i := r'] ! j"
      by (auto simp: in_set_conv_nth)
    with assms(2-4) have "rn_matchId r = rn_matchId (cn_heap c ! j) \<and> rn_finishedAt r = rn_finishedAt (cn_heap c ! j)"
      by (cases "j = i") (simp_all add: same_run_id run_at_def)
    with j(1) show ?thesis by (meson nth_mem)
  qed
  with assms(1) show ?thesis unfolding facts_ok_def assms(5,6) by (metis (no_types))
qed

lemma quiet_ok:
  assumes "runs_ok c" "i < length (cn_heap c)" "same_run (run_at i c) r'"
    "rn_finishedAt r' = rn_finishedAt (run_at i c)" "cn_heap c' = (cn_heap c)[i := r']" "frame_but_run c c'"
  shows "runs_ok c'"
  using assms unfolding runs_ok_def frame_but_run_def
  by (simp add: heap_ok_update [of c i r' c'] slots_ok_update [of c i r' c'] facts_ok_update [of c i r' c'] starting_ok_def)

lemma other_runs:
  assumes "heap_ok c" "i < length (cn_heap c)" "j < length (cn_heap c)" "i \<noteq> j"
  shows "rn_matchId (cn_heap c ! i) \<noteq> rn_matchId (cn_heap c ! j)"
  using assms by (auto simp: heap_ok_def distinct_conv_nth)

lemma decided_ok:
  assumes ok: "runs_ok c" and i: "i < length (cn_heap c)" and u: "rn_finishedAt (run_at i c) = None"
    and h: "cn_heap c' = (cn_heap c)[i := decided_run at green reason (run_at i c)]"
    and run: "cn_running c' = map_delete (slot_of (run_at i c)) (cn_running c)"
    and s: "cn_store c' = writePicture (run_at i c) v at (appendFact (verdict_row at green reason (run_at i c)) (cn_store c))"
    and f: "cn_runs c' = cn_runs c" "cn_starting c' = cn_starting c"
  shows "runs_ok c'"
proof -
  let ?r = "run_at i c" and ?d = "decided_run at green reason (run_at i c)"
  have d: "same_run ?r ?d" "rn_finishedAt ?d = Some at" "slot_of ?d = slot_of ?r" "rn_matchId ?d = rn_matchId ?r"
    by (simp_all add: decided_run_def same_run_def slot_of_def)
  have at: "cn_heap c ! i = ?r" by (simp add: run_at_def)
  have new: "rn_matchId ?r \<notin> set (verdict_ids (cn_store c))"
    using ok u nth_mem [OF i] unfolding runs_ok_def facts_ok_def run_at_def by blast
  have "heap_ok c'" using ok by (intro heap_ok_update [OF _ i d(1) h f(1)]) (simp add: runs_ok_def)
  moreover have "slots_ok c'" unfolding slots_ok_def
  proof (intro allI)
    fix slot j
    have old: "map_of (cn_running c) slot = Some j \<longleftrightarrow>
        j < length (cn_heap c) \<and> slot_of (cn_heap c ! j) = slot \<and> rn_finishedAt (cn_heap c ! j) = None" for slot j
      using ok by (simp add: runs_ok_def slots_ok_def)
    have mine: "map_of (cn_running c) (slot_of ?r) = Some i" using i u by (simp add: old run_at_def)
    show "map_of (cn_running c') slot = Some j \<longleftrightarrow>
      j < length (cn_heap c') \<and> slot_of (cn_heap c' ! j) = slot \<and> rn_finishedAt (cn_heap c' ! j) = None"
    proof (cases "j = i")
      case True
      with d i show ?thesis using old [of slot i] by (auto simp: h run at)
    next
      case False
      with i show ?thesis using old [of slot j] mine by (auto simp: h run)
    qed
  qed
  moreover have "facts_ok c'"
  proof -
    have "rn_matchId r \<in> set (started_ids (cn_store c)) \<and>
        (rn_finishedAt r \<noteq> None \<longleftrightarrow> rn_matchId r \<in> insert (rn_matchId ?r) (set (verdict_ids (cn_store c))))"
      if "r \<in> set (cn_heap c')" for r
    proof -
      from that obtain j where j: "j < length (cn_heap c)" "r = cn_heap c' ! j"
        by (auto simp: in_set_conv_nth h)
      have old: "rn_matchId (cn_heap c ! k) \<in> set (started_ids (cn_store c))"
        "rn_finishedAt (cn_heap c ! k) \<noteq> None \<longleftrightarrow> rn_matchId (cn_heap c ! k) \<in> set (verdict_ids (cn_store c))"
        if "k < length (cn_heap c)" for k
        using ok that by (auto simp: runs_ok_def facts_ok_def)
      show ?thesis
      proof (cases "j = i")
        case True
        with i j old(1) [OF i] show ?thesis by (simp add: h d at)
      next
        case False
        with j have "r = cn_heap c ! j" by (simp add: h)
        with other_runs [OF _ j(1) i False] old [OF j(1)] ok at show ?thesis by (simp add: runs_ok_def)
      qed
    qed
    then show ?thesis using ok new i
      by (auto simp: facts_ok_def runs_ok_def s run_at_def)
  qed
  moreover have "starting_ok c'" using ok by (simp add: runs_ok_def starting_ok_def f run)
  ultimately show ?thesis by (simp add: runs_ok_def)
qed

lemma run_step_ok: "run_step e at i c c' \<Longrightarrow> i < length (cn_heap c) \<Longrightarrow> runs_ok c \<Longrightarrow> runs_ok c'"
  unfolding run_step_def
proof (elim conjE, erule stride.cases)
  fix r' assume "i < length (cn_heap c)" "runs_ok c" "reading (run_at i c) r'" "cn_heap c' = (cn_heap c)[i := r']" "frame_but_run c c'"
  then show "runs_ok c'" by (intro quiet_ok [of c i r' c']) (simp_all add: reading_def)
next
  let ?r = "run_at i c"
  assume "i < length (cn_heap c)" "runs_ok c" "frame_but_run c c'"
    "cn_heap c' = (cn_heap c)[i := ?r\<lparr>rn_unpauses := rn_unpauses ?r + 1, rn_unpausedAt := Some at\<rparr>]"
  then show "runs_ok c'" by (intro quiet_ok [of c i _ c']) (simp_all add: same_run_def)
next
  fix r' assume "i < length (cn_heap c)" "runs_ok c" "same_run (run_at i c) r'"
    "rn_finishedAt r' = rn_finishedAt (run_at i c)" "cn_heap c' = (cn_heap c)[i := r']" "frame_but_run c c'"
  then show "runs_ok c'" by (intro quiet_ok [of c i r' c'])
qed (rule decided_ok)

lemma run_steps_keep:
  assumes "(run_step e at i)\<^sup>*\<^sup>* c c'" "i < length (cn_heap c)" "P c"
    and step: "\<And>c c'. run_step e at i c c' \<Longrightarrow> i < length (cn_heap c) \<Longrightarrow> P c \<Longrightarrow> P c'"
  shows "P c' \<and> length (cn_heap c') = length (cn_heap c)"
  using assms(1)
proof (induction rule: rtranclp_induct)
  case (step c1 c2)
  then have "length (cn_heap c2) = length (cn_heap c1)" by (auto simp: run_step_def dest: stride_length)
  with step assms(2) assms(4) [of c1 c2] show ?case by simp
qed (simp add: assms(3))

lemma run_steps_ok: "(run_step e at i)\<^sup>*\<^sup>* c c' \<Longrightarrow> i < length (cn_heap c) \<Longrightarrow> runs_ok c \<Longrightarrow> runs_ok c'"
  using run_steps_keep [of e at i c c' runs_ok] run_step_ok by blast

lemma look_ok: "runs_ok c \<Longrightarrow> map_of (cn_running c) slot = Some i \<Longrightarrow> runs_ok (look e a i c)"
  using run_steps_ok [OF look_steps, of i c e a] by (auto simp: runs_ok_def slots_ok_def run_at_def)

lemma added_ok:
  assumes ok: "runs_ok c" and u: "rn_finishedAt r = None" and free: "map_of (cn_running c) (slot_of r) = None"
    and new: "rn_matchId r \<notin> rn_matchId ` set (cn_heap c)"
    and h: "cn_heap c' = cn_heap c @ [r]" and runs: "cn_runs c' = map_set (rn_matchId r) (length (cn_heap c)) (cn_runs c)"
    and running: "cn_running c' = map_set (slot_of r) (length (cn_heap c)) (cn_running c)"
    and starting: "set (cn_starting c') \<subseteq> {x \<in> set (cn_starting c). x \<noteq> slot_of r}"
    and v: "verdict_ids (cn_store c') = verdict_ids (cn_store c)" "rn_matchId r \<notin> set (verdict_ids (cn_store c))"
    and st: "insert (rn_matchId r) (set (started_ids (cn_store c))) \<subseteq> set (started_ids (cn_store c'))"
  shows "runs_ok c'"
proof -
  have heap: "distinct (map rn_matchId (cn_heap c))"
    "map_of (cn_runs c) m = Some i \<longleftrightarrow> i < length (cn_heap c) \<and> rn_matchId (cn_heap c ! i) = m" for m i
    using ok by (simp_all add: runs_ok_def heap_ok_def)
  have other: "rn_matchId (cn_heap c ! i) \<noteq> rn_matchId r" if "i < length (cn_heap c)" for i
    using new that by (metis image_eqI nth_mem)
  have "heap_ok c'" unfolding heap_ok_def h runs
    using heap new other by (auto simp: nth_append less_Suc_eq)
  moreover have "slots_ok c'"
  proof -
    have old: "map_of (cn_running c) slot = Some i \<longleftrightarrow>
        i < length (cn_heap c) \<and> slot_of (cn_heap c ! i) = slot \<and> rn_finishedAt (cn_heap c ! i) = None" for slot i
      using ok by (simp add: runs_ok_def slots_ok_def)
    have "rn_finishedAt (cn_heap c ! i) \<noteq> None" if "i < length (cn_heap c)" "slot_of (cn_heap c ! i) = slot_of r" for i
      using old [of "slot_of r" i] that free by simp
    then show ?thesis unfolding slots_ok_def h running using u by (auto simp: old nth_append less_Suc_eq)
  qed
  moreover have "facts_ok c'" using ok u v st by (auto simp: runs_ok_def facts_ok_def h)
  moreover have "starting_ok c'" using ok starting by (auto simp: runs_ok_def starting_ok_def running)
  ultimately show ?thesis by (simp add: runs_ok_def)
qed

lemma ensured_ok: "ensureKey e at c = (x, c') \<Longrightarrow> runs_ok c \<Longrightarrow> runs_ok c'"
  using ensureKey_frame [of e at c x c']
  by (simp add: runs_ok_def heap_ok_def slots_ok_def facts_ok_def starting_ok_def)

lemma fewer_starts_ok:
  assumes "runs_ok c" "cn_heap c' = cn_heap c" "cn_runs c' = cn_runs c" "cn_running c' = cn_running c"
    "cn_store c' = cn_store c" "set (cn_starting c') \<subseteq> set (cn_starting c)"
  shows "runs_ok c'"
  using assms by (auto simp: runs_ok_def heap_ok_def slots_ok_def facts_ok_def starting_ok_def)

lemma fresh_run_simps [simp]:
  "slot_of (fresh_run p b hud n m cause at why) = run_key p b hud" "rn_matchId (fresh_run p b hud n m cause at why) = m"
  "rn_finishedAt (fresh_run p b hud n m cause at why) = None" "rn_unpauses (fresh_run p b hud n m cause at why) = 0"
  "rn_asks (fresh_run p b hud n m cause at why) = 0" "rn_unpausedAt (fresh_run p b hud n m cause at why) = None"
  by (simp_all add: fresh_run_def slot_of_def)

lemma play_open_ok: "runs_ok c \<Longrightarrow> runs_ok (snd (play_open e p hud build c))"
  by (auto simp: play_open_def Let_def runs_ok_def heap_ok_def slots_ok_def facts_ok_def starting_ok_def
      split: option.split)

text \<open>A second half that runs has its slot; the match it is given is a new one.\<close>

definition unused_match :: "ident \<Rightarrow> canaries \<Rightarrow> bool" where
  "unused_match m c \<longleftrightarrow> m \<notin> set (started_ids (cn_store c)) \<and> m \<notin> rn_matchId ` set (cn_heap c)"

lemma play_create_ok:
  assumes ok: "runs_ok c" and mine: "run_key p b hud \<in> set (cn_starting c)"
    and fresh: "\<And>request m. created request = Inr m \<Longrightarrow> m \<notin> set (started_ids (cn_store c))"
  shows "runs_ok (snd (play_create e at p b hud cause created c))"
proof -
  obtain x c1 where k: "ensureKey e at c = (x, c1)" by force
  note f = ensureKey_frame [OF k]
  have ok1: "runs_ok c1" by (rule ensured_ok [OF k ok])
  have ended: "runs_ok (end_start slot (called y c1))" "runs_ok (end_start slot c1)" for slot y
    by (rule fewer_starts_ok [OF ok1], auto simp: end_start_def)+
  show ?thesis
  proof (cases x)
    case (Inl err) with k ended show ?thesis by (simp add: play_create_def)
  next
    case (Inr key)
    define n where "n = started_before p b hud (cn_store c1) + 1"
    define request where "request = canaryRequest p b hud n"
    show ?thesis
    proof (cases "created request")
      case (Inl err)
      with Inr k ended show ?thesis by (simp add: play_create_def Let_def n_def request_def)
    next
      case (Inr m)
      let ?r = "fresh_run p b hud n m cause at
        (Some (''a canary is playing (attempt '' @ decimal_nat n @ '', since '' @ isoString at @ '')''))"
      let ?c = "snd (play_create e at p b hud cause created c)"
      have c: "?c = end_start (run_key p b hud) (let c3 = add_run ?r (called (Call_create request hud) c1)
          in c3\<lparr>cn_store := write_waiting ?r at (appendFact \<lparr>gf_at = at, gf_build = Some b,
               gf_fact = Game_canary_started p b hud n m cause at\<rparr> (cn_store c3))\<rparr>)"
        using k \<open>x = Inr key\<close> Inr unfolding play_create_def
        by (simp only: prod.case sum.case Let_def n_def [symmetric] request_def [symmetric] snd_conv)
      have m: "m \<notin> set (started_ids (cn_store c1))" using fresh [OF Inr] f by simp
      then have m': "m \<notin> set (verdict_ids (cn_store c1))" "m \<notin> rn_matchId ` set (cn_heap c1)"
        using ok1 unfolding runs_ok_def facts_ok_def by blast+
      show ?thesis
      proof (rule added_ok [OF ok1, of ?r])
        show "map_of (cn_running c1) (slot_of ?r) = None"
          using ok mine f by (simp add: runs_ok_def starting_ok_def)
      qed (use m m' in \<open>auto simp: c add_run_def end_start_def Let_def verdict_ids_of_def started_ids_of_def\<close>)
    qed
  qed
qed

lemma pick_up_ok:
  assumes "runs_ok c" "set (verdict_ids (cn_store c)) \<subseteq> set decided" "row \<in> set (gs_facts (cn_store c))" "cn_starting c = []"
  shows "runs_ok (pick_up decided row c) \<and> cn_store (pick_up decided row c) = cn_store c \<and>
    cn_starting (pick_up decided row c) = []"
proof (cases "gf_fact row")
  case (Game_canary_started p b hud n m cause at)
  have m: "m \<in> set (started_ids (cn_store c))" using assms(3) Game_canary_started
    by (force simp: started_ids_def started_ids_of_def)
  show ?thesis
  proof (cases "m \<in> set decided \<or> map_of (cn_runs c) m \<noteq> None \<or> map_of (cn_running c) (run_key p b hud) \<noteq> None")
    case True
    then have "pick_up decided row c = c" unfolding pick_up_def Game_canary_started game_fact.case by (simp only: if_True)
    with assms(1,4) show ?thesis by simp
  next
    case False
    let ?r = "fresh_run p b hud n m cause at None"
    have eq: "pick_up decided row c = add_run ?r c"
      unfolding pick_up_def Game_canary_started game_fact.case using False by (simp only: if_False)
    have "m \<notin> rn_matchId ` set (cn_heap c)"
      using False assms(1) unfolding runs_ok_def heap_ok_def
      by (metis (no_types) image_iff in_set_conv_nth option.distinct(1))
    then have "runs_ok (add_run ?r c)"
      by (intro added_ok [OF assms(1), of ?r]) (use False assms m in \<open>auto simp: add_run_def\<close>)
    with eq assms(4) show ?thesis by (simp add: add_run_def)
  qed
qed (use assms in \<open>simp_all add: pick_up_def\<close>)

lemma pick_ups_ok:
  assumes "runs_ok c" "set (verdict_ids (cn_store c)) \<subseteq> set decided" "set rows \<subseteq> set (gs_facts (cn_store c))" "cn_starting c = []"
  shows "runs_ok (fold (pick_up decided) rows c)"
  using assms
proof (induction rows arbitrary: c)
  case (Cons row rows)
  with pick_up_ok [of c decided row] show ?case by simp
qed simp

lemma listFacts_subset: "set (listFacts n ty s) \<subseteq> set (gs_facts s)"
proof -
  have "set (take n xs) \<subseteq> set xs" for n and xs :: "game_fact_row list" by (rule set_take_subset)
  then show ?thesis unfolding listFacts_def by (rule order_trans) auto
qed

text \<open>With no more than 200 verdicts on the table, the ones read at a start are all of them.\<close>

lemma decided_matches_all:
  assumes "length (filter (\<lambda>row. type_of_fact (gf_fact row) = Ft_canary_verdict) (gs_facts s)) \<le> 200"
  shows "set (verdict_ids s) \<subseteq> set (decided_matches s)"
proof
  fix m assume "m \<in> set (verdict_ids s)"
  then obtain row where row: "row \<in> set (gs_facts s)" "m \<in> set (verdict_ids_of row)" by (auto simp: verdict_ids_def)
  then have ty: "type_of_fact (gf_fact row) = Ft_canary_verdict"
    by (cases "gf_fact row") (simp_all add: verdict_ids_of_def)
  have "listFacts 200 (Some Ft_canary_verdict) s = sort_key (\<lambda>r. - gf_at r)
      (rev (filter (\<lambda>r. type_of_fact (gf_fact r) = Ft_canary_verdict) (gs_facts s)))"
    using assms by (simp add: listFacts_def eq_commute [of Ft_canary_verdict])
  with row ty have "row \<in> set (listFacts 200 (Some Ft_canary_verdict) s)" by simp
  then show "m \<in> set (decided_matches s)" unfolding decided_matches_def set_map
    by (rule image_eqI [rotated]) (use row(2) in \<open>cases "gf_fact row"; simp add: verdict_ids_of_def\<close>)
qed

lemma start_ok:
  assumes "runs_ok c" "cn_starting c = []"
    "length (filter (\<lambda>row. type_of_fact (gf_fact row) = Ft_canary_verdict) (gs_facts (cn_store c))) \<le> 200"
  shows "runs_ok (start e at c)"
proof -
  obtain x c1 where k: "ensureKey e at c = (x, c1)" by force
  note f = ensureKey_frame [OF k]
  have "runs_ok c1" by (rule ensured_ok [OF k assms(1)])
  moreover have "set (verdict_ids (cn_store c1)) \<subseteq> set (decided_matches (cn_store c1))"
    using decided_matches_all assms(3) f by simp
  ultimately show ?thesis
    using pick_ups_ok [of c1] listFacts_subset assms(2) f by (simp add: start_def k split: sum.split)
qed

end
