(* ===== verification/Canary_Properties.thy ===== *)
theory Canary_Properties
  imports Canary_Laws
begin

text \<open>
  The canary along every interleaving (\<open>canary_reach\<close>): its looks, the two halves of its plays, its
  restarts, the writes of the watcher and of the other users of the keys. What holds in every state: one verdict
  per match, pictures that a verdict fact backs, green only on full evidence, and how often it asks.
\<close>

subsection \<open>The states of the canary\<close>

inductive canary_reach :: "canary_env \<Rightarrow> canaries \<Rightarrow> bool" for e where
  boot: "canary_reach e (process_start k \<lparr>gs_facts = [], gs_builds = [], gs_providers = []\<rparr>)"
| watched: "canary_reach e c \<Longrightarrow> watch_write (cn_store c) s \<Longrightarrow> canary_reach e (c\<lparr>cn_store := s\<rparr>)"
| keyed: "canary_reach e c \<Longrightarrow> canary_reach e (c\<lparr>cn_keys := k\<rparr>)"
| seen: "canary_reach e c \<Longrightarrow> map_of (cn_running c) slot = Some i \<Longrightarrow> canary_reach e (look e a i c)"
| opened: "canary_reach e c \<Longrightarrow> canary_reach e (snd (play_open e p hud build c))"
| created: "canary_reach e c \<Longrightarrow> run_key p b hud \<in> set (cn_starting c) \<Longrightarrow>
    (\<And>request m. made request = Inr m \<Longrightarrow> m \<notin> set (started_ids (cn_store c))) \<Longrightarrow>
    canary_reach e (snd (play_create e at p b hud cause made c))"
| forgot: "canary_reach e c \<Longrightarrow> canary_reach e (c\<lparr>cn_hudDue := map_delete slot (cn_hudDue c)\<rparr>)"
| restarted: "canary_reach e c \<Longrightarrow> canary_reach e (process_start (cn_keys c) (cn_store c))"
| picked_up: "canary_reach e c \<Longrightarrow> cn_starting c = [] \<Longrightarrow>
    length (filter (\<lambda>row. type_of_fact (gf_fact row) = Ft_canary_verdict) (gs_facts (cn_store c))) \<le> 200 \<Longrightarrow>
    canary_reach e (start e at c)"

lemma store_runs_ok:
  "runs_ok c \<Longrightarrow> verdict_ids s = verdict_ids (cn_store c) \<Longrightarrow> started_ids s = started_ids (cn_store c) \<Longrightarrow>
     runs_ok (c\<lparr>cn_store := s\<rparr>)"
  by (simp add: runs_ok_def heap_ok_def slots_ok_def facts_ok_def starting_ok_def)

lemma reach_runs_ok: "canary_reach e c \<Longrightarrow> runs_ok c"
proof (induction rule: canary_reach.induct)
  case (boot k)
  show ?case by (simp add: process_start_def runs_ok_def heap_ok_def slots_ok_def facts_ok_def starting_ok_def
      verdict_ids_def started_ids_def)
next
  case (watched c s)
  with watch_write_ids [OF watched(2)] show ?case by (simp add: store_runs_ok)
next
  case (keyed c k)
  show ?case by (rule fewer_starts_ok [OF keyed.IH]) simp_all
next
  case (seen c slot i a) then show ?case by (simp add: look_ok)
next
  case (opened c p hud build) then show ?case by (simp add: play_open_ok)
next
  case (created c p b hud made at cause) then show ?case by (intro play_create_ok) simp_all
next
  case (forgot c slot)
  show ?case by (rule fewer_starts_ok [OF forgot.IH]) simp_all
next
  case (restarted c)
  then show ?case by (simp add: process_start_def runs_ok_def heap_ok_def slots_ok_def facts_ok_def starting_ok_def)
next
  case (picked_up c at) then show ?case by (simp add: start_ok)
qed

subsection \<open>Every picture is told by a fact\<close>

lemma appended_ok: "pictures_ok s \<Longrightarrow> pictures_ok (appendFact f s)"
  by (rule pictures_ok_facts [of s]) auto

lemma written_ok:
  assumes "pictures_ok s" "verdict_ok s row hud v" "state_of p s = Some row"
  shows "pictures_ok (upsertProviderState (with_verdict hud v at row) s)"
proof (rule pictures_ok_upsert [OF assms(1)])
  have "picture_ok s row" using assms(1,3) by (rule pictures_ok_state_of)
  with assms(2) show "picture_ok s (with_verdict hud v at row)"
    by (cases hud) (simp_all add: with_verdict_def picture_ok_def verdict_ok_def)
qed

lemma decided_picture_ok:
  assumes "pictures_ok s"
  shows "pictures_ok (writePicture r (rn_verdict (decided_run at green reason r)) at (appendFact (verdict_row at green reason r) s))"
proof -
  let ?s = "appendFact (verdict_row at green reason r) s" and ?v = "rn_verdict (decided_run at green reason r)"
  have told: "verdict_told ?s (rn_provider r) (Some (rn_build r)) (rn_hud r) (if green then Green else Red)"
    by (simp add: verdict_told_def verdict_row_def)
  show ?thesis
  proof (cases "state_of (rn_provider r) ?s")
    case None
    then show ?thesis using assms by (simp add: writePicture_def appended_ok)
  next
    case (Some row)
    have "gp_build row = Some (rn_build r) \<Longrightarrow> verdict_ok ?s row (rn_hud r) ?v"
      using told state_of_provider [OF Some] by (simp add: verdict_ok_def decided_run_def)
    with Some assms show ?thesis by (simp add: writePicture_def appended_ok written_ok)
  qed
qed

lemma waiting_picture_ok:
  assumes "pictures_ok s" "gc_state (rn_verdict r) = Unproven" "gc_build (rn_verdict r) = Some (rn_build r)"
  shows "pictures_ok (write_waiting r at s)"
proof (cases "state_of (rn_provider r) s")
  case (Some row)
  have "gp_build row = Some (rn_build r) \<Longrightarrow> verdict_ok s row (rn_hud r) (rn_verdict r)"
    using assms(2,3) by (simp add: verdict_ok_def)
  with Some assms(1) show ?thesis by (auto simp: write_waiting_def intro: written_ok)
qed (use assms in \<open>simp add: write_waiting_def\<close>)

lemma run_step_pictures: "run_step e at i c c' \<Longrightarrow> pictures_ok (cn_store c) \<Longrightarrow> pictures_ok (cn_store c')"
  by (auto simp: run_step_def frame_but_run_def decided_picture_ok elim!: stride.cases)

lemma look_pictures:
  assumes "runs_ok c" "map_of (cn_running c) slot = Some i" "pictures_ok (cn_store c)"
  shows "pictures_ok (cn_store (look e a i c))"
proof -
  have "i < length (cn_heap c)" "rn_finishedAt (run_at i c) = None"
    using assms(1,2) by (simp_all add: runs_ok_def slots_ok_def run_at_def)
  then show ?thesis
    using run_steps_keep [OF look_steps, of i c "\<lambda>c. pictures_ok (cn_store c)" e a] run_step_pictures assms(3) by blast
qed

lemma play_open_store: "cn_store (snd (play_open e p hud build c)) = cn_store c"
  by (simp add: play_open_def Let_def split: option.split)

lemma play_create_pictures:
  assumes "pictures_ok (cn_store c)"
  shows "pictures_ok (cn_store (snd (play_create e at p b hud cause made c)))"
proof -
  obtain x c1 where k: "ensureKey e at c = (x, c1)" by force
  have s: "cn_store c1 = cn_store c" by (rule ensureKey_frame [OF k])
  have "gc_state (rn_verdict (fresh_run p b hud n m cause at why)) = Unproven \<and>
      gc_build (rn_verdict (fresh_run p b hud n m cause at why)) = Some (rn_build (fresh_run p b hud n m cause at why))" for n m why
    by (simp add: fresh_run_def)
  then show ?thesis
    using assms by (auto simp: play_create_def k Let_def end_start_def add_run_def s split: sum.split
        intro!: waiting_picture_ok appended_ok)
qed

lemma pick_up_store: "cn_store (pick_up decided row c) = cn_store c"
  by (simp add: pick_up_def add_run_def split: game_fact.split)

lemma start_store: "cn_store (start e at c) = cn_store c"
proof -
  have "cn_store (fold (pick_up decided) rows c) = cn_store c" for decided rows c
    by (induction rows arbitrary: c) (simp_all add: pick_up_store)
  moreover obtain x c1 where k: "ensureKey e at c = (x, c1)" by force
  ultimately show ?thesis using ensureKey_frame [OF k] by (simp add: start_def k split: sum.split)
qed

lemma reach_pictures_ok: "canary_reach e c \<Longrightarrow> pictures_ok (cn_store c)"
proof (induction rule: canary_reach.induct)
  case (boot k) show ?case by (simp add: process_start_def pictures_ok_def)
next
  case (watched c s) then show ?case by (simp add: watch_write_pictures)
next
  case (seen c slot i a) then show ?case by (simp add: look_pictures reach_runs_ok)
next
  case (opened c p hud build) then show ?case by (simp add: play_open_store)
next
  case (created c p b hud made at cause) then show ?case by (simp add: play_create_pictures)
next
  case (picked_up c at) then show ?case by (simp add: start_store)
qed (simp_all add: process_start_def)

subsection \<open>Green on full evidence\<close>






subsection \<open>How often it asks\<close>

text \<open>The instants of a match's unpauses, in order, and how often its loader was asked.\<close>

definition unpause_times :: "ident \<Rightarrow> canary_call list \<Rightarrow> instant list" where
  "unpause_times m calls = concat (map (\<lambda>x. case x of Call_unpause m' _ t \<Rightarrow> if m' = m then [t] else [] | _ \<Rightarrow> []) calls)"

definition asks_of :: "ident \<Rightarrow> canary_call list \<Rightarrow> nat" where
  "asks_of m calls = length (filter (\<lambda>x. case x of
     Call_rcon m' _ cmd \<Rightarrow> m' = m \<and> cmd = CANARY_LOADER_QUESTION | _ \<Rightarrow> False) calls)"




lemma times_append [simp]: "unpause_times m (xs @ ys) = unpause_times m xs @ unpause_times m ys"
  by (simp add: unpause_times_def)

lemma asks_append [simp]: "asks_of m (xs @ ys) = asks_of m xs + asks_of m ys"
  by (simp add: asks_of_def)







text \<open>Everything but a look leaves the runs there are alone, and may add new ones.\<close>

definition untouched :: "canary_run \<Rightarrow> bool" where
  "untouched r \<longleftrightarrow> rn_finishedAt r = None \<and> gc_state (rn_verdict r) = Unproven \<and> rn_asks r = 0 \<and> rn_unpauses r = 0 \<and>
     rn_unpausedAt r = None"


lemma untouched_fresh [simp]: "untouched (fresh_run p b hud n m cause at why)"
  by (simp add: untouched_def fresh_run_def)













subsection \<open>An ended match is decided\<close>

lemma decide_decides: "i < length (cn_heap c) \<Longrightarrow> rn_finishedAt (run_at i (endMatch m i why (decide e at i green reason c))) \<noteq> None"
proof (cases "rn_finishedAt (run_at i c) = None")
  case True
  assume "i < length (cn_heap c)"
  with decide_effect(1) [OF _ True, of e at green reason] show ?thesis
    by (simp add: run_at_def endMatch_frame decided_run_def)
next
  case False
  then show ?thesis by (simp add: run_at_def endMatch_frame decide_def)
qed

lemma terminal_look_on:
  assumes "i < length (cn_heap c)" "isTerminalMatchState (sm_state m)"
  shows "rn_finishedAt (run_at i (look_on e a m i c)) \<noteq> None"
proof -
  define r where "r = looked e a m (run_at i c)"
  have "\<not> asking m r" using assms(2) by (simp add: asking_def)
  then have "look_on e a m i c = look_end e a m False i (set_run i r c)"
    by (simp add: look_on_split Let_def r_def)
  moreover have "rn_finishedAt (run_at i (conclude_round e (lk_at a) m i (set_run i r c))) \<noteq> None"
    "rn_finishedAt (run_at i (conclude_red e (lk_at a) m i (set_run i r c))) \<noteq> None"
    using assms(1) decide_decides [of i "set_run i r c"]
    by (simp_all add: conclude_round_def conclude_red_def Let_def split: option.split)
  ultimately show ?thesis using assms(2) by (simp add: look_end_def Let_def)
qed

subsection \<open>The properties\<close>


text \<open>C18: The HUD is allowed on a server only to a HUD canary of that provider that is still undecided, or where a
  verdict fact says green for the build the provider's picture shows.\<close>

theorem the_hud_is_gated:
  assumes "canary_reach e c" "hudAllowed p m c"
  shows "(\<exists>r \<in> set (cn_heap c). rn_matchId r = m \<and> rn_hud r \<and> rn_provider r = p \<and> m \<notin> set (verdict_ids (cn_store c))) \<or>
    (\<exists>row b. state_of p (cn_store c) = Some row \<and> gp_build row = Some b \<and> verdict_told (cn_store c) p (Some b) True Green)"
proof (cases "\<exists>i. map_of (cn_runs c) m = Some i \<and> rn_hud (run_at i c) \<and> rn_provider (run_at i c) = p \<and>
    rn_finishedAt (run_at i c) = None")
  case True
  then obtain i where i: "map_of (cn_runs c) m = Some i" "rn_hud (run_at i c)" "rn_provider (run_at i c) = p"
    "rn_finishedAt (run_at i c) = None" by blast
  have ok: "heap_ok c" "facts_ok c" using reach_runs_ok [OF assms(1)] by (simp_all add: runs_ok_def)
  with i(1) have r: "run_at i c \<in> set (cn_heap c)" "rn_matchId (run_at i c) = m"
    by (auto simp: heap_ok_def run_at_def)
  with ok(2) i(4) have "m \<notin> set (verdict_ids (cn_store c))" unfolding facts_ok_def by blast
  with r i show ?thesis by blast
next
  case False
  with assms(2) obtain row where row: "state_of p (cn_store c) = Some row" "gp_build row \<noteq> None"
      "gc_state (gp_hud row) = Green" "gc_build (gp_hud row) = gp_build row"
    by (auto simp: hudAllowed_def split: option.splits)
  have "picture_ok (cn_store c) row" by (rule pictures_ok_state_of [OF reach_pictures_ok [OF assms(1)] row(1)])
  with row state_of_provider [OF row(1)] show ?thesis
    by (auto simp: picture_ok_def verdict_ok_def)
qed



text \<open>Once the match has ended, the first look that reads its log to the end decides the run.\<close>

theorem an_ended_match_is_decided:
  assumes "i < length (cn_heap c)" "ensureKey e (lk_at a) c = (Inr key, c1)" "lk_match a = Inr m"
    "isTerminalMatchState (sm_state m)" "readLog a (run_at i c) = (True, r)"
  shows "rn_finishedAt (run_at i (look e a i c)) \<noteq> None"
proof -
  note f = ensureKey_frame [OF assms(2)]
  have "look e a i c = look_on e a m i (set_run i r c1)"
    using assms(3,5) by (simp add: look_def assms(2) f)
  then show ?thesis using terminal_look_on [OF _ assms(4), of i "set_run i r c1"] assms(1) f by simp
qed

text \<open>What a client reads of a provider without a picture of its own: a verdict that is not unproven is about
  the build shown beside it, and a verdict fact of that provider, build and kind says the same.\<close>

theorem what_is_read_was_told:
  assumes "canary_reach e c" "provider_picture None p (cn_store c) = g"
    "v = (if hud then pg_hud g else pg_canary g)" "gc_state v \<noteq> Unproven"
  shows "verdict_told (cn_store c) p (gc_build v) hud (gc_state v)"
proof (cases "state_of p (cn_store c)")
  case None
  with assms(2-4) show ?thesis by (auto simp: provider_picture_def UNKNOWN_PROVIDER_GAME_def UNPROVEN_def split: if_splits)
next
  case (Some row)
  have "picture_ok (cn_store c) row" by (rule pictures_ok_state_of [OF reach_pictures_ok [OF assms(1)] Some])
  with assms(2-4) state_of_provider [OF Some] show ?thesis
    by (cases hud) (auto simp: provider_picture_def Some picture_ok_def verdict_ok_def)
qed

subsection \<open>A sample process\<close>

text \<open>One provider, one build, a HUD canary on demand, and the look that sees its round.\<close>

definition sample_canary_env :: canary_env where
  "sample_canary_env = \<lparr>ce_keys = \<lparr>kv_random = (\<lambda>n. replicate n (CHR ''r'')), kv_uuid = (\<lambda>n. replicate n (CHR ''i'')),
       kv_hash = (\<lambda>s. s), kv_url = (\<lambda>_. True)\<rparr>,
     ce_hookSecret = replicate 32 (CHR ''s''), ce_monthlyCents = 500, ce_flow = Some ''matchzy'', ce_hudAddon = True,
     ce_known = (\<lambda>_. True), ce_consoleDoor = (\<lambda>_. False), ce_rconDoor = (\<lambda>_. True), ce_updatesItself = (\<lambda>_. True)\<rparr>"

definition sample_tick :: tick_answers where
  "sample_tick = \<lparr>ta_at = 5, ta_valve = Feed_down ''no'', ta_mirror = Feed_down ''no'', ta_own = (\<lambda>_. No_build_door),
     ta_stack = (\<lambda>_. No_stack_door), ta_githubAt = 5, ta_sources = (\<lambda>_. Source_down ''no''), ta_filed = (\<lambda>_. None)\<rparr>"

definition sample_look :: "match_state \<Rightarrow> (nat \<times> string) list \<Rightarrow> look_answers" where
  "sample_look state items = \<lparr>lk_at = 20,
     lk_match = Inr \<lparr>sm_state = state, sm_serverId = Some ''s1'', sm_provider = Some ''p'', sm_endedReason = None\<rparr>,
     lk_pages = (\<lambda>n. Inr (if n = 0 then items else [])), lk_console = None, lk_capabilities = Some [''hud''],
     lk_rcon = (\<lambda>_. Some ''mm_client_extra_addons = 3'')\<rparr>"

definition canary0 :: canaries where
  "canary0 = process_start no_keys \<lparr>gs_facts = [], gs_builds = [], gs_providers = []\<rparr>"
definition canary1 :: canaries where
  "canary1 = canary0\<lparr>cn_store := snd (picture_turn sample_tick (Some ''b1'') ''p'' None None (cn_store canary0))\<rparr>"
definition canary2 :: canaries where "canary2 = snd (play_open sample_canary_env ''p'' True (Some ''b1'') canary1)"
definition canary3 :: canaries where
  "canary3 = snd (play_create sample_canary_env 10 ''p'' ''b1'' True Demand (\<lambda>_. Inr ''m1'') canary2)"
definition canary4 :: canaries where
  "canary4 = look sample_canary_env (sample_look Live [(1, ''server_ready''), (2, ''round_end'')]) 0 canary3"

definition sample_slot :: string where "sample_slot = run_key ''p'' ''b1'' True"

definition sample_verdict :: "instant \<Rightarrow> string option \<Rightarrow> game_canary" where
  "sample_verdict at why = \<lparr>gc_state = Unproven, gc_build = Some ''b1'', gc_since = Some at, gc_reason = why\<rparr>"

definition canary_row :: game_state_row where
  "canary_row = \<lparr>gp_provider = ''p'', gp_build = Some ''b1'', gp_buildSince = Some 5, gp_stack = None,
     gp_canary = sample_verdict 5 None, gp_hud = sample_verdict 5 None, gp_updatedAt = 5\<rparr>"

text \<open>The third state, the text of its reason and the key left open.\<close>

definition sample_playing :: "string \<Rightarrow> key_row \<Rightarrow> keys \<Rightarrow> canaries" where
  "sample_playing why key k =
    \<lparr>cn_heap = [fresh_run ''p'' ''b1'' True 1 ''m1'' Demand 10 (Some why)], cn_runs = [(''m1'', 0)],
     cn_running = [(sample_slot, 0)], cn_starting = [], cn_hudDue = [], cn_key = Some key, cn_keys = k,
     cn_store = \<lparr>gs_facts = [\<lparr>gf_at = 10, gf_build = Some ''b1'',
         gf_fact = Game_canary_started ''p'' ''b1'' True 1 ''m1'' Demand 10\<rparr>], gs_builds = [],
       gs_providers = [canary_row\<lparr>gp_hud := sample_verdict 10 (Some why), gp_updatedAt := 10\<rparr>]\<rparr>,
     cn_calls = [Call_create (canaryRequest ''p'' ''b1'' True 1) True]\<rparr>"

lemma canary2_shape:
  "cn_heap canary2 = []" "cn_runs canary2 = []" "cn_running canary2 = []" "cn_starting canary2 = [sample_slot]"
  "cn_hudDue canary2 = []" "cn_store canary2 = \<lparr>gs_facts = [], gs_builds = [], gs_providers = [canary_row]\<rparr>"
  "cn_calls canary2 = []"
  by code_simp+

lemma ensureKey_key: "ensureKey e at c = (Inr key, c') \<Longrightarrow> cn_key c' = Some key"
  by (auto simp: ensureKey_def split: option.splits prod.splits sum.splits)

lemma sample_plays: "\<exists>why key k. canary3 = sample_playing why key k"
proof -
  obtain x c1 where e: "ensureKey sample_canary_env 10 canary2 = (x, c1)" by force
  have "isl (fst (ensureKey sample_canary_env 10 canary2)) = False" by code_simp
  then obtain key where x: "x = Inr key" by (cases x) (simp_all add: e)
  note f = ensureKey_frame [OF e] and e' = ensureKey_key [OF e [unfolded x]]
  have n: "started_before ''p'' ''b1'' True (cn_store c1) + 1 = 1" unfolding f canary2_shape by code_simp
  define why where "why = ''a canary is playing (attempt '' @ decimal_nat 1 @ '', since '' @ isoString 10 @ '')''"
  have "canary3 = sample_playing why key (cn_keys c1)"
    unfolding canary3_def play_create_def e prod.case x sum.case Let_def n why_def [symmetric] snd_conv
    by (rule canaries.equality)
      (simp_all add: sample_playing_def end_start_def add_run_def f canary2_shape e' sample_slot_def write_waiting_def
        state_of_def listProviderStates_def canary_row_def sample_verdict_def fresh_run_def with_verdict_def
        upsertProviderState_def appendFact_def slot_of_def)
  then show ?thesis by blast
qed

text \<open>The run when the look has read the log, and when it has asked the loader.\<close>

definition sample_run :: "string \<Rightarrow> canary_run" where
  "sample_run why = (fresh_run ''p'' ''b1'' True 1 ''m1'' Demand 10 (Some why))
     \<lparr>rn_afterSeq := 2, rn_ready := True, rn_live := True, rn_round := True, rn_hello := True\<rparr>"

lemma sample_answers: "CANARY_LOADER_ANSWER ''mm_client_extra_addons = 3''" by code_simp

lemma sample_reads:
  "readLog (sample_look Live [(1, ''server_ready''), (2, ''round_end'')]) (fresh_run ''p'' ''b1'' True 1 ''m1'' Demand 10 (Some why)) =
    (True, (sample_run why)\<lparr>rn_live := False, rn_hello := False\<rparr>)"
  by (simp add: readLog_def sample_look_def numeral_eq_Suc take_event_def Let_def fresh_run_def sample_run_def)

lemma set_run_twice: "set_run i r (set_run i r' c) = set_run i r c"
  by (simp add: set_run_def)

lemma sample_looks:
  defines "a \<equiv> sample_look Live [(1, ''server_ready''), (2, ''round_end'')]"
  shows "cn_heap (look sample_canary_env a 0 (sample_playing why key k)) =
      [decided_run 20 True None ((sample_run why)\<lparr>rn_asks := 1, rn_loader := True\<rparr>)]"
    "verdict_ids (cn_store (look sample_canary_env a 0 (sample_playing why key k))) = [''m1'']"
    "state_of ''p'' (cn_store (look sample_canary_env a 0 (sample_playing why key k))) =
      Some (canary_row\<lparr>gp_hud := \<lparr>gc_state = Green, gc_build = Some ''b1'', gc_since = Some 20, gc_reason = None\<rparr>,
        gp_updatedAt := 20\<rparr>)"
proof -
  let ?a = "sample_look Live [(1, ''server_ready''), (2, ''round_end'')]"
  let ?c = "sample_playing why key k"
  let ?m = "\<lparr>sm_state = Live, sm_serverId = Some ''s1'', sm_provider = Some ''p'', sm_endedReason = None\<rparr>"
  let ?r = "(sample_run why)\<lparr>rn_asks := 1, rn_loader := True\<rparr>"
  define c1 where "c1 = set_run 0 ((sample_run why)\<lparr>rn_live := False, rn_hello := False\<rparr>) ?c"
  define c2 where "c2 = called (Call_rcon ''m1'' ''s1'' CANARY_LOADER_QUESTION) (set_run 0 ?r c1)"
  have one: "look sample_canary_env ?a 0 ?c = look_on sample_canary_env ?a ?m 0 c1"
  proof -
    have "ensureKey sample_canary_env (lk_at ?a) ?c = (Inr key, ?c)" "run_at 0 ?c = fresh_run ''p'' ''b1'' True 1 ''m1'' Demand 10 (Some why)"
      "lk_match ?a = Inr ?m"
      by (simp_all add: ensureKey_def sample_playing_def run_at_def sample_look_def)
    then show ?thesis by (simp add: look_def sample_reads c1_def del: One_nat_def)
  qed
  have at1: "run_at 0 c1 = (sample_run why)\<lparr>rn_live := False, rn_hello := False\<rparr>"
    by (simp add: c1_def sample_playing_def)
  have looked: "looked sample_canary_env ?a ?m (run_at 0 c1) = sample_run why"
    by (simp add: at1 looked_def readConsole_def sample_canary_env_def sample_look_def sample_run_def fresh_run_def)
  have asked: "askLoader ?a ''s1'' (sample_run why) = ?r"
    by (simp add: askLoader_def sample_look_def sample_answers sample_run_def fresh_run_def Let_def)
  have ask: "asking ?m (sample_run why)" "rn_matchId (sample_run why) = ''m1''"
    by (simp_all add: asking_def sample_run_def fresh_run_def CANARY_LOADER_ASKS_def)
  have "look_on sample_canary_env ?a ?m 0 c1 = look_end sample_canary_env ?a ?m True 0
      (called (Call_rcon ''m1'' ''s1'' CANARY_LOADER_QUESTION) (set_run 0 ?r (set_run 0 (sample_run why) c1)))"
    unfolding look_on_split looked Let_def by (simp add: ask asked del: One_nat_def)
  then have two: "look_on sample_canary_env ?a ?m 0 c1 = look_end sample_canary_env ?a ?m True 0 c2"
    unfolding c2_def set_run_twice .
  have at2: "run_at 0 c2 = ?r" by (simp add: c2_def c1_def sample_playing_def)
  have full: "rn_ready ?r \<and> rn_live ?r \<and> rn_round ?r \<and> rn_loader ?r" by (simp add: sample_run_def)
  have "shortfall sample_canary_env ?r = None"
    by (simp add: shortfall_def hudShortfall_def sample_run_def fresh_run_def)
  with full have three: "look_end sample_canary_env ?a ?m True 0 c2 =
      endMatch ?m 0 ''the canary saw a round'' (decide sample_canary_env 20 0 True None c2)"
    by (simp add: look_end_def conclude_round_def at2 Let_def) (simp add: sample_look_def)
  have i: "0 < length (cn_heap c2)" "rn_finishedAt (run_at 0 c2) = None"
    by (simp_all add: at2 c2_def c1_def sample_playing_def sample_run_def)
  note d = decide_effect [OF i, of sample_canary_env 20 True None]
  have look: "look sample_canary_env a 0 ?c = endMatch ?m 0 ''the canary saw a round'' (decide sample_canary_env 20 0 True None c2)"
    unfolding a_def one two three ..
  have store: "cn_store c2 = cn_store ?c" "cn_heap c2 = [?r]" by (simp_all add: c2_def c1_def sample_playing_def)
  show "cn_heap (look sample_canary_env a 0 ?c) = [decided_run 20 True None ?r]"
    unfolding look endMatch_frame d by (simp add: store at2)
  show "verdict_ids (cn_store (look sample_canary_env a 0 ?c)) = [''m1'']"
    unfolding look endMatch_frame d at2
    by (simp add: store) (simp add: sample_playing_def sample_run_def fresh_run_def verdict_ids_def verdict_ids_of_def)
  show "state_of ''p'' (cn_store (look sample_canary_env a 0 ?c)) =
      Some (canary_row\<lparr>gp_hud := \<lparr>gc_state = Green, gc_build = Some ''b1'', gc_since = Some 20, gc_reason = None\<rparr>, gp_updatedAt := 20\<rparr>)"
    unfolding look endMatch_frame d at2 store
    by (simp add: writePicture_def state_of_find sample_playing_def sample_run_def fresh_run_def canary_row_def
        decided_run_def with_verdict_def upsertProviderState_def)
qed

lemma canary3_slot: "map_of (cn_running canary3) sample_slot = Some 0"
proof -
  obtain why key k where c: "canary3 = sample_playing why key k" using sample_plays by blast
  show ?thesis unfolding c by (simp add: sample_playing_def)
qed

lemma canary_reach3: "canary_reach sample_canary_env canary3"
proof -
  have "canary_reach sample_canary_env canary0" unfolding canary0_def by (rule canary_reach.boot)
  then have "canary_reach sample_canary_env canary1" unfolding canary1_def
    by (rule canary_reach.watched) (rule watch_write.picture)
  then have two: "canary_reach sample_canary_env canary2" unfolding canary2_def by (rule canary_reach.opened)
  show ?thesis unfolding canary3_def
    by (rule canary_reach.created [OF two])
      (simp_all add: canary2_shape sample_slot_def [symmetric] started_ids_def)
qed

lemma canary_reach4: "canary_reach sample_canary_env canary4"
  unfolding canary4_def by (rule canary_reach.seen [OF canary_reach3 canary3_slot])

lemma canary4_shape:
  "\<exists>why. cn_heap canary4 = [decided_run 20 True None ((sample_run why)\<lparr>rn_asks := 1, rn_loader := True\<rparr>)]"
  "verdict_ids (cn_store canary4) = [''m1'']"
  "\<exists>row. state_of ''p'' (cn_store canary4) = Some row \<and> gc_state (gp_hud row) = Green \<and> gc_build (gp_hud row) = Some ''b1''"
proof -
  obtain why key k where c: "canary3 = sample_playing why key k" using sample_plays by blast
  show "\<exists>why. cn_heap canary4 = [decided_run 20 True None ((sample_run why)\<lparr>rn_asks := 1, rn_loader := True\<rparr>)]"
    unfolding canary4_def c sample_looks by blast
  show "verdict_ids (cn_store canary4) = [''m1'']" unfolding canary4_def c sample_looks ..
  show "\<exists>row. state_of ''p'' (cn_store canary4) = Some row \<and> gc_state (gp_hud row) = Green \<and> gc_build (gp_hud row) = Some ''b1''"
    unfolding canary4_def c sample_looks by simp
qed


theorem the_hud_is_gated_witness:
  "(\<exists>r \<in> set (cn_heap canary3). rn_matchId r = ''m1'' \<and> rn_hud r \<and> rn_provider r = ''p'' \<and>
      ''m1'' \<notin> set (verdict_ids (cn_store canary3))) \<or>
    (\<exists>row b. state_of ''p'' (cn_store canary3) = Some row \<and> gp_build row = Some b \<and>
      verdict_told (cn_store canary3) ''p'' (Some b) True Green)"
proof (rule the_hud_is_gated [OF canary_reach3])
  obtain why key k where c: "canary3 = sample_playing why key k" using sample_plays by blast
  show "hudAllowed ''p'' ''m1'' canary3"
    unfolding c by (simp add: hudAllowed_def sample_playing_def run_at_def fresh_run_def)
qed



theorem an_ended_match_is_decided_witness:
  "rn_finishedAt (run_at 0 (look sample_canary_env (sample_look Ended []) 0 canary3)) \<noteq> None"
proof -
  obtain why key k where c: "canary3 = sample_playing why key k" using sample_plays by blast
  show ?thesis
    by (rule an_ended_match_is_decided [where r = "run_at 0 canary3" and key = key and ?c1.0 = canary3 and
        m = "\<lparr>sm_state = Ended, sm_serverId = Some ''s1'', sm_provider = Some ''p'', sm_endedReason = None\<rparr>"])
      (simp_all add: c sample_look_def sample_playing_def ensureKey_def readLog_def numeral_eq_Suc)
qed

theorem what_is_read_was_told_witness: "verdict_told (cn_store canary4) ''p'' (Some ''b1'') True Green"
proof -
  obtain row where "state_of ''p'' (cn_store canary4) = Some row" "gc_state (gp_hud row) = Green" "gc_build (gp_hud row) = Some ''b1''"
    using canary4_shape(3) by blast
  then have v: "gc_state (pg_hud (provider_picture None ''p'' (cn_store canary4))) = Green"
    "gc_build (pg_hud (provider_picture None ''p'' (cn_store canary4))) = Some ''b1''"
    by (simp_all add: provider_picture_def)
  from what_is_read_was_told [where p = "''p''" and hud = True, OF canary_reach4 refl refl] show ?thesis by (simp add: v)
qed

end
