(* ===== verification/Stream.thy ===== *)
theory Stream
  imports Keys Redact Machine_Doors
begin

text \<open>
  The stream (\<open>apps/orchestrator/src/stream/hub.ts\<close>, \<open>stream/upgrade.ts\<close>): what the match machine publishes
  crosses a fan-out and reaches the sockets that subscribed, each greeted with the cursor it replays from.

  The site is the machine's world with the hub beside it: the messages in the fan-out, oldest first, the
  subscribers of each match, the ticks that wait for their flush, and the sockets. What the machine publishes
  is read off its trace. The awaits of \<open>serve\<close> cut it in three: the socket is judged and subscribes, the match
  is read, the greeting is written. Whether a socket's buffer
  is over its bound is an argument, of the socket and the number of frames it was written.
\<close>

subsection \<open>Frames and messages\<close>

definition STREAM_TICK_BATCH_MAX :: nat where "STREAM_TICK_BATCH_MAX = 64"

datatype stream_frame =
    Hello ident nat match_state
  | Told frame
  | Ticks "gameserver_event list"

datatype close_code =
    Code_match_ended | Code_unauthorized | Code_forbidden | Code_not_found | Code_slow_consumer
  | Code_going_away

fun code_number :: "close_code \<Rightarrow> nat" where
  "code_number Code_match_ended = 4000"
| "code_number Code_unauthorized = 4001"
| "code_number Code_forbidden = 4003"
| "code_number Code_not_found = 4004"
| "code_number Code_slow_consumer = 4008"
| "code_number Code_going_away = 1001"

datatype hub_message = Hub_frame ident stream_frame | Hub_close ident close_code

fun message_match :: "hub_message \<Rightarrow> ident" where
  "message_match (Hub_frame mid _) = mid"
| "message_match (Hub_close mid _) = mid"

subsection \<open>Who may listen\<close>

record stream_request =
  sq_token :: "string option"
  sq_authorization :: "string option"
  sq_origin :: "string option"

text \<open>\<open>/^Bearer\s+(.+)$/i\<close> on the trimmed header.\<close>

definition bearer :: "string option \<Rightarrow> string option" where
  "bearer header = (case header of
     None \<Rightarrow> None
   | Some h \<Rightarrow>
       (let t = trim h; rest = drop 6 t
        in if map lowered (take 6 t) = ''bearer'' \<and> rest \<noteq> [] \<and> white_space (hd rest) then Some (trim rest) else None))"

definition resolve_stream ::
  "keys_env \<Rightarrow> instant \<Rightarrow> ident \<Rightarrow> stream_request \<Rightarrow> store \<Rightarrow> keys
     \<Rightarrow> close_code option \<times> keys" where
  "resolve_stream ke at mid q s k =
    (case sq_token q of
       Some token \<Rightarrow>
         (if \<not> looksLikeToken Tok_player token then Some Code_unauthorized
          else (case findPlayerTokenByHash (kv_hash ke token) s of
             None \<Rightarrow> Some Code_unauthorized
           | Some record \<Rightarrow>
               if pt_revokedAt record \<noteq> None \<or> pt_expiresAt record \<le> at then Some Code_unauthorized
               else if pt_matchId record \<noteq> mid then Some Code_forbidden
               else (case findMatch mid s of
                  None \<Rightarrow> Some Code_not_found
                | Some row \<Rightarrow>
                    (case (sq_origin q, cb_streamAllowedOrigins (mr_callbacks (m_request row))) of
                       (Some origin, Some origins) \<Rightarrow> if origin \<in> set origins then None else Some Code_forbidden
                     | _ \<Rightarrow> None))), k)
     | None \<Rightarrow>
         (case authenticate ke at (bearer (sq_authorization q)) k of
            (Inl _, k') \<Rightarrow> (Some Code_unauthorized, k')
          | (Inr key, k') \<Rightarrow>
              (if \<not> scopeAllows (apk_scopes (kr_key key)) Scope_matches then Some Code_forbidden
               else (case findMatch mid s of
                  None \<Rightarrow> Some Code_not_found
                | Some row \<Rightarrow> if m_keyId row \<noteq> kr_id key then Some Code_not_found else None), k')))"

subsection \<open>The site\<close>

text \<open>A socket is judged, waits for its match to be read (\<open>Waiting\<close>), holds what was read (\<open>Reading\<close>) and
  is greeted. \<open>Refused\<close> never subscribed.\<close>

datatype socket_phase = Arriving | Refused | Waiting | Reading "match_row option" | Greeted

record stream_socket =
  ss_match :: ident
  ss_phase :: socket_phase
  ss_open :: bool
  ss_code :: "close_code option"
  ss_greetedSeq :: nat
  ss_held :: "stream_frame list"
  ss_written :: "stream_frame list"

record stream_site =
  st_world :: world
  st_keys :: keys
  st_fanout :: "hub_message list"
  st_listening :: bool
  st_subs :: "(ident \<times> nat list) list"
  st_pending :: "(ident \<times> gameserver_event list) list"
  st_sockets :: "stream_socket list"

definition new_socket :: "ident \<Rightarrow> stream_socket" where
  "new_socket mid = \<lparr>ss_match = mid, ss_phase = Arriving, ss_open = True, ss_code = None, ss_greetedSeq = 0,
     ss_held = [], ss_written = []\<rparr>"

definition set_socket :: "nat \<Rightarrow> stream_socket \<Rightarrow> stream_site \<Rightarrow> stream_site" where
  "set_socket i x s = s\<lparr>st_sockets := (st_sockets s)[i := x]\<rparr>"

text \<open>\<open>ws.close\<close>: the first code stands.\<close>

definition close_ws :: "close_code \<Rightarrow> stream_socket \<Rightarrow> stream_socket" where
  "close_ws code x = (if ss_open x then x\<lparr>ss_open := False, ss_code := Some code\<rparr> else x)"

subsection \<open>The hub\<close>

definition subscribed :: "ident \<Rightarrow> stream_site \<Rightarrow> nat list" where
  "subscribed mid s = (case map_of (st_subs s) mid of None \<Rightarrow> [] | Some is \<Rightarrow> is)"

definition hub_subscribe :: "ident \<Rightarrow> nat \<Rightarrow> stream_site \<Rightarrow> stream_site" where
  "hub_subscribe mid i s = s\<lparr>st_subs := map_set mid
     (if i \<in> set (subscribed mid s) then subscribed mid s else subscribed mid s @ [i]) (st_subs s)\<rparr>"

definition hub_unsubscribe :: "ident \<Rightarrow> nat \<Rightarrow> stream_site \<Rightarrow> stream_site" where
  "hub_unsubscribe mid i s =
    (case map_of (st_subs s) mid of
       None \<Rightarrow> s
     | Some is \<Rightarrow>
         (let rest = filter (\<lambda>j. j \<noteq> i) is
          in s\<lparr>st_subs := (if rest = [] then map_delete mid (st_subs s) else map_set mid rest (st_subs s))\<rparr>))"

definition hub_publish :: "hub_message \<Rightarrow> stream_site \<Rightarrow> stream_site" where
  "hub_publish m s = s\<lparr>st_fanout := st_fanout s @ [m]\<rparr>"

definition flushTicks :: "ident \<Rightarrow> stream_site \<Rightarrow> stream_site" where
  "flushTicks mid s =
    (case map_of (st_pending s) mid of
       None \<Rightarrow> s
     | Some ticks \<Rightarrow>
         (let s = s\<lparr>st_pending := map_delete mid (st_pending s)\<rparr>
          in if ticks = [] then s else hub_publish (Hub_frame mid (Ticks ticks)) s))"

definition hub_tick :: "ident \<Rightarrow> gameserver_event \<Rightarrow> stream_site \<Rightarrow> stream_site" where
  "hub_tick mid tick s =
    (let batch = (case map_of (st_pending s) mid of None \<Rightarrow> [] | Some ticks \<Rightarrow> ticks) @ [tick];
         s = s\<lparr>st_pending := map_set mid batch (st_pending s)\<rparr>
     in if length batch \<ge> STREAM_TICK_BATCH_MAX then flushTicks mid s else s)"

definition closeMatch :: "ident \<Rightarrow> close_code \<Rightarrow> stream_site \<Rightarrow> stream_site" where
  "closeMatch mid code s = hub_publish (Hub_close mid code) (flushTicks mid s)"

subsection \<open>A socket's frames\<close>

definition covered :: "nat \<Rightarrow> stream_frame \<Rightarrow> bool" where
  "covered seq f = (case f of Told (Frame_event ev) \<Rightarrow> e_seq ev \<le> seq | _ \<Rightarrow> False)"

definition socket_write :: "(nat \<Rightarrow> nat \<Rightarrow> bool) \<Rightarrow> nat \<Rightarrow> stream_frame \<Rightarrow> stream_site \<Rightarrow> stream_site" where
  "socket_write slow i f s =
    (let x = st_sockets s ! i in
     if \<not> ss_open x then s
     else if slow i (length (ss_written x)) then set_socket i (close_ws Code_slow_consumer x) (hub_unsubscribe (ss_match x) i s)
     else set_socket i (x\<lparr>ss_written := ss_written x @ [f]\<rparr>) s)"

definition socket_send :: "(nat \<Rightarrow> nat \<Rightarrow> bool) \<Rightarrow> nat \<Rightarrow> stream_frame \<Rightarrow> stream_site \<Rightarrow> stream_site" where
  "socket_send slow i f s =
    (let x = st_sockets s ! i in
     if ss_phase x \<noteq> Greeted then set_socket i (x\<lparr>ss_held := ss_held x @ [f]\<rparr>) s
     else if covered (ss_greetedSeq x) f then s
     else socket_write slow i f s)"

text \<open>A message reaches every subscriber of its match, in the order they subscribed.\<close>

definition deliver :: "(nat \<Rightarrow> nat \<Rightarrow> bool) \<Rightarrow> hub_message \<Rightarrow> stream_site \<Rightarrow> stream_site" where
  "deliver slow m s =
    (if \<not> st_listening s then s
     else (case m of
       Hub_frame mid f \<Rightarrow> fold (\<lambda>i. socket_send slow i f) (subscribed mid s) s
     | Hub_close mid code \<Rightarrow>
         fold (\<lambda>i s. set_socket i (close_ws code (st_sockets s ! i)) s) (subscribed mid s)
           (s\<lparr>st_subs := map_delete mid (st_subs s)\<rparr>)))"

subsection \<open>Serving a socket\<close>

definition stream_connect :: "ident \<Rightarrow> stream_site \<Rightarrow> stream_site" where
  "stream_connect mid s = s\<lparr>st_sockets := st_sockets s @ [new_socket mid]\<rparr>"

text \<open>From the judgement to the subscription.\<close>

definition stream_admit ::
  "keys_env \<Rightarrow> bool \<Rightarrow> nat \<Rightarrow> stream_request \<Rightarrow> stream_site \<Rightarrow> stream_site" where
  "stream_admit ke draining i q s =
    (let x = st_sockets s ! i in
     if draining then set_socket i ((close_ws Code_going_away x)\<lparr>ss_phase := Refused\<rparr>) s
     else (case resolve_stream ke (w_now (st_world s)) (ss_match x) q (w_store (st_world s)) (st_keys s) of
        (Some code, k) \<Rightarrow> set_socket i ((close_ws code x)\<lparr>ss_phase := Refused\<rparr>) (s\<lparr>st_keys := k\<rparr>)
      | (None, k) \<Rightarrow> hub_subscribe (ss_match x) i (set_socket i (x\<lparr>ss_phase := Waiting\<rparr>) (s\<lparr>st_keys := k\<rparr>))))"

definition stream_read :: "nat \<Rightarrow> stream_site \<Rightarrow> stream_site" where
  "stream_read i s =
    (let x = st_sockets s ! i
     in set_socket i (x\<lparr>ss_phase := Reading (findMatch (ss_match x) (w_store (st_world s)))\<rparr>) s)"

text \<open>The greeting, then what was held, then the close of a match that is over.\<close>

definition stream_greet :: "(nat \<Rightarrow> nat \<Rightarrow> bool) \<Rightarrow> nat \<Rightarrow> stream_site \<Rightarrow> stream_site" where
  "stream_greet slow i s =
    (let x = st_sockets s ! i in
     case ss_phase x of
       Reading None \<Rightarrow>
         (let s = hub_unsubscribe (ss_match x) i s
          in set_socket i ((close_ws Code_not_found x)\<lparr>ss_phase := Refused\<rparr>) s)
     | Reading (Some row) \<Rightarrow>
         (let s = socket_write slow i (Hello (m_id row) (m_seq row) (m_state row)) s;
              y = st_sockets s ! i;
              held = ss_held y;
              s = set_socket i (y\<lparr>ss_phase := Greeted, ss_greetedSeq := m_seq row, ss_held := []\<rparr>) s;
              s = fold (\<lambda>f s. if covered (m_seq row) f then s else socket_write slow i f s) held s
          in if isTerminalMatchState (m_state row)
             then (let s = hub_unsubscribe (ss_match x) i s
                   in set_socket i (close_ws Code_match_ended (st_sockets s ! i)) s)
             else s)
     | _ \<Rightarrow> s)"

text \<open>The socket's own \<open>close\<close> event. The listener is there once the socket has subscribed.\<close>

definition stream_gone :: "nat \<Rightarrow> stream_site \<Rightarrow> stream_site" where
  "stream_gone i s =
    (let x = st_sockets s ! i;
         s = (if ss_phase x = Arriving \<or> ss_phase x = Refused then s else hub_unsubscribe (ss_match x) i s)
     in set_socket i (x\<lparr>ss_open := False\<rparr>) s)"

subsection \<open>The machine publishes\<close>

definition hear :: "effect \<Rightarrow> stream_site \<Rightarrow> stream_site" where
  "hear eff s = (case eff of
     Eff_frame mid f \<Rightarrow> hub_publish (Hub_frame mid (Told f)) s
   | Eff_tick mid tick \<Rightarrow> hub_tick mid tick s
   | Eff_close mid \<Rightarrow> closeMatch mid Code_match_ended s
   | _ \<Rightarrow> s)"

definition new_effects :: "world \<Rightarrow> world \<Rightarrow> effect list" where
  "new_effects w w' = rev (take (length (w_trace w') - length (w_trace w)) (w_trace w'))"

definition stream_machine :: "env \<Rightarrow> operation \<Rightarrow> stream_site \<Rightarrow> stream_site" where
  "stream_machine e op s =
    (let w' = after (operate e op) (st_world s)
     in fold hear (new_effects (st_world s) w') (s\<lparr>st_world := w'\<rparr>))"

text \<open>The drain: the ticks are dropped, the hub stops listening, every subscriber is closed.\<close>

definition hub_close :: "stream_site \<Rightarrow> stream_site" where
  "hub_close s = fold (\<lambda>i s. set_socket i (close_ws Code_going_away (st_sockets s ! i)) s)
     (concat (map snd (st_subs s))) (s\<lparr>st_pending := [], st_listening := False, st_subs := []\<rparr>)"

definition initial_stream :: "world \<Rightarrow> keys \<Rightarrow> stream_site" where
  "initial_stream w k = \<lparr>st_world = w, st_keys = k, st_fanout = [], st_listening = True, st_subs = [],
     st_pending = [], st_sockets = []\<rparr>"

text \<open>The states of a site. A fan-out may lose a message where \<open>lossy\<close>.\<close>

inductive stream_reach :: "env \<Rightarrow> keys_env \<Rightarrow> bool \<Rightarrow> stream_site \<Rightarrow> bool"
  for e ke lossy where
  start: "stream_reach e ke lossy (initial_stream (initial_world d reg t) k)"
| machine: "stream_reach e ke lossy s \<Longrightarrow> stream_reach e ke lossy (stream_machine e op s)"
| keyed: "stream_reach e ke lossy s \<Longrightarrow> stream_reach e ke lossy (s\<lparr>st_keys := k\<rparr>)"
| flush: "stream_reach e ke lossy s \<Longrightarrow> stream_reach e ke lossy (flushTicks mid s)"
| delivered: "stream_reach e ke lossy s \<Longrightarrow> st_fanout s = m # ms \<Longrightarrow>
    stream_reach e ke lossy (deliver slow m (s\<lparr>st_fanout := ms\<rparr>))"
| lost: "stream_reach e ke lossy s \<Longrightarrow> lossy \<Longrightarrow> st_fanout s = ms @ m # ms' \<Longrightarrow>
    stream_reach e ke lossy (s\<lparr>st_fanout := ms @ ms'\<rparr>)"
| connected: "stream_reach e ke lossy s \<Longrightarrow> stream_reach e ke lossy (stream_connect mid s)"
| admitted: "stream_reach e ke lossy s \<Longrightarrow> i < length (st_sockets s) \<Longrightarrow> ss_phase (st_sockets s ! i) = Arriving \<Longrightarrow>
    stream_reach e ke lossy (stream_admit ke draining i q s)"
| read: "stream_reach e ke lossy s \<Longrightarrow> i < length (st_sockets s) \<Longrightarrow> ss_phase (st_sockets s ! i) = Waiting \<Longrightarrow>
    stream_reach e ke lossy (stream_read i s)"
| greeted: "stream_reach e ke lossy s \<Longrightarrow> i < length (st_sockets s) \<Longrightarrow>
    stream_reach e ke lossy (stream_greet slow i s)"
| gone: "stream_reach e ke lossy s \<Longrightarrow> i < length (st_sockets s) \<Longrightarrow>
    stream_reach e ke lossy (stream_gone i s)"
| drained: "stream_reach e ke lossy s \<Longrightarrow> lossy \<Longrightarrow> stream_reach e ke lossy (hub_close s)"

end
