(* ===== verification/Machine_Publishing.thy ===== *)
theory Machine_Publishing
  imports Machine_Laws
begin

text \<open>
  What the match machine publishes (\<open>match/machine.ts\<close>, \<open>emit\<close>): the events it tells the stream are the
  rows of the log, in the order of the log, and what was told stays told.
\<close>

subsection \<open>The events that were told\<close>

fun event_frame :: "effect \<Rightarrow> (ident \<times> event_row) list" where
  "event_frame (Eff_frame mid (Frame_event ev)) = [(mid, ev)]"
| "event_frame _ = []"

text \<open>Of effects in the order they happened.\<close>

definition told_events :: "effect list \<Rightarrow> (ident \<times> event_row) list" where
  "told_events effs = concat (map event_frame effs)"

lemma told_events_simps [simp]:
  "told_events [] = []" "told_events (eff # effs) = event_frame eff @ told_events effs"
  "told_events (xs @ ys) = told_events xs @ told_events ys"
  by (simp_all add: told_events_def)

lemma not_noted_silent: "\<not> noted eff \<Longrightarrow> event_frame eff = []"
  by (cases eff rule: event_frame.cases) simp_all

definition published :: "world \<Rightarrow> bool" where
  "published w \<longleftrightarrow> told_events (rev (w_trace w)) = map (\<lambda>ev. (e_matchId ev, ev)) (events (w_store w))"

lemma published_cong:
  "published w \<Longrightarrow> events (w_store w') = events (w_store w) \<Longrightarrow>
   told_events (rev (w_trace w')) = told_events (rev (w_trace w)) \<Longrightarrow> published w'"
  by (simp add: published_def)

lemma published_emit: "published w \<Longrightarrow> published (after (emit e mid pl p) w)"
proof (cases "findMatch mid (w_store w)")
  case None
  assume "published w"
  with None show ?thesis by (simp add: emit_unknown published_def)
next
  case (Some row)
  assume w: "published w"
  obtain ev s' u si n where a: "appendEvent mid (en_uuid e (w_fresh w), w_now w, pl) (w_now w) p
      (w_store w) = Some (ev, s')"
    and eff: "after (emit e mid pl p) w =
      (if m_webhooksStoppedAt (apply_match_patch p row) = None
       then w\<lparr>w_store := insertDelivery (delivery_for ev u si) s', w_fresh := n,
              w_trace := Eff_kick_webhooks # Eff_frame mid (Frame_event ev) # w_trace w\<rparr>
       else w\<lparr>w_store := s', w_fresh := n,
              w_trace := Eff_frame mid (Frame_event ev) # w_trace w\<rparr>)"
    using emit_effect [OF Some, of e pl p] by blast
  have "events s' = events (w_store w) @ [ev]" "e_matchId ev = mid"
    using appendEvent_Some [OF Some, of "en_uuid e (w_fresh w)" "w_now w" pl "w_now w" p] a by auto
  with w eff show ?thesis by (simp add: published_def insertDelivery_def)
qed

interpretation publishing: chain_invariant published
proof (unfold_locales, goal_cases)
  case (2 w eff) then show ?case by (auto simp: published_def not_noted_silent)
next
  case (4 w s') then show ?case by (auto simp: same_tables_def intro: published_cong)
next
  case (5 w mid p s') then show ?case by (auto simp: published_def dest: updateMatch_frame)
next
  case (7 w sid sp s') with updateServer_frame [OF 7(2)] show ?case by (simp add: published_def)
next
  case (8 w row s') with findMatch_insertMatch [OF 8(3)] show ?case by (simp add: published_def)
next
  case (9 w mid pl e) then show ?case by (simp add: published_emit)
next
  case (10 w mid st e reason demo at sim) then show ?case by (simp add: published_emit)
qed (simp_all add: published_def insertServer_def)

subsection \<open>What was told stays told\<close>

definition later_than :: "history \<Rightarrow> world \<Rightarrow> bool" where
  "later_than t w \<longleftrightarrow> (\<exists>effs. w_trace w = effs @ t)"

lemma later_Cons: "later_than t w \<Longrightarrow> w_trace w' = eff # w_trace w \<Longrightarrow> later_than t w'"
  by (auto simp: later_than_def)

lemma later_emit: "later_than t w \<Longrightarrow> later_than t (after (emit e mid pl p) w)"
proof (cases "findMatch mid (w_store w)")
  case None
  assume "later_than t w"
  with None show ?thesis by (simp add: emit_unknown later_than_def)
next
  case (Some row)
  assume "later_than t w"
  with emit_effect [OF Some, of e pl p] show ?thesis
    by (auto simp: later_than_def)
qed

interpretation telling: chain_invariant "later_than t" for t
proof (unfold_locales, goal_cases)
  case (2 w eff) then show ?case by (auto intro: later_Cons)
next
  case (3 w) then show ?case by (auto intro: later_Cons)
next
  case (9 w mid pl e) then show ?case by (simp add: later_emit)
next
  case (10 w mid st e reason demo at sim) then show ?case by (simp add: later_emit)
qed (simp_all add: later_than_def)

subsection \<open>Of every run\<close>

lemma initial_published: "published (initial_world d reg t)"
  by (simp add: published_def)

lemma reachable_later: "reachable e w \<Longrightarrow> \<exists>effs. w_trace (after (operate e op) w) = effs @ w_trace w"
proof -
  assume "reachable e w"
  then have "telling.invs (w_trace w) {} w"
    by (simp add: telling.invs_def later_than_def reachable_queue_ok)
  then have "telling.invs (w_trace w) {} (after (operate e op) w)"
    by (rule tripleD [OF telling.operate_keeps])
  then show ?thesis by (simp add: telling.invs_def later_than_def)
qed

text \<open>what the machine tells the stream is its log. In every state it can reach, the event frames it
  has published are the rows of the event log, each once, to the match that owns it, in the log's order:
  nothing is published that is not stored, and nothing stored goes unpublished.\<close>

theorem the_stream_is_told_the_log:
  assumes "reachable e w"
  shows "told_events (rev (w_trace w)) = map (\<lambda>ev. (e_matchId ev, ev)) (events (w_store w))"
  using publishing.reachable_keeps(1) [OF initial_published assms] by (simp add: published_def)

end
