(* ===== verification/Stream_Laws.thy ===== *)
theory Stream_Laws
  imports Stream Machine_Publishing "HOL-Library.Sublist"
begin

text \<open>
  The invariant of the stream: what a socket has been written, what is held for it and what is still in the
  fan-out make up the log after the sequence number it was greeted with. With a fan-out that loses nothing this is
  an equation, with one that may lose messages it is a subsequence: \<open>covers\<close> says both.
\<close>

subsection \<open>Covering\<close>

definition covers :: "bool \<Rightarrow> 'a list \<Rightarrow> 'a list \<Rightarrow> bool" where
  "covers lossy xs ys \<longleftrightarrow> (if lossy then subseq xs ys else xs = ys)"

lemma covers_refl [simp, intro]: "covers lossy xs xs"
  by (simp add: covers_def)

lemma covers_append: "covers lossy xs ys \<Longrightarrow> covers lossy (xs @ zs) (ys @ zs)"
  by (simp add: covers_def)

lemma covers_filter: "covers lossy xs ys \<Longrightarrow> covers lossy (filter P xs) (filter P ys)"
  by (simp add: covers_def split: if_splits)

lemma covers_lost: "covers True xs ys \<Longrightarrow> subseq zs xs \<Longrightarrow> covers True zs ys"
  by (auto simp: covers_def intro: subseq_order.trans)

lemma covers_subseq: "covers lossy xs ys \<Longrightarrow> subseq xs ys"
  by (simp add: covers_def split: if_splits)

definition after_seq :: "nat \<Rightarrow> event_row list \<Rightarrow> event_row list" where
  "after_seq n evs = filter (\<lambda>ev. n < e_seq ev) evs"

lemma after_seq_simps [simp]:
  "after_seq n [] = []" "after_seq n (ev # evs) = (if n < e_seq ev then ev # after_seq n evs else after_seq n evs)"
  "after_seq n (xs @ ys) = after_seq n xs @ after_seq n ys" "after_seq n (after_seq n xs) = after_seq n xs"
  by (simp_all add: after_seq_def)

lemma after_seq_none: "(\<And>ev. ev \<in> set evs \<Longrightarrow> e_seq ev \<le> n) \<Longrightarrow> after_seq n evs = []"
  by (simp add: after_seq_def filter_empty_conv not_less)

lemma filter_appendD: "filter P zs = xs @ ys \<Longrightarrow> \<exists>us vs. zs = us @ vs \<and> filter P us = xs"
proof (induction xs arbitrary: zs)
  case Nil
  show ?case by (rule exI [of _ "[]"]) simp
next
  case (Cons x xs)
  then obtain us vs where zs: "zs = us @ x # vs" "\<forall>u \<in> set us. \<not> P u" "P x" "filter P vs = xs @ ys"
    by (auto dest: filter_eq_ConsD)
  from Cons.IH [OF zs(4)] obtain us' vs' where "vs = us' @ vs'" "filter P us' = xs" by blast
  with zs show ?case by (intro exI [of _ "us @ x # us'"] exI [of _ vs']) (simp add: filter_empty_conv)
qed

text \<open>A part of a cover is a cover of a part.\<close>

lemma covers_part:
  "covers lossy (xs @ zs) (after_seq n evs) \<Longrightarrow> \<exists>k \<le> length evs. covers lossy xs (after_seq n (take k evs))"
proof (cases lossy)
  case True
  assume "covers lossy (xs @ zs) (after_seq n evs)"
  with True have "covers lossy xs (after_seq n (take (length evs) evs))"
    by (auto simp: covers_def intro: subseq_order.trans [of xs "xs @ zs"])
  then show ?thesis by blast
next
  case False
  assume "covers lossy (xs @ zs) (after_seq n evs)"
  with False have "filter (\<lambda>ev. n < e_seq ev) evs = xs @ zs" by (simp add: covers_def after_seq_def)
  from filter_appendD [OF this] obtain us vs where "evs = us @ vs" "xs = after_seq n us"
    by (auto simp: after_seq_def)
  then show ?thesis by (intro exI [of _ "length us"]) simp
qed

subsection \<open>Events in frames and messages\<close>

fun frame_event :: "stream_frame \<Rightarrow> event_row list" where
  "frame_event (Told (Frame_event ev)) = [ev]"
| "frame_event _ = []"

definition frame_events :: "stream_frame list \<Rightarrow> event_row list" where
  "frame_events fs = concat (map frame_event fs)"

fun message_events :: "ident \<Rightarrow> hub_message \<Rightarrow> event_row list" where
  "message_events mid (Hub_frame j f) = (if j = mid then frame_event f else [])"
| "message_events mid (Hub_close _ _) = []"

definition in_flight :: "ident \<Rightarrow> stream_site \<Rightarrow> event_row list" where
  "in_flight mid s = concat (map (message_events mid) (st_fanout s))"

lemma frame_events_simps [simp]:
  "frame_events [] = []" "frame_events (f # fs) = frame_event f @ frame_events fs"
  "frame_events (fs @ gs) = frame_events fs @ frame_events gs"
  by (simp_all add: frame_events_def)

lemma covered_events: "covered n f \<longleftrightarrow> frame_event f \<noteq> [] \<and> after_seq n (frame_event f) = []"
  by (cases f rule: frame_event.cases) (auto simp: covered_def)

lemma uncovered_events: "\<not> covered n f \<Longrightarrow> after_seq n (frame_event f) = frame_event f"
  by (cases f rule: frame_event.cases) (auto simp: covered_def)

subsection \<open>The parts an operation leaves\<close>

lemma subscribed_map_set [simp]:
  "subscribed mid (s\<lparr>st_subs := map_set j is (st_subs s)\<rparr>) = (if mid = j then is else subscribed mid s)"
  by (simp add: subscribed_def)

lemma subscribed_map_delete [simp]:
  "subscribed mid (s\<lparr>st_subs := map_delete j (st_subs s)\<rparr>) = (if mid = j then [] else subscribed mid s)"
  by (simp add: subscribed_def)

lemma subscribed_frame [simp]:
  "subscribed mid (s\<lparr>st_world := w\<rparr>) = subscribed mid s" "subscribed mid (s\<lparr>st_keys := k\<rparr>) = subscribed mid s"
  "subscribed mid (s\<lparr>st_fanout := q\<rparr>) = subscribed mid s" "subscribed mid (s\<lparr>st_pending := p\<rparr>) = subscribed mid s"
  "subscribed mid (s\<lparr>st_sockets := xs\<rparr>) = subscribed mid s" "subscribed mid (set_socket i x s) = subscribed mid s"
  by (simp_all add: subscribed_def set_socket_def)

lemma subscribed_unsubscribe:
  "subscribed mid (hub_unsubscribe j i s) =
    (if mid = j then filter (\<lambda>k. k \<noteq> i) (subscribed mid s) else subscribed mid s)"
  by (auto simp: hub_unsubscribe_def subscribed_def Let_def split: option.splits)

lemma subscribed_subscribe:
  "subscribed mid (hub_subscribe j i s) =
    (if mid = j \<and> i \<notin> set (subscribed j s) then subscribed mid s @ [i] else subscribed mid s)"
  by (auto simp: hub_subscribe_def)

lemma unsubscribe_frame [simp]:
  "st_world (hub_unsubscribe j i s) = st_world s" "st_keys (hub_unsubscribe j i s) = st_keys s"
  "st_fanout (hub_unsubscribe j i s) = st_fanout s" "st_pending (hub_unsubscribe j i s) = st_pending s"
  "st_sockets (hub_unsubscribe j i s) = st_sockets s" "st_listening (hub_unsubscribe j i s) = st_listening s"
  by (simp_all add: hub_unsubscribe_def Let_def split: option.split)

lemma subscribe_frame [simp]:
  "st_world (hub_subscribe j i s) = st_world s" "st_fanout (hub_subscribe j i s) = st_fanout s"
  "st_pending (hub_subscribe j i s) = st_pending s" "st_sockets (hub_subscribe j i s) = st_sockets s"
  by (simp_all add: hub_subscribe_def)

lemma set_socket_frame [simp]:
  "st_world (set_socket i x s) = st_world s" "st_keys (set_socket i x s) = st_keys s"
  "st_fanout (set_socket i x s) = st_fanout s" "st_pending (set_socket i x s) = st_pending s"
  "st_listening (set_socket i x s) = st_listening s" "st_subs (set_socket i x s) = st_subs s"
  "st_sockets (set_socket i x s) = (st_sockets s)[i := x]"
  by (simp_all add: set_socket_def)

lemma close_ws_frame [simp]:
  "ss_match (close_ws c x) = ss_match x" "ss_phase (close_ws c x) = ss_phase x"
  "ss_held (close_ws c x) = ss_held x" "ss_written (close_ws c x) = ss_written x"
  "ss_greetedSeq (close_ws c x) = ss_greetedSeq x" "\<not> ss_open (close_ws c x)"
  by (simp_all add: close_ws_def)

subsection \<open>What a socket is owed\<close>

definition served :: "stream_socket \<Rightarrow> bool" where
  "served x \<longleftrightarrow> ss_phase x \<noteq> Arriving \<and> ss_phase x \<noteq> Refused"

definition greeted_ok :: "bool \<Rightarrow> nat \<Rightarrow> event_row list \<Rightarrow> event_row list \<Rightarrow> stream_socket \<Rightarrow> bool" where
  "greeted_ok lossy n log owed x \<longleftrightarrow>
    (if ss_written x = [] then \<not> ss_open x else \<exists>st. hd (ss_written x) = Hello (ss_match x) n st) \<and>
    (\<exists>k \<le> length log. covers lossy (frame_events (ss_written x)) (after_seq n (take k log))) \<and>
    (ss_open x \<longrightarrow> covers lossy (frame_events (ss_written x) @ after_seq n owed) (after_seq n log))"

definition socket_ok :: "bool \<Rightarrow> event_row list \<Rightarrow> event_row list \<Rightarrow> stream_socket \<Rightarrow> bool" where
  "socket_ok lossy log owed x = (case ss_phase x of
     Arriving \<Rightarrow> ss_written x = [] \<and> ss_held x = []
   | Refused \<Rightarrow> ss_written x = []
   | Waiting \<Rightarrow> ss_written x = [] \<and> set (frame_events (ss_held x)) \<subseteq> set log
   | Reading None \<Rightarrow> ss_written x = []
   | Reading (Some row) \<Rightarrow> ss_written x = [] \<and> m_id row = ss_match x \<and>
       (ss_open x \<longrightarrow> covers lossy (after_seq (m_seq row) (frame_events (ss_held x) @ owed)) (after_seq (m_seq row) log))
   | Greeted \<Rightarrow> greeted_ok lossy (ss_greetedSeq x) log owed x)"

lemma take_cover:
  "k \<le> length log \<Longrightarrow> take k (log @ new) = take k log"
  by simp

lemma greeted_more: "greeted_ok lossy n log owed x \<Longrightarrow> greeted_ok lossy n (log @ new) (owed @ new) x"
proof -
  assume x: "greeted_ok lossy n log owed x"
  then obtain k where "k \<le> length log" "covers lossy (frame_events (ss_written x)) (after_seq n (take k log))"
    by (auto simp: greeted_ok_def)
  then have "\<exists>k \<le> length (log @ new). covers lossy (frame_events (ss_written x)) (after_seq n (take k (log @ new)))"
    by (intro exI [of _ k]) simp
  with x show ?thesis by (auto simp: greeted_ok_def simp flip: append_assoc intro: covers_append)
qed

lemma socket_more: "socket_ok lossy log owed x \<Longrightarrow> socket_ok lossy (log @ new) (owed @ new) x"
  by (cases "ss_phase x" rule: socket_phase.exhaust)
    (auto simp: socket_ok_def greeted_more simp flip: append_assoc split: option.splits intro: covers_append)

lemma socket_lost: "socket_ok True log owed x \<Longrightarrow> subseq owed' owed \<Longrightarrow> socket_ok True log owed' x"
proof -
  assume x: "socket_ok True log owed x" and sub: "subseq owed' owed"
  then have "subseq (fs @ after_seq n owed') (fs @ after_seq n owed)" for fs n
    by (simp add: after_seq_def subseq_append')
  with x show ?thesis
    by (auto simp: socket_ok_def greeted_ok_def split: socket_phase.splits option.splits intro: covers_lost)
qed

lemma socket_off: "socket_ok lossy log owed x \<Longrightarrow> \<not> (ss_open x \<and> served x) \<Longrightarrow> socket_ok lossy log owed' x"
  by (auto simp: socket_ok_def greeted_ok_def served_def split: socket_phase.splits option.splits)

lemma socket_closed: "socket_ok lossy log owed x \<Longrightarrow> socket_ok lossy log owed' (close_ws c x)"
  by (auto simp: socket_ok_def greeted_ok_def split: socket_phase.splits option.splits)

subsection \<open>One frame to one socket\<close>

definition wrote :: "bool \<Rightarrow> stream_frame \<Rightarrow> stream_socket \<Rightarrow> stream_socket" where
  "wrote full f x = (if \<not> ss_open x then x else if full then close_ws Code_slow_consumer x
     else x\<lparr>ss_written := ss_written x @ [f]\<rparr>)"

definition sent :: "bool \<Rightarrow> stream_frame \<Rightarrow> stream_socket \<Rightarrow> stream_socket" where
  "sent full f x = (if ss_phase x \<noteq> Greeted then x\<lparr>ss_held := ss_held x @ [f]\<rparr>
     else if covered (ss_greetedSeq x) f then x else wrote full f x)"

lemma wrote_frame [simp]:
  "ss_match (wrote full f x) = ss_match x" "ss_phase (wrote full f x) = ss_phase x"
  "ss_held (wrote full f x) = ss_held x" "ss_greetedSeq (wrote full f x) = ss_greetedSeq x"
  "ss_open (wrote full f x) = (ss_open x \<and> \<not> full)"
  by (simp_all add: wrote_def)

lemma sent_frame [simp]:
  "ss_match (sent full f x) = ss_match x" "ss_phase (sent full f x) = ss_phase x"
  "ss_greetedSeq (sent full f x) = ss_greetedSeq x"
  by (simp_all add: sent_def)

lemma greeted_wrote:
  assumes "greeted_ok lossy n log (frame_event f @ owed) x" and "\<not> covered n f"
  shows "greeted_ok lossy n log owed (wrote full f x)"
proof (cases "ss_open x \<and> \<not> full")
  case False
  with assms(1) show ?thesis by (auto simp: greeted_ok_def wrote_def)
next
  case True
  have "covers lossy ((frame_events (ss_written x) @ frame_event f) @ after_seq n owed) (after_seq n log)"
    using assms True by (simp add: greeted_ok_def uncovered_events)
  moreover from covers_part [OF this]
  have "\<exists>k \<le> length log. covers lossy (frame_events (ss_written x) @ frame_event f) (after_seq n (take k log))" .
  moreover have "ss_written x \<noteq> [] \<and> (\<exists>st. hd (ss_written x) = Hello (ss_match x) n st)"
    using assms(1) True by (auto simp: greeted_ok_def split: if_splits)
  ultimately show ?thesis using True by (simp add: greeted_ok_def wrote_def)
qed

lemma greeted_skipped:
  "greeted_ok lossy n log (frame_event f @ owed) x \<Longrightarrow> covered n f \<Longrightarrow> greeted_ok lossy n log owed x"
  by (simp add: greeted_ok_def covered_events)

lemma socket_sent:
  assumes "socket_ok lossy log (frame_event f @ owed) x" and "set (frame_event f) \<subseteq> set log" and "served x"
  shows "socket_ok lossy log owed (sent full f x)"
  using assms
  by (auto simp: socket_ok_def sent_def served_def greeted_wrote intro: greeted_skipped
      split: socket_phase.splits option.splits)

subsection \<open>The site\<close>

abbreviation log_at :: "stream_site \<Rightarrow> ident \<Rightarrow> event_row list" where
  "log_at s mid \<equiv> log_of mid (w_store (st_world s))"

definition members_ok :: "stream_site \<Rightarrow> bool" where
  "members_ok s \<longleftrightarrow> (\<forall>mid. distinct (subscribed mid s) \<and> (\<forall>i \<in> set (subscribed mid s).
       i < length (st_sockets s) \<and> ss_match (st_sockets s ! i) = mid \<and> served (st_sockets s ! i))) \<and>
     (\<forall>i < length (st_sockets s). ss_open (st_sockets s ! i) \<and> served (st_sockets s ! i) \<longrightarrow>
       i \<in> set (subscribed (ss_match (st_sockets s ! i)) s))"

definition sockets_ok :: "bool \<Rightarrow> stream_site \<Rightarrow> bool" where
  "sockets_ok lossy s \<longleftrightarrow> (\<forall>i < length (st_sockets s). let x = st_sockets s ! i in
     socket_ok lossy (log_at s (ss_match x)) (in_flight (ss_match x) s) x)"

definition stream_ok :: "env \<Rightarrow> bool \<Rightarrow> stream_site \<Rightarrow> bool" where
  "stream_ok e lossy s \<longleftrightarrow> reachable e (st_world s) \<and> (\<not> lossy \<longrightarrow> st_listening s) \<and>
     (\<forall>mid. set (in_flight mid s) \<subseteq> set (log_at s mid)) \<and> members_ok s \<and> sockets_ok lossy s"

lemma stream_okI:
  assumes "reachable e (st_world s)" and "\<not> lossy \<Longrightarrow> st_listening s"
    and "\<And>mid. set (in_flight mid s) \<subseteq> set (log_at s mid)" and "members_ok s"
    and "\<And>i. i < length (st_sockets s) \<Longrightarrow>
      socket_ok lossy (log_at s (ss_match (st_sockets s ! i))) (in_flight (ss_match (st_sockets s ! i)) s) (st_sockets s ! i)"
  shows "stream_ok e lossy s"
  using assms by (simp add: stream_ok_def sockets_ok_def)

lemma stream_okD:
  assumes "stream_ok e lossy s"
  shows "reachable e (st_world s)" "\<not> lossy \<Longrightarrow> st_listening s" "set (in_flight mid s) \<subseteq> set (log_at s mid)"
    "members_ok s" "i < length (st_sockets s) \<Longrightarrow>
      socket_ok lossy (log_at s (ss_match (st_sockets s ! i))) (in_flight (ss_match (st_sockets s ! i)) s) (st_sockets s ! i)"
  using assms by (auto simp: stream_ok_def sockets_ok_def Let_def)

lemma in_flight_frame [simp]:
  "in_flight mid (s\<lparr>st_world := w\<rparr>) = in_flight mid s" "in_flight mid (s\<lparr>st_keys := k\<rparr>) = in_flight mid s"
  "in_flight mid (s\<lparr>st_pending := p\<rparr>) = in_flight mid s" "in_flight mid (s\<lparr>st_sockets := xs\<rparr>) = in_flight mid s"
  "in_flight mid (s\<lparr>st_subs := su\<rparr>) = in_flight mid s" "in_flight mid (s\<lparr>st_listening := b\<rparr>) = in_flight mid s"
  "in_flight mid (set_socket i x s) = in_flight mid s" "in_flight mid (hub_unsubscribe j i s) = in_flight mid s"
  "in_flight mid (hub_subscribe j i s) = in_flight mid s"
  by (simp_all add: in_flight_def)

lemma in_flight_publish [simp]: "in_flight mid (hub_publish m s) = in_flight mid s @ message_events mid m"
  by (simp add: in_flight_def hub_publish_def)

text \<open>One socket is changed; where it ends up closed it may have left its match.\<close>

definition touches :: "nat \<Rightarrow> stream_socket \<Rightarrow> stream_site \<Rightarrow> stream_site \<Rightarrow> bool" where
  "touches i x s s' \<longleftrightarrow> st_world s' = st_world s \<and> st_fanout s' = st_fanout s \<and>
     st_listening s' = st_listening s \<and> st_sockets s' = (st_sockets s)[i := x] \<and>
     (\<forall>mid. subscribed mid s' = subscribed mid s \<or>
        \<not> (ss_open x \<and> served x) \<and> mid = ss_match x \<and> subscribed mid s' = filter (\<lambda>k. k \<noteq> i) (subscribed mid s))"

lemma touches_socket: "touches i x s (set_socket i x s)"
  by (simp add: touches_def)

lemma touches_trans:
  "touches i y s s' \<Longrightarrow> touches i x s' s'' \<Longrightarrow> ss_match x = ss_match y \<Longrightarrow>
   (ss_open x \<and> served x \<Longrightarrow> ss_open y \<and> served y) \<Longrightarrow> touches i x s s''"
proof -
  assume t: "touches i y s s'" "touches i x s' s''" and m: "ss_match x = ss_match y"
    and o: "ss_open x \<and> served x \<Longrightarrow> ss_open y \<and> served y"
  have "subscribed mid s'' = subscribed mid s \<or> \<not> (ss_open x \<and> served x) \<and> mid = ss_match x \<and>
      subscribed mid s'' = filter (\<lambda>k. k \<noteq> i) (subscribed mid s)" for mid
  proof -
    from t(2) have "subscribed mid s'' = subscribed mid s' \<or> \<not> (ss_open x \<and> served x) \<and> mid = ss_match x \<and>
        subscribed mid s'' = filter (\<lambda>k. k \<noteq> i) (subscribed mid s')" unfolding touches_def by blast
    moreover from t(1) m o have "subscribed mid s' = subscribed mid s \<or> \<not> (ss_open x \<and> served x) \<and> mid = ss_match x \<and>
        subscribed mid s' = filter (\<lambda>k. k \<noteq> i) (subscribed mid s)" unfolding touches_def by fastforce
    ultimately show ?thesis by (elim disjE conjE) simp_all
  qed
  with t show ?thesis by (simp add: touches_def)
qed

lemma members_touched:
  assumes ok: "members_ok s" and t: "touches i x s s'" and i: "i < length (st_sockets s)"
    and m: "ss_match x = ss_match (st_sockets s ! i)"
    and sv: "served x \<or> i \<notin> set (subscribed (ss_match x) s')"
    and op: "ss_open x \<and> served x \<longrightarrow> ss_open (st_sockets s ! i) \<and> served (st_sockets s ! i)"
  shows "members_ok s'"
proof -
  have x: "st_sockets s' = (st_sockets s)[i := x]" using t by (simp add: touches_def)
  have sub: "subscribed mid s' = subscribed mid s \<or> \<not> (ss_open x \<and> served x) \<and> mid = ss_match x \<and>
      subscribed mid s' = filter (\<lambda>k. k \<noteq> i) (subscribed mid s)" for mid
    using t unfolding touches_def by blast
  have "distinct (subscribed mid s')" for mid
    using ok sub [of mid] by (auto simp: members_ok_def)
  moreover have "j < length (st_sockets s') \<and> ss_match (st_sockets s' ! j) = mid \<and> served (st_sockets s' ! j)"
    if j: "j \<in> set (subscribed mid s')" for j mid
  proof -
    have "j \<in> set (subscribed mid s)" using j sub [of mid] by auto
    with ok have "j < length (st_sockets s)" "ss_match (st_sockets s ! j) = mid" "served (st_sockets s ! j)"
      by (auto simp: members_ok_def)
    with j m sv x show ?thesis by (cases "i = j") (auto simp: nth_list_update)
  qed
  moreover have "j \<in> set (subscribed (ss_match (st_sockets s' ! j)) s')"
    if j: "j < length (st_sockets s')" "ss_open (st_sockets s' ! j) \<and> served (st_sockets s' ! j)" for j
  proof -
    have "j \<in> set (subscribed (ss_match (st_sockets s' ! j)) s)"
      using ok j m op x by (cases "j = i") (auto simp: members_ok_def)
    with j x sub [of "ss_match (st_sockets s' ! j)"] i show ?thesis by (cases "j = i") auto
  qed
  ultimately show ?thesis by (simp add: members_ok_def)
qed

lemma stream_touched:
  assumes ok: "stream_ok e lossy s" and t: "touches i x s s'" and i: "i < length (st_sockets s)"
    and "ss_match x = ss_match (st_sockets s ! i)"
    and "served x \<or> i \<notin> set (subscribed (ss_match x) s')"
    and "ss_open x \<and> served x \<longrightarrow> ss_open (st_sockets s ! i) \<and> served (st_sockets s ! i)"
    and x: "socket_ok lossy (log_at s (ss_match x)) (in_flight (ss_match x) s) x"
  shows "stream_ok e lossy s'"
proof (rule stream_okI)
  have eq: "st_world s' = st_world s" "st_listening s' = st_listening s" "st_sockets s' = (st_sockets s)[i := x]"
    "in_flight mid s' = in_flight mid s" for mid
    using t by (simp_all add: touches_def in_flight_def)
  show "reachable e (st_world s')" "\<not> lossy \<Longrightarrow> st_listening s'"
    "set (in_flight mid s') \<subseteq> set (log_at s' mid)" for mid
    using stream_okD(1-3) [OF ok] by (simp_all add: eq)
  show "members_ok s'"
    using members_touched [OF stream_okD(4) [OF ok] t i] assms(4-6) by blast
  fix j assume "j < length (st_sockets s')"
  then show "socket_ok lossy (log_at s' (ss_match (st_sockets s' ! j)))
      (in_flight (ss_match (st_sockets s' ! j)) s') (st_sockets s' ! j)"
    using stream_okD(5) [OF ok, of j] x i by (simp add: eq nth_list_update)
qed

subsection \<open>A message reaches the subscribers\<close>

lemma touches_write:
  "touches i (wrote (slow i (length (ss_written (st_sockets s ! i)))) f (st_sockets s ! i)) s (socket_write slow i f s)"
proof -
  have "socket_write slow i f s = set_socket i (st_sockets s ! i) s" if "\<not> ss_open (st_sockets s ! i)"
    using that by (simp add: socket_write_def set_socket_def)
  then show ?thesis
    by (auto simp: touches_def socket_write_def wrote_def Let_def subscribed_unsubscribe)
qed

lemma touches_send:
  "touches i (sent (slow i (length (ss_written (st_sockets s ! i)))) f (st_sockets s ! i)) s (socket_send slow i f s)"
proof -
  have "touches i (st_sockets s ! i) s s" by (simp add: touches_def)
  then show ?thesis
    by (simp add: socket_send_def sent_def Let_def touches_write touches_socket)
qed

lemma subscribed_touched:
  assumes "touches i x s s'"
  shows "set (subscribed mid s') \<subseteq> set (subscribed mid s)" "distinct (subscribed mid s) \<Longrightarrow> distinct (subscribed mid s')"
    "j \<in> set (subscribed mid s) \<Longrightarrow> j \<noteq> i \<or> ss_open x \<and> served x \<Longrightarrow> j \<in> set (subscribed mid s')"
proof -
  have sub: "subscribed mid s' = subscribed mid s \<or> \<not> (ss_open x \<and> served x) \<and>
      subscribed mid s' = filter (\<lambda>k. k \<noteq> i) (subscribed mid s)"
    using assms unfolding touches_def by blast
  then show "set (subscribed mid s') \<subseteq> set (subscribed mid s)" by auto
  show "distinct (subscribed mid s')" if "distinct (subscribed mid s)" using that sub by auto
  show "j \<in> set (subscribed mid s')" if "j \<in> set (subscribed mid s)" "j \<noteq> i \<or> ss_open x \<and> served x"
    using that sub by auto
qed

lemma fold_send:
  assumes "distinct is" and "\<forall>i \<in> set is. i < length (st_sockets s)"
  shows "let s' = fold (\<lambda>i. socket_send slow i f) is s in
    st_world s' = st_world s \<and> st_fanout s' = st_fanout s \<and> st_listening s' = st_listening s \<and>
    length (st_sockets s') = length (st_sockets s) \<and>
    (\<forall>j < length (st_sockets s). st_sockets s' ! j = (if j \<in> set is
       then sent (slow j (length (ss_written (st_sockets s ! j)))) f (st_sockets s ! j) else st_sockets s ! j)) \<and>
    (\<forall>mid. set (subscribed mid s') \<subseteq> set (subscribed mid s) \<and> (distinct (subscribed mid s) \<longrightarrow> distinct (subscribed mid s')) \<and>
      (\<forall>j \<in> set (subscribed mid s). j < length (st_sockets s) \<longrightarrow>
         ss_open (st_sockets s' ! j) \<and> served (st_sockets s' ! j) \<longrightarrow> j \<in> set (subscribed mid s')))"
  using assms
proof (induction "is" arbitrary: s)
  case (Cons i "is")
  let ?x = "sent (slow i (length (ss_written (st_sockets s ! i)))) f (st_sockets s ! i)"
  let ?t = "socket_send slow i f s"
  have t: "touches i ?x s ?t" by (rule touches_send)
  then have eq: "st_world ?t = st_world s" "st_fanout ?t = st_fanout s" "st_listening ?t = st_listening s"
    "st_sockets ?t = (st_sockets s)[i := ?x]" by (simp_all add: touches_def)
  let ?u = "fold (\<lambda>i. socket_send slow i f) is ?t"
  have IH: "st_world ?u = st_world s" "st_fanout ?u = st_fanout s" "st_listening ?u = st_listening s"
    "length (st_sockets ?u) = length (st_sockets s)"
    "\<And>j. j < length (st_sockets s) \<Longrightarrow> st_sockets ?u ! j = (if j \<in> set is
       then sent (slow j (length (ss_written (st_sockets ?t ! j)))) f (st_sockets ?t ! j) else st_sockets ?t ! j)"
    "\<And>mid. set (subscribed mid ?u) \<subseteq> set (subscribed mid ?t)"
    "\<And>mid. distinct (subscribed mid ?t) \<Longrightarrow> distinct (subscribed mid ?u)"
    "\<And>mid j. j \<in> set (subscribed mid ?t) \<Longrightarrow> j < length (st_sockets s) \<Longrightarrow>
       ss_open (st_sockets ?u ! j) \<and> served (st_sockets ?u ! j) \<Longrightarrow> j \<in> set (subscribed mid ?u)"
    using Cons.IH [of ?t] Cons.prems by (simp_all add: Let_def eq)
  have at: "st_sockets ?u ! j = (if j \<in> set (i # is)
       then sent (slow j (length (ss_written (st_sockets s ! j)))) f (st_sockets s ! j) else st_sockets s ! j)"
    if "j < length (st_sockets s)" for j
    using IH(5) [OF that] Cons.prems that by (auto simp: eq nth_list_update)
  have sub: "set (subscribed mid ?u) \<subseteq> set (subscribed mid s)"
    "distinct (subscribed mid s) \<Longrightarrow> distinct (subscribed mid ?u)" for mid
    using IH(6,7) subscribed_touched(1,2) [OF t] by blast+
  have stay: "j \<in> set (subscribed mid ?u)"
    if "j \<in> set (subscribed mid s)" "j < length (st_sockets s)" "ss_open (st_sockets ?u ! j) \<and> served (st_sockets ?u ! j)" for j mid
  proof (rule IH(8) [OF _ that(2,3)])
    show "j \<in> set (subscribed mid ?t)"
    proof (rule subscribed_touched(3) [OF t that(1)])
      show "j \<noteq> i \<or> ss_open ?x \<and> served ?x" using at [OF that(2)] that(3) by (cases "j = i") auto
    qed
  qed
  show ?case using IH(1-4) at sub stay by (simp add: Let_def)
qed simp

lemma nth_updated: "j < length xs \<Longrightarrow> xs[i := x] ! j = (if i = j then x else xs ! j)"
  by (auto simp: nth_list_update)

lemma fold_close:
  "let s' = fold (\<lambda>i s. set_socket i (close_ws code (st_sockets s ! i)) s) is s in
    st_world s' = st_world s \<and> st_fanout s' = st_fanout s \<and> st_listening s' = st_listening s \<and> st_subs s' = st_subs s \<and>
    st_pending s' = st_pending s \<and> length (st_sockets s') = length (st_sockets s) \<and>
    (\<forall>j < length (st_sockets s). st_sockets s' ! j =
       (if j \<in> set is then close_ws code (st_sockets s ! j) else st_sockets s ! j))"
proof (induction "is" arbitrary: s)
  case (Cons i "is")
  have "close_ws code (close_ws code x) = close_ws code x" for x by (simp add: close_ws_def)
  with Cons [of "set_socket i (close_ws code (st_sockets s ! i)) s"] show ?case
    by (auto simp: Let_def nth_updated)
qed simp

lemma members_left:
  assumes ok: "members_ok s" and ln: "length (st_sockets s') = length (st_sockets s)"
    and x: "\<And>i. i < length (st_sockets s) \<Longrightarrow> ss_match (st_sockets s' ! i) = ss_match (st_sockets s ! i) \<and>
      served (st_sockets s' ! i) = served (st_sockets s ! i) \<and> (ss_open (st_sockets s' ! i) \<longrightarrow> ss_open (st_sockets s ! i))"
    and sub: "\<And>mid. distinct (subscribed mid s') \<and> set (subscribed mid s') \<subseteq> set (subscribed mid s)"
    and stay: "\<And>mid i. i \<in> set (subscribed mid s) \<Longrightarrow> i < length (st_sockets s) \<Longrightarrow>
      ss_open (st_sockets s' ! i) \<Longrightarrow> served (st_sockets s' ! i) \<Longrightarrow> i \<in> set (subscribed mid s')"
  shows "members_ok s'"
  unfolding members_ok_def
proof (intro conjI allI ballI impI)
  fix mid show "distinct (subscribed mid s')" using sub by blast
  fix i assume "i \<in> set (subscribed mid s')"
  then have "i \<in> set (subscribed mid s)" using sub by blast
  with ok have i: "i < length (st_sockets s)" "ss_match (st_sockets s ! i) = mid" "served (st_sockets s ! i)"
    by (auto simp: members_ok_def)
  with x [OF i(1)] ln show "i < length (st_sockets s')" "ss_match (st_sockets s' ! i) = mid" "served (st_sockets s' ! i)"
    by simp_all
next
  fix i assume "i < length (st_sockets s')" and o: "ss_open (st_sockets s' ! i) \<and> served (st_sockets s' ! i)"
  with ln have i: "i < length (st_sockets s)" by simp
  with ok x [OF i] o have "i \<in> set (subscribed (ss_match (st_sockets s' ! i)) s)" by (simp add: members_ok_def)
  with stay i o show "i \<in> set (subscribed (ss_match (st_sockets s' ! i)) s')" by blast
qed

lemma popped:
  "st_fanout s = m # ms \<Longrightarrow> in_flight mid s = message_events mid m @ in_flight mid (s\<lparr>st_fanout := ms\<rparr>)"
  by (simp add: in_flight_def)

lemma members_popped [simp]: "members_ok (s\<lparr>st_fanout := ms\<rparr>) = members_ok s"
  by (simp add: members_ok_def)

lemma deliver_frame_ok:
  assumes ok: "stream_ok e lossy s" and f: "st_fanout s = Hub_frame mid f # ms" and "st_listening s"
  shows "stream_ok e lossy (deliver slow (Hub_frame mid f) (s\<lparr>st_fanout := ms\<rparr>))"
proof (rule stream_okI)
  let ?s = "s\<lparr>st_fanout := ms\<rparr>" and ?is = "subscribed mid s"
  let ?u = "fold (\<lambda>i. socket_send slow i f) ?is ?s"
  have m: "members_ok s" by (rule stream_okD(4) [OF ok])
  then have "distinct ?is" "\<forall>i \<in> set ?is. i < length (st_sockets ?s)" by (auto simp: members_ok_def)
  note u = fold_send [OF this, of slow f, unfolded Let_def]
  have eq: "deliver slow (Hub_frame mid f) ?s = ?u" using assms(3) by (simp add: deliver_def)
  have fl: "in_flight j ?u = in_flight j ?s" for j using u by (simp add: in_flight_def)
  have wd: "st_world ?u = st_world s" using u by simp
  have sk: "st_sockets ?u ! j = (if j \<in> set ?is
      then sent (slow j (length (ss_written (st_sockets s ! j)))) f (st_sockets s ! j) else st_sockets s ! j)"
    if "j < length (st_sockets s)" for j using u that by simp
  have ln: "length (st_sockets ?u) = length (st_sockets s)" using u by simp
  show "reachable e (st_world (deliver slow (Hub_frame mid f) ?s))"
    using stream_okD(1) [OF ok] by (simp add: eq wd)
  show "st_listening (deliver slow (Hub_frame mid f) ?s)" using u assms(3) by (simp add: eq)
  have flight: "set (in_flight j s) \<subseteq> set (log_at s j)" for j by (rule stream_okD(3) [OF ok])
  then show "set (in_flight j (deliver slow (Hub_frame mid f) ?s)) \<subseteq> set (log_at (deliver slow (Hub_frame mid f) ?s) j)" for j
    using popped [OF f, of j] flight [of j] by (simp add: eq wd fl split: if_splits)
  have "ss_open (sent b f x) \<longrightarrow> ss_open x" "served (sent b f x) = served x" for b x
    by (auto simp: sent_def wrote_def served_def)
  then show "members_ok (deliver slow (Hub_frame mid f) ?s)"
    unfolding eq using u m by (intro members_left [OF m ln]) (simp_all add: sk members_ok_def)
  fix i assume "i < length (st_sockets (deliver slow (Hub_frame mid f) ?s))"
  then have i: "i < length (st_sockets s)" by (simp add: eq ln)
  let ?x = "st_sockets s ! i"
  have x: "socket_ok lossy (log_at s (ss_match ?x)) (message_events (ss_match ?x) (Hub_frame mid f) @ in_flight (ss_match ?x) ?s) ?x"
    using stream_okD(5) [OF ok i] popped [OF f, of "ss_match ?x"] by simp
  show "socket_ok lossy (log_at (deliver slow (Hub_frame mid f) ?s) (ss_match (st_sockets (deliver slow (Hub_frame mid f) ?s) ! i)))
      (in_flight (ss_match (st_sockets (deliver slow (Hub_frame mid f) ?s) ! i)) (deliver slow (Hub_frame mid f) ?s))
      (st_sockets (deliver slow (Hub_frame mid f) ?s) ! i)"
  proof (cases "i \<in> set ?is")
    case True
    with m have "ss_match ?x = mid" "served ?x" by (auto simp: members_ok_def)
    moreover have "set (frame_event f) \<subseteq> set (log_at s mid)" using flight [of mid] popped [OF f, of mid] by simp
    ultimately show ?thesis using x True i by (simp add: eq wd fl sk socket_sent)
  next
    case False
    show ?thesis
    proof (cases "ss_match ?x = mid")
      case True
      with False m i have "\<not> (ss_open ?x \<and> served ?x)" by (auto simp: members_ok_def)
      from socket_off [OF x this] False i show ?thesis by (simp add: eq wd fl sk)
    next
      case other: False
      with x False i show ?thesis by (simp add: eq wd fl sk)
    qed
  qed
qed

text \<open>Sockets that are closed and leave; \<open>ss'\<close> is the site after.\<close>

lemma closing_ok:
  assumes ok: "stream_ok e lossy s" and w: "st_world s' = st_world s" and fl: "\<And>mid. in_flight mid s' = in_flight mid s"
    and li: "\<not> lossy \<Longrightarrow> st_listening s'"
    and ln: "length (st_sockets s') = length (st_sockets s)"
    and sk: "\<And>j. j < length (st_sockets s) \<Longrightarrow>
      st_sockets s' ! j = (if j \<in> gone then close_ws code (st_sockets s ! j) else st_sockets s ! j)"
    and sub: "\<And>mid. subscribed mid s' = subscribed mid s \<or> subscribed mid s' = [] \<and> set (subscribed mid s) \<subseteq> gone"
  shows "stream_ok e lossy s'"
proof (rule stream_okI)
  show "reachable e (st_world s')" "\<not> lossy \<Longrightarrow> st_listening s'"
    "set (in_flight mid s') \<subseteq> set (log_at s' mid)" for mid
    using stream_okD(1,3) [OF ok] li by (simp_all add: w fl)
  have m: "members_ok s" by (rule stream_okD(4) [OF ok])
  have sub': "distinct (subscribed mid s') \<and> set (subscribed mid s') \<subseteq> set (subscribed mid s)" for mid
    using m sub [of mid] by (auto simp: members_ok_def)
  have "i \<in> set (subscribed mid s) \<Longrightarrow> i \<notin> gone \<Longrightarrow> i \<in> set (subscribed mid s')" for i mid
    using sub [of mid] by auto
  then show "members_ok s'"
    by (intro members_left [OF m ln _ sub']) (auto simp: sk served_def split: if_splits)
  fix i assume "i < length (st_sockets s')"
  then show "socket_ok lossy (log_at s' (ss_match (st_sockets s' ! i)))
      (in_flight (ss_match (st_sockets s' ! i)) s') (st_sockets s' ! i)"
    using stream_okD(5) [OF ok, of i] by (auto simp: sk w fl ln intro: socket_closed)
qed

end
