(* ===== verification/Stream_Steps.thy ===== *)
theory Stream_Steps
  imports Stream_Laws
begin

text \<open>Every step of the stream keeps \<open>stream_ok\<close>, and so every site that can be reached has it.\<close>

subsection \<open>The greeting\<close>

lemma set_socket_at [simp]: "i < length (st_sockets s) \<Longrightarrow> st_sockets (set_socket i x s) ! i = x"
  by simp

lemma touches_length: "touches i x s s' \<Longrightarrow> length (st_sockets s') = length (st_sockets s)"
  by (simp add: touches_def)

lemma touches_at: "touches i x s s' \<Longrightarrow> i < length (st_sockets s) \<Longrightarrow> st_sockets s' ! i = x"
  by (simp add: touches_def)

lemma greeted_closed: "greeted_ok lossy n log owed x \<Longrightarrow> greeted_ok lossy n log owed (close_ws c x)"
  by (auto simp: greeted_ok_def)

text \<open>What was held is written, in order, save what the greeting covers.\<close>

lemma flush_held:
  assumes "i < length (st_sockets s)" and "st_sockets s ! i = x" and "served x"
    and "greeted_ok lossy n log (frame_events held @ owed) x"
  shows "\<exists>y. touches i y s (fold (\<lambda>f s. if covered n f then s else socket_write slow i f s) held s) \<and>
    ss_match y = ss_match x \<and> ss_phase y = ss_phase x \<and> ss_greetedSeq y = ss_greetedSeq x \<and>
    (ss_open y \<longrightarrow> ss_open x) \<and> greeted_ok lossy n log owed y"
  using assms
proof (induction held arbitrary: s x)
  case Nil
  then show ?case by (intro exI [of _ x]) (auto simp: touches_def)
next
  case (Cons f held)
  show ?case
  proof (cases "covered n f")
    case True
    with Cons.prems have "greeted_ok lossy n log (frame_events held @ owed) x" by (auto intro: greeted_skipped)
    with Cons.IH [of s x] Cons.prems True show ?thesis by simp
  next
    case False
    let ?x = "wrote (slow i (length (ss_written x))) f x" and ?t = "socket_write slow i f s"
    have t: "touches i ?x s ?t" using touches_write [of i slow s f] Cons.prems(2) by simp
    have "greeted_ok lossy n log (frame_events held @ owed) ?x"
      using Cons.prems(4) False by (simp add: greeted_wrote)
    moreover have "served ?x" using Cons.prems(3) by (simp add: served_def)
    ultimately obtain y where y: "touches i y ?t (fold (\<lambda>f s. if covered n f then s else socket_write slow i f s) held ?t)"
      "ss_match y = ss_match ?x" "ss_phase y = ss_phase ?x" "ss_greetedSeq y = ss_greetedSeq ?x"
      "ss_open y \<longrightarrow> ss_open ?x" "greeted_ok lossy n log owed y"
      using Cons.IH [of ?t ?x] touches_length [OF t] touches_at [OF t] Cons.prems(1) by auto
    have "touches i y s (fold (\<lambda>f s. if covered n f then s else socket_write slow i f s) held ?t)"
      using y(5) \<open>served ?x\<close> by (intro touches_trans [OF t y(1) y(2)]) simp
    with y False show ?thesis by auto
  qed
qed

lemma touches_leave:
  "touches i y s s' \<Longrightarrow> i < length (st_sockets s) \<Longrightarrow> \<not> (ss_open z \<and> served z) \<Longrightarrow> ss_match z = ss_match y \<Longrightarrow>
   touches i z s (set_socket i z (hub_unsubscribe (ss_match z) i s'))"
  by (rule touches_trans [of i y s s' z]) (auto simp: touches_def subscribed_unsubscribe)

lemma greet_ok:
  assumes ok: "stream_ok e lossy s" and i: "i < length (st_sockets s)"
  shows "stream_ok e lossy (stream_greet slow i s)"
proof (cases "ss_phase (st_sockets s ! i)")
  case (Reading found)
  let ?x = "st_sockets s ! i"
  note x = stream_okD(5) [OF ok i]
  show ?thesis
  proof (cases found)
    case None
    let ?y = "(close_ws Code_not_found ?x)\<lparr>ss_phase := Refused\<rparr>"
    have g: "stream_greet slow i s = set_socket i ?y (hub_unsubscribe (ss_match ?y) i s)"
      using Reading None by (simp add: stream_greet_def Let_def)
    have "touches i ?x s s" by (auto simp: touches_def)
    then have "touches i ?y s (stream_greet slow i s)"
      unfolding g by (rule touches_leave) (use i in \<open>simp_all add: served_def\<close>)
    then show ?thesis
      by (rule stream_touched [OF ok _ i])
        (use x Reading None in \<open>simp_all add: g subscribed_unsubscribe served_def socket_ok_def\<close>)
  next
    case (Some row)
    let ?n = "m_seq row" and ?log = "log_at s (ss_match ?x)" and ?owed = "in_flight (ss_match ?x) s"
    let ?x1 = "wrote (slow i (length (ss_written ?x))) (Hello (m_id row) (m_seq row) (m_state row)) ?x"
    let ?s1 = "socket_write slow i (Hello (m_id row) (m_seq row) (m_state row)) s"
    let ?x2 = "?x1\<lparr>ss_phase := Greeted, ss_greetedSeq := ?n, ss_held := []\<rparr>"
    let ?s2 = "set_socket i ?x2 ?s1"
    let ?s3 = "fold (\<lambda>f s. if covered ?n f then s else socket_write slow i f s) (ss_held ?x) ?s2"
    have t1: "touches i ?x1 s ?s1" by (rule touches_write)
    have t2: "touches i ?x2 s ?s2"
      using Reading by (intro touches_trans [OF t1 touches_socket]) (simp_all add: served_def)
    have x': "ss_written ?x = []" "m_id row = ss_match ?x"
      "ss_open ?x \<Longrightarrow> covers lossy (after_seq ?n (frame_events (ss_held ?x) @ ?owed)) (after_seq ?n ?log)"
      using x Reading Some by (simp_all add: socket_ok_def)
    have start: "covers lossy [] (after_seq ?n (take 0 ?log))" by simp
    have "\<exists>k \<le> length ?log. covers lossy [] (after_seq ?n (take k ?log))" using start by blast
    with x' have "greeted_ok lossy ?n ?log (frame_events (ss_held ?x) @ ?owed) ?x2"
      by (auto simp: greeted_ok_def wrote_def)
    from flush_held [of i ?s2 ?x2, OF _ _ _ this]
    obtain y where y: "touches i y ?s2 ?s3" "ss_match y = ss_match ?x" "ss_phase y = Greeted" "ss_greetedSeq y = ?n"
      "ss_open y \<longrightarrow> ss_open ?x2" "greeted_ok lossy ?n ?log ?owed y"
      using touches_length [OF t1] i by (auto simp: served_def)
    have sv: "served ?x2" "served ?x" using Reading by (simp_all add: served_def)
    have t3: "touches i y s ?s3"
      using y sv by (intro touches_trans [OF t2 y(1)]) simp_all
    have s3: "stream_ok e lossy ?s3"
      by (rule stream_touched [OF ok t3 i]) (use y sv in \<open>simp_all add: served_def socket_ok_def\<close>)
    have s3': "length (st_sockets ?s3) = length (st_sockets s)" "st_sockets ?s3 ! i = y"
      using touches_length [OF t3] touches_at [OF t3 i] by simp_all
    show ?thesis
    proof (cases "isTerminalMatchState (m_state row)")
      case False
      then have "stream_greet slow i s = ?s3"
        using Reading Some touches_at [OF t1 i] by (simp add: stream_greet_def Let_def)
      with s3 show ?thesis by simp
    next
      case True
      let ?z = "close_ws Code_match_ended y"
      have g: "stream_greet slow i s = set_socket i ?z (hub_unsubscribe (ss_match ?z) i ?s3)"
        using Reading Some touches_at [OF t1 i] True s3' y(2) by (simp add: stream_greet_def Let_def)
      have "touches i ?z s (stream_greet slow i s)"
        unfolding g by (rule touches_leave [OF t3 i]) simp_all
      then show ?thesis
        by (rule stream_touched [OF ok _ i]) (use y in \<open>simp_all add: served_def socket_ok_def greeted_closed\<close>)
    qed
  qed
qed (simp_all add: stream_greet_def ok)

subsection \<open>The other steps of a socket\<close>

lemma read_ok:
  assumes ok: "stream_ok e lossy s" and i: "i < length (st_sockets s)" and w: "ss_phase (st_sockets s ! i) = Waiting"
  shows "stream_ok e lossy (stream_read i s)"
proof -
  let ?x = "st_sockets s ! i"
  let ?y = "?x\<lparr>ss_phase := Reading (findMatch (ss_match ?x) (w_store (st_world s)))\<rparr>"
  have x: "ss_written ?x = []" "set (frame_events (ss_held ?x)) \<subseteq> set (log_at s (ss_match ?x))"
    using stream_okD(5) [OF ok i] w by (simp_all add: socket_ok_def)
  have y: "socket_ok lossy (log_at s (ss_match ?y)) (in_flight (ss_match ?y) s) ?y"
  proof (cases "findMatch (ss_match ?x) (w_store (st_world s))")
    case None
    with x show ?thesis by (simp add: socket_ok_def)
  next
    case (Some row)
    have "log_numbered (w_store (st_world s))"
      using numbering.reachable_keeps(1) [OF _ stream_okD(1) [OF ok]] by (simp add: log_numbered_def)
    with Some have "map e_seq (log_at s (ss_match ?x)) = [1..<Suc (m_seq row)]" by (simp add: log_numbered_def)
    then have "e_seq ` set (log_at s (ss_match ?x)) = set [1..<Suc (m_seq row)]" by (metis set_map)
    then have "ev \<in> set (log_at s (ss_match ?x)) \<Longrightarrow> e_seq ev \<in> set [1..<Suc (m_seq row)]" for ev by blast
    then have "ev \<in> set (log_at s (ss_match ?x)) \<Longrightarrow> e_seq ev \<le> m_seq row" for ev
      by (metis atLeastLessThan_iff less_Suc_eq_le set_upt)
    with x(2) stream_okD(3) [OF ok, of "ss_match ?x"]
    have "after_seq (m_seq row) (log_at s (ss_match ?x)) = []" "after_seq (m_seq row) (frame_events (ss_held ?x)) = []"
      "after_seq (m_seq row) (in_flight (ss_match ?x) s) = []"
      by (blast intro: after_seq_none)+
    with Some x findMatch_id [OF Some] show ?thesis by (simp add: socket_ok_def)
  qed
  have t: "touches i ?y s (stream_read i s)" by (simp add: stream_read_def Let_def touches_socket)
  show ?thesis
    by (rule stream_touched [OF ok t i _ _ _ y]) (use w in \<open>simp_all add: served_def\<close>)
qed

lemma not_served_not_subscribed: "members_ok s \<Longrightarrow> \<not> served (st_sockets s ! i) \<Longrightarrow> i \<notin> set (subscribed mid s)"
  by (auto simp: members_ok_def)

lemma gone_ok:
  assumes ok: "stream_ok e lossy s" and i: "i < length (st_sockets s)"
  shows "stream_ok e lossy (stream_gone i s)"
proof -
  let ?x = "st_sockets s ! i"
  let ?y = "?x\<lparr>ss_open := False\<rparr>"
  have y: "socket_ok lossy (log_at s (ss_match ?y)) (in_flight (ss_match ?y) s) ?y"
    using stream_okD(5) [OF ok i]
    by (auto simp: socket_ok_def greeted_ok_def split: socket_phase.splits option.splits)
  have t: "touches i ?y s (stream_gone i s)"
    by (auto simp: touches_def stream_gone_def Let_def subscribed_unsubscribe)
  have sv: "served ?y \<or> i \<notin> set (subscribed (ss_match ?y) (stream_gone i s))"
  proof (cases "served ?x")
    case False
    then show ?thesis
      using not_served_not_subscribed [OF stream_okD(4) [OF ok]] subscribed_touched(1) [OF t] by blast
  qed (simp add: served_def)
  show ?thesis by (rule stream_touched [OF ok t i _ sv _ y]) simp_all
qed

lemma stream_keys: "stream_ok e lossy s \<Longrightarrow> stream_ok e lossy (s\<lparr>st_keys := k\<rparr>)"
  by (simp add: stream_ok_def members_ok_def sockets_ok_def)

lemma refused_ok:
  assumes ok: "stream_ok e lossy s" and i: "i < length (st_sockets s)" and a: "ss_phase (st_sockets s ! i) = Arriving"
  shows "stream_ok e lossy (set_socket i ((close_ws code (st_sockets s ! i))\<lparr>ss_phase := Refused\<rparr>) s)"
proof (rule stream_touched [OF ok touches_socket i])
  show "socket_ok lossy (log_at s (ss_match ((close_ws code (st_sockets s ! i))\<lparr>ss_phase := Refused\<rparr>)))
      (in_flight (ss_match ((close_ws code (st_sockets s ! i))\<lparr>ss_phase := Refused\<rparr>)) s)
      ((close_ws code (st_sockets s ! i))\<lparr>ss_phase := Refused\<rparr>)"
    using stream_okD(5) [OF ok i] a by (simp add: socket_ok_def)
qed (use not_served_not_subscribed [OF stream_okD(4) [OF ok]] a in \<open>auto simp: served_def\<close>)

lemma subscribed_ok:
  assumes ok: "stream_ok e lossy s" and i: "i < length (st_sockets s)" and a: "ss_phase (st_sockets s ! i) = Arriving"
  defines "x \<equiv> st_sockets s ! i"
  shows "stream_ok e lossy (hub_subscribe (ss_match x) i (set_socket i (x\<lparr>ss_phase := Waiting\<rparr>) s))"
    (is "stream_ok e lossy ?t")
proof (rule stream_okI)
  have w: "ss_written x = []" "ss_held x = []"
    using stream_okD(5) [OF ok i] a by (simp_all add: socket_ok_def x_def)
  have m: "members_ok s" by (rule stream_okD(4) [OF ok])
  have out: "i \<notin> set (subscribed mid s)" for mid
    using not_served_not_subscribed [OF m] a by (simp add: served_def)
  show "reachable e (st_world ?t)" "\<not> lossy \<Longrightarrow> st_listening ?t" "set (in_flight mid ?t) \<subseteq> set (log_at ?t mid)" for mid
    using stream_okD(1-3) [OF ok] by (simp_all add: hub_subscribe_def)
  have sub: "subscribed mid ?t = (if mid = ss_match x then subscribed mid s @ [i] else subscribed mid s)" for mid
    using out by (simp add: subscribed_subscribe)
  let ?y = "x\<lparr>ss_phase := Waiting\<rparr>"
  have at: "st_sockets ?t ! j = (if j = i then ?y else st_sockets s ! j)" for j using i by simp
  show "members_ok ?t"
    unfolding members_ok_def
  proof (intro conjI allI ballI impI)
    fix mid show "distinct (subscribed mid ?t)" using m out by (auto simp: sub members_ok_def)
    fix j assume "j \<in> set (subscribed mid ?t)"
    then have "j = i \<and> mid = ss_match x \<or> j \<in> set (subscribed mid s)" by (auto simp: sub split: if_splits)
    with m i out have "j < length (st_sockets s) \<and> (if j = i then mid = ss_match x
        else ss_match (st_sockets s ! j) = mid \<and> served (st_sockets s ! j))"
      by (auto simp: members_ok_def)
    then show "j < length (st_sockets ?t)" "ss_match (st_sockets ?t ! j) = mid" "served (st_sockets ?t ! j)"
      by (auto simp: at served_def split: if_splits)
  next
    fix j assume j: "j < length (st_sockets ?t)" "ss_open (st_sockets ?t ! j) \<and> served (st_sockets ?t ! j)"
    show "j \<in> set (subscribed (ss_match (st_sockets ?t ! j)) ?t)"
    proof (cases "j = i")
      case True
      then show ?thesis using i by (simp add: sub)
    next
      case False
      with m j have "j \<in> set (subscribed (ss_match (st_sockets s ! j)) s)" by (simp add: members_ok_def)
      with False show ?thesis by (auto simp: at sub)
    qed
  qed
  fix j assume "j < length (st_sockets ?t)"
  with stream_okD(5) [OF ok, of j] w i
  show "socket_ok lossy (log_at ?t (ss_match (st_sockets ?t ! j))) (in_flight (ss_match (st_sockets ?t ! j)) ?t) (st_sockets ?t ! j)"
    by (auto simp: nth_list_update socket_ok_def)
qed

lemma admit_ok:
  assumes ok: "stream_ok e lossy s" and i: "i < length (st_sockets s)" and a: "ss_phase (st_sockets s ! i) = Arriving"
  shows "stream_ok e lossy (stream_admit ke draining i q s)"
proof -
  obtain verdict k where r: "resolve_stream ke (w_now (st_world s)) (ss_match (st_sockets s ! i)) q
      (w_store (st_world s)) (st_keys s) = (verdict, k)" by (rule prod.exhaust)
  let ?s = "s\<lparr>st_keys := k\<rparr>"
  have k: "stream_ok e lossy ?s" "i < length (st_sockets ?s)" "ss_phase (st_sockets ?s ! i) = Arriving"
    using stream_keys [OF ok] i a by simp_all
  have "stream_ok e lossy (set_socket i ((close_ws code (st_sockets s ! i))\<lparr>ss_phase := Refused\<rparr>) ?s)" for code
    using refused_ok [OF k] by simp
  moreover have "stream_ok e lossy (hub_subscribe (ss_match (st_sockets s ! i)) i
      (set_socket i ((st_sockets s ! i)\<lparr>ss_phase := Waiting\<rparr>) ?s))"
    using subscribed_ok [OF k] by simp
  ultimately show ?thesis
    using refused_ok [OF ok i a] r by (simp add: stream_admit_def Let_def split: option.split)
qed

lemma connect_ok:
  assumes ok: "stream_ok e lossy s"
  shows "stream_ok e lossy (stream_connect mid s)"
proof (rule stream_okI)
  show "reachable e (st_world (stream_connect mid s))" "\<not> lossy \<Longrightarrow> st_listening (stream_connect mid s)"
    "set (in_flight j (stream_connect mid s)) \<subseteq> set (log_at (stream_connect mid s) j)" for j
    using stream_okD(1-3) [OF ok] by (simp_all add: stream_connect_def)
  show "members_ok (stream_connect mid s)"
    using stream_okD(4) [OF ok]
    by (auto simp: members_ok_def stream_connect_def nth_append new_socket_def served_def less_Suc_eq)
  fix i assume "i < length (st_sockets (stream_connect mid s))"
  with stream_okD(5) [OF ok, of i] show "socket_ok lossy (log_at (stream_connect mid s) (ss_match (st_sockets (stream_connect mid s) ! i)))
      (in_flight (ss_match (st_sockets (stream_connect mid s) ! i)) (stream_connect mid s)) (st_sockets (stream_connect mid s) ! i)"
    by (auto simp: stream_connect_def nth_append new_socket_def socket_ok_def less_Suc_eq)
qed

subsection \<open>The hub\<close>

lemma flush_frame [simp]:
  "st_world (flushTicks mid s) = st_world s" "st_sockets (flushTicks mid s) = st_sockets s"
  "st_listening (flushTicks mid s) = st_listening s" "st_subs (flushTicks mid s) = st_subs s"
  "st_keys (flushTicks mid s) = st_keys s"
  "in_flight j (flushTicks mid s) = in_flight j s"
  by (simp_all add: flushTicks_def hub_publish_def Let_def in_flight_def split: option.split)

lemma hear_frame [simp]:
  "st_world (hear eff s) = st_world s" "st_sockets (hear eff s) = st_sockets s"
  "st_listening (hear eff s) = st_listening s" "st_subs (hear eff s) = st_subs s"
  "st_keys (hear eff s) = st_keys s"
  by (simp_all add: hear_def hub_publish_def hub_tick_def closeMatch_def Let_def split: effect.split)

definition events_to :: "ident \<Rightarrow> (ident \<times> event_row) list \<Rightarrow> event_row list" where
  "events_to mid ts = map snd (filter (\<lambda>t. fst t = mid) ts)"

lemma in_flight_hear: "in_flight mid (hear eff s) = in_flight mid s @ events_to mid (event_frame eff)"
proof (cases eff)
  case (Eff_frame j f)
  then show ?thesis by (cases f) (simp_all add: hear_def events_to_def)
qed (simp_all add: hear_def events_to_def hub_tick_def closeMatch_def Let_def)

lemma fold_hear:
  "st_world (fold hear effs s) = st_world s \<and> st_sockets (fold hear effs s) = st_sockets s \<and>
   st_listening (fold hear effs s) = st_listening s \<and> st_subs (fold hear effs s) = st_subs s \<and>
   st_keys (fold hear effs s) = st_keys s \<and>
   in_flight mid (fold hear effs s) = in_flight mid s @ events_to mid (told_events effs)"
  by (induction effs arbitrary: s) (simp_all add: in_flight_hear events_to_def)

lemma reached_published: "reachable e w \<Longrightarrow> published w"
  by (rule publishing.reachable_keeps(1)) (rule initial_published)

text \<open>What a step of the machine adds to a match's log is what it tells the stream of that match.\<close>

lemma told_by_step:
  assumes "reachable e w"
  shows "log_of mid (w_store (after (operate e op) w)) =
    log_of mid (w_store w) @ events_to mid (told_events (new_effects w (after (operate e op) w)))"
proof -
  let ?w = "after (operate e op) w"
  obtain effs where t: "w_trace ?w = effs @ w_trace w" using reachable_later [OF assms] by blast
  then have new: "new_effects w ?w = rev effs" by (simp add: new_effects_def)
  have r: "reachable e ?w" using assms by (rule reachable_step)
  have "map (\<lambda>ev. (e_matchId ev, ev)) (events (w_store ?w)) =
      map (\<lambda>ev. (e_matchId ev, ev)) (events (w_store w)) @ told_events (rev effs)"
    using reached_published [OF assms] reached_published [OF r] t by (simp add: published_def)
  moreover have "log_of mid s = events_to mid (map (\<lambda>ev. (e_matchId ev, ev)) (events s))" for s
    by (simp add: log_of_def events_to_def filter_map comp_def)
  ultimately show ?thesis by (simp add: new events_to_def)
qed

lemma machine_ok:
  assumes ok: "stream_ok e lossy s"
  shows "stream_ok e lossy (stream_machine e op s)"
proof (rule stream_okI)
  let ?w = "after (operate e op) (st_world s)" and ?t = "stream_machine e op s"
  note r = stream_okD(1) [OF ok]
  have eq: "st_world ?t = ?w" "st_sockets ?t = st_sockets s" "st_listening ?t = st_listening s" "st_subs ?t = st_subs s"
    using fold_hear [of "new_effects (st_world s) ?w" "s\<lparr>st_world := ?w\<rparr>"] by (simp_all add: stream_machine_def Let_def)
  have fl: "in_flight mid ?t = in_flight mid s @ events_to mid (told_events (new_effects (st_world s) ?w))" for mid
    using fold_hear [of "new_effects (st_world s) ?w" "s\<lparr>st_world := ?w\<rparr>"] by (simp add: stream_machine_def Let_def)
  show "reachable e (st_world ?t)" using r by (simp add: eq reachable_step)
  show "\<not> lossy \<Longrightarrow> st_listening ?t" using stream_okD(2) [OF ok] by (simp add: eq)
  show "set (in_flight mid ?t) \<subseteq> set (log_at ?t mid)" for mid
    using stream_okD(3) [OF ok, of mid] by (auto simp: eq fl told_by_step [OF r])
  show "members_ok ?t"
    using stream_okD(4) [OF ok] by (simp add: members_ok_def eq subscribed_def)
  fix i assume "i < length (st_sockets ?t)"
  with stream_okD(5) [OF ok, of i]
  show "socket_ok lossy (log_at ?t (ss_match (st_sockets ?t ! i))) (in_flight (ss_match (st_sockets ?t ! i)) ?t) (st_sockets ?t ! i)"
    by (simp add: eq fl told_by_step [OF r] socket_more)
qed

lemma subseq_flight: "subseq (in_flight mid (s\<lparr>st_fanout := ms @ ms'\<rparr>)) (in_flight mid (s\<lparr>st_fanout := ms @ m # ms'\<rparr>))"
proof -
  have "subseq ([] @ xs) (ys @ xs)" for xs ys :: "event_row list" by (simp only: subseq_append) simp
  then show ?thesis by (simp add: in_flight_def subseq_append')
qed

lemma lost_ok:
  assumes ok: "stream_ok e True s" and f: "st_fanout s = ms @ m # ms'"
  shows "stream_ok e True (s\<lparr>st_fanout := ms @ ms'\<rparr>)"
proof (rule stream_okI)
  let ?t = "s\<lparr>st_fanout := ms @ ms'\<rparr>"
  have sub: "subseq (in_flight mid ?t) (in_flight mid s)" for mid
    using subseq_flight [where ms = ms and m = m and ms' = ms' and s = s] f by (simp add: in_flight_def)
  show "reachable e (st_world ?t)" "\<not> True \<Longrightarrow> st_listening ?t" using stream_okD(1) [OF ok] by simp_all
  have "set (in_flight mid ?t) \<subseteq> set (in_flight mid s)" for mid
    using subseq_order.trans [OF _ sub] by (auto simp flip: subseq_singleton_left)
  then show "set (in_flight mid ?t) \<subseteq> set (log_at ?t mid)" for mid
    using stream_okD(3) [OF ok, of mid] by fastforce
  show "members_ok ?t" using stream_okD(4) [OF ok] by simp
  fix i assume "i < length (st_sockets ?t)"
  with stream_okD(5) [OF ok, of i] sub
  show "socket_ok True (log_at ?t (ss_match (st_sockets ?t ! i))) (in_flight (ss_match (st_sockets ?t ! i)) ?t) (st_sockets ?t ! i)"
    by (auto intro: socket_lost)
qed

lemma deliver_ok:
  assumes ok: "stream_ok e lossy s" and f: "st_fanout s = m # ms"
  shows "stream_ok e lossy (deliver slow m (s\<lparr>st_fanout := ms\<rparr>))"
proof (cases "st_listening s")
  case False
  with stream_okD(2) [OF ok] have lossy by blast
  then show ?thesis using lost_ok [of e s "[]" m ms] ok f False by (simp add: deliver_def)
next
  case True
  show ?thesis
  proof (cases m)
    case (Hub_frame mid fr)
    with deliver_frame_ok [OF ok _ True] f show ?thesis by simp
  next
    case (Hub_close mid code)
    let ?s = "s\<lparr>st_fanout := ms, st_subs := map_delete mid (st_subs s)\<rparr>"
    let ?t = "fold (\<lambda>i s. set_socket i (close_ws code (st_sockets s ! i)) s) (subscribed mid s) ?s"
    note t = fold_close [of code "subscribed mid s" ?s, unfolded Let_def]
    have "deliver slow m (s\<lparr>st_fanout := ms\<rparr>) = ?t" using True Hub_close by (simp add: deliver_def)
    moreover have "stream_ok e lossy ?t"
    proof (rule closing_ok [OF ok])
      show "in_flight j ?t = in_flight j s" for j
        using t popped [OF f, of j] Hub_close by (simp add: in_flight_def)
      show "st_sockets ?t ! j = (if j \<in> set (subscribed mid s) then close_ws code (st_sockets s ! j) else st_sockets s ! j)"
        if "j < length (st_sockets s)" for j using t that by simp
      show "subscribed j ?t = subscribed j s \<or> subscribed j ?t = [] \<and> set (subscribed j s) \<subseteq> set (subscribed mid s)" for j
        using t by (simp add: subscribed_def)
    qed (use t stream_okD(2) [OF ok] in simp_all)
    ultimately show ?thesis by simp
  qed
qed

lemma drained_ok:
  assumes ok: "stream_ok e True s"
  shows "stream_ok e True (hub_close s)"
proof (rule closing_ok [OF ok])
  let ?s = "s\<lparr>st_pending := [], st_listening := False, st_subs := []\<rparr>"
  note t = fold_close [of Code_going_away "concat (map snd (st_subs s))" ?s, unfolded Let_def, folded hub_close_def]
  show "st_world (hub_close s) = st_world s" "length (st_sockets (hub_close s)) = length (st_sockets s)"
    using t by simp_all
  show "in_flight mid (hub_close s) = in_flight mid s" for mid using t by (simp add: in_flight_def)
  show "st_sockets (hub_close s) ! j = (if j \<in> set (concat (map snd (st_subs s)))
      then close_ws Code_going_away (st_sockets s ! j) else st_sockets s ! j)" if "j < length (st_sockets s)" for j
    using t that by simp
  have "set (subscribed mid s) \<subseteq> set (concat (map snd (st_subs s)))" for mid
    by (auto simp: subscribed_def split: option.splits) (metis map_of_SomeD snd_conv)
  moreover have "subscribed mid (hub_close s) = []" for mid using t by (simp add: subscribed_def)
  ultimately show "subscribed mid (hub_close s) = subscribed mid s \<or>
      subscribed mid (hub_close s) = [] \<and> set (subscribed mid s) \<subseteq> set (concat (map snd (st_subs s)))" for mid
    by blast
qed simp

theorem stream_invariant: "stream_reach e ke lossy s \<Longrightarrow> stream_ok e lossy s"
proof (induction rule: stream_reach.induct)
  case (start d reg t k)
  have "reachable e (initial_world d reg t)" by (rule reachable_init)
  then show ?case
    by (auto simp: stream_ok_def initial_stream_def in_flight_def members_ok_def sockets_ok_def subscribed_def)
next
  case (flush s mid)
  have "stream_ok e lossy (flushTicks mid s)"
    by (rule closing_ok [OF flush.IH, where gone = "{}"]) (use stream_okD(2) [OF flush.IH] in \<open>simp_all add: subscribed_def\<close>)
  then show ?case .
qed (auto intro: machine_ok stream_keys deliver_ok lost_ok connect_ok admit_ok read_ok greet_ok gone_ok drained_ok)

subsection \<open>The size of a batch\<close>

definition frame_sized :: "stream_frame \<Rightarrow> bool" where
  "frame_sized f = (case f of Ticks ticks \<Rightarrow> 0 < length ticks \<and> length ticks \<le> STREAM_TICK_BATCH_MAX | _ \<Rightarrow> True)"

definition message_sized :: "hub_message \<Rightarrow> bool" where
  "message_sized m = (case m of Hub_frame _ f \<Rightarrow> frame_sized f | _ \<Rightarrow> True)"

definition socket_sized :: "stream_socket \<Rightarrow> bool" where
  "socket_sized x \<longleftrightarrow> list_all frame_sized (ss_held x) \<and> list_all frame_sized (ss_written x)"

text \<open>A batch that waits is neither empty nor full.\<close>

definition ticks_ok :: "stream_site \<Rightarrow> bool" where
  "ticks_ok s \<longleftrightarrow> (\<forall>p \<in> set (st_pending s). 0 < length (snd p) \<and> length (snd p) < STREAM_TICK_BATCH_MAX) \<and>
     list_all message_sized (st_fanout s) \<and> list_all socket_sized (st_sockets s)"

lemma sized_frames [simp]:
  "frame_sized (Told f)" "frame_sized (Hello mid n st)" "message_sized (Hub_close mid code)"
  "message_sized (Hub_frame mid g) = frame_sized g"
  by (simp_all add: frame_sized_def message_sized_def)

lemma ticks_socket: "ticks_ok s \<Longrightarrow> (i < length (st_sockets s) \<Longrightarrow> socket_sized x) \<Longrightarrow> ticks_ok (set_socket i x s)"
  by (cases "i < length (st_sockets s)") (auto simp: ticks_ok_def list_all_iff list_update_beyond dest: set_update_subset_insert [THEN subsetD])

lemma ticks_at: "ticks_ok s \<Longrightarrow> i < length (st_sockets s) \<Longrightarrow> socket_sized (st_sockets s ! i)"
  by (simp add: ticks_ok_def list_all_length)

lemma ticks_frame [simp]:
  "ticks_ok (hub_unsubscribe mid i s) = ticks_ok s" "ticks_ok (hub_subscribe mid i s) = ticks_ok s"
  "ticks_ok (s\<lparr>st_world := w\<rparr>) = ticks_ok s" "ticks_ok (s\<lparr>st_keys := k\<rparr>) = ticks_ok s"
  by (simp_all add: ticks_ok_def)

lemma socket_sized_close [simp]: "socket_sized (close_ws c x) = socket_sized x"
  by (simp add: socket_sized_def)

lemma ticks_publish: "ticks_ok s \<Longrightarrow> message_sized m \<Longrightarrow> ticks_ok (hub_publish m s)"
  by (simp add: ticks_ok_def hub_publish_def)

lemma ticks_flush:
  assumes "\<forall>p \<in> set (st_pending s). 0 < length (snd p) \<and> (length (snd p) < STREAM_TICK_BATCH_MAX \<or>
      fst p = mid \<and> length (snd p) \<le> STREAM_TICK_BATCH_MAX)"
    and "list_all message_sized (st_fanout s)" and "list_all socket_sized (st_sockets s)"
    and "map_of (st_pending s) mid \<noteq> None"
  shows "ticks_ok (flushTicks mid s)"
proof -
  obtain ticks where t: "map_of (st_pending s) mid = Some ticks" using assms(4) by auto
  then have "0 < length ticks \<and> length ticks \<le> STREAM_TICK_BATCH_MAX"
    using assms(1) by (fastforce dest: map_of_SomeD)
  with assms t show ?thesis
    by (auto simp: ticks_ok_def flushTicks_def Let_def hub_publish_def frame_sized_def map_delete_def)
qed

lemma ticks_flushed: "ticks_ok s \<Longrightarrow> ticks_ok (flushTicks mid s)"
  using ticks_flush [of s mid]
  by (cases "map_of (st_pending s) mid") (auto simp: ticks_ok_def flushTicks_def)

lemma ticks_tick: "ticks_ok s \<Longrightarrow> ticks_ok (hub_tick mid tick s)"
proof -
  assume s: "ticks_ok s"
  define batch where "batch = (case map_of (st_pending s) mid of None \<Rightarrow> [] | Some ticks \<Rightarrow> ticks) @ [tick]"
  let ?t = "s\<lparr>st_pending := map_set mid batch (st_pending s)\<rparr>"
  have tick: "hub_tick mid tick s = (if length batch \<ge> STREAM_TICK_BATCH_MAX then flushTicks mid ?t else ?t)"
    by (simp add: hub_tick_def Let_def batch_def)
  have b: "0 < length batch" "length batch \<le> STREAM_TICK_BATCH_MAX"
    using s by (auto simp: batch_def ticks_ok_def STREAM_TICK_BATCH_MAX_def split: option.split dest!: map_of_SomeD)
  have p: "p = (mid, batch) \<or> p \<in> set (st_pending s)" if "p \<in> set (st_pending ?t)" for p
    using set_map_set [of mid batch "st_pending s"] that by auto
  have sizes: "0 < length (snd q) \<and> (length (snd q) < STREAM_TICK_BATCH_MAX \<or> q = (mid, batch))"
    if "q \<in> set (st_pending ?t)" for q
    using p [OF that] s b by (elim disjE) (simp_all add: ticks_ok_def)
  show ?thesis
  proof (cases "length batch \<ge> STREAM_TICK_BATCH_MAX")
    case True
    have "ticks_ok (flushTicks mid ?t)"
      by (rule ticks_flush) (use s sizes b in \<open>fastforce simp: ticks_ok_def\<close>)+
    with True show ?thesis by (simp add: tick)
  next
    case False
    with sizes have "\<forall>q \<in> set (st_pending ?t). 0 < length (snd q) \<and> length (snd q) < STREAM_TICK_BATCH_MAX"
      by fastforce
    with s False show ?thesis by (simp add: tick ticks_ok_def)
  qed
qed

lemma ticks_hear: "ticks_ok s \<Longrightarrow> ticks_ok (hear eff s)"
  by (cases eff) (simp_all add: hear_def ticks_publish ticks_tick closeMatch_def ticks_flushed)

lemma ticks_fold: "(\<And>x s. ticks_ok s \<Longrightarrow> ticks_ok (f x s)) \<Longrightarrow> ticks_ok s \<Longrightarrow> ticks_ok (fold f xs s)"
  by (induction xs arbitrary: s) simp_all

lemma ticks_write: "ticks_ok s \<Longrightarrow> frame_sized f \<Longrightarrow> ticks_ok (socket_write slow i f s)"
  by (auto simp: socket_write_def Let_def socket_sized_def intro!: ticks_socket dest: ticks_at)

lemma ticks_send: "ticks_ok s \<Longrightarrow> frame_sized f \<Longrightarrow> ticks_ok (socket_send slow i f s)"
  by (auto simp: socket_send_def Let_def ticks_write socket_sized_def intro!: ticks_socket dest: ticks_at)

lemma ticks_close: "ticks_ok s \<Longrightarrow> ticks_ok (set_socket i (close_ws code (st_sockets s ! i)) s)"
  by (rule ticks_socket) (auto intro: ticks_at)

lemma ticks_deliver: "ticks_ok s \<Longrightarrow> message_sized m \<Longrightarrow> ticks_ok (deliver slow m s)"
proof (cases m)
  case (Hub_frame mid f)
  assume "ticks_ok s" "message_sized m"
  with Hub_frame show ?thesis by (auto simp: deliver_def intro: ticks_fold ticks_send)
next
  case (Hub_close mid code)
  assume "ticks_ok s"
  then have "ticks_ok (s\<lparr>st_subs := map_delete mid (st_subs s)\<rparr>)" by (simp add: ticks_ok_def)
  with Hub_close \<open>ticks_ok s\<close> show ?thesis by (auto simp: deliver_def intro: ticks_fold ticks_close)
qed

lemma ticks_held:
  "list_all frame_sized held \<Longrightarrow> ticks_ok s \<Longrightarrow>
   ticks_ok (fold (\<lambda>f s. if covered n f then s else socket_write slow i f s) held s)"
  by (induction held arbitrary: s) (simp_all add: ticks_write)

lemma ticks_greet: "ticks_ok s \<Longrightarrow> i < length (st_sockets s) \<Longrightarrow> ticks_ok (stream_greet slow i s)"
proof (cases "ss_phase (st_sockets s ! i)")
  case (Reading found)
  assume s: "ticks_ok s" and i: "i < length (st_sockets s)"
  show ?thesis
  proof (cases found)
    case None
    with Reading s i ticks_at [OF s i] show ?thesis
      by (auto simp: stream_greet_def Let_def socket_sized_def intro!: ticks_socket)
  next
    case (Some row)
    let ?s1 = "socket_write slow i (Hello (m_id row) (m_seq row) (m_state row)) s"
    let ?y = "st_sockets ?s1 ! i"
    let ?s2 = "set_socket i (?y\<lparr>ss_phase := Greeted, ss_greetedSeq := m_seq row, ss_held := []\<rparr>) ?s1"
    have s1: "ticks_ok ?s1" using s by (simp add: ticks_write)
    have "i < length (st_sockets ?s1)" using touches_length [OF touches_write] i by simp
    then have y: "socket_sized ?y" using ticks_at [OF s1] by simp
    then have "ticks_ok ?s2" using s1 by (intro ticks_socket) (simp_all add: socket_sized_def)
    then have s3: "ticks_ok (fold (\<lambda>f s. if covered (m_seq row) f then s else socket_write slow i f s) (ss_held ?y) ?s2)"
      using y by (intro ticks_held) (simp_all add: socket_sized_def)
    then have "ticks_ok (hub_unsubscribe (ss_match (st_sockets s ! i)) i
        (fold (\<lambda>f s. if covered (m_seq row) f then s else socket_write slow i f s) (ss_held ?y) ?s2))" by simp
    with ticks_close [OF this] s3 Reading Some show ?thesis by (simp add: stream_greet_def Let_def)
  qed
qed (simp_all add: stream_greet_def)

theorem stream_ticks: "stream_reach e ke lossy s \<Longrightarrow> ticks_ok s"
proof (induction rule: stream_reach.induct)
  case (start d reg t k) show ?case by (simp add: ticks_ok_def initial_stream_def)
next
  case (machine s op) then show ?case
    by (auto simp: stream_machine_def Let_def intro: ticks_fold ticks_hear)
next
  case (delivered s m ms slow)
  then have "ticks_ok (s\<lparr>st_fanout := ms\<rparr>)" "message_sized m" by (simp_all add: ticks_ok_def)
  then show ?case by (rule ticks_deliver)
next
  case (lost s ms m ms') then show ?case by (simp add: ticks_ok_def)
next
  case (connected s mid) then show ?case
    by (simp add: ticks_ok_def stream_connect_def new_socket_def socket_sized_def)
next
  case (admitted s i draining q) with ticks_at [OF admitted.IH admitted.hyps(2)] show ?case
    by (auto simp: stream_admit_def Let_def socket_sized_def split: prod.split option.split intro!: ticks_socket)
next
  case (read s i) with ticks_at [OF read.IH read.hyps(2)] show ?case
    by (auto simp: stream_read_def Let_def socket_sized_def intro!: ticks_socket)
next
  case (gone s i) with ticks_at [OF gone.IH gone.hyps(2)] show ?case
    by (auto simp: stream_gone_def Let_def socket_sized_def intro!: ticks_socket)
next
  case (drained s)
  then have "ticks_ok (s\<lparr>st_pending := [], st_listening := False, st_subs := []\<rparr>)" by (simp add: ticks_ok_def)
  then show ?case unfolding hub_close_def by (intro ticks_fold ticks_close)
qed (simp_all add: ticks_flushed ticks_greet)

end
