(* ===== verification/Stream_Properties.thy ===== *)
theory Stream_Properties
  imports Stream_Steps Machine_Behaviour
begin

text \<open>What the stream promises a client: the log from the cursor of its greeting, to those who may listen.\<close>

subsection \<open>A sample client\<close>

definition listener_env :: keys_env where
  "listener_env = \<lparr>kv_random = (\<lambda>_. ''s''), kv_uuid = (\<lambda>_. ''k''), kv_hash = (\<lambda>s. s), kv_url = (\<lambda>_. True)\<rparr>"

definition listener_row :: key_row where
  "listener_row = \<lparr>kr_key = \<lparr>apk_id = ''k'', apk_name = ''platform'', apk_prefix = ''ezik_s'', apk_scopes = [Scope_matches],
      apk_budget = \<lparr>bl_maxConcurrentServers = 2, bl_maxServerLifetimeMinutes = 60, bl_monthlyCents = 500\<rparr>,
      apk_webhookSecretIds = [], apk_fleetWebhook = None, apk_createdAt = 0, apk_lastUsedAt = None, apk_revokedAt = None\<rparr>,
    kr_secretHash = ''ezik_s'', kr_webhookSecrets = []\<rparr>"

definition listener_keys :: keys where
  "listener_keys = no_keys\<lparr>ks_table := \<lparr>kt_rows = [listener_row], kt_notices = []\<rparr>\<rparr>"

definition listener_request :: stream_request where
  "listener_request = \<lparr>sq_token = None, sq_authorization = Some ''Bearer ezik_s'', sq_origin = None\<rparr>"

text \<open>A socket connects, is judged, its match is read, it is greeted.\<close>

definition listens :: "keys_env \<Rightarrow> stream_request \<Rightarrow> ident \<Rightarrow> stream_site \<Rightarrow> stream_site" where
  "listens ke q mid s = (let i = length (st_sockets s); a = stream_admit ke False i q (stream_connect mid s) in
     if ss_phase (st_sockets a ! i) = Waiting then stream_greet (\<lambda>_ _. False) i (stream_read i a) else a)"

lemma reach_listens:
  assumes "stream_reach e ke lossy s"
  shows "stream_reach e ke lossy (listens ke q mid s)"
proof -
  let ?i = "length (st_sockets s)" and ?c = "stream_connect mid s"
  let ?a = "stream_admit ke False ?i q ?c"
  have c: "stream_reach e ke lossy ?c" "?i < length (st_sockets ?c)" "ss_phase (st_sockets ?c ! ?i) = Arriving"
    using assms by (simp_all add: stream_reach.connected) (simp_all add: stream_connect_def new_socket_def)
  have a: "stream_reach e ke lossy ?a" by (rule stream_reach.admitted [OF c])
  have l: "length (st_sockets ?a) = Suc ?i"
    by (simp add: stream_admit_def Let_def stream_connect_def split: prod.split option.split)
  have "stream_reach e ke lossy (stream_greet (\<lambda>_ _. False) ?i (stream_read ?i ?a))"
    if "ss_phase (st_sockets ?a ! ?i) = Waiting"
  proof (rule stream_reach.greeted)
    show "stream_reach e ke lossy (stream_read ?i ?a)" using a l that by (intro stream_reach.read) simp_all
    show "?i < length (st_sockets (stream_read ?i ?a))" using l by (simp add: stream_read_def Let_def)
  qed
  with a show ?thesis by (simp add: listens_def Let_def)
qed

lemma listener_let_in:
  assumes "findMatch mid s = Some row" and "m_keyId row = ''k''"
  shows "fst (resolve_stream listener_env at mid listener_request s listener_keys) = None"
proof -
  have "bearer (Some ''Bearer ezik_s'') = Some ''ezik_s''" by code_simp
  moreover have "looksLikeToken Tok_apiKey ''ezik_s''" by code_simp
  ultimately show ?thesis
    using assms by (simp add: resolve_stream_def listener_request_def authenticate_def listener_keys_def no_keys_def
      findBySecretHash_def listener_row_def listener_env_def view_row_def kr_id_def scopeAllows_def)
qed

definition sample_site :: stream_site where
  "sample_site = stream_machine sample_env (Op_create sample_caller sample_request)
     (initial_stream sample_start listener_keys)"

lemma sample_site_reach: "stream_reach sample_env listener_env lossy sample_site"
  unfolding sample_site_def sample_start_def by (intro stream_reach.machine stream_reach.start)

lemma sample_site_parts:
  "st_world sample_site = sample_after_create" "st_keys sample_site = listener_keys" "st_sockets sample_site = []"
proof -
  let ?s = "(initial_stream sample_start listener_keys)\<lparr>st_world := sample_after_create\<rparr>"
  have "sample_site = fold hear (new_effects sample_start sample_after_create) ?s"
    by (simp add: sample_site_def stream_machine_def Let_def initial_stream_def sample_after_create_def)
  with fold_hear [of "new_effects sample_start sample_after_create" ?s]
  show "st_world sample_site = sample_after_create" "st_keys sample_site = listener_keys" "st_sockets sample_site = []"
    by (simp_all add: initial_stream_def)
qed

text \<open>The client listens to the match that was made, and hears it from the start.\<close>

lemma sample_listener:
  "\<exists>mid. let s = listens listener_env listener_request mid sample_site in
    length (st_sockets s) = 1 \<and> ss_phase (st_sockets s ! 0) = Greeted \<and> ss_open (st_sockets s ! 0) \<and>
    ss_match (st_sockets s ! 0) = mid"
proof -
  obtain mid row where row: "findMatch mid (w_store sample_after_create) = Some row" "m_keyId row = ''k''" "m_state row = Pending"
    using sample_after_create by blast
  let ?c = "stream_connect mid sample_site"
  obtain k where v: "resolve_stream listener_env (w_now sample_after_create) mid listener_request
      (w_store sample_after_create) listener_keys = (None, k)"
    using listener_let_in [OF row(1,2)] by (metis prod.collapse)
  have c: "st_sockets ?c = [new_socket mid]" "st_world ?c = sample_after_create" "st_keys ?c = listener_keys"
    by (simp_all add: stream_connect_def sample_site_parts)
  let ?a = "stream_admit listener_env False 0 listener_request ?c"
  have a: "st_sockets ?a = [(new_socket mid)\<lparr>ss_phase := Waiting\<rparr>]" "st_world ?a = sample_after_create"
    using v by (simp_all add: stream_admit_def Let_def c new_socket_def)
  have "listens listener_env listener_request mid sample_site = stream_greet (\<lambda>_ _. False) 0 (stream_read 0 ?a)"
    using a by (simp add: listens_def Let_def sample_site_parts)
  moreover have "st_sockets (stream_greet (\<lambda>_ _. False) 0 (stream_read 0 ?a)) =
      [(new_socket mid)\<lparr>ss_phase := Greeted, ss_greetedSeq := m_seq row, ss_written := [Hello mid (m_seq row) Pending]\<rparr>]"
    using row a by (simp add: stream_greet_def stream_read_def Let_def socket_write_def new_socket_def findMatch_id)
  ultimately show ?thesis by (intro exI [of _ mid]) (simp add: Let_def new_socket_def)
qed

subsection \<open>The log from the cursor\<close>

text \<open>C22: a client misses nothing. Over a fan-out that loses nothing, in every interleaving of the machine's
  steps, deliveries, flushes, upgrades, full buffers and closes: a greeted socket that is still open has been
  written, in order, exactly the events of its match's log after the \<open>seq\<close> of its greeting, but for those of
  them that are on their way to it. None is skipped, none is repeated, none that the greeting covers is
  written, though the machine appends, publishes and the match is read at different moments.\<close>

theorem a_client_misses_nothing:
  assumes "stream_reach e ke False s" and "i < length (st_sockets s)"
    and "ss_phase (st_sockets s ! i) = Greeted" and "ss_open (st_sockets s ! i)"
  shows "(let x = st_sockets s ! i in
    frame_events (ss_written x) @ after_seq (ss_greetedSeq x) (in_flight (ss_match x) s) =
    after_seq (ss_greetedSeq x) (log_of (ss_match x) (w_store (st_world s))))"
  using stream_okD(5) [OF stream_invariant [OF assms(1)] assms(2)] assms(3,4)
  by (simp add: Let_def socket_ok_def greeted_ok_def covers_def)

theorem a_client_misses_nothing_witness:
  "\<exists>mid. let s = listens listener_env listener_request mid sample_site; x = st_sockets s ! 0 in
    frame_events (ss_written x) @ after_seq (ss_greetedSeq x) (in_flight (ss_match x) s) =
    after_seq (ss_greetedSeq x) (log_of (ss_match x) (w_store (st_world s)))"
proof -
  obtain mid where l: "length (st_sockets (listens listener_env listener_request mid sample_site)) = 1"
    "ss_phase (st_sockets (listens listener_env listener_request mid sample_site) ! 0) = Greeted"
    "ss_open (st_sockets (listens listener_env listener_request mid sample_site) ! 0)"
    using sample_listener by (auto simp: Let_def)
  from a_client_misses_nothing [OF reach_listens [OF sample_site_reach] _ l(2,3)] l(1)
  show ?thesis by (intro exI [of _ mid]) (simp add: Let_def)
qed

text \<open>C23: the greeting first, then the log. Whatever the fan-out loses, and whether the socket is open, closed for
  being slow, closed with its match or closed by the drain: what it was ever written is nothing, or its
  greeting and then frames whose events are taken from its own match's log after the greeting's \<open>seq\<close>, in the
  log's order and each at most once; where the fan-out loses nothing they are a stretch of it without a gap.\<close>

theorem the_greeting_and_then_the_log:
  assumes "stream_reach e ke lossy s" and "i < length (st_sockets s)"
  shows "ss_written (st_sockets s ! i) = [] \<or>
    (\<exists>st frames k. ss_written (st_sockets s ! i) =
       Hello (ss_match (st_sockets s ! i)) (ss_greetedSeq (st_sockets s ! i)) st # frames \<and>
     covers lossy (frame_events frames)
       (after_seq (ss_greetedSeq (st_sockets s ! i))
         (take k (log_of (ss_match (st_sockets s ! i)) (w_store (st_world s))))))"
proof (cases "ss_written (st_sockets s ! i)")
  case (Cons f frames)
  with stream_okD(5) [OF stream_invariant [OF assms(1)] assms(2)] show ?thesis
    by (auto simp: socket_ok_def greeted_ok_def split: socket_phase.splits option.splits)
qed simp

theorem the_greeting_and_then_the_log_witness:
  "\<exists>mid. let x = st_sockets (listens listener_env listener_request mid sample_site) ! 0 in
    ss_written x = [] \<or>
    (\<exists>st frames k. ss_written x = Hello (ss_match x) (ss_greetedSeq x) st # frames \<and>
       covers True (frame_events frames) (after_seq (ss_greetedSeq x)
         (take k (log_of (ss_match x) (w_store (st_world (listens listener_env listener_request mid sample_site)))))))"
proof -
  obtain mid where l: "length (st_sockets (listens listener_env listener_request mid sample_site)) = 1"
    using sample_listener by (auto simp: Let_def)
  then have "0 < length (st_sockets (listens listener_env listener_request mid sample_site))" by simp
  from the_greeting_and_then_the_log [OF reach_listens [OF sample_site_reach [of True]] this]
  show ?thesis by (intro exI [of _ mid]) (simp add: Let_def)
qed

text \<open>a tick frame always fits its schema. Every batch of position ticks that crosses the fan-out, waits
  for a greeting or was written to a socket holds between one and sixty-four ticks.\<close>

theorem a_tick_frame_fits:
  assumes "stream_reach e ke lossy s"
    and "Hub_frame mid (Ticks ticks) \<in> set (st_fanout s) \<or>
      (\<exists>x \<in> set (st_sockets s). Ticks ticks \<in> set (ss_held x) \<union> set (ss_written x))"
  shows "1 \<le> length ticks \<and> length ticks \<le> STREAM_TICK_BATCH_MAX"
proof -
  have "frame_sized (Ticks ticks)"
    using stream_ticks [OF assms(1)] assms(2)
    by (fastforce simp: ticks_ok_def list_all_iff socket_sized_def message_sized_def)
  then show ?thesis by (simp add: frame_sized_def Suc_le_eq)
qed

subsection \<open>Who is let in\<close>

text \<open>C24: the stream opens to the match's own only. A request is let in exactly when the match exists and either
  it carries a player token that is live, was minted for this match, and comes from no origin the match
  does not allow; or it carries no token and its bearer is the secret of a key that is not revoked, has the
  \<open>matches\<close> scope and owns the match.\<close>

theorem the_stream_opens_to_its_own:
  "fst (resolve_stream ke at mid q s k) = None \<longleftrightarrow>
    (\<exists>row. findMatch mid s = Some row \<and>
      (case sq_token q of
         Some token \<Rightarrow> looksLikeToken Tok_player token \<and>
           (\<exists>t. findPlayerTokenByHash (kv_hash ke token) s = Some t \<and> pt_revokedAt t = None \<and> at < pt_expiresAt t \<and>
             pt_matchId t = mid) \<and>
           (case (sq_origin q, cb_streamAllowedOrigins (mr_callbacks (m_request row))) of
              (Some origin, Some origins) \<Rightarrow> origin \<in> set origins | _ \<Rightarrow> True)
       | None \<Rightarrow> (\<exists>secret key. bearer (sq_authorization q) = Some secret \<and> looksLikeToken Tok_apiKey secret \<and>
           findBySecretHash (kv_hash ke secret) (ks_table k) = Some key \<and> apk_revokedAt (kr_key key) = None \<and>
           scopeAllows (apk_scopes (kr_key key)) Scope_matches \<and> m_keyId row = kr_id key)))"
proof (cases "sq_token q")
  case (Some token)
  then show ?thesis
    by (auto simp: resolve_stream_def not_le split: option.splits if_splits)
next
  case None
  have "looksLikeToken Tok_apiKey secret \<Longrightarrow> secret \<noteq> []" for secret by (auto simp: looksLikeToken_def)
  with None show ?thesis
    by (cases "bearer (sq_authorization q)") (auto simp: resolve_stream_def authenticate_def split: option.splits)
qed

subsection \<open>What the upgrade leaves behind\<close>

text \<open>A socket that closes while its request is judged has no close listener yet: it is subscribed after it
  closed, and what it never reads stays in the hub's table until its match closes.\<close>

theorem closed_before_it_subscribed:
  assumes "i < length (st_sockets s)" and "\<not> ss_open (st_sockets s ! i)"
    and "fst (resolve_stream ke (w_now (st_world s)) (ss_match (st_sockets s ! i)) q (w_store (st_world s)) (st_keys s)) = None"
  shows "i \<in> set (subscribed (ss_match (st_sockets s ! i)) (stream_admit ke False i q s)) \<and>
    \<not> ss_open (st_sockets (stream_admit ke False i q s) ! i)"
  using assms by (auto simp: stream_admit_def Let_def subscribed_subscribe split: prod.split)

text \<open>A match that ends between a socket's subscription and its greeting closes the socket with nothing
  written to it, neither the greeting nor the end: what was held is dropped.\<close>

theorem closed_before_its_greeting:
  assumes "stream_reach e ke lossy s" and "st_fanout s = Hub_close mid code # ms" and "st_listening s"
    and "i \<in> set (subscribed mid s)" and "ss_phase (st_sockets s ! i) \<noteq> Greeted"
  shows "ss_written (st_sockets (deliver slow (Hub_close mid code) (s\<lparr>st_fanout := ms\<rparr>)) ! i) = [] \<and>
    \<not> ss_open (st_sockets (deliver slow (Hub_close mid code) (s\<lparr>st_fanout := ms\<rparr>)) ! i)"
proof -
  note ok = stream_invariant [OF assms(1)]
  from stream_okD(4) [OF ok] assms(4) have i: "i < length (st_sockets s)" by (auto simp: members_ok_def)
  from stream_okD(5) [OF ok i] assms(5) have "ss_written (st_sockets s ! i) = []"
    by (auto simp: socket_ok_def split: socket_phase.splits option.splits)
  with fold_close [of code "subscribed mid s" "s\<lparr>st_fanout := ms, st_subs := map_delete mid (st_subs s)\<rparr>"] i assms(3,4)
  show ?thesis by (simp add: deliver_def Let_def)
qed

end
