(* ===== verification/Spec2Isabelle.thy ===== *)
theory Spec2Isabelle
  imports Machine_Properties Machine_Behaviour Machine_Walk Link_Properties Matchzy_Properties Budget
    Keys_Properties Gslt_Pool Reaper Courier Rcon Game_Properties Canary_Properties Stream_Properties
begin

text \<open>
  EZPUG Iron: the orchestrator of CS2 game servers (\<open>apps/orchestrator\<close>), the contract its clients
  speak (\<open>packages/match-api\<close>) and the simulator's catalog (\<open>packages/sim\<close>).

  A client asks for a match. The orchestrator picks a server from its providers, opens a ledger row
  for it, configures it, listens to what the server says, writes every fact to a durable log that a
  client reads by pages and receives by webhooks, restores a lost server from its round backups and
  ends the match on the game's word or on a deadline.

  \<^bold>\<open>Theories.\<close>

  \<^item> \<open>Prelude\<close>: the state monad's triples and their introduction rules, lists, decimals.
  \<^item> \<open>Scenario\<close> (\<open>packages/sim/src/scenario.ts\<close>), \<open>Match_Api\<close> (\<open>packages/match-api/src\<close>): the
    vocabulary and the rules a request is judged by.
  \<^item> \<open>Memory_Store\<close> (\<open>match/store.ts\<close>, \<open>match/memory-store.ts\<close>): the tables. \<open>Store_Laws\<close>: what
    the callers rely on, as the locales \<open>keyed_rows\<close>, \<open>paged_log\<close> and \<open>backup_book\<close>, interpreted on
    the tables.
  \<^item> \<open>Selection\<close> (\<open>providers/selection.ts\<close>, \<open>registry.ts\<close>, \<open>provider.ts\<close>): the ranked candidates.
  \<^item> \<open>Machine_World\<close>, \<open>Machine\<close>, \<open>Machine_Doors\<close> (\<open>match/machine.ts\<close>, \<open>match/views.ts\<close>,
    \<open>link/assign.ts\<close>): the match machine. The closure of \<open>createMatches\<close> is the record \<open>world\<close>; a
    step of a match's chain is a computation in the state monad over it; what leaves the process is
    the argument \<open>env\<close>, which answers from the trace of calls made so far, so nothing is assumed
    of a provider. \<open>reachable\<close> closes the initial world under the doors, the clock, a chain's next
    step, a timer firing, a drained provider and a restart.
  \<^item> \<open>Chain_Invariants\<close>: the locale \<open>chain_invariant\<close>, the obligations under which an invariant holds
    along every run; \<open>Chain_Handlers\<close>: every handler and door preserves it; \<open>Machine_Laws\<close>: its
    interpretations (numbered log, deadlines, ledger, deliveries, single end, history, commands).
  \<^item> \<open>Machine_Publishing\<close>: the events the machine tells the stream are the rows of its log, in order.
  \<^item> \<open>Stream\<close> (\<open>stream/hub.ts\<close>, \<open>stream/upgrade.ts\<close>): the hub and the sockets over the machine's world. The
    fan-out is a queue of messages delivered later, which also covers what is published between the awaits of
    a machine's step; \<open>stream_reach\<close> interleaves machine, flushes, deliveries and the three parts of an upgrade.
    \<open>Stream_Laws\<close>: what a socket was written, holds and is owed covers the log; \<open>Stream_Steps\<close>: every step
    keeps that; \<open>Stream_Properties\<close>.
  \<^item> \<open>Machine_Properties\<close>, \<open>Machine_Behaviour\<close>, \<open>Machine_Walk\<close>: the properties of the machine;
    \<open>Sample_Run\<close>: the concrete outside they are applied at.
  \<^item> \<open>Link\<close> (\<open>link/server-link.ts\<close>, \<open>link/channels.ts\<close>): the sockets servers dial, their sessions,
    the greeting, requests with their deadlines and the sequenced events, as a transition system over
    the machine's world (\<open>site_reachable\<close>). \<open>Link_Laws\<close>: the acks against a set of numbers, the
    invariant \<open>site_ok\<close> of sockets, sessions and requests, and every \<open>chain_invariant\<close> carried over to
    the site; \<open>Link_Properties\<close>: the properties, and where the link loses track of a socket.
  \<^item> \<open>Match_Config\<close> (\<open>match-config\<close>): the MatchZy and Get5 match files, cvars, the ready gate, the
    retakes file. SHA-256 is an argument.
  \<^item> \<open>Matchzy\<close> (\<open>matchzy/translate.ts\<close>): MatchZy's remote log to the vocabulary, payload by payload.
    \<open>Matchzy_Laws\<close>: well-formed facts, the ready gate read back from the log (\<open>read_log\<close>), rounds told
    once (\<open>recording\<close>). \<open>Matchzy_Door\<close> (\<open>matchzy/door.ts\<close>): the door over the machine's \<open>ingest\<close>;
    \<open>Matchzy_Properties\<close>.
  \<^item> \<open>Budget\<close> (\<open>budget/service.ts\<close>): the month, the meter, the wall and the warnings.
  \<^item> \<open>Keys\<close> (\<open>keys/service.ts\<close>, \<open>keys/memory-store.ts\<close>, \<open>keys/bootstrap.ts\<close>, \<open>tokens.ts\<close>): the API keys;
    randomness and SHA-256 are arguments. \<open>Keys_Laws\<close>: the locale \<open>rows_kept\<close> (an invariant under an
    appended and a changed row) with its interpretations, and \<open>access\<close> against the table \<open>told\<close> by the
    answers; \<open>Keys_Properties\<close>.
  \<^item> \<open>Gslt_Pool\<close> (\<open>gslt/pool.ts\<close>): the Steam login tokens leased to ledger rows, with the locale
    \<open>pool_invariant\<close>; Steam is an argument.
  \<^item> \<open>Reaper\<close> (\<open>providers/reaper.ts\<close>): one pass of the providers' lists against the ledger, over the
    machine's world and through its doors.
  \<^item> \<open>Webhooks\<close> (\<open>packages/match-api/src/webhooks\<close>): signature, verification, dedupe (locale
    \<open>seen_store\<close>), retry schedule. HMAC is an argument.
  \<^item> \<open>Courier\<close> (\<open>webhooks/worker.ts\<close>): the worker that posts, on the deliveries the machine queues.
    \<open>run_pass\<close> is a partial function; its termination is proved, and refuted for a key store that rejects.
  \<^item> \<open>Rcon\<close> (\<open>rcon/protocol.ts\<close>, \<open>rcon/client.ts\<close>): the frames on the wire and one command over one
    connection; what the peer does is a list of happenings.
  \<^item> \<open>Redact\<close> (\<open>log.ts\<close>, \<open>rcon/redact.ts\<close>): what is cut out of a log line and of a console line.
  \<^item> \<open>Game\<close> (\<open>game/feeds.ts\<close>, \<open>pins.ts\<close>, \<open>memory-store.ts\<close>, \<open>watcher.ts\<close>, \<open>reads.ts\<close>): the build of the
    game, one tick of its watcher and what clients read of it. \<open>Game_Laws\<close>: a tick as a sequence of writes
    (\<open>watch_write\<close>) that keep every verdict backed by a fact; \<open>Game_Properties\<close>: many ticks, and the build
    gone back to that is told at every tick.
  \<^item> \<open>Canary_Reason\<close>, \<open>Canary\<close> (\<open>game/canary.ts\<close>): the match played on a new build, runs as objects of a
    heap. \<open>Canary_Laws\<close>: one look as strides, and the invariant of runs, slots and facts;
    \<open>Canary_Properties\<close>: \<open>canary_reach\<close>, its interleaving with the watcher's writes, and the properties.

  \<^bold>\<open>Not modelled.\<close> The adapters of the providers and of Steam, PostgreSQL, HTTP routing and configuration
  are I/O around the interfaces modelled here. The node link, the simulator's story and
  server, and the fake and the client of \<open>match-api\<close> are left to do. The command line, the node agent, HUD and
  scripts are outside. Schemas (zod), SHA-256, HMAC and JSON are arguments, or their results are.
\<close>

end
